(* ===== verification/Kprelude.thy ===== *)
theory Kprelude
  imports Main "HOL-Library.Word"
begin

text \<open>
  Shared vocabulary of the development: the machine types of the arm64 kernel, C strings in
  fixed-size buffers, and the two list walks the code uses everywhere (overwrite the first
  matching node, unlink the first matching node), with the lemmas about them.
\<close>

unbundle bit_operations_syntax

named_theorems kdefs \<open>definitions of small helpers that proofs always unfold\<close>

subsection \<open>Machine types\<close>

type_synonym u8 = "8 word"
type_synonym u16 = "16 word"
type_synonym u32 = "32 word"
type_synonym u64 = "64 word"
type_synonym uid_t = "32 word"
type_synonym uaddr = "64 word"
type_synonym cbuf = "char list"

text \<open>
  \<open>int32_t\<close> fields keep their 32 bits as a \<open>u32\<close>; a signed comparison of the source is a
  comparison of \<open>sint\<close>. \<open>PAGE_SIZE\<close> is the 4K page of the target (arm64, Linux 4.19).
\<close>

definition PAGE_SIZE :: nat where
  "PAGE_SIZE = 4096"

subsection \<open>C strings\<close>

text \<open>
  A \<open>char\<close> array is the list of its characters. A C string function reads the buffer up to
  its first NUL, which is \<open>cstr\<close>; on a buffer with no NUL the source would read on past the
  array, and \<open>cstr\<close> stops at its end.
\<close>

abbreviation NUL :: char where
  "NUL \<equiv> CHR 0x00"

definition cstr :: "cbuf \<Rightarrow> string" where
  "cstr b = takeWhile (\<lambda>c. c \<noteq> NUL) b"

definition nul_terminated :: "cbuf \<Rightarrow> bool" where
  "nul_terminated b \<longleftrightarrow> NUL \<in> set b"

definition strcmp_eq :: "cbuf \<Rightarrow> cbuf \<Rightarrow> bool" where
  "strcmp_eq a b \<longleftrightarrow> cstr a = cstr b"

definition strncmp_eq :: "cbuf \<Rightarrow> cbuf \<Rightarrow> nat \<Rightarrow> bool" where
  "strncmp_eq a b n \<longleftrightarrow> take n (cstr a) = take n (cstr b)"

definition c_strlen :: "cbuf \<Rightarrow> nat" where
  "c_strlen b = length (cstr b)"

text \<open>\<open>strncpy(dst, src, n)\<close>: at most \<open>n\<close> characters, padded with NUL to \<open>n\<close>; the
  bytes of \<open>dst\<close> from \<open>n\<close> on keep their value.\<close>

definition c_strncpy :: "cbuf \<Rightarrow> cbuf \<Rightarrow> nat \<Rightarrow> cbuf" where
  "c_strncpy dst src n =
     (let s = take n (cstr src) in s @ replicate (n - length s) NUL @ drop n dst)"

definition c_strcpy :: "cbuf \<Rightarrow> cbuf \<Rightarrow> cbuf" where
  "c_strcpy dst src = cstr src @ [NUL] @ drop (Suc (length (cstr src))) dst"

fun c_strstr :: "string \<Rightarrow> string \<Rightarrow> bool" where
  "c_strstr [] n = (n = [])"
| "c_strstr (c # cs) n = (take (length n) (c # cs) = n \<or> c_strstr cs n)"

lemma cstr_Nil [simp]: "cstr [] = []"
  by (simp add: cstr_def)

lemma cstr_Cons [simp]: "cstr (c # cs) = (if c = NUL then [] else c # cstr cs)"
  by (simp add: cstr_def)

lemma NUL_notin_cstr [simp]: "NUL \<notin> set (cstr b)"
  by (auto simp: cstr_def dest: set_takeWhileD)

lemma cstr_idem [simp]: "cstr (cstr b) = cstr b"
  by (simp add: cstr_def)

lemma cstr_append_NUL: "NUL \<notin> set s \<Longrightarrow> cstr (s @ NUL # b) = s"
  by (induction s) auto

lemma cstr_replicate_NUL [simp]:
  "0 < n \<Longrightarrow> cstr (replicate n NUL @ b) = []" "cstr (replicate n NUL) = []"
  by (cases n; simp)+

lemma length_cstr_le: "length (cstr b) \<le> length b"
  by (simp add: cstr_def length_takeWhile_le)

lemma cstr_eq_self: "NUL \<notin> set s \<Longrightarrow> cstr s = s"
  by (induction s) auto

lemma cstr_drop: "n \<le> length (cstr s) \<Longrightarrow> cstr (drop n s) = drop n (cstr s)"
  by (induction s arbitrary: n) (auto simp: drop_Cons split: nat.splits if_splits)

lemma NUL_notin_take_cstr [simp]: "NUL \<notin> set (take n (cstr b))"
  using NUL_notin_cstr in_set_takeD by metis

lemma length_c_strncpy: "n \<le> length dst \<Longrightarrow> length (c_strncpy dst src n) = length dst"
  by (simp add: c_strncpy_def Let_def)

text \<open>A copy that leaves room for the terminator holds the source string.\<close>

lemma cstr_c_strncpy:
  assumes "length (cstr src) < n"
  shows "cstr (c_strncpy dst src n) = cstr src"
proof -
  obtain k where k: "n - length (cstr src) = Suc k"
    using assms by (cases "n - length (cstr src)") auto
  have "c_strncpy dst src n = cstr src @ NUL # (replicate k NUL @ drop n dst)"
    using assms by (simp add: c_strncpy_def Let_def k)
  then show ?thesis by (simp add: cstr_append_NUL)
qed

lemma c_strncpy_NUL:
  assumes "length (cstr src) < n"
  shows "NUL \<in> set (c_strncpy dst src n)"
  using assms by (simp add: c_strncpy_def Let_def)

lemma cstr_c_strncpy_NUL_rest:
  assumes "drop n dst \<noteq> []" and "hd (drop n dst) = NUL"
  shows "cstr (c_strncpy dst src n) = take n (cstr src)"
proof -
  let ?s = "take n (cstr src)"
  obtain r where r: "drop n dst = NUL # r"
    using assms by (cases "drop n dst") auto
  have "\<exists>b. replicate m NUL @ drop n dst = NUL # b" for m
    unfolding r by (cases m) simp_all
  then obtain b where "c_strncpy dst src n = ?s @ NUL # b"
    by (auto simp: c_strncpy_def Let_def)
  then show ?thesis by (simp add: cstr_append_NUL)
qed

lemma strcmp_eq_refl [simp]: "strcmp_eq a a"
  by (simp add: strcmp_eq_def)

lemma strcmp_eq_sym: "strcmp_eq a b \<longleftrightarrow> strcmp_eq b a"
  by (auto simp: strcmp_eq_def)

lemma c_strstr_infix: "c_strstr xs ys \<longleftrightarrow> (\<exists>as bs. xs = as @ ys @ bs)"
proof (induction xs)
  case (Cons x xs)
  have "take (length ys) (x # xs) = ys \<longleftrightarrow> (\<exists>bs. x # xs = ys @ bs)"
    by (metis append_eq_conv_conj append_take_drop_id)
  moreover have "(\<exists>as bs. x # xs = as @ ys @ bs) \<longleftrightarrow>
      (\<exists>bs. x # xs = ys @ bs) \<or> (\<exists>as bs. xs = as @ ys @ bs)"
  proof
    assume "\<exists>as bs. x # xs = as @ ys @ bs"
    then obtain as bs where s: "x # xs = as @ ys @ bs" by blast
    then show "(\<exists>bs. x # xs = ys @ bs) \<or> (\<exists>as bs. xs = as @ ys @ bs)"
      by (cases as) (force, force)
  qed (metis append_Cons append_Nil)
  ultimately show ?case using Cons by simp
qed simp

subsection \<open>List walks\<close>

text \<open>The kernel's \<open>list_for_each\<close> loops that stop at the first node satisfying a test:
  overwrite that node (\<open>update_first\<close>) or unlink it (\<open>remove_first\<close>); \<open>None\<close> when no
  node matches.\<close>

fun update_first :: "('a \<Rightarrow> bool) \<Rightarrow> 'a \<Rightarrow> 'a list \<Rightarrow> 'a list option" where
  "update_first P y [] = None"
| "update_first P y (x # xs) =
     (if P x then Some (y # xs) else map_option ((#) x) (update_first P y xs))"

fun remove_first :: "('a \<Rightarrow> bool) \<Rightarrow> 'a list \<Rightarrow> 'a list option" where
  "remove_first P [] = None"
| "remove_first P (x # xs) =
     (if P x then Some xs else map_option ((#) x) (remove_first P xs))"

lemma update_first_None_iff: "update_first P y xs = None \<longleftrightarrow> (\<forall>x \<in> set xs. \<not> P x)"
  by (induction xs) auto

lemma remove_first_None_iff: "remove_first P xs = None \<longleftrightarrow> (\<forall>x \<in> set xs. \<not> P x)"
  by (induction xs) auto

lemma update_first_split:
  "update_first P y xs = Some ys \<Longrightarrow>
     \<exists>as x bs. xs = as @ x # bs \<and> ys = as @ y # bs \<and> P x \<and> (\<forall>a \<in> set as. \<not> P a)"
proof (induction xs arbitrary: ys)
  case (Cons x xs)
  show ?case
  proof (cases "P x")
    case True
    with Cons.prems show ?thesis
      by (intro exI [of _ "[]"] exI [of _ x] exI [of _ xs]) simp
  next
    case False
    with Cons.prems obtain zs where zs: "update_first P y xs = Some zs" "ys = x # zs"
      by auto
    from Cons.IH [OF zs(1)] obtain as w bs where
      "xs = as @ w # bs" "zs = as @ y # bs" "P w" "\<forall>a \<in> set as. \<not> P a" by blast
    with False zs show ?thesis
      by (intro exI [of _ "x # as"] exI [of _ w] exI [of _ bs]) simp
  qed
qed simp

lemma remove_first_split:
  "remove_first P xs = Some ys \<Longrightarrow>
     \<exists>as x bs. xs = as @ x # bs \<and> ys = as @ bs \<and> P x \<and> (\<forall>a \<in> set as. \<not> P a)"
proof (induction xs arbitrary: ys)
  case (Cons x xs)
  show ?case
  proof (cases "P x")
    case True
    with Cons.prems show ?thesis
      by (intro exI [of _ "[]"] exI [of _ x] exI [of _ xs]) simp
  next
    case False
    with Cons.prems obtain zs where zs: "remove_first P xs = Some zs" "ys = x # zs"
      by auto
    from Cons.IH [OF zs(1)] obtain as w bs where
      "xs = as @ w # bs" "zs = as @ bs" "P w" "\<forall>a \<in> set as. \<not> P a" by blast
    with False zs show ?thesis
      by (intro exI [of _ "x # as"] exI [of _ w] exI [of _ bs]) simp
  qed
qed simp

lemma update_first_length: "update_first P y xs = Some ys \<Longrightarrow> length ys = length xs"
  by (auto dest!: update_first_split)

lemma remove_first_length: "remove_first P xs = Some ys \<Longrightarrow> length xs = Suc (length ys)"
  by (auto dest!: remove_first_split)

lemma remove_first_subset: "remove_first P xs = Some ys \<Longrightarrow> set ys \<subseteq> set xs"
  by (auto dest!: remove_first_split)

lemma update_first_mem: "update_first P y xs = Some ys \<Longrightarrow> y \<in> set ys"
  by (auto dest!: update_first_split)

lemma update_first_set: "update_first P y xs = Some ys \<Longrightarrow> set ys \<subseteq> insert y (set xs)"
  by (auto dest!: update_first_split)

text \<open>Overwriting a node by one with the same key keeps the keys, hence their distinctness.\<close>

lemma update_first_map_key:
  assumes "update_first P y xs = Some ys" and "\<And>x. P x \<Longrightarrow> f x = f y"
  shows "map f ys = map f xs"
  using assms by (auto dest!: update_first_split)

lemma remove_first_distinct:
  "remove_first P xs = Some ys \<Longrightarrow> distinct (map f xs) \<Longrightarrow> distinct (map f ys)"
  by (auto dest!: remove_first_split)

text \<open>Where the test singles out a key that occurs once, unlinking the first match unlinks
  every match.\<close>

lemma remove_first_distinct_filter:
  assumes "remove_first P xs = Some ys" and "distinct (map f xs)" and "\<And>x. P x \<longleftrightarrow> f x = k"
  shows "ys = filter (\<lambda>x. \<not> P x) xs"
proof -
  from remove_first_split [OF assms(1)] obtain as x bs where
    s: "xs = as @ x # bs" "ys = as @ bs" "P x" "\<forall>a \<in> set as. \<not> P a" by blast
  have "f x \<notin> f ` set bs" and "f x = k"
    using s assms(2,3) by auto
  then have "\<forall>b \<in> set bs. \<not> P b"
    unfolding assms(3) by (metis image_eqI)
  with s show ?thesis by simp
qed

lemma find_append: "List.find P (xs @ ys) = (case List.find P xs of None \<Rightarrow> List.find P ys | Some x \<Rightarrow> Some x)"
  by (induction xs) auto

lemma find_None_append: "\<forall>x \<in> set xs. \<not> P x \<Longrightarrow> List.find P (xs @ ys) = List.find P ys"
  by (induction xs) auto

subsection \<open>Words\<close>

lemma bit_word_and_push_bit:
  "((w :: 'a::len word) AND push_bit n 1 \<noteq> 0) \<longleftrightarrow> bit w n"
proof -
  have "w AND push_bit n 1 = (if bit w n then push_bit n 1 else 0)"
    by (rule bit_word_eqI) (auto simp: bit_simps)
  moreover have "bit w n \<Longrightarrow> push_bit n (1 :: 'a word) \<noteq> 0"
    using bit_imp_le_length [of w n] by (auto simp: bit_eq_iff bit_simps)
  ultimately show ?thesis by auto
qed

lemma bit_or_push_bit:
  "n < LENGTH('a) \<Longrightarrow> bit ((w :: 'a::len word) OR push_bit n 1) m \<longleftrightarrow> m = n \<or> bit w m"
  by (auto simp: bit_simps bit_1_iff)

lemma bit_and_not_push_bit:
  "bit ((w :: 'a::len word) AND NOT (push_bit n 1)) m \<longleftrightarrow> m \<noteq> n \<and> bit w m"
  using bit_imp_le_length [of w m] by (auto simp: bit_simps bit_1_iff)

end
