(* ===== verification/Ksu_Types.thy ===== *)
theory Ksu_Types
  imports Kprelude
begin

text \<open>
  The data shared by the KernelSU driver: \<^verbatim>\<open>ksu.h\<close> (the profiles an app has, the string
  helpers) and \<^verbatim>\<open>manager.h\<close> (the one global that names the manager app). The union of
  \<open>struct app_profile\<close> is kept as its overlay: the two views share their first bytes, so
  \<open>nrp_config.use_default\<close> is \<open>rp_config.use_default\<close> and
  \<open>nrp_config.profile.umount_modules\<close> is the first byte of \<open>rp_config.template_name\<close>.
\<close>

subsection \<open>\<^verbatim>\<open>ksu.h\<close>: profiles\<close>

abbreviation KSU_APP_PROFILE_VER :: u32 where "KSU_APP_PROFILE_VER \<equiv> 2"
abbreviation KSU_MAX_PACKAGE_NAME :: nat where "KSU_MAX_PACKAGE_NAME \<equiv> 256"
abbreviation KSU_MAX_GROUPS :: nat where "KSU_MAX_GROUPS \<equiv> 32"
abbreviation KSU_SELINUX_DOMAIN :: nat where "KSU_SELINUX_DOMAIN \<equiv> 64"

record root_profile =
  rp_uid :: u32
  rp_gid :: u32
  rp_groups_count :: u32
  rp_groups :: "u32 list"
  cap_effective :: u64
  cap_permitted :: u64
  cap_inheritable :: u64
  rp_selinux_domain :: cbuf
  rp_namespaces :: u32

record non_root_profile =
  umount_modules :: bool

record profile_config =
  rp_use_default :: bool
  rp_template_name :: cbuf
  rp_profile :: root_profile

record app_profile =
  ap_version :: u32
  ap_key :: cbuf
  ap_current_uid :: u32
  ap_allow_su :: bool
  ap_config :: profile_config

definition nrp_use_default :: "profile_config \<Rightarrow> bool" where
  "nrp_use_default c = rp_use_default c"

definition nrp_profile :: "profile_config \<Rightarrow> non_root_profile" where
  "nrp_profile c =
     \<lparr>umount_modules = (case rp_template_name c of [] \<Rightarrow> False | ch # _ \<Rightarrow> ch \<noteq> NUL)\<rparr>"

text \<open>Writing \<open>nrp_config\<close>: the byte that both views share.\<close>

definition set_nrp :: "bool \<Rightarrow> bool \<Rightarrow> profile_config \<Rightarrow> profile_config" where
  "set_nrp use_default umount c =
     c\<lparr>rp_use_default := use_default,
       rp_template_name := (rp_template_name c)[0 := (if umount then CHR 0x01 else NUL)]\<rparr>"

text \<open>The arrays have the sizes of the struct.\<close>

definition wf_root_profile :: "root_profile \<Rightarrow> bool" where
  "wf_root_profile r \<longleftrightarrow> length (rp_groups r) = KSU_MAX_GROUPS \<and>
     length (rp_selinux_domain r) = KSU_SELINUX_DOMAIN"

definition wf_profile :: "app_profile \<Rightarrow> bool" where
  "wf_profile p \<longleftrightarrow> length (ap_key p) = KSU_MAX_PACKAGE_NAME \<and>
     length (rp_template_name (ap_config p)) = KSU_MAX_PACKAGE_NAME \<and>
     wf_root_profile (rp_profile (ap_config p))"

lemma nrp_profile_set_nrp:
  "rp_template_name c \<noteq> [] \<Longrightarrow> umount_modules (nrp_profile (set_nrp d u c)) = u"
  by (cases "rp_template_name c") (simp_all add: nrp_profile_def set_nrp_def)

lemma nrp_use_default_set_nrp [simp]: "nrp_use_default (set_nrp d u c) = d"
  by (simp add: nrp_use_default_def set_nrp_def)

subsection \<open>\<^verbatim>\<open>ksu.h\<close>: string helpers\<close>

text \<open>Both return the \<open>strcmp\<close>-style result, 0 for a match; the model is whether it is 0.\<close>

definition startswith :: "cbuf \<Rightarrow> cbuf \<Rightarrow> bool" where
  "startswith s prefix = strncmp_eq s prefix (c_strlen prefix)"

definition endswith :: "cbuf \<Rightarrow> cbuf \<Rightarrow> bool" where
  "endswith s t =
     (let slen = c_strlen s; tlen = c_strlen t in
      if tlen > slen then False else strcmp_eq (drop (slen - tlen) s) t)"

lemma startswith_iff: "startswith s p \<longleftrightarrow> (\<exists>r. cstr s = cstr p @ r)"
  by (simp add: startswith_def strncmp_eq_def c_strlen_def)
     (metis append_eq_conv_conj append_take_drop_id)

lemma endswith_iff: "endswith s t \<longleftrightarrow> (\<exists>r. cstr s = r @ cstr t)"
proof
  assume e: "endswith s t"
  let ?d = "length (cstr s) - length (cstr t)"
  from e have "cstr (drop ?d s) = cstr t"
    by (simp add: endswith_def Let_def c_strlen_def strcmp_eq_def split: if_splits)
  then have "drop ?d (cstr s) = cstr t"
    by (simp add: cstr_drop)
  then have "cstr s = take ?d (cstr s) @ cstr t"
    using append_take_drop_id [of ?d "cstr s"] by simp
  then show "\<exists>r. cstr s = r @ cstr t" ..
next
  assume "\<exists>r. cstr s = r @ cstr t"
  then show "endswith s t"
    by (auto simp: endswith_def Let_def c_strlen_def strcmp_eq_def cstr_drop)
qed

subsection \<open>\<^verbatim>\<open>manager.h\<close>\<close>

abbreviation KSU_INVALID_UID :: uid_t where "KSU_INVALID_UID \<equiv> - 1"

text \<open>The state is the one global \<open>ksu_manager_uid\<close>.\<close>

definition ksu_is_manager_uid_valid :: "uid_t \<Rightarrow> bool" where
  "ksu_is_manager_uid_valid ksu_manager_uid \<longleftrightarrow> ksu_manager_uid \<noteq> KSU_INVALID_UID"

definition ksu_is_manager :: "uid_t \<Rightarrow> uid_t \<Rightarrow> bool" where
  "ksu_is_manager ksu_manager_uid current_uid \<longleftrightarrow> ksu_manager_uid = current_uid"

definition ksu_get_manager_uid :: "uid_t \<Rightarrow> uid_t" where
  "ksu_get_manager_uid ksu_manager_uid = ksu_manager_uid"

definition ksu_set_manager_uid :: "uid_t \<Rightarrow> uid_t \<Rightarrow> uid_t" where
  "ksu_set_manager_uid ksu_manager_uid uid = uid"

definition ksu_invalidate_manager_uid :: "uid_t \<Rightarrow> uid_t" where
  "ksu_invalidate_manager_uid ksu_manager_uid = KSU_INVALID_UID"

lemmas manager_defs [kdefs] = ksu_is_manager_uid_valid_def ksu_is_manager_def ksu_get_manager_uid_def
  ksu_set_manager_uid_def ksu_invalidate_manager_uid_def

end
