(* ===== verification/Uid_Set.thy ===== *)
theory Uid_Set
  imports Kprelude
begin

text \<open>
  The interface between the allowlist and the two tables that record which uids may use
  \<open>su\<close>: a bitmap for small uids, an array for the others. A table handles some uids; granting
  may fail (the array is full), revoking may not. A client that applies a sequence of grants and
  revocations sees the last one for each uid.
\<close>

locale uid_set =
  fixes inv :: "'s \<Rightarrow> bool"
    and handles :: "uid_t \<Rightarrow> bool"
    and mem :: "'s \<Rightarrow> uid_t \<Rightarrow> bool"
    and grant :: "uid_t \<Rightarrow> 's \<Rightarrow> 's option"
    and revoke :: "uid_t \<Rightarrow> 's \<Rightarrow> 's"
  assumes inv_grant: "inv s \<Longrightarrow> handles u \<Longrightarrow> grant u s = Some s' \<Longrightarrow> inv s'"
    and inv_revoke: "inv s \<Longrightarrow> handles u \<Longrightarrow> inv (revoke u s)"
    and mem_grant: "inv s \<Longrightarrow> handles u \<Longrightarrow> handles v \<Longrightarrow> grant u s = Some s' \<Longrightarrow>
      mem s' v \<longleftrightarrow> v = u \<or> mem s v"
    and mem_revoke: "inv s \<Longrightarrow> handles u \<Longrightarrow> handles v \<Longrightarrow>
      mem (revoke u s) v \<longleftrightarrow> v \<noteq> u \<and> mem s v"

fun run_updates ::
  "(uid_t \<Rightarrow> 's \<Rightarrow> 's option) \<Rightarrow> (uid_t \<Rightarrow> 's \<Rightarrow> 's) \<Rightarrow> (uid_t \<times> bool) list \<Rightarrow> 's \<Rightarrow> 's option" where
  "run_updates g r [] s = Some s"
| "run_updates g r ((u, allow) # us) s =
     (if allow then (case g u s of None \<Rightarrow> None | Some s' \<Rightarrow> run_updates g r us s')
      else run_updates g r us (r u s))"

context uid_set
begin

lemma mem_revoked: "inv s \<Longrightarrow> handles u \<Longrightarrow> \<not> mem (revoke u s) u"
  by (simp add: mem_revoke)

lemma revoke_unmentioned:
  "inv s \<Longrightarrow> handles u \<Longrightarrow> handles v \<Longrightarrow> v \<noteq> u \<Longrightarrow> mem (revoke u s) v = mem s v"
  by (simp add: mem_revoke)

lemma inv_run:
  "inv s \<Longrightarrow> \<forall>(u, a) \<in> set us. handles u \<Longrightarrow> run_updates grant revoke us s = Some s' \<Longrightarrow> inv s'"
proof (induction us arbitrary: s)
  case (Cons x us)
  then show ?case
    by (cases x) (auto split: if_splits option.splits intro: inv_grant inv_revoke)
qed simp

text \<open>The table after a run is its last writer per uid.\<close>

lemma mem_run:
  "inv s \<Longrightarrow> \<forall>(u, a) \<in> set us. handles u \<Longrightarrow> handles v \<Longrightarrow>
     run_updates grant revoke us s = Some s' \<Longrightarrow>
     mem s' v \<longleftrightarrow> (case map_of (rev us) v of None \<Rightarrow> mem s v | Some a \<Rightarrow> a)"
proof (induction us arbitrary: s)
  case (Cons x us)
  obtain u a where x: "x = (u, a)" by (cases x)
  show ?case
  proof (cases a)
    case True
    with Cons.prems x obtain s1 where s1: "grant u s = Some s1"
      "run_updates grant revoke us s1 = Some s'"
      by (auto split: option.splits)
    have "inv s1" using Cons.prems x s1 by (auto intro: inv_grant)
    then have "mem s' v \<longleftrightarrow> (case map_of (rev us) v of None \<Rightarrow> mem s1 v | Some b \<Rightarrow> b)"
      using Cons.IH [of s1] Cons.prems s1 by simp
    moreover have "mem s1 v \<longleftrightarrow> v = u \<or> mem s v"
      using Cons.prems x s1 mem_grant [of s u v s1] by simp
    ultimately show ?thesis
      using x True by (auto simp: map_add_def split: option.splits)
  next
    case False
    with Cons.prems x have r: "run_updates grant revoke us (revoke u s) = Some s'" by simp
    have "inv (revoke u s)" using Cons.prems x by (simp add: inv_revoke)
    then have "mem s' v \<longleftrightarrow> (case map_of (rev us) v of None \<Rightarrow> mem (revoke u s) v | Some b \<Rightarrow> b)"
      using Cons.IH Cons.prems r by simp
    moreover have "mem (revoke u s) v \<longleftrightarrow> v \<noteq> u \<and> mem s v"
      using Cons.prems x by (simp add: mem_revoke)
    ultimately show ?thesis
      using x False by (auto simp: map_add_def split: option.splits)
  qed
qed simp

end

end
