(* ===== verification/Allow_Tables.thy ===== *)
theory Allow_Tables
  imports Ksu_Types Uid_Set
begin

text \<open>
  The state of \<^verbatim>\<open>drivers/kernelsu/allowlist.c\<close> and its two tables of granted uids, each
  shown to be a \<open>uid_set\<close>. The state is the list of app
  profiles, the bitmap of granted uids up to \<open>BITMAP_UID_MAX\<close>, the array of the other granted
  uids with its fill pointer, and the two cached default profiles. Allocation results are
  parameters: a node allocation is a truth value, the scratch array of
  \<open>remove_uid_from_arr\<close> is \<open>None\<close> or its uninitialised contents.
\<close>

subsection \<open>State\<close>

definition ALLOW_ARR_SIZE :: nat where
  "ALLOW_ARR_SIZE = PAGE_SIZE div 4"

definition BITMAP_UID_MAX :: nat where
  "BITMAP_UID_MAX = PAGE_SIZE * 8 - 1"

abbreviation KSU_APP_PROFILE_PRESERVE_UID :: uid_t where
  "KSU_APP_PROFILE_PRESERVE_UID \<equiv> 9999"

definition KSU_DEFAULT_SELINUX_DOMAIN :: string where
  "KSU_DEFAULT_SELINUX_DOMAIN = ''u:r:su:s0''"

record allow_state =
  al_list :: "app_profile list"
  al_bitmap :: "u8 list"
  al_arr :: "u32 list"
  al_ptr :: nat
  al_default_root :: root_profile
  al_default_non_root :: non_root_profile
  al_save_pending :: bool
  al_load_pending :: bool

definition allow_wf :: "allow_state \<Rightarrow> bool" where
  "allow_wf st \<longleftrightarrow> length (al_bitmap st) = PAGE_SIZE \<and> length (al_arr st) = ALLOW_ARR_SIZE \<and>
     al_ptr st \<le> ALLOW_ARR_SIZE"

definition low_uid :: "uid_t \<Rightarrow> bool" where
  "low_uid uid \<longleftrightarrow> unat uid \<le> BITMAP_UID_MAX"

lemmas size_defs [kdefs] = ALLOW_ARR_SIZE_def BITMAP_UID_MAX_def PAGE_SIZE_def

subsection \<open>The bitmap\<close>

definition bitmap_set :: "uid_t \<Rightarrow> u8 list \<Rightarrow> u8 list" where
  "bitmap_set uid bm =
     bm[unat uid div 8 := (bm ! (unat uid div 8)) OR push_bit (unat uid mod 8) 1]"

definition bitmap_clear :: "uid_t \<Rightarrow> u8 list \<Rightarrow> u8 list" where
  "bitmap_clear uid bm =
     bm[unat uid div 8 := (bm ! (unat uid div 8)) AND NOT (push_bit (unat uid mod 8) 1)]"

definition bitmap_test :: "u8 list \<Rightarrow> uid_t \<Rightarrow> bool" where
  "bitmap_test bm uid \<longleftrightarrow> (bm ! (unat uid div 8)) AND push_bit (unat uid mod 8) 1 \<noteq> 0"

lemma low_uid_index: "low_uid u \<Longrightarrow> unat u div 8 < PAGE_SIZE"
  by (simp add: low_uid_def size_defs)

lemma uid_split_eq:
  "unat (v :: uid_t) div 8 = unat u div 8 \<and> unat v mod 8 = unat u mod 8 \<longleftrightarrow> v = u"
  by (metis div_mult_mod_eq unsigned_word_eqI)

lemma bitmap_test_bit: "bitmap_test bm u \<longleftrightarrow> bit (bm ! (unat u div 8)) (unat u mod 8)"
  unfolding bitmap_test_def by (rule bit_word_and_push_bit)

lemma bitmap_test_set:
  assumes "length bm = PAGE_SIZE" and "low_uid u" and "low_uid v"
  shows "bitmap_test (bitmap_set u bm) v \<longleftrightarrow> v = u \<or> bitmap_test bm v"
proof (cases "unat v div 8 = unat u div 8")
  case True
  have "unat u mod 8 < LENGTH(8)" by simp
  note or = bit_or_push_bit [OF this, of "bm ! (unat u div 8)" "unat v mod 8"]
  show ?thesis
    using True assms low_uid_index [of u] uid_split_eq [of v u] or
    by (simp add: bitmap_test_bit bitmap_set_def del: push_bit_of_1)
next
  case False
  then show ?thesis
    by (auto simp: bitmap_test_bit bitmap_set_def)
qed

lemma bitmap_test_clear:
  assumes "length bm = PAGE_SIZE" and "low_uid u" and "low_uid v"
  shows "bitmap_test (bitmap_clear u bm) v \<longleftrightarrow> v \<noteq> u \<and> bitmap_test bm v"
proof (cases "unat v div 8 = unat u div 8")
  case True
  show ?thesis
    using True assms low_uid_index [of u] uid_split_eq [of v u]
      bit_and_not_push_bit [of "bm ! (unat u div 8)" "unat u mod 8" "unat v mod 8"]
    by (simp add: bitmap_test_bit bitmap_clear_def del: push_bit_of_1)
next
  case False
  then show ?thesis
    by (auto simp: bitmap_test_bit bitmap_clear_def)
qed

lemma length_bitmap [simp]:
  "length (bitmap_set u bm) = length bm" "length (bitmap_clear u bm) = length bm"
  by (simp_all add: bitmap_set_def bitmap_clear_def)

interpretation bitmap: uid_set "\<lambda>bm. length bm = PAGE_SIZE" low_uid bitmap_test
  "\<lambda>u bm. Some (bitmap_set u bm)" bitmap_clear
  by unfold_locales (auto simp: bitmap_test_set bitmap_test_clear)

subsection \<open>The array: \<open>remove_uid_from_arr\<close>\<close>

text \<open>The copy loop over \<open>allow_list_arr[0..allow_list_pointer)\<close>, then the fill with -1.\<close>

fun remove_loop :: "uid_t \<Rightarrow> u32 list \<Rightarrow> u32 list \<Rightarrow> nat \<Rightarrow> u32 list \<times> nat" where
  "remove_loop uid [] temp j = (temp, j)"
| "remove_loop uid (x # xs) temp j =
     (if x = uid then remove_loop uid xs temp j
      else remove_loop uid xs (temp[j := x]) (Suc j))"

function fill_loop :: "u32 list \<Rightarrow> nat \<Rightarrow> u32 list" where
  "fill_loop temp j = (if j < length temp then fill_loop (temp[j := - 1]) (Suc j) else temp)"
  by pat_completeness auto
termination
  by (relation "measure (\<lambda>(temp, j). length temp - j)") auto

declare fill_loop.simps [simp del]

definition remove_uid_from_arr :: "u32 list option \<Rightarrow> uid_t \<Rightarrow> allow_state \<Rightarrow> allow_state" where
  "remove_uid_from_arr temp_arr uid st =
     (if al_ptr st = 0 then st
      else case temp_arr of
        None \<Rightarrow> st
      | Some temp \<Rightarrow>
          (let (temp', j) = remove_loop uid (take (al_ptr st) (al_arr st)) temp 0
           in st\<lparr>al_ptr := j, al_arr := fill_loop temp' j\<rparr>))"

lemma fill_loop_eq: "j \<le> length temp \<Longrightarrow> fill_loop temp j = take j temp @ replicate (length temp - j) (- 1)"
proof (induction temp j rule: fill_loop.induct)
  case (1 temp j)
  show ?case
  proof (cases "j < length temp")
    case True
    then have "fill_loop temp j = take (Suc j) (temp[j := - 1]) @ replicate (length temp - Suc j) (- 1)"
      using "1.IH" by (simp add: fill_loop.simps [of temp j])
    also have "take (Suc j) (temp[j := - 1]) = take j temp @ [- 1]"
      using True by (simp add: take_Suc_conv_app_nth)
    finally show ?thesis
      using True by (simp add: Suc_diff_Suc flip: replicate_Suc)
  next
    case False
    with "1.prems" have "j = length temp" by simp
    then show ?thesis using fill_loop.simps [of temp j] by simp
  qed
qed

lemma remove_loop_eq:
  "j + length xs \<le> length temp \<Longrightarrow>
     (let ys = filter (\<lambda>x. x \<noteq> uid) xs; (temp', k) = remove_loop uid xs temp j
      in k = j + length ys \<and> length temp' = length temp \<and> take k temp' = take j temp @ ys)"
proof (induction xs arbitrary: temp j)
  case (Cons x xs)
  show ?case
  proof (cases "x = uid")
    case True
    with Cons.IH [of j temp] Cons.prems show ?thesis by (simp add: Let_def)
  next
    case False
    have t: "take (Suc j) (temp[j := x]) = take j temp @ [x]"
      using Cons.prems by (simp add: take_Suc_conv_app_nth)
    from Cons.prems have "Suc j + length xs \<le> length (temp[j := x])" by simp
    from Cons.IH [OF this] False show ?thesis
      by (simp add: Let_def t split: prod.splits)
  qed
qed (simp add: Let_def)

text \<open>The loops compute the filtered array, whatever the scratch memory held.\<close>

lemma remove_uid_from_arr_eq:
  fixes uid :: uid_t
  assumes "allow_wf st" and "length temp = ALLOW_ARR_SIZE"
  defines "ys \<equiv> filter (\<lambda>x. x \<noteq> uid) (take (al_ptr st) (al_arr st))"
  shows "al_ptr st \<noteq> 0 \<Longrightarrow> remove_uid_from_arr (Some temp) uid st =
    st\<lparr>al_ptr := length ys, al_arr := ys @ replicate (ALLOW_ARR_SIZE - length ys) (- 1)\<rparr>"
proof -
  assume nz: "al_ptr st \<noteq> 0"
  let ?xs = "take (al_ptr st) (al_arr st)"
  obtain temp' k where r: "remove_loop uid ?xs temp 0 = (temp', k)" by fastforce
  have b: "0 + length ?xs \<le> length temp"
    using assms by (simp add: allow_wf_def)
  from remove_loop_eq [OF b, of uid] r
  have k: "k = length ys" "length temp' = length temp" "take k temp' = ys"
    by (auto simp: ys_def Let_def)
  have "length ys \<le> length temp"
    unfolding ys_def using length_filter_le [of "\<lambda>x. x \<noteq> uid" ?xs] b by linarith
  then show ?thesis
    using nz r k assms(2) by (simp add: remove_uid_from_arr_def fill_loop_eq)
qed

lemma remove_uid_from_arr_live:
  fixes uid :: uid_t
  assumes "allow_wf st" and "length temp = ALLOW_ARR_SIZE"
  defines "st' \<equiv> remove_uid_from_arr (Some temp) uid st"
  shows "take (al_ptr st') (al_arr st') = filter (\<lambda>x. x \<noteq> uid) (take (al_ptr st) (al_arr st))"
    and "allow_wf st'"
proof -
  let ?ys = "filter (\<lambda>x. x \<noteq> uid) (take (al_ptr st) (al_arr st))"
  have le: "length ?ys \<le> ALLOW_ARR_SIZE"
    using length_filter_le [of "\<lambda>x. x \<noteq> uid" "take (al_ptr st) (al_arr st)"] assms(1)
    by (simp add: allow_wf_def)
  have "take (al_ptr st') (al_arr st') = ?ys \<and> allow_wf st'"
  proof (cases "al_ptr st = 0")
    case True
    then show ?thesis using assms by (simp add: remove_uid_from_arr_def)
  next
    case False
    then show ?thesis
      using remove_uid_from_arr_eq [OF assms(1,2) False, of uid] le assms(1)
      by (simp add: st'_def allow_wf_def)
  qed
  then show "take (al_ptr st') (al_arr st') = ?ys" "allow_wf st'" by simp_all
qed

lemma remove_uid_from_arr_frame [simp]:
  "al_list (remove_uid_from_arr t u st) = al_list st"
  "al_bitmap (remove_uid_from_arr t u st) = al_bitmap st"
  "al_default_root (remove_uid_from_arr t u st) = al_default_root st"
  "al_default_non_root (remove_uid_from_arr t u st) = al_default_non_root st"
  "al_save_pending (remove_uid_from_arr t u st) = al_save_pending st"
  "al_load_pending (remove_uid_from_arr t u st) = al_load_pending st"
  by (simp_all add: remove_uid_from_arr_def split: option.splits prod.splits)

text \<open>Appending, guarded by the capacity test of \<open>ksu_set_app_profile\<close>; the search loop of
  \<open>__ksu_is_allow_uid\<close>.\<close>

definition arr_push :: "uid_t \<Rightarrow> allow_state \<Rightarrow> allow_state option" where
  "arr_push uid st =
     (if al_ptr st \<ge> ALLOW_ARR_SIZE then None
      else Some (st\<lparr>al_arr := (al_arr st)[al_ptr st := uid], al_ptr := Suc (al_ptr st)\<rparr>))"

fun arr_search :: "uid_t \<Rightarrow> u32 list \<Rightarrow> bool" where
  "arr_search uid [] = False"
| "arr_search uid (x # xs) = (x = uid \<or> arr_search uid xs)"

definition arr_mem :: "allow_state \<Rightarrow> uid_t \<Rightarrow> bool" where
  "arr_mem st uid = arr_search uid (take (al_ptr st) (al_arr st))"

lemma arr_search_iff: "arr_search uid xs \<longleftrightarrow> uid \<in> set xs"
  by (induction xs) auto

lemma arr_push_live:
  assumes "allow_wf st" and "arr_push uid st = Some st'"
  shows "take (al_ptr st') (al_arr st') = take (al_ptr st) (al_arr st) @ [uid]"
    and "allow_wf st'"
  using assms by (auto simp: arr_push_def allow_wf_def take_Suc_conv_app_nth split: if_splits)

interpretation arr: uid_set allow_wf "\<lambda>u. True" arr_mem arr_push
  "remove_uid_from_arr (Some (replicate ALLOW_ARR_SIZE g))" for g
  by unfold_locales
     (auto simp: arr_mem_def arr_search_iff arr_push_live remove_uid_from_arr_live)

end
