(* ===== verification/Allowlist.thy ===== *)
theory Allowlist
  imports Allow_Tables
begin

text \<open>
  \<^verbatim>\<open>drivers/kernelsu/allowlist.c\<close>: the operations on the allowlist. Each takes the state and
  returns its result with the new state; the branches follow the C code's returns. What the
  kernel's allocator answers is in \<open>set_env\<close>.
\<close>

subsection \<open>Operations\<close>

record set_env =
  se_node_alloc :: bool
  se_tmp_arr :: "u32 list option"

definition zero_root_profile :: root_profile where
  "zero_root_profile = \<lparr>rp_uid = 0, rp_gid = 0, rp_groups_count = 0,
     rp_groups = replicate KSU_MAX_GROUPS 0, cap_effective = 0, cap_permitted = 0,
     cap_inheritable = 0, rp_selinux_domain = replicate KSU_SELINUX_DOMAIN NUL,
     rp_namespaces = 0\<rparr>"

definition init_default_profiles :: "u64 \<Rightarrow> allow_state \<Rightarrow> allow_state" where
  "init_default_profiles full_cap st =
     st\<lparr>al_default_root := (al_default_root st)
          \<lparr>rp_uid := 0, rp_gid := 0, rp_groups_count := 1,
           rp_groups := (rp_groups (al_default_root st))[0 := 0],
           cap_effective := full_cap, rp_namespaces := 0,
           rp_selinux_domain := c_strcpy (rp_selinux_domain (al_default_root st))
             KSU_DEFAULT_SELINUX_DOMAIN\<rparr>,
        al_default_non_root := (al_default_non_root st)\<lparr>umount_modules := True\<rparr>\<rparr>"

definition ksu_get_app_profile :: "app_profile \<Rightarrow> allow_state \<Rightarrow> bool \<times> app_profile" where
  "ksu_get_app_profile profile st =
     (case List.find (\<lambda>p. ap_current_uid profile = ap_current_uid p) (al_list st) of
        Some p \<Rightarrow> (True, p)
      | None \<Rightarrow> (False, profile))"

definition forbid_system_uid :: "uid_t \<Rightarrow> bool" where
  "forbid_system_uid uid \<longleftrightarrow> uid < 2000 \<and> uid \<noteq> 1000"

definition profile_valid :: "app_profile option \<Rightarrow> bool" where
  "profile_valid po =
     (case po of
        None \<Rightarrow> False
      | Some profile \<Rightarrow>
          if ap_version profile < KSU_APP_PROFILE_VER then False
          else if ap_allow_su profile \<and>
            (sint (rp_groups_count (rp_profile (ap_config profile))) > int KSU_MAX_GROUPS \<or>
             c_strlen (rp_selinux_domain (rp_profile (ap_config profile))) = 0) then False
          else True)"

definition persistent_allow_list :: "allow_state \<Rightarrow> bool \<times> allow_state" where
  "persistent_allow_list st = (\<not> al_save_pending st, st\<lparr>al_save_pending := True\<rparr>)"

definition ksu_load_allow_list :: "allow_state \<Rightarrow> bool \<times> allow_state" where
  "ksu_load_allow_list st = (\<not> al_load_pending st, st\<lparr>al_load_pending := True\<rparr>)"

text \<open>The walk that overwrites the node with the same uid and key; \<open>None\<close> if there is none.\<close>

definition override_profile :: "app_profile \<Rightarrow> app_profile list \<Rightarrow> app_profile list option" where
  "override_profile profile =
     update_first (\<lambda>p. ap_current_uid profile = ap_current_uid p \<and>
       strcmp_eq (ap_key profile) (ap_key p)) profile"

text \<open>From the label \<open>out:\<close> on: the bitmap or the array; \<open>None\<close> is the early
  \<open>return false\<close> of the full array.\<close>

definition record_grant :: "set_env \<Rightarrow> app_profile \<Rightarrow> allow_state \<Rightarrow> allow_state option" where
  "record_grant e profile st =
     (let uid = ap_current_uid profile in
      if low_uid uid then
        Some (if ap_allow_su profile then st\<lparr>al_bitmap := bitmap_set uid (al_bitmap st)\<rparr>
              else st\<lparr>al_bitmap := bitmap_clear uid (al_bitmap st)\<rparr>)
      else if ap_allow_su profile then arr_push uid st
      else Some (remove_uid_from_arr (se_tmp_arr e) uid st))"

definition cache_defaults :: "app_profile \<Rightarrow> allow_state \<Rightarrow> allow_state" where
  "cache_defaults profile st =
     (let st1 = (if strcmp_eq (ap_key profile) ''$''
                 then st\<lparr>al_default_non_root := nrp_profile (ap_config profile)\<rparr> else st)
      in if strcmp_eq (ap_key profile) ''#''
         then st1\<lparr>al_default_root := rp_profile (ap_config profile)\<rparr> else st1)"

definition set_app_profile_out ::
  "set_env \<Rightarrow> app_profile \<Rightarrow> bool \<Rightarrow> allow_state \<Rightarrow> bool \<times> allow_state" where
  "set_app_profile_out e profile persist st =
     (case record_grant e profile st of
        None \<Rightarrow> (False, st)
      | Some st1 \<Rightarrow>
          (let st2 = cache_defaults profile st1
           in (True, if persist then snd (persistent_allow_list st2) else st2)))"

definition ksu_set_app_profile ::
  "set_env \<Rightarrow> app_profile \<Rightarrow> bool \<Rightarrow> allow_state \<Rightarrow> bool \<times> allow_state" where
  "ksu_set_app_profile e profile persist st =
     (if \<not> profile_valid (Some profile) then (False, st)
      else case override_profile profile (al_list st) of
        Some l \<Rightarrow> set_app_profile_out e profile persist (st\<lparr>al_list := l\<rparr>)
      | None \<Rightarrow>
          if \<not> se_node_alloc e then (False, st)
          else set_app_profile_out e profile persist (st\<lparr>al_list := al_list st @ [profile]\<rparr>))"

text \<open>\<open>granted\<close> is the lookup at the end of \<open>__ksu_is_allow_uid\<close>.\<close>

definition granted :: "allow_state \<Rightarrow> uid_t \<Rightarrow> bool" where
  "granted st uid =
     (if low_uid uid then bitmap_test (al_bitmap st) uid else arr_mem st uid)"

definition ksu_is_allow_uid :: "bool \<Rightarrow> uid_t \<Rightarrow> allow_state \<Rightarrow> uid_t \<Rightarrow> bool" where
  "ksu_is_allow_uid is_ksu_domain manager_uid st uid =
     (if uid = 0 then is_ksu_domain
      else if forbid_system_uid uid then False
      else if ksu_is_manager_uid_valid manager_uid \<and> ksu_get_manager_uid manager_uid = uid then True
      else granted st uid)"

definition zero_app_profile :: app_profile where
  "zero_app_profile = \<lparr>ap_version = 0, ap_key = replicate KSU_MAX_PACKAGE_NAME NUL,
     ap_current_uid = 0, ap_allow_su = False,
     ap_config = \<lparr>rp_use_default = False,
       rp_template_name = replicate KSU_MAX_PACKAGE_NAME NUL, rp_profile = zero_root_profile\<rparr>\<rparr>"

definition ksu_uid_should_umount :: "uid_t \<Rightarrow> allow_state \<Rightarrow> uid_t \<Rightarrow> bool" where
  "ksu_uid_should_umount manager_uid st uid =
     (if ksu_is_manager_uid_valid manager_uid \<and> ksu_get_manager_uid manager_uid = uid then False
      else case ksu_get_app_profile (zero_app_profile\<lparr>ap_current_uid := uid\<rparr>) st of
        (False, _) \<Rightarrow> umount_modules (al_default_non_root st)
      | (True, profile) \<Rightarrow>
          if ap_allow_su profile then False
          else if nrp_use_default (ap_config profile) then umount_modules (al_default_non_root st)
          else umount_modules (nrp_profile (ap_config profile)))"

definition ksu_get_root_profile :: "allow_state \<Rightarrow> uid_t \<Rightarrow> root_profile" where
  "ksu_get_root_profile st uid =
     (case List.find (\<lambda>p. uid = ap_current_uid p \<and> ap_allow_su p \<and>
          \<not> rp_use_default (ap_config p)) (al_list st) of
        Some p \<Rightarrow> rp_profile (ap_config p)
      | None \<Rightarrow> al_default_root st)"

text \<open>The entries written to \<open>array\<close>, in order; the source writes them with no bound.\<close>

fun get_allow_list_loop :: "bool \<Rightarrow> app_profile list \<Rightarrow> u32 list" where
  "get_allow_list_loop allow [] = []"
| "get_allow_list_loop allow (p # ps) =
     (if ap_allow_su p = allow then ap_current_uid p # get_allow_list_loop allow ps
      else get_allow_list_loop allow ps)"

definition ksu_get_allow_list :: "allow_state \<Rightarrow> bool \<Rightarrow> bool \<times> u32 list \<times> nat" where
  "ksu_get_allow_list st allow =
     (let array = get_allow_list_loop allow (al_list st) in (True, array, length array))"

text \<open>One scratch allocation per unlinked node, \<open>tmps k\<close> for the \<open>k\<close>-th.\<close>

definition prune_revoke :: "u32 list option \<Rightarrow> uid_t \<Rightarrow> allow_state \<Rightarrow> allow_state" where
  "prune_revoke tmp uid st =
     remove_uid_from_arr tmp uid
       (if low_uid uid then st\<lparr>al_bitmap := bitmap_clear uid (al_bitmap st)\<rparr> else st)"

fun prune_loop ::
  "(uid_t \<Rightarrow> cbuf \<Rightarrow> bool) \<Rightarrow> (nat \<Rightarrow> u32 list option) \<Rightarrow> nat \<Rightarrow> app_profile list \<Rightarrow>
     allow_state \<Rightarrow> bool \<Rightarrow> app_profile list \<times> allow_state \<times> bool" where
  "prune_loop is_uid_valid tmps k [] st modified = ([], st, modified)"
| "prune_loop is_uid_valid tmps k (np # ns) st modified =
     (let uid = ap_current_uid np; package = ap_key np in
      if uid \<noteq> KSU_APP_PROFILE_PRESERVE_UID \<and> \<not> is_uid_valid uid package
      then prune_loop is_uid_valid tmps (Suc k) ns (prune_revoke (tmps k) uid st) True
      else (let (kept, st', m) = prune_loop is_uid_valid tmps k ns st modified
            in (np # kept, st', m)))"

definition ksu_prune_allowlist ::
  "(uid_t \<Rightarrow> cbuf \<Rightarrow> bool) \<Rightarrow> (nat \<Rightarrow> u32 list option) \<Rightarrow> allow_state \<Rightarrow> allow_state" where
  "ksu_prune_allowlist is_uid_valid tmps st =
     (let (kept, st', modified) = prune_loop is_uid_valid tmps 0 (al_list st) st False;
          st'' = st'\<lparr>al_list := kept\<rparr>
      in if modified then snd (persistent_allow_list st'') else st'')"

definition ksu_allowlist_init :: "u64 \<Rightarrow> allow_state \<Rightarrow> allow_state" where
  "ksu_allowlist_init full_cap st =
     init_default_profiles full_cap
       (st\<lparr>al_arr := fill_loop (al_arr st) 0, al_list := [],
          al_save_pending := False, al_load_pending := False\<rparr>)"

text \<open>The statics before \<open>ksu_allowlist_init\<close>: zeroed by the loader.\<close>

definition static_allow_state :: allow_state where
  "static_allow_state = \<lparr>al_list = [], al_bitmap = replicate PAGE_SIZE 0,
     al_arr = replicate ALLOW_ARR_SIZE 0, al_ptr = 0, al_default_root = zero_root_profile,
     al_default_non_root = \<lparr>umount_modules = False\<rparr>, al_save_pending = False,
     al_load_pending = False\<rparr>"

subsection \<open>The grants as one \<open>uid_set\<close>\<close>

definition grant_uid :: "uid_t \<Rightarrow> allow_state \<Rightarrow> allow_state option" where
  "grant_uid uid st =
     (if low_uid uid then Some (st\<lparr>al_bitmap := bitmap_set uid (al_bitmap st)\<rparr>)
      else arr_push uid st)"

definition revoke_uid :: "u32 list \<Rightarrow> uid_t \<Rightarrow> allow_state \<Rightarrow> allow_state" where
  "revoke_uid tmp uid st =
     (if low_uid uid then st\<lparr>al_bitmap := bitmap_clear uid (al_bitmap st)\<rparr>
      else remove_uid_from_arr (Some tmp) uid st)"

lemma allow_wf_bitmap [simp]:
  "allow_wf (st\<lparr>al_bitmap := bitmap_set u (al_bitmap st)\<rparr>) = allow_wf st"
  "allow_wf (st\<lparr>al_bitmap := bitmap_clear u (al_bitmap st)\<rparr>) = allow_wf st"
  by (simp_all add: allow_wf_def)

lemma arr_push_frame:
  "arr_push u st = Some st' \<Longrightarrow>
     al_list st' = al_list st \<and> al_bitmap st' = al_bitmap st \<and>
     al_default_root st' = al_default_root st \<and> al_default_non_root st' = al_default_non_root st"
  by (auto simp: arr_push_def split: if_splits)

lemma arr_mem_bitmap [simp]: "arr_mem (st\<lparr>al_bitmap := bm\<rparr>) v = arr_mem st v"
  by (simp add: arr_mem_def)

lemma wf_bitmap_length: "allow_wf st \<Longrightarrow> length (al_bitmap st) = PAGE_SIZE"
  by (simp add: allow_wf_def)

interpretation grants: uid_set allow_wf "\<lambda>u. True" granted grant_uid
  "revoke_uid (replicate ALLOW_ARR_SIZE g)" for g
proof (unfold_locales, goal_cases)
  case (1 s u s')
  then show ?case
    by (auto simp: grant_uid_def arr_push_live(2) split: if_splits)
next
  case (2 s u)
  then show ?case
    by (auto simp: revoke_uid_def remove_uid_from_arr_live)
next
  case (3 s u v s')
  then show ?case
    by (cases "low_uid u"; cases "low_uid v")
       (auto simp: grant_uid_def granted_def bitmap_test_set wf_bitmap_length arr.mem_grant
         dest: arr_push_frame)
next
  case (4 s u v)
  then show ?case
    by (cases "low_uid u"; cases "low_uid v")
       (auto simp: revoke_uid_def granted_def bitmap_test_clear wf_bitmap_length arr.mem_revoke)
qed

end
