(* ===== verification/Allowlist_Lemmas.thy ===== *)
theory Allowlist_Lemmas
  imports Allowlist
begin

text \<open>
  The lemmas on the allowlist operations that the properties rest on: what each operation does
  to the grants (through the \<open>uid_set\<close> interpretations), to the list of profiles and to the
  frame, and the two invariants of the list.
\<close>

named_theorems allow_frame \<open>fields an allowlist operation leaves alone\<close>

subsection \<open>The scratch memory does not matter\<close>

lemma remove_uid_from_arr_any:
  assumes "allow_wf st" and "length t = ALLOW_ARR_SIZE"
  shows "remove_uid_from_arr (Some t) u st =
    remove_uid_from_arr (Some (replicate ALLOW_ARR_SIZE 0)) u st"
proof (cases "al_ptr st = 0")
  case True
  then show ?thesis by (simp add: remove_uid_from_arr_def)
next
  case False
  then show ?thesis using assms by (simp add: remove_uid_from_arr_eq)
qed

definition tmp_ok :: "u32 list option \<Rightarrow> bool" where
  "tmp_ok t \<longleftrightarrow> (\<exists>a. t = Some a \<and> length a = ALLOW_ARR_SIZE)"

lemma tmp_okE:
  assumes "tmp_ok t"
  obtains a where "t = Some a" "length a = ALLOW_ARR_SIZE"
  using assms by (auto simp: tmp_ok_def)

subsection \<open>Frames\<close>

lemma cache_defaults_frame [allow_frame]:
  "al_list (cache_defaults p st) = al_list st"
  "al_bitmap (cache_defaults p st) = al_bitmap st"
  "al_arr (cache_defaults p st) = al_arr st"
  "al_ptr (cache_defaults p st) = al_ptr st"
  "al_save_pending (cache_defaults p st) = al_save_pending st"
  by (simp_all add: cache_defaults_def Let_def)

lemma persistent_frame [allow_frame]:
  "al_list (snd (persistent_allow_list st)) = al_list st"
  "al_bitmap (snd (persistent_allow_list st)) = al_bitmap st"
  "al_arr (snd (persistent_allow_list st)) = al_arr st"
  "al_ptr (snd (persistent_allow_list st)) = al_ptr st"
  "al_default_root (snd (persistent_allow_list st)) = al_default_root st"
  "al_default_non_root (snd (persistent_allow_list st)) = al_default_non_root st"
  by (simp_all add: persistent_allow_list_def)

lemma granted_list_update [allow_frame]:
  "granted (st\<lparr>al_list := l\<rparr>) u = granted st u" "allow_wf (st\<lparr>al_list := l\<rparr>) = allow_wf st"
  by (simp_all add: granted_def arr_mem_def allow_wf_def)

lemma granted_finish [allow_frame]:
  "granted (snd (persistent_allow_list st)) u = granted st u"
  "allow_wf (snd (persistent_allow_list st)) = allow_wf st"
  "granted (cache_defaults p st) u = granted st u"
  "allow_wf (cache_defaults p st) = allow_wf st"
  by (simp_all add: granted_def arr_mem_def allow_wf_def cache_defaults_frame persistent_frame)

subsection \<open>The grant of one profile\<close>

text \<open>\<open>record_grant\<close> is a grant or a revocation of the \<open>uid_set\<close>.\<close>

lemma record_grant_eq:
  assumes "allow_wf st" and "tmp_ok (se_tmp_arr e)"
  shows "record_grant e p st =
    (if ap_allow_su p then grant_uid (ap_current_uid p) st
     else Some (revoke_uid (replicate ALLOW_ARR_SIZE 0) (ap_current_uid p) st))"
proof -
  from assms(2) obtain a where a: "se_tmp_arr e = Some a" "length a = ALLOW_ARR_SIZE"
    by (rule tmp_okE)
  note any = remove_uid_from_arr_any [OF assms(1) a(2)]
  show ?thesis
    unfolding record_grant_def grant_uid_def revoke_uid_def Let_def a any by simp
qed

lemma record_grant_grants:
  assumes "allow_wf st" and "tmp_ok (se_tmp_arr e)" and "record_grant e p st = Some st'"
  shows "granted st' v \<longleftrightarrow> (if v = ap_current_uid p then ap_allow_su p else granted st v)"
    and "allow_wf st'"
  using assms
  by (auto simp: record_grant_eq grants.mem_grant grants.mem_revoke grants.inv_revoke
      intro: grants.inv_grant split: if_splits)

lemma record_grant_frame:
  "record_grant e p st = Some st' \<Longrightarrow>
     al_list st' = al_list st \<and> al_default_root st' = al_default_root st \<and>
     al_default_non_root st' = al_default_non_root st"
  by (auto simp: record_grant_def Let_def dest: arr_push_frame split: if_splits)

lemma record_grant_None:
  "record_grant e p st = None \<longleftrightarrow>
     \<not> low_uid (ap_current_uid p) \<and> ap_allow_su p \<and> al_ptr st \<ge> ALLOW_ARR_SIZE"
  by (auto simp: record_grant_def arr_push_def Let_def)

subsection \<open>\<open>ksu_set_app_profile\<close>\<close>

text \<open>The list after the walk: the profile overrides its node or is appended.\<close>

definition placed :: "app_profile \<Rightarrow> app_profile list \<Rightarrow> app_profile list" where
  "placed p ps = (case override_profile p ps of Some l \<Rightarrow> l | None \<Rightarrow> ps @ [p])"

abbreviation finish :: "app_profile \<Rightarrow> bool \<Rightarrow> allow_state \<Rightarrow> allow_state" where
  "finish p persist st \<equiv>
     (if persist then snd (persistent_allow_list (cache_defaults p st)) else cache_defaults p st)"

lemma set_app_profile_cases:
  assumes "ksu_set_app_profile e p persist st = (r, st')"
  obtains (invalid) "\<not> profile_valid (Some p)" "\<not> r" "st' = st"
  | (no_node) "override_profile p (al_list st) = None" "\<not> se_node_alloc e" "\<not> r" "st' = st"
  | (full) "profile_valid (Some p)"
      "record_grant e p (st\<lparr>al_list := placed p (al_list st)\<rparr>) = None" "\<not> r"
      "st' = st\<lparr>al_list := placed p (al_list st)\<rparr>"
  | (set) st1 where "profile_valid (Some p)"
      "record_grant e p (st\<lparr>al_list := placed p (al_list st)\<rparr>) = Some st1" "r"
      "st' = finish p persist st1"
proof (cases "profile_valid (Some p)")
  case False
  with assms have "\<not> r" "st' = st" by (simp_all add: ksu_set_app_profile_def)
  with False show ?thesis by (rule invalid)
next
  case valid: True
  let ?st = "st\<lparr>al_list := placed p (al_list st)\<rparr>"
  show ?thesis
  proof (cases "override_profile p (al_list st) = None \<and> \<not> se_node_alloc e")
    case True
    with assms valid have "\<not> r" "st' = st" by (simp_all add: ksu_set_app_profile_def)
    with conjunct1 [OF True] conjunct2 [OF True] show ?thesis by (rule no_node)
  next
    case False
    then have out: "set_app_profile_out e p persist ?st = (r, st')"
      using assms valid
      by (cases "override_profile p (al_list st)") (simp_all add: ksu_set_app_profile_def placed_def)
    show ?thesis
    proof (cases "record_grant e p ?st")
      case None
      with out have "\<not> r" "st' = ?st" by (simp_all add: set_app_profile_out_def)
      with valid None show ?thesis by (rule full)
    next
      case (Some st1)
      with out have "r" "st' = finish p persist st1"
        by (simp_all add: set_app_profile_out_def Let_def)
      with valid Some show ?thesis by (rule set)
    qed
  qed
qed

lemma set_app_profile_True:
  assumes "ksu_set_app_profile e p persist st = (True, st')"
  obtains st1 where "profile_valid (Some p)"
    "record_grant e p (st\<lparr>al_list := placed p (al_list st)\<rparr>) = Some st1"
    "st' = finish p persist st1"
  using assms by (rule set_app_profile_cases) auto

lemma placed_mem: "p \<in> set (placed p ps)"
  by (auto simp: placed_def override_profile_def split: option.splits dest: update_first_mem)

lemma placed_subset: "set (placed p ps) \<subseteq> insert p (set ps)"
  by (auto simp: placed_def override_profile_def split: option.splits dest!: update_first_set)

lemma placed_others:
  "q \<in> set ps \<Longrightarrow> ap_current_uid q \<noteq> ap_current_uid p \<Longrightarrow> q \<in> set (placed p ps)"
  by (auto simp: placed_def override_profile_def split: option.splits dest!: update_first_split)

lemma set_app_profile_list:
  "ksu_set_app_profile e p persist st = (True, st') \<Longrightarrow> al_list st' = placed p (al_list st)"
  by (auto elim!: set_app_profile_True dest!: record_grant_frame simp: allow_frame)

lemma set_app_profile_grants:
  assumes "allow_wf st" and "tmp_ok (se_tmp_arr e)"
    and "ksu_set_app_profile e p persist st = (True, st')"
  shows "granted st' v \<longleftrightarrow> (if v = ap_current_uid p then ap_allow_su p else granted st v)"
    and "allow_wf st'"
proof -
  from assms(3) obtain st1 where
    g: "record_grant e p (st\<lparr>al_list := placed p (al_list st)\<rparr>) = Some st1"
      "st' = finish p persist st1" by (rule set_app_profile_True)
  have w: "allow_wf (st\<lparr>al_list := placed p (al_list st)\<rparr>)"
    using assms(1) by (simp add: allow_frame)
  have "granted st' v = granted st1 v" by (simp add: g(2) allow_frame)
  then show "granted st' v \<longleftrightarrow> (if v = ap_current_uid p then ap_allow_su p else granted st v)"
    by (simp only: record_grant_grants(1) [OF w assms(2) g(1)] allow_frame)
  show "allow_wf st'"
    using record_grant_grants(2) [OF w assms(2) g(1)] g(2) by (simp add: allow_frame)
qed

subsection \<open>The invariants of the list\<close>

definition profile_id :: "app_profile \<Rightarrow> uid_t \<times> string" where
  "profile_id p = (ap_current_uid p, cstr (ap_key p))"

definition allow_sound :: "allow_state \<Rightarrow> bool" where
  "allow_sound st \<longleftrightarrow>
     (\<forall>u. granted st u \<longrightarrow> (\<exists>p \<in> set (al_list st). ap_current_uid p = u \<and> ap_allow_su p))"

definition allow_inv :: "allow_state \<Rightarrow> bool" where
  "allow_inv st \<longleftrightarrow> allow_wf st \<and> distinct (map profile_id (al_list st)) \<and> allow_sound st"

lemma override_profile_alt:
  "override_profile p = update_first (\<lambda>q. profile_id q = profile_id p) p"
  by (auto simp: override_profile_def profile_id_def strcmp_eq_def fun_eq_iff
      intro!: arg_cong [where f = "\<lambda>P. update_first P p xs" for xs])

lemma placed_distinct:
  assumes "distinct (map profile_id ps)"
  shows "distinct (map profile_id (placed p ps))"
proof (cases "override_profile p ps")
  case None
  then have "profile_id p \<notin> profile_id ` set ps"
    by (auto simp: override_profile_alt update_first_None_iff)
  with None assms show ?thesis by (simp add: placed_def)
next
  case (Some l)
  then have "map profile_id l = map profile_id ps"
    unfolding override_profile_alt by (rule update_first_map_key) simp
  with Some assms show ?thesis by (simp add: placed_def)
qed

lemma set_app_profile_inv:
  assumes inv: "allow_inv st" and tmp: "tmp_ok (se_tmp_arr e)"
    and s: "ksu_set_app_profile e p persist st = (r, st')"
  shows "allow_inv st'"
  using s
proof (cases rule: set_app_profile_cases)
  case full
  from full(2) have ng: "ap_allow_su p" by (simp add: record_grant_None)
  have "\<exists>q \<in> set (al_list st'). ap_current_uid q = u \<and> ap_allow_su q" if "granted st' u" for u
  proof (cases "u = ap_current_uid p")
    case True
    then show ?thesis using full(4) ng placed_mem [of p "al_list st"] by auto
  next
    case False
    from that full(4) have "granted st u" by (simp add: allow_frame)
    with inv obtain q where "q \<in> set (al_list st)" "ap_current_uid q = u" "ap_allow_su q"
      by (auto simp: allow_inv_def allow_sound_def)
    with False full(4) show ?thesis by (auto intro: placed_others)
  qed
  then show ?thesis
    using inv full(4) by (auto simp: allow_inv_def allow_sound_def allow_frame placed_distinct)
next
  case (set st1)
  have s': "ksu_set_app_profile e p persist st = (True, st')" using s set by simp
  have l: "al_list st' = placed p (al_list st)" by (rule set_app_profile_list [OF s'])
  have wf: "allow_wf st" using inv by (simp add: allow_inv_def)
  have "\<exists>q \<in> set (al_list st'). ap_current_uid q = u \<and> ap_allow_su q" if "granted st' u" for u
  proof (cases "u = ap_current_uid p")
    case True
    then show ?thesis
      using that set_app_profile_grants(1) [OF wf tmp s', of u] l placed_mem [of p "al_list st"]
      by auto
  next
    case False
    with that have "granted st u" using set_app_profile_grants(1) [OF wf tmp s', of u] by simp
    with inv obtain q where "q \<in> set (al_list st)" "ap_current_uid q = u" "ap_allow_su q"
      by (auto simp: allow_inv_def allow_sound_def)
    with False l show ?thesis by (auto intro: placed_others)
  qed
  then show ?thesis
    using inv set_app_profile_grants(2) [OF wf tmp s'] l
    by (auto simp: allow_inv_def allow_sound_def placed_distinct)
qed (use inv in auto)

subsection \<open>\<open>ksu_prune_allowlist\<close>\<close>

definition keeps :: "(uid_t \<Rightarrow> cbuf \<Rightarrow> bool) \<Rightarrow> app_profile \<Rightarrow> bool" where
  "keeps valid p \<longleftrightarrow>
     ap_current_uid p = KSU_APP_PROFILE_PRESERVE_UID \<or> valid (ap_current_uid p) (ap_key p)"

lemma prune_revoke_grants:
  assumes "allow_wf st" and "tmp_ok t"
  shows "granted (prune_revoke t u st) v \<longleftrightarrow> v \<noteq> u \<and> granted st v"
    and "allow_wf (prune_revoke t u st)"
proof -
  from assms(2) obtain a where a: "t = Some a" "length a = ALLOW_ARR_SIZE" by (rule tmp_okE)
  let ?s = "if low_uid u then st\<lparr>al_bitmap := bitmap_clear u (al_bitmap st)\<rparr> else st"
  have w: "allow_wf ?s" using assms(1) by simp
  have r: "prune_revoke t u st = remove_uid_from_arr (Some (replicate ALLOW_ARR_SIZE 0)) u ?s"
    by (simp only: prune_revoke_def a remove_uid_from_arr_any [OF w a(2)])
  show "allow_wf (prune_revoke t u st)" unfolding r using w by (rule remove_uid_from_arr_live) simp
  show "granted (prune_revoke t u st) v \<longleftrightarrow> v \<noteq> u \<and> granted st v"
    unfolding r
    using w assms(1) arr.mem_revoke [OF w, where g = 0 and u = u and v = v]
    by (cases "low_uid u"; cases "low_uid v")
       (auto simp: granted_def bitmap_test_clear wf_bitmap_length)
qed

lemma prune_revoke_frame [allow_frame]:
  "al_list (prune_revoke t u st) = al_list st"
  "al_default_root (prune_revoke t u st) = al_default_root st"
  "al_default_non_root (prune_revoke t u st) = al_default_non_root st"
  "al_save_pending (prune_revoke t u st) = al_save_pending st"
  by (simp_all add: prune_revoke_def)

lemma prune_loop_spec:
  assumes "\<And>k. tmp_ok (tmps k)"
  shows "allow_wf st \<Longrightarrow> prune_loop valid tmps k ps st m = (kept, st', m') \<Longrightarrow>
    kept = filter (keeps valid) ps \<and> allow_wf st' \<and> m' = (m \<or> (\<exists>p \<in> set ps. \<not> keeps valid p)) \<and>
    (\<forall>u. granted st' u \<longleftrightarrow>
       granted st u \<and> (\<forall>p \<in> set ps. ap_current_uid p = u \<longrightarrow> keeps valid p)) \<and>
    al_list st' = al_list st \<and> al_default_root st' = al_default_root st \<and>
    al_default_non_root st' = al_default_non_root st"
proof (induction ps arbitrary: k st m kept)
  case (Cons p ps)
  show ?case
  proof (cases "keeps valid p")
    case True
    then obtain kept1 where "prune_loop valid tmps k ps st m = (kept1, st', m')" "kept = p # kept1"
      using Cons.prems by (auto simp: keeps_def Let_def split: prod.splits)
    with Cons.IH [of st k m kept1] Cons.prems(1) True show ?thesis by auto
  next
    case False
    then have "prune_loop valid tmps (Suc k) ps (prune_revoke (tmps k) (ap_current_uid p) st) True =
        (kept, st', m')"
      using Cons.prems by (simp add: keeps_def Let_def)
    from Cons.IH [OF prune_revoke_grants(2) [OF Cons.prems(1) assms] this] False
      prune_revoke_grants(1) [OF Cons.prems(1) assms]
    show ?thesis by (auto simp: allow_frame)
  qed
qed auto

lemma prune_spec:
  fixes valid :: "uid_t \<Rightarrow> cbuf \<Rightarrow> bool"
  assumes "\<And>k. tmp_ok (tmps k)" and "allow_wf st"
  defines "st' \<equiv> ksu_prune_allowlist valid tmps st"
  shows "al_list st' = filter (keeps valid) (al_list st)"
    and "granted st' u \<longleftrightarrow>
      granted st u \<and> (\<forall>p \<in> set (al_list st). ap_current_uid p = u \<longrightarrow> keeps valid p)"
    and "allow_wf st'"
proof -
  obtain kept s m where l: "prune_loop valid tmps 0 (al_list st) st False = (kept, s, m)"
    by (metis prod_cases3)
  from prune_loop_spec [OF assms(1,2) l]
  have *: "kept = filter (keeps valid) (al_list st)" "allow_wf s"
    "\<forall>u. granted s u \<longleftrightarrow> granted st u \<and>
      (\<forall>p \<in> set (al_list st). ap_current_uid p = u \<longrightarrow> keeps valid p)" by blast+
  show "al_list st' = filter (keeps valid) (al_list st)"
    using * l by (simp add: st'_def ksu_prune_allowlist_def Let_def allow_frame)
  show "granted st' u \<longleftrightarrow>
      granted st u \<and> (\<forall>p \<in> set (al_list st). ap_current_uid p = u \<longrightarrow> keeps valid p)"
    using * l by (simp add: st'_def ksu_prune_allowlist_def Let_def allow_frame)
  show "allow_wf st'"
    using * l by (simp add: st'_def ksu_prune_allowlist_def Let_def allow_frame)
qed

lemma prune_inv:
  assumes "\<And>k. tmp_ok (tmps k)" and "allow_inv st"
  shows "allow_inv (ksu_prune_allowlist valid tmps st)"
proof -
  have w: "allow_wf st" using assms(2) by (simp add: allow_inv_def)
  note ps = prune_spec [OF assms(1) w, of valid]
  have "allow_sound (ksu_prune_allowlist valid tmps st)"
    using assms(2) unfolding allow_inv_def allow_sound_def ps by auto
  with assms(2) show ?thesis
    by (simp add: allow_inv_def ps distinct_map_filter)
qed

end
