(* ===== verification/Profile_Bytes.thy ===== *)
theory Profile_Bytes
  imports Ksu_Types
begin

text \<open>
  The memory image of \<open>struct app_profile\<close> on the 64-bit little-endian target: what the save
  path of \<^verbatim>\<open>allowlist.c\<close> writes to the file and the load path reads back. The 776 bytes are
  the fields at their offsets with the padding the ABI inserts; the padding bytes are whatever
  the memory held, a parameter.
\<close>

subsection \<open>Integers and characters\<close>

fun le_bytes :: "nat \<Rightarrow> 'a::len word \<Rightarrow> u8 list" where
  "le_bytes 0 w = []"
| "le_bytes (Suc n) w = ucast w # le_bytes n (drop_bit 8 w)"

fun of_le :: "u8 list \<Rightarrow> 'a::len word" where
  "of_le [] = 0"
| "of_le (b # bs) = ucast b OR push_bit 8 (of_le bs)"

definition chr_byte :: "char \<Rightarrow> u8" where
  "chr_byte c = word_of_nat (of_char c)"

definition byte_chr :: "u8 \<Rightarrow> char" where
  "byte_chr b = char_of (unat b)"

definition bool_byte :: "bool \<Rightarrow> u8" where
  "bool_byte b = (if b then 1 else 0)"

lemma length_le_bytes [simp]: "length (le_bytes n w) = n"
  by (induction n arbitrary: w) auto

lemma bit_of_le_bytes: "bit (of_le (le_bytes n w) :: 'a::len word) i \<longleftrightarrow> i < 8 * n \<and> bit (w :: 'a word) i"
proof (induction n arbitrary: w i)
  case (Suc n)
  have "bit w i \<Longrightarrow> i < LENGTH('a)" for i by (rule bit_imp_le_length)
  then show ?case
    by (auto simp: Suc bit_simps)
qed simp

lemma of_le_bytes: "LENGTH('a) \<le> 8 * n \<Longrightarrow> of_le (le_bytes n w) = (w :: 'a::len word)"
  by (rule bit_word_eqI) (auto simp: bit_of_le_bytes dest: bit_imp_le_length)

lemma byte_chr_byte [simp]: "byte_chr (chr_byte c) = c"
proof -
  have "(of_char c :: nat) < 256" by simp
  then have "unat (word_of_nat (of_char c) :: u8) = of_char c"
    by (simp add: unat_of_nat)
  then show ?thesis by (simp add: byte_chr_def chr_byte_def)
qed

lemma map_byte_chr [simp]: "map (byte_chr \<circ> chr_byte) s = s"
  by (induction s) auto

lemma bool_byte_nz [simp]: "bool_byte b \<noteq> 0 \<longleftrightarrow> b"
  by (simp add: bool_byte_def)

subsection \<open>The layout\<close>

definition sub :: "nat \<Rightarrow> nat \<Rightarrow> 'a list \<Rightarrow> 'a list" where
  "sub off n bs = take n (drop off bs)"

definition padding :: "(nat \<Rightarrow> u8) \<Rightarrow> nat \<Rightarrow> nat \<Rightarrow> u8 list" where
  "padding pad off n = map pad [off..<off + n]"

lemma length_padding [simp]: "length (padding pad off n) = n"
  by (simp add: padding_def)

definition root_profile_bytes :: "(nat \<Rightarrow> u8) \<Rightarrow> root_profile \<Rightarrow> u8 list" where
  "root_profile_bytes pad r =
     le_bytes 4 (rp_uid r) @ le_bytes 4 (rp_gid r) @ le_bytes 4 (rp_groups_count r) @
     concat (map (le_bytes 4) (rp_groups r)) @ padding pad 676 4 @
     le_bytes 8 (cap_effective r) @ le_bytes 8 (cap_permitted r) @ le_bytes 8 (cap_inheritable r) @
     map chr_byte (rp_selinux_domain r) @ le_bytes 4 (rp_namespaces r) @ padding pad 772 4"

definition app_profile_bytes :: "(nat \<Rightarrow> u8) \<Rightarrow> app_profile \<Rightarrow> u8 list" where
  "app_profile_bytes pad p =
     le_bytes 4 (ap_version p) @ map chr_byte (ap_key p) @ le_bytes 4 (ap_current_uid p) @
     [bool_byte (ap_allow_su p)] @ padding pad 265 7 @
     [bool_byte (rp_use_default (ap_config p))] @
     map chr_byte (rp_template_name (ap_config p)) @ padding pad 529 7 @
     root_profile_bytes pad (rp_profile (ap_config p))"

definition sizeof_app_profile :: nat where
  "sizeof_app_profile = 776"

definition root_profile_of :: "u8 list \<Rightarrow> root_profile" where
  "root_profile_of bs =
     \<lparr>rp_uid = of_le (sub 0 4 bs), rp_gid = of_le (sub 4 4 bs),
      rp_groups_count = of_le (sub 8 4 bs),
      rp_groups = map (\<lambda>i. of_le (sub (12 + 4 * i) 4 bs)) [0..<KSU_MAX_GROUPS],
      cap_effective = of_le (sub 144 8 bs), cap_permitted = of_le (sub 152 8 bs),
      cap_inheritable = of_le (sub 160 8 bs),
      rp_selinux_domain = map byte_chr (sub 168 KSU_SELINUX_DOMAIN bs),
      rp_namespaces = of_le (sub 232 4 bs)\<rparr>"

definition app_profile_of :: "u8 list \<Rightarrow> app_profile" where
  "app_profile_of bs =
     \<lparr>ap_version = of_le (sub 0 4 bs), ap_key = map byte_chr (sub 4 KSU_MAX_PACKAGE_NAME bs),
      ap_current_uid = of_le (sub 260 4 bs), ap_allow_su = (bs ! 264 \<noteq> 0),
      ap_config = \<lparr>rp_use_default = (bs ! 272 \<noteq> 0),
        rp_template_name = map byte_chr (sub 273 KSU_MAX_PACKAGE_NAME bs),
        rp_profile = root_profile_of (drop 536 bs)\<rparr>\<rparr>"

subsection \<open>Round trip\<close>

lemma sub_append_skip: "length xs \<le> off \<Longrightarrow> sub off n (xs @ ys) = sub (off - length xs) n ys"
  by (simp add: sub_def)

lemma sub_Cons_skip: "0 < off \<Longrightarrow> sub off n (x # xs) = sub (off - 1) n xs"
  by (cases off) (simp_all add: sub_def)

lemma sub_append_take: "length xs = n \<Longrightarrow> sub 0 n (xs @ ys) = xs"
  by (simp add: sub_def)

lemma length_groups: "length (concat (map (le_bytes 4) gs)) = 4 * length (gs :: u32 list)"
  by (induction gs) auto

lemma length_root_profile_bytes: "wf_root_profile r \<Longrightarrow> length (root_profile_bytes pad r) = 240"
  by (simp add: root_profile_bytes_def wf_root_profile_def length_groups del: length_concat)

lemma length_app_profile_bytes: "wf_profile p \<Longrightarrow> length (app_profile_bytes pad p) = sizeof_app_profile"
  by (simp add: app_profile_bytes_def wf_profile_def sizeof_app_profile_def
      length_root_profile_bytes)

lemma sub_groups:
  "i < length gs \<Longrightarrow> sub (4 * i) 4 (concat (map (le_bytes 4) gs) @ ys) = le_bytes 4 (gs ! i :: u32)"
proof (induction gs arbitrary: i)
  case (Cons g gs)
  show ?case
  proof (cases i)
    case 0
    then show ?thesis by (simp add: sub_append_take)
  next
    case (Suc j)
    with Cons.IH [of j] Cons.prems show ?thesis by (simp add: sub_append_skip)
  qed
qed simp

lemma root_profile_roundtrip:
  assumes "wf_root_profile r"
  shows "root_profile_of (root_profile_bytes pad r @ rest) = r"
proof -
  have l: "length (rp_groups r) = 32" "length (rp_selinux_domain r) = 64"
    using assms by (simp_all add: wf_root_profile_def)
  have g: "map (\<lambda>i. of_le (sub (12 + 4 * i) 4 (root_profile_bytes pad r @ rest))) [0..<32] = rp_groups r"
  proof (rule nth_equalityI)
    fix i assume "i < length (map (\<lambda>i. of_le (sub (12 + 4 * i) 4 (root_profile_bytes pad r @ rest)) :: u32) [0..<32])"
    then have i: "i < 32" by simp
    have "sub (12 + 4 * i) 4 (root_profile_bytes pad r @ rest) = le_bytes 4 (rp_groups r ! i)"
      using i l sub_groups [of i "rp_groups r"]
      by (simp add: root_profile_bytes_def sub_append_skip)
    with i show "map (\<lambda>i. of_le (sub (12 + 4 * i) 4 (root_profile_bytes pad r @ rest))) [0..<32] ! i = rp_groups r ! i"
      by (simp add: of_le_bytes)
  qed (simp add: l)
  show ?thesis
    unfolding root_profile_of_def g
    by (simp add: root_profile_bytes_def sub_append_skip sub_append_take l length_groups of_le_bytes
        del: length_concat)
qed

lemma app_profile_roundtrip:
  assumes "wf_profile p"
  shows "app_profile_of (app_profile_bytes pad p) = p"
proof -
  have l: "length (ap_key p) = 256" "length (rp_template_name (ap_config p)) = 256"
    "wf_root_profile (rp_profile (ap_config p))"
    using assms by (simp_all add: wf_profile_def)
  have d: "drop 536 (app_profile_bytes pad p) = root_profile_bytes pad (rp_profile (ap_config p))"
    by (simp add: app_profile_bytes_def l)
  show ?thesis
    using root_profile_roundtrip [OF l(3), of pad "[]"]
    unfolding app_profile_of_def d
    by (simp add: app_profile_bytes_def sub_append_skip sub_Cons_skip sub_append_take l of_le_bytes
        nth_append)
qed

end
