(* ===== verification/Apk_Sign.thy ===== *)
theory Apk_Sign
  imports Profile_Bytes
begin

text \<open>
  \<^verbatim>\<open>apk_sign.c\<close>: is a file an APK signed by a known manager? The parser walks the APK signing
  block with unchecked reads, so a read that fails or is short leaves the tail of its destination
  as it was; \<open>rd\<close> says so. The file, the seek, the digest and the hex encoding are parameters.
  The position is the 64-bit \<open>loff_t\<close>, with the source's wrap-around.
\<close>

subsection \<open>Reading\<close>

record apk_io =
  io_opened :: bool
  io_read :: "int \<Rightarrow> nat \<Rightarrow> u8 list"
  io_seek_end :: "int \<Rightarrow> int"
  io_sha256 :: "u8 list \<Rightarrow> u8 list option"
  io_bin2hex :: "u8 list \<Rightarrow> string"
  io_cert_junk :: "u8 list"
  io_header_junk :: "u8 list"
  io_name_junk :: "u64 \<Rightarrow> u8 list"

definition rd :: "apk_io \<Rightarrow> nat \<Rightarrow> u8 list \<Rightarrow> u64 \<Rightarrow> u8 list \<times> u64" where
  "rd io n old pos =
     (let bs = io_read io (sint pos) n
      in (bs @ drop (length bs) old, pos + word_of_nat (length bs)))"

definition u32_of :: "u8 list \<Rightarrow> u32" where "u32_of bs = of_le bs"
definition u64_of :: "u8 list \<Rightarrow> u64" where "u64_of bs = of_le bs"
definition u16_of :: "u8 list \<Rightarrow> u16" where "u16_of bs = of_le bs"

subsection \<open>\<open>check_block\<close>\<close>

text \<open>The result with the new \<open>size4\<close>, position and offset.\<close>

definition check_cert :: "apk_io \<Rightarrow> u32 \<Rightarrow> string \<Rightarrow> u8 list \<Rightarrow> bool" where
  "check_cert io expected_size expected_sha256 cert =
     (case io_sha256 io cert of
        None \<Rightarrow> False
      | Some digest \<Rightarrow> strcmp_eq expected_sha256 (io_bin2hex io digest))"

definition check_block ::
  "apk_io \<Rightarrow> u32 \<Rightarrow> string \<Rightarrow> u8 list \<Rightarrow> u64 \<Rightarrow> u32 \<Rightarrow> bool \<times> u8 list \<times> u64 \<times> u32" where
  "check_block io expected_size expected_sha256 size4 pos offset =
     (let (size4, pos) = rd io 4 size4 pos;
          (size4, pos) = rd io 4 size4 pos;
          (size4, pos) = rd io 4 size4 pos;
          offset = offset + 4 * 3;
          (size4, pos) = rd io 4 size4 pos;
          pos = pos + ucast (u32_of size4);
          offset = offset + (4 + u32_of size4);
          (size4, pos) = rd io 4 size4 pos;
          (size4, pos) = rd io 4 size4 pos;
          offset = offset + 4 * 2
      in if u32_of size4 = expected_size then
           let offset = offset + u32_of size4 in
           if u32_of size4 > 4096 then (False, size4, pos, offset)
           else let n = unat (u32_of size4); (cert, pos) = rd io n (io_cert_junk io) pos
                in (check_cert io expected_size expected_sha256 (take n cert), size4, pos, offset)
         else (False, size4, pos, offset))"

subsection \<open>\<open>has_v1_signature_file\<close>\<close>

definition MANIFEST :: string where "MANIFEST = ''META-INF/MANIFEST.MF''"

definition zip_signature :: "u8 list \<Rightarrow> u32" where "zip_signature h = of_le (sub 0 4 h)"
definition zip_compressed_size :: "u8 list \<Rightarrow> u32" where "zip_compressed_size h = of_le (sub 18 4 h)"
definition zip_file_name_length :: "u8 list \<Rightarrow> u16" where "zip_file_name_length h = of_le (sub 26 2 h)"
definition zip_extra_field_length :: "u8 list \<Rightarrow> u16" where "zip_extra_field_length h = of_le (sub 28 2 h)"

text \<open>The packed header has 30 bytes; \<open>fileName\<close> is not initialised, and \<open>io_name_junk\<close> is what its slot
  holds before the read at a position. The loop ends when a read comes up short, so on an arbitrary
  reader it may run forever.\<close>

partial_function (option) v1_loop :: "apk_io \<Rightarrow> u8 list \<Rightarrow> u64 \<Rightarrow> bool option" where
  "v1_loop io old pos =
     (let (header, pos1) = rd io 30 old pos in
      if length (io_read io (sint pos) 30) \<noteq> 30 then Some False
      else if zip_signature header \<noteq> 0x04034b50 then Some False
      else let skip = ucast (ucast (zip_extra_field_length header) + zip_compressed_size header) in
        if unat (zip_file_name_length header) = length MANIFEST then
          let (name, pos2) = rd io (length MANIFEST) (io_name_junk io pos1) pos1 in
          if strncmp_eq MANIFEST (map byte_chr (take (length MANIFEST) name)) (length MANIFEST)
          then Some True
          else v1_loop io header (pos2 + skip)
        else v1_loop io header (pos1 + ucast (zip_file_name_length header) + skip))"

definition has_v1_signature_file :: "apk_io \<Rightarrow> bool option" where
  "has_v1_signature_file io = v1_loop io (io_header_junk io) 0"

subsection \<open>\<open>check_v2_signature\<close>\<close>

text \<open>The search for the end of the central directory: the position behind its magic.\<close>

function eocd_loop :: "apk_io \<Rightarrow> u8 list \<Rightarrow> u8 list \<Rightarrow> nat \<Rightarrow> (u8 list \<times> u64) option" where
  "eocd_loop io n2 size4 i =
     (let pos = word_of_int (io_seek_end io (- int i - 2));
          (n2, pos) = rd io 2 n2 pos;
          (size4', pos') = rd io 4 size4 (pos - 22) in
      if unat (u16_of n2) = i \<and> (u32_of size4' XOR 0xcafebabe) = 0xccfbf1ee then Some (size4', pos')
      else if i \<ge> 0xffff then None
      else eocd_loop io n2 (if unat (u16_of n2) = i then size4' else size4) (Suc i))"
  by pat_completeness auto
termination
  by (relation "measure (\<lambda>(io, n2, size4, i). 0xffff - i)") auto

declare eocd_loop.simps [simp del]

record v2_state =
  v2_signing_valid :: bool
  v2_signing_blocks :: nat
  v3_1_signing_exist :: bool
  v2_size4 :: "u8 list"

text \<open>The loop over the id-value pairs; the first argument counts the rounds left of ten.\<close>

fun pairs_loop ::
  "nat \<Rightarrow> apk_io \<Rightarrow> u32 \<Rightarrow> string \<Rightarrow> u64 \<Rightarrow> u8 list \<Rightarrow> u8 list \<Rightarrow> u64 \<Rightarrow> v2_state \<Rightarrow> v2_state" where
  "pairs_loop 0 io expected_size expected_sha256 size_of_block size8 ident pos v = v"
| "pairs_loop (Suc k) io expected_size expected_sha256 size_of_block size8 ident pos v =
     (let (size8, pos) = rd io 8 size8 pos in
      if u64_of size8 = size_of_block then v
      else let (ident, pos) = rd io 4 ident pos;
               next = (\<lambda>v pos offset. pairs_loop k io expected_size expected_sha256 size_of_block size8 ident
                         (pos + (u64_of size8 - ucast (offset :: u32))) v) in
        if u32_of ident = 0x7109871a then
          let (ok, size4, pos, offset) = check_block io expected_size expected_sha256 (v2_size4 v) pos 4
          in next (v\<lparr>v2_signing_blocks := v2_signing_blocks v + 1, v2_signing_valid := ok, v2_size4 := size4\<rparr>)
               pos offset
        else if u32_of ident = 0xf05368c0 then
          if v2_signing_valid v then next (v\<lparr>v2_signing_blocks := v2_signing_blocks v + 1\<rparr>) pos 4
          else let (ok, size4, pos, offset) = check_block io expected_size expected_sha256 (v2_size4 v) pos 4
            in next (v\<lparr>v2_signing_blocks := v2_signing_blocks v + 1, v2_signing_valid := ok, v2_size4 := size4\<rparr>)
                 pos offset
        else if u32_of ident = 0x1b93ad61 then next (v\<lparr>v3_1_signing_exist := True\<rparr>) pos 4
        else next v pos 4)"

text \<open>From the directory offset on; \<open>b0\<close> is the zeroed buffer of 17 bytes. The arithmetic on
  \<open>size4\<close> is of 32 bits, then of 64.\<close>

definition check_v2_block :: "apk_io \<Rightarrow> u32 \<Rightarrow> string \<Rightarrow> u8 list \<Rightarrow> u64 \<Rightarrow> v2_state option" where
  "check_v2_block io expected_size expected_sha256 size4 pos =
     (let (size4, pos) = rd io 4 size4 (pos + 12);
          (size8, pos) = rd io 8 (replicate 8 0) (ucast (u32_of size4 - 0x18));
          (buffer, pos) = rd io 16 (replicate 17 0) pos in
      if \<not> strcmp_eq (map byte_chr buffer) ''APK Sig Block 42'' then None
      else let (size_of_block, pos) = rd io 8 (replicate 8 0) (ucast (u32_of size4) - (u64_of size8 + 8)) in
        if u64_of size_of_block \<noteq> u64_of size8 then None
        else Some (pairs_loop 10 io expected_size expected_sha256 (u64_of size_of_block) size8
               (replicate 4 0) pos
               \<lparr>v2_signing_valid = False, v2_signing_blocks = 0, v3_1_signing_exist = False,
                v2_size4 = size4\<rparr>))"

definition check_v2_signature :: "apk_io \<Rightarrow> u32 \<Rightarrow> string \<Rightarrow> bool option" where
  "check_v2_signature io expected_size expected_sha256 =
     (if \<not> io_opened io then Some False
      else case eocd_loop io (replicate 2 0) (replicate 4 0) 0 of
        None \<Rightarrow> Some False
      | Some (size4, pos) \<Rightarrow>
          (case check_v2_block io expected_size expected_sha256 size4 pos of
             None \<Rightarrow> Some False
           | Some v \<Rightarrow>
               let valid = (v2_signing_blocks v = 1 \<and> v2_signing_valid v) in
               if valid then
                 (case has_v1_signature_file io of
                    None \<Rightarrow> None
                  | Some True \<Rightarrow> Some False
                  | Some False \<Rightarrow> Some (\<not> v3_1_signing_exist v))
               else Some False))"

definition known_managers :: "(u32 \<times> string) list" where
  "known_managers =
     [(0x33b, ''c371061b19d8c7d7d6133c6a9bafe198fa944e50c1b31c9d8daa8d7f1fc2d2d6''),
      (0x180, ''7e0c6d7278a3bb8e364e0fcba95afaf3666cf5ff3c245a3b63c8833bd0445cc4''),
      (0x396, ''f415f4ed9435427e1fdf7f1fccd4dbc07b3d6b8751e4dbcec6f19671f427870b''),
      (0x363, ''4359c171f32543394cbc23ef908c4bb94cad7c8087002ba164c8230948c21549''),
      (0x35c, ''947ae944f3de4ed4c21a7e4f7953ecf351bfa2b36239da37a34111ad29993eef''),
      (0x39b, ''593d4ce870c02468639efeef631e07ca4d852d63f154be56706229f9a5be0800''),
      (0x375, ''484fcba6e6c43b1fb09700633bf2fb4758f13cb0b2f4457b80d075084b26c588'')]"

text \<open>The \<open>||\<close> chain: the first match decides.\<close>

fun any_manager :: "apk_io \<Rightarrow> (u32 \<times> string) list \<Rightarrow> bool option" where
  "any_manager io [] = Some False"
| "any_manager io ((sz, hash) # ms) =
     (case check_v2_signature io sz hash of
        None \<Rightarrow> None
      | Some True \<Rightarrow> Some True
      | Some False \<Rightarrow> any_manager io ms)"

definition ksu_is_manager_apk :: "apk_io \<Rightarrow> u32 \<Rightarrow> string \<Rightarrow> bool option" where
  "ksu_is_manager_apk io expected_manager_size expected_manager_hash =
     any_manager io ((expected_manager_size, expected_manager_hash) # known_managers)"

end
