(* ===== verification/Throne.thy ===== *)
theory Throne
  imports Allowlist_Lemmas Apk_Sign "HOL-Library.Multiset_Order"
begin

text \<open>
  \<^verbatim>\<open>throne_tracker.c\<close>: after a change of the installed packages the driver lists them, looks for
  the manager's APK when no listed package has the manager's uid, and prunes the allowlist. The
  file system, the allocator and the kernel's hash and number parser are parameters. A
  result \<open>None\<close> is the NULL dereference after a failed \<open>kmalloc\<close> of a cache entry, or an APK check
  that does not return.
\<close>

subsection \<open>State\<close>

record uid_data =
  ud_uid :: u32
  ud_package :: cbuf

record throne =
  th_manager_uid :: uid_t
  locked_manager_uid :: uid_t
  apk_path_hash_list :: "(u32 \<times> bool) list"
  pkg_lock :: int
  scan_lock :: int

text \<open>A directory as \<open>iterate_dir\<close> shows it: the magic of its file system, and names with their types.\<close>

type_synonym dir_entry = "string \<times> nat"

abbreviation DT_DIR :: nat where "DT_DIR \<equiv> 4"
abbreviation DATA_PATH_LEN :: nat where "DATA_PATH_LEN \<equiv> 384"
abbreviation USER_DATA_PATH_LEN :: nat where "USER_DATA_PATH_LEN \<equiv> 288"

record throne_env =
  te_manager_package :: "string option"
  te_manager_size :: u32
  te_manager_hash :: string
  te_apk :: "string \<Rightarrow> apk_io"
  te_full_name_hash :: "string \<Rightarrow> u32"
  te_dir :: "string \<Rightarrow> (u64 \<times> dir_entry list) option"
  te_path_alloc :: "string \<Rightarrow> bool"
  te_hash_alloc :: "string \<Rightarrow> bool"
  te_pkg_junk :: cbuf

record scan_env =
  sc_user_data :: "(int, dir_entry list \<times> int) sum"
  sc_kern_path :: "string \<Rightarrow> int"
  sc_getattr :: "string \<Rightarrow> (int, u32) sum"
  sc_uid_alloc :: "string \<Rightarrow> bool"
  sc_packages :: "string option"
  sc_kstrtou32 :: "string \<Rightarrow> u32 option"
  sc_line_alloc :: "nat \<Rightarrow> bool"
  sc_buf_junk :: cbuf

subsection \<open>\<open>crown_manager\<close>\<close>

text \<open>The scan for the last two slashes, from index \<open>i - 1\<close> down.\<close>

fun slash_loop :: "cbuf \<Rightarrow> nat \<Rightarrow> nat option \<Rightarrow> nat option \<times> nat option" where
  "slash_loop path 0 last_slash = (last_slash, None)"
| "slash_loop path (Suc i) last_slash =
     (if path ! i = CHR ''/'' then
        (case last_slash of
           None \<Rightarrow> slash_loop path i (Some i)
         | Some l \<Rightarrow> (Some l, Some i))
      else slash_loop path i last_slash)"

fun c_strchr :: "string \<Rightarrow> char \<Rightarrow> nat option" where
  "c_strchr [] c = None"
| "c_strchr (x # xs) c = (if x = c then Some 0 else map_option Suc (c_strchr xs c))"

definition get_pkg_from_apk_path :: "cbuf \<Rightarrow> cbuf \<Rightarrow> cbuf option" where
  "get_pkg_from_apk_path pkg path =
     (let len = c_strlen path in
      if len \<ge> KSU_MAX_PACKAGE_NAME \<or> len < 1 then None
      else case slash_loop path len None of
        (Some last_slash, Some second_last_slash) \<Rightarrow>
          (case c_strchr (drop second_last_slash (cstr path)) CHR ''-'' of
             None \<Rightarrow> None
           | Some k \<Rightarrow>
               let last_hyphen = second_last_slash + k; pkg_len = int last_hyphen - int second_last_slash - 1 in
               if last_hyphen > last_slash then None
               else if pkg_len \<ge> int KSU_MAX_PACKAGE_NAME \<or> pkg_len \<le> 0 then None
               else Some ((c_strncpy pkg (drop (second_last_slash + 1) path) (nat pkg_len))[nat pkg_len := NUL]))
      | _ \<Rightarrow> None)"

definition crown :: "uid_data \<Rightarrow> throne \<Rightarrow> throne" where
  "crown np th =
     (let th1 = (if locked_manager_uid th \<noteq> KSU_INVALID_UID \<and> locked_manager_uid th \<noteq> ud_uid np
                 then th\<lparr>th_manager_uid := ksu_invalidate_manager_uid (th_manager_uid th),
                         locked_manager_uid := KSU_INVALID_UID\<rparr> else th)
      in th1\<lparr>th_manager_uid := ksu_set_manager_uid (th_manager_uid th1) (ud_uid np),
            locked_manager_uid := ud_uid np\<rparr>)"

definition crown_manager :: "throne_env \<Rightarrow> string \<Rightarrow> uid_data list \<Rightarrow> throne \<Rightarrow> throne" where
  "crown_manager e apk uid_list th =
     (case get_pkg_from_apk_path (te_pkg_junk e) apk of
        None \<Rightarrow> th
      | Some pkg \<Rightarrow>
          if (case te_manager_package e of
                Some name \<Rightarrow> \<not> strncmp_eq pkg name (length name + 1)
              | None \<Rightarrow> False) then th
          else case List.find (\<lambda>np. strncmp_eq (ud_package np) pkg KSU_MAX_PACKAGE_NAME) uid_list of
            Some np \<Rightarrow> crown np th
          | None \<Rightarrow> th)"

subsection \<open>Searching /data/app\<close>

record walk =
  wk_new :: "(string \<times> nat) list"
  wk_stop :: bool
  wk_throne :: throne

definition base_apk :: string where "base_apk = ''base.apk''"

text \<open>What \<open>my_actor\<close> does with a file named \<open>base.apk\<close>: skip it if its path's hash is cached, else
  check it.\<close>

definition check_apk :: "throne_env \<Rightarrow> uid_data list \<Rightarrow> string \<Rightarrow> walk \<Rightarrow> walk option" where
  "check_apk e uid_list dirpath w =
     (let th = wk_throne w; hash = te_full_name_hash e dirpath in
      case update_first (\<lambda>p. fst p = hash) (hash, True) (apk_path_hash_list th) of
        Some l \<Rightarrow> Some (w\<lparr>wk_throne := th\<lparr>apk_path_hash_list := l\<rparr>\<rparr>)
      | None \<Rightarrow>
          (case ksu_is_manager_apk (te_apk e dirpath) (te_manager_size e) (te_manager_hash e) of
             None \<Rightarrow> None
           | Some True \<Rightarrow>
               Some (w\<lparr>wk_throne := (crown_manager e dirpath uid_list th)\<lparr>apk_path_hash_list := []\<rparr>, wk_stop := True\<rparr>)
           | Some False \<Rightarrow>
               if \<not> te_hash_alloc e dirpath then None
               else Some (w\<lparr>wk_throne := th\<lparr>apk_path_hash_list := apk_path_hash_list th @ [(hash, True)]\<rparr>\<rparr>)))"

definition dot_name :: "string \<Rightarrow> bool" where
  "dot_name name \<longleftrightarrow> strncmp_eq name ''..'' (length name) \<or> strncmp_eq name ''.'' (length name)"

definition my_actor ::
  "throne_env \<Rightarrow> uid_data list \<Rightarrow> string \<Rightarrow> nat \<Rightarrow> dir_entry \<Rightarrow> walk \<Rightarrow> walk option" where
  "my_actor e uid_list parent_dir depth entry w =
     (let (name, d_type) = entry; namelen = length name; dirpath = parent_dir @ ''/'' @ name in
      if wk_stop w then Some w
      else if dot_name name then Some w
      else if d_type = DT_DIR \<and> namelen \<ge> 8 \<and> strncmp_eq name ''vmdl'' 4 \<and>
        strncmp_eq (drop (namelen - 4) name) ''.tmp'' 4 then Some w
      else if length dirpath \<ge> DATA_PATH_LEN then Some w
      else if d_type = DT_DIR \<and> depth > 0 then
        (if \<not> te_path_alloc e dirpath then Some w
         else Some (w\<lparr>wk_new := wk_new w @ [(dirpath, depth - 1)]\<rparr>))
      else if namelen = 8 \<and> strncmp_eq name base_apk namelen then check_apk e uid_list dirpath w
      else Some w)"

fun iterate_dir ::
  "throne_env \<Rightarrow> uid_data list \<Rightarrow> string \<Rightarrow> nat \<Rightarrow> dir_entry list \<Rightarrow> walk \<Rightarrow> walk option" where
  "iterate_dir e uid_list parent_dir depth [] w = Some w"
| "iterate_dir e uid_list parent_dir depth (x # xs) w =
     (case my_actor e uid_list parent_dir depth x w of
        None \<Rightarrow> None
      | Some w' \<Rightarrow> iterate_dir e uid_list parent_dir depth xs w')"

text \<open>One directory of the queue; the magic is that of the first directory opened that has one.\<close>

definition visit ::
  "throne_env \<Rightarrow> uid_data list \<Rightarrow> string \<times> nat \<Rightarrow> u64 \<Rightarrow> bool \<Rightarrow> throne \<Rightarrow> (u64 \<times> walk) option" where
  "visit e uid_list pos data_app_magic stop th =
     (let w = \<lparr>wk_new = [], wk_stop = stop, wk_throne = th\<rparr> in
      if stop then Some (data_app_magic, w)
      else case te_dir e (fst pos) of
        None \<Rightarrow> Some (data_app_magic, w)
      | Some (magic, entries) \<Rightarrow>
          if data_app_magic = 0 \<and> magic = 0 then Some (data_app_magic, w)
          else let data_app_magic = (if data_app_magic = 0 then magic else data_app_magic) in
            if magic \<noteq> data_app_magic then Some (data_app_magic, w)
            else map_option (Pair data_app_magic) (iterate_dir e uid_list (fst pos) (snd pos) entries w))"

lemma check_apk_new: "check_apk e uids p w = Some w' \<Longrightarrow> wk_new w' = wk_new w"
  by (auto simp: check_apk_def Let_def split: option.splits bool.splits if_splits)

lemma my_actor_new:
  "my_actor e uids parent depth x w = Some w' \<Longrightarrow>
   \<exists>qs. wk_new w' = wk_new w @ qs \<and> (\<forall>q \<in> set qs. snd q < depth)"
  by (auto simp: my_actor_def Let_def dest!: check_apk_new split: prod.splits if_splits)

lemma iterate_dir_new:
  "iterate_dir e uids parent depth xs w = Some w' \<Longrightarrow>
   \<exists>qs. wk_new w' = wk_new w @ qs \<and> (\<forall>q \<in> set qs. snd q < depth)"
proof (induction xs arbitrary: w)
  case (Cons x xs)
  then obtain w1 where "my_actor e uids parent depth x w = Some w1"
    "iterate_dir e uids parent depth xs w1 = Some w'" by (auto split: option.splits)
  with my_actor_new [of e uids parent depth x w w1] Cons.IH [of w1] show ?case by fastforce
qed simp

lemma visit_new: "visit e uids pos m stop th = Some (m', w') \<Longrightarrow> \<forall>q \<in> set (wk_new w'). snd q < snd pos"
  by (auto simp: visit_def Let_def dest!: iterate_dir_new split: option.splits prod.splits if_splits)

text \<open>One round of \<open>list_for_each_entry_safe\<close>: the successor of an entry is read before the entry is
  visited, so what the last one appends is left for the next round. The queue that is left, with
  magic, stop flag and state.\<close>

function walk_round ::
  "throne_env \<Rightarrow> uid_data list \<Rightarrow> (string \<times> nat) list \<Rightarrow> u64 \<Rightarrow> bool \<Rightarrow> throne \<Rightarrow>
     ((string \<times> nat) list \<times> u64 \<times> bool \<times> throne) option" where
  "walk_round e uid_list [] magic stop th = Some ([], magic, stop, th)"
| "walk_round e uid_list (pos # rest) magic stop th =
     (case visit e uid_list pos magic stop th of
        None \<Rightarrow> None
      | Some (magic', w) \<Rightarrow>
          if rest = [] then Some (wk_new w, magic', wk_stop w, wk_throne w)
          else walk_round e uid_list (rest @ wk_new w) magic' (wk_stop w) (wk_throne w))"
  by pat_completeness auto
termination
proof (relation "inv_image (mult less_than) (\<lambda>(e, uids, q, m, s, th). mset (map snd q))")
  show "wf (inv_image (mult less_than) (\<lambda>(e :: throne_env, uids :: uid_data list, q :: (string \<times> nat) list,
      m :: u64, s :: bool, th :: throne). mset (map snd q)))"
    by (intro wf_inv_image wf_mult) simp
next
  fix e :: throne_env and uids :: "uid_data list" and pos :: "string \<times> nat"
    and rest :: "(string \<times> nat) list" and magic stop th x m w
  assume "visit e uids pos magic stop th = Some x" "(m, w) = x" "rest \<noteq> []"
  then have "\<forall>q \<in> set (wk_new w). snd q < snd pos" using visit_new by blast
  then have "(mset (map snd rest) + mset (map snd (wk_new w)), mset (map snd rest) + {#snd pos#}) \<in> mult less_than"
    by (intro one_step_implies_mult) auto
  then show "((e, uids, rest @ wk_new w, m, wk_stop w, wk_throne w), (e, uids, pos # rest, magic, stop, th))
      \<in> inv_image (mult less_than) (\<lambda>(e, uids, q, m, s, th). mset (map snd q))"
    by (simp add: add.commute)
qed

text \<open>\<open>k\<close> rounds; the queue left is what the source would leak.\<close>

fun walk_rounds ::
  "nat \<Rightarrow> throne_env \<Rightarrow> uid_data list \<Rightarrow> (string \<times> nat) list \<Rightarrow> u64 \<Rightarrow> bool \<Rightarrow> throne \<Rightarrow>
     ((string \<times> nat) list \<times> throne) option" where
  "walk_rounds 0 e uid_list q magic stop th = Some (q, th)"
| "walk_rounds (Suc k) e uid_list q magic stop th =
     (case walk_round e uid_list q magic stop th of
        None \<Rightarrow> None
      | Some (q', magic', stop', th') \<Rightarrow> walk_rounds k e uid_list q' magic' stop' th')"

definition search_manager ::
  "throne_env \<Rightarrow> string \<Rightarrow> nat \<Rightarrow> uid_data list \<Rightarrow> throne \<Rightarrow> throne option" where
  "search_manager e path depth uid_list th =
     (let th0 = th\<lparr>apk_path_hash_list := map (\<lambda>p. (fst p, False)) (apk_path_hash_list th)\<rparr> in
      case walk_rounds (depth + 1) e uid_list [(take (DATA_PATH_LEN - 1) path, depth)] 0 False th0 of
        None \<Rightarrow> None
      | Some (q, th1) \<Rightarrow> Some (th1\<lparr>apk_path_hash_list := filter snd (apk_path_hash_list th1)\<rparr>))"

subsection \<open>Listing the packages\<close>

text \<open>The list so far and the number of errors.\<close>

definition USER_DATA_PATH :: string where "USER_DATA_PATH = ''/data/user_de/0''"

definition user_data_actor :: "scan_env \<Rightarrow> dir_entry \<Rightarrow> uid_data list \<times> nat \<Rightarrow> uid_data list \<times> nat" where
  "user_data_actor se entry acc =
     (let (name, d_type) = entry; (uids, errors) = acc; namelen = length name;
          package_path = USER_DATA_PATH @ ''/'' @ name in
      if dot_name name then acc
      else if d_type \<noteq> DT_DIR then acc
      else if namelen \<ge> KSU_MAX_PACKAGE_NAME then (uids, errors + 1)
      else if length package_path \<ge> USER_DATA_PATH_LEN then (uids, errors + 1)
      else if sc_kern_path se package_path \<noteq> 0 then (uids, errors + 1)
      else case sc_getattr se package_path of
        Inl err \<Rightarrow> (uids, errors + 1)
      | Inr uid \<Rightarrow>
          if uid = - 1 then (uids, errors + 1)
          else if \<not> sc_uid_alloc se name then (uids, errors + 1)
          else let copy_len = min namelen (KSU_MAX_PACKAGE_NAME - 1) in
            (uids @ [\<lparr>ud_uid = uid,
               ud_package = (c_strncpy (replicate KSU_MAX_PACKAGE_NAME NUL) name copy_len)[copy_len := NUL]\<rparr>], errors))"

definition scan_user_data_for_uids :: "scan_env \<Rightarrow> int \<times> uid_data list" where
  "scan_user_data_for_uids se =
     (case sc_user_data se of
        Inl err \<Rightarrow> (err, [])
      | Inr (entries, ret) \<Rightarrow> (ret, fst (fold (user_data_actor se) entries ([], 0))))"

text \<open>\<open>strsep(&tmp, " ")\<close>: the token, what is left of the buffer, and the index of the blank it
  overwrites.\<close>

definition c_strsep :: "cbuf option \<Rightarrow> string option \<times> cbuf option \<times> nat option" where
  "c_strsep tmp =
     (case tmp of
        None \<Rightarrow> (None, None, None)
      | Some b \<Rightarrow>
          (case c_strchr (cstr b) CHR '' '' of
             None \<Rightarrow> (Some (cstr b), None, None)
           | Some k \<Rightarrow> (Some (take k (cstr b)), Some (drop (k + 1) b), Some k)))"

text \<open>The line buffer after its blanks have been cut.\<close>

definition cut_line :: "cbuf \<Rightarrow> string option \<times> string option \<times> cbuf" where
  "cut_line buf =
     (let (package, tmp, k) = c_strsep (Some buf); (uid_str, _, k2) = c_strsep tmp;
          buf1 = (case k of None \<Rightarrow> buf | Some i \<Rightarrow> buf[i := NUL]);
          buf2 = (case (k, k2) of (Some i, Some j) \<Rightarrow> buf1[i + 1 + j := NUL] | _ \<Rightarrow> buf1)
      in (package, uid_str, buf2))"

text \<open>The loop over the characters of the packages list; \<open>n\<close> counts the lines. \<open>None\<close> is the
  jump to \<open>out\<close> when a line's entry cannot be allocated.\<close>

function packages_loop ::
  "scan_env \<Rightarrow> string \<Rightarrow> nat \<Rightarrow> nat \<Rightarrow> cbuf \<Rightarrow> nat \<Rightarrow> uid_data list \<Rightarrow> uid_data list option" where
  "packages_loop se file pos line_start buf n uids =
     (if pos \<ge> length file then Some uids
      else if file ! pos \<noteq> CHR 0x0A then packages_loop se file (pos + 1) line_start buf n uids
      else let line = take KSU_MAX_PACKAGE_NAME (drop line_start file);
               buf = line @ drop (length line) buf in
        if \<not> sc_line_alloc se n then None
        else case cut_line buf of
          (Some package, Some uid_str, buf') \<Rightarrow>
            (case sc_kstrtou32 se uid_str of
               None \<Rightarrow> Some uids
             | Some res \<Rightarrow>
                 packages_loop se file (pos + 1) (pos + 1) buf' (n + 1)
                   (uids @ [\<lparr>ud_uid = res,
                      ud_package = c_strncpy (replicate KSU_MAX_PACKAGE_NAME NUL) package KSU_MAX_PACKAGE_NAME\<rparr>]))
        | _ \<Rightarrow> Some uids)"
  by pat_completeness auto
termination
  by (relation "measure (\<lambda>(se, file, pos, line_start, buf, n, uids). length file - pos)") auto

declare packages_loop.simps [simp del]

subsection \<open>\<open>ksu_track_throne\<close>\<close>

definition is_uid_exist :: "uid_data list \<Rightarrow> uid_t \<Rightarrow> cbuf \<Rightarrow> bool" where
  "is_uid_exist uids uid package =
     list_ex (\<lambda>np. ud_uid np = uid mod 100000 \<and> strncmp_eq (ud_package np) package KSU_MAX_PACKAGE_NAME) uids"

text \<open>The listing with its locks; \<open>Inl\<close> is a return without search and pruning.\<close>

definition list_packages :: "scan_env \<Rightarrow> throne \<Rightarrow> (throne, throne \<times> uid_data list) sum" where
  "list_packages se th =
     (let (ret, uids) = scan_user_data_for_uids se in
      if ret < 0 then
        (case sc_packages se of
           None \<Rightarrow> Inl th
         | Some file \<Rightarrow>
             let th1 = (if pkg_lock th \<noteq> 1 then th\<lparr>pkg_lock := 1\<rparr> else th) in
             (case packages_loop se file 0 0 (sc_buf_junk se) 0 uids of
                None \<Rightarrow> Inl th1
              | Some uids' \<Rightarrow> Inr (th1, uids')))
      else Inr (if scan_lock th \<noteq> 1 then th\<lparr>scan_lock := 1\<rparr> else th, uids))"

definition manager_exists :: "uid_data list \<Rightarrow> throne \<Rightarrow> bool" where
  "manager_exists uids th =
     list_ex (\<lambda>np. ud_uid np = ksu_get_manager_uid (th_manager_uid th) mod 100000) uids"

definition unlock_manager :: "throne \<Rightarrow> throne" where
  "unlock_manager th =
     (if locked_manager_uid th \<noteq> KSU_INVALID_UID
      then th\<lparr>th_manager_uid := ksu_invalidate_manager_uid (th_manager_uid th), locked_manager_uid := KSU_INVALID_UID\<rparr>
      else th)"

definition ksu_track_throne ::
  "throne_env \<Rightarrow> scan_env \<Rightarrow> (nat \<Rightarrow> u32 list option) \<Rightarrow> throne \<times> allow_state \<Rightarrow> (throne \<times> allow_state) option" where
  "ksu_track_throne e se tmps st =
     (case list_packages se (fst st) of
        Inl th \<Rightarrow> Some (th, snd st)
      | Inr (th, uids) \<Rightarrow>
          let exist = manager_exists uids th in
          (case if exist then Some th else search_manager e ''/data/app'' 2 uids (unlock_manager th) of
             None \<Rightarrow> None
           | Some th' \<Rightarrow> Some (th', ksu_prune_allowlist (is_uid_exist uids) tmps (snd st))))"

end
