(* ===== verification/Apk_Layout.thy ===== *)
theory Apk_Layout
  imports Apk_Sign
begin

text \<open>
  An APK as bytes, and what the parser of \<^verbatim>\<open>apk_sign.c\<close> makes of it. A signing block is a list
  of id-value pairs between two copies of its size; a signer holds its digests and its first
  certificate where \<open>check_block\<close> looks; the archive is a list of zip entries in front of the
  block, the directory and the end record behind it. \<open>apk_file\<close> is the reader of a regular file.
\<close>

subsection \<open>Reading a regular file\<close>

definition apk_file :: "apk_io \<Rightarrow> u8 list \<Rightarrow> bool" where
  "apk_file io f \<longleftrightarrow> io_opened io \<and>
     (\<forall>off n. io_read io off n = (if off < 0 then [] else sub (nat off) n f)) \<and>
     (\<forall>d. io_seek_end io d = (if int (length f) + d < 0 then - 22 else int (length f) + d)) \<and>
     length f < 2 ^ 31"

definition at :: "'a list \<Rightarrow> nat \<Rightarrow> 'a list \<Rightarrow> bool" where
  "at f p t \<longleftrightarrow> p \<le> length f \<and> drop p f = t"

lemma at_append: "at f p (bs @ t) \<Longrightarrow> at f (p + length bs) t"
proof -
  assume a: "at f p (bs @ t)"
  then have "length f = p + length bs + length t" by (auto simp: at_def dest: arg_cong [where f = length])
  moreover have "drop (length bs) (drop p f) = t" using a by (simp add: at_def)
  ultimately show ?thesis by (simp add: at_def add.commute)
qed

lemma at_length: "at f p t \<Longrightarrow> p + length t = length f"
  by (auto simp: at_def)

lemma at_sub: "at f p (bs @ t) \<Longrightarrow> sub p (length bs) f = bs"
  by (simp add: at_def sub_def)

lemma sint_small: "p < 2 ^ 63 \<Longrightarrow> sint (word_of_nat p :: u64) = int p"
  by (simp add: signed_of_nat signed_take_bit_int_eq_self)

lemma apk_read: "apk_file io f \<Longrightarrow> p < 2 ^ 63 \<Longrightarrow> io_read io (sint (word_of_nat p :: u64)) n = sub p n f"
  by (simp add: apk_file_def sint_small)

lemma rd_at:
  assumes "apk_file io f" "at f p (bs @ t)" "length bs = n"
  shows "rd io n old (word_of_nat p) = (bs @ drop n old, word_of_nat (p + n))"
proof -
  have "p < 2 ^ 63" using assms(1,2) by (auto simp: apk_file_def at_def)
  then have "io_read io (sint (word_of_nat p :: u64)) n = bs"
    using apk_read [OF assms(1)] at_sub [OF assms(2)] assms(3) by simp
  then show ?thesis using assms(3) by (simp add: rd_def)
qed

lemma u32_of_le [simp]: "u32_of (le_bytes 4 w) = w"
  by (simp add: u32_of_def of_le_bytes)

lemma u64_of_le [simp]: "u64_of (le_bytes 8 w) = w"
  by (simp add: u64_of_def of_le_bytes)

lemma u16_of_le [simp]: "u16_of (le_bytes 2 w) = w"
  by (simp add: u16_of_def of_le_bytes)

subsection \<open>Signers\<close>

record signer =
  sg_lengths :: "u32 \<times> u32 \<times> u32"
  sg_digests :: "u8 list"
  sg_certs_length :: u32
  sg_cert :: "u8 list"
  sg_rest :: "u8 list"

definition signer_bytes :: "signer \<Rightarrow> u8 list" where
  "signer_bytes s =
     (case sg_lengths s of (a, b, c) \<Rightarrow> le_bytes 4 a @ le_bytes 4 b @ le_bytes 4 c) @
     le_bytes 4 (word_of_nat (length (sg_digests s)) :: u32) @ sg_digests s @
     le_bytes 4 (sg_certs_length s) @ le_bytes 4 (word_of_nat (length (sg_cert s)) :: u32) @
     sg_cert s @ sg_rest s"

definition signed_by :: "apk_io \<Rightarrow> u32 \<Rightarrow> string \<Rightarrow> signer \<Rightarrow> bool" where
  "signed_by io expected_size expected_sha256 s \<longleftrightarrow>
     length (sg_cert s) = unat expected_size \<and> check_cert io expected_size expected_sha256 (sg_cert s)"

definition signer_read :: "u32 \<Rightarrow> signer \<Rightarrow> nat" where
  "signer_read expected_size s =
     24 + length (sg_digests s) + (if length (sg_cert s) = unat expected_size then length (sg_cert s) else 0)"

lemma ucast_small_nat: "n < 2 ^ 32 \<Longrightarrow> (ucast (word_of_nat n :: u32) :: u64) = word_of_nat n"
  by (simp add: word_eq_iff_unsigned unsigned_ucast_eq unsigned_of_nat take_bit_nat_eq_self)

lemma small_nat_eq: "n < 2 ^ 32 \<Longrightarrow> (word_of_nat n :: u32) = w \<longleftrightarrow> n = unat w"
proof -
  assume "n < 2 ^ 32"
  then have "unat (word_of_nat n :: u32) = n" by (simp add: unat_of_nat)
  then show ?thesis by auto
qed

lemma check_block_at:
  assumes f: "apk_file io f" and s: "at f p (signer_bytes s @ t)" and l: "length size4 = 4"
    and sz: "unat sz \<le> 4096"
  shows "check_block io sz sha size4 (word_of_nat p) (word_of_nat q) =
    (signed_by io sz sha s, le_bytes 4 (word_of_nat (length (sg_cert s)) :: u32),
     word_of_nat (p + signer_read sz s), word_of_nat (q + signer_read sz s))"
proof -
  obtain a b c where abc: "sg_lengths s = (a, b, c)" by (metis prod_cases3)
  define d where "d = length (sg_digests s)"
  define n where "n = length (sg_cert s)"
  define t4 where "t4 = le_bytes 4 (word_of_nat d :: u32) @ sg_digests s @ le_bytes 4 (sg_certs_length s) @
    le_bytes 4 (word_of_nat n :: u32) @ sg_cert s @ sg_rest s @ t"
  have s0: "at f p (le_bytes 4 a @ le_bytes 4 b @ le_bytes 4 c @ t4)"
    using s by (simp add: signer_bytes_def abc t4_def d_def n_def)
  have s1: "at f (p + 4) (le_bytes 4 b @ le_bytes 4 c @ t4)" using at_append [OF s0] by simp
  have s2: "at f (p + 8) (le_bytes 4 c @ t4)" using at_append [OF s1] by (simp add: add.assoc)
  have s3: "at f (p + 12) t4" using at_append [OF s2] by (simp add: add.assoc)
  have s4: "at f (p + 16) (sg_digests s @ le_bytes 4 (sg_certs_length s) @
    le_bytes 4 (word_of_nat n :: u32) @ sg_cert s @ sg_rest s @ t)"
    using at_append [OF s3 [unfolded t4_def]] by (simp add: add.assoc)
  have s5: "at f (p + 16 + d) (le_bytes 4 (sg_certs_length s) @ le_bytes 4 (word_of_nat n :: u32) @
    sg_cert s @ sg_rest s @ t)"
    using at_append [OF s4] by (simp add: d_def)
  have s6: "at f (p + 20 + d) (le_bytes 4 (word_of_nat n :: u32) @ sg_cert s @ sg_rest s @ t)"
    using at_append [OF s5] by (simp add: ac_simps)
  have s7: "at f (p + 24 + d) (sg_cert s @ sg_rest s @ t)" using at_append [OF s6] by (simp add: ac_simps)
  have small: "d < 2 ^ 32" "n < 2 ^ 32"
    using at_length [OF s5] at_length [OF s7] f by (auto simp: apk_file_def n_def)
  have r: "rd io 4 size4 (word_of_nat p) = (le_bytes 4 a, word_of_nat (p + 4))"
    "rd io 4 (le_bytes 4 a) (word_of_nat (p + 4)) = (le_bytes 4 b, word_of_nat (p + 8))"
    "rd io 4 (le_bytes 4 b) (word_of_nat (p + 8)) = (le_bytes 4 c, word_of_nat (p + 12))"
    "rd io 4 (le_bytes 4 c) (word_of_nat (p + 12)) = (le_bytes 4 (word_of_nat d :: u32), word_of_nat (p + 16))"
    "rd io 4 (le_bytes 4 (word_of_nat d :: u32)) (word_of_nat (p + 16 + d)) =
       (le_bytes 4 (sg_certs_length s), word_of_nat (p + 20 + d))"
    "rd io 4 (le_bytes 4 (sg_certs_length s)) (word_of_nat (p + 20 + d)) =
       (le_bytes 4 (word_of_nat n :: u32), word_of_nat (p + 24 + d))"
    "rd io n (io_cert_junk io) (word_of_nat (p + 24 + d)) =
       (sg_cert s @ drop n (io_cert_junk io), word_of_nat (p + 24 + d + n))"
    using rd_at [OF f s0] rd_at [OF f s1] rd_at [OF f s2] rd_at [OF f s3 [unfolded t4_def]] rd_at [OF f s5]
      rd_at [OF f s6] rd_at [OF f s7] l
    by (simp_all add: ac_simps n_def del: of_nat_add of_nat_numeral)
  have e: "word_of_nat (p + 16) + ucast (word_of_nat d :: u32) = (word_of_nat (p + 16 + d) :: u64)"
    by (simp add: ucast_small_nat [OF small(1)])
  have n: "sg_cert s = take n (sg_cert s @ junk)" for junk by (simp add: n_def)
  have le: "\<not> 4096 < sz" using sz by (simp add: word_less_nat_alt)
  show ?thesis
  proof (cases "n = unat sz")
    case True
    then have w: "sz = word_of_nat n" by simp
    show ?thesis
      using small le unfolding check_block_def Let_def
      by (simp add: r e w signed_by_def signer_read_def d_def [symmetric] n_def [symmetric] n [symmetric]
          unat_of_nat flip: of_nat_add)
        (simp add: ac_simps)
  next
    case False
    then show ?thesis
      using small unfolding check_block_def Let_def
      by (simp add: r e small_nat_eq signed_by_def signer_read_def d_def [symmetric] n_def [symmetric] flip: of_nat_add)
        (simp add: ac_simps)
  qed
qed

subsection \<open>The signing block\<close>

datatype sig_block =
    Scheme_v2 signer
  | Scheme_v3 signer
  | Scheme_v3_1 "u8 list"
  | Other_block u32 "u8 list"

primrec block_ident :: "sig_block \<Rightarrow> u32" where
  "block_ident (Scheme_v2 s) = 0x7109871a"
| "block_ident (Scheme_v3 s) = 0xf05368c0"
| "block_ident (Scheme_v3_1 bs) = 0x1b93ad61"
| "block_ident (Other_block i bs) = i"

primrec block_body :: "sig_block \<Rightarrow> u8 list" where
  "block_body (Scheme_v2 s) = signer_bytes s"
| "block_body (Scheme_v3 s) = signer_bytes s"
| "block_body (Scheme_v3_1 bs) = bs"
| "block_body (Other_block i bs) = bs"

definition pair_bytes :: "sig_block \<Rightarrow> u8 list" where
  "pair_bytes b = le_bytes 8 (word_of_nat (4 + length (block_body b)) :: u64) @ le_bytes 4 (block_ident b) @ block_body b"

text \<open>An identifier of its own for every scheme, and no pair as long as the block says the whole is.\<close>

definition block_ok :: "u64 \<Rightarrow> sig_block \<Rightarrow> bool" where
  "block_ok size_of_block b \<longleftrightarrow> word_of_nat (4 + length (block_body b)) \<noteq> size_of_block \<and>
     (case b of Other_block i bs \<Rightarrow> i \<notin> {0x7109871a, 0xf05368c0, 0x1b93ad61} | _ \<Rightarrow> True)"

text \<open>What one pair does to the count, the verdict and the v3.1 flag.\<close>

fun scan_block :: "apk_io \<Rightarrow> u32 \<Rightarrow> string \<Rightarrow> nat \<times> bool \<times> bool \<Rightarrow> sig_block \<Rightarrow> nat \<times> bool \<times> bool" where
  "scan_block io sz sha (n, ok, x) (Scheme_v2 s) = (n + 1, signed_by io sz sha s, x)"
| "scan_block io sz sha (n, ok, x) (Scheme_v3 s) = (n + 1, ok \<or> signed_by io sz sha s, x)"
| "scan_block io sz sha (n, ok, x) (Scheme_v3_1 bs) = (n, ok, True)"
| "scan_block io sz sha (n, ok, x) (Other_block i bs) = (n, ok, x)"

definition v2_view :: "v2_state \<Rightarrow> nat \<times> bool \<times> bool" where
  "v2_view v = (v2_signing_blocks v, v2_signing_valid v, v3_1_signing_exist v)"

lemma pos_step:
  assumes "4 + k \<le> n" "n < 2 ^ 31"
  shows "(word_of_nat (p + 12 + k) :: u64) + (word_of_nat n - ucast (word_of_nat (4 + k) :: u32)) = word_of_nat (p + 8 + n)"
proof -
  obtain m where n: "n = 4 + k + m" using assms(1) le_Suc_ex by blast
  have "ucast (word_of_nat (4 + k) :: u32) = (word_of_nat (4 + k) :: u64)"
    using assms by (intro ucast_small_nat) simp
  then show ?thesis by (simp add: n)
qed

lemma signer_read_le: "24 + length (sg_digests s) + length (sg_cert s) \<le> length (signer_bytes s)"
  "signer_read sz s \<le> length (signer_bytes s)"
  by (auto simp: signer_bytes_def signer_read_def split: prod.split)

lemma scan_view:
  "scan_block io sz sha (v2_view v) (Scheme_v2 s) =
     v2_view (v\<lparr>v2_signing_blocks := v2_signing_blocks v + 1, v2_signing_valid := signed_by io sz sha s, v2_size4 := bs\<rparr>)"
  "scan_block io sz sha (v2_view v) (Scheme_v3 s) =
     (if v2_signing_valid v then v2_view (v\<lparr>v2_signing_blocks := v2_signing_blocks v + 1\<rparr>)
      else v2_view (v\<lparr>v2_signing_blocks := v2_signing_blocks v + 1, v2_signing_valid := signed_by io sz sha s, v2_size4 := bs\<rparr>))"
  "scan_block io sz sha (v2_view v) (Scheme_v3_1 b31) = v2_view (v\<lparr>v3_1_signing_exist := True\<rparr>)"
  "scan_block io sz sha (v2_view v) (Other_block i b0) = v2_view v"
  by (simp_all add: v2_view_def)

lemma pairs_loop_refines:
  assumes f: "apk_file io f" and sz: "unat sz \<le> 4096"
  shows "at f p (concat (map pair_bytes bs) @ le_bytes 8 sob @ t) \<Longrightarrow> \<forall>b \<in> set bs. block_ok sob b \<Longrightarrow>
    length size8 = 8 \<Longrightarrow> length ident = 4 \<Longrightarrow> length (v2_size4 v) = 4 \<Longrightarrow>
    v2_view (pairs_loop k io sz sha sob size8 ident (word_of_nat p) v) =
      foldl (scan_block io sz sha) (v2_view v) (take k bs)"
proof (induction k arbitrary: p bs size8 ident v)
  case (Suc k)
  show ?case
  proof (cases bs)
    case Nil
    then show ?thesis
      using rd_at [OF f, of p "le_bytes 8 sob" t 8 size8] Suc.prems by (simp add: Let_def)
  next
    case (Cons b bs')
    define n where "n = 4 + length (block_body b)"
    define u where "u = concat (map pair_bytes bs') @ le_bytes 8 sob @ t"
    have a0: "at f p (le_bytes 8 (word_of_nat n :: u64) @ le_bytes 4 (block_ident b) @ block_body b @ u)"
      using Suc.prems(1) by (simp add: Cons pair_bytes_def [of b] n_def u_def)
    have a1: "at f (p + 8) (le_bytes 4 (block_ident b) @ block_body b @ u)" using at_append [OF a0] by simp
    have a2: "at f (p + 12) (block_body b @ u)" using at_append [OF a1] by (simp add: ac_simps)
    have a3: "at f (p + 8 + n) u" using at_append [OF a2] by (simp add: n_def ac_simps)
    have n31: "n < 2 ^ 31" using at_length [OF a1] f by (auto simp: n_def apk_file_def)
    have r: "rd io 8 size8 (word_of_nat p) = (le_bytes 8 (word_of_nat n :: u64), word_of_nat (p + 8))"
      "rd io 4 ident (word_of_nat (p + 8)) = (le_bytes 4 (block_ident b), word_of_nat (p + 12))"
      using rd_at [OF f a0] rd_at [OF f a1] Suc.prems by (simp_all add: ac_simps del: of_nat_add of_nat_numeral)
    have ok: "block_ok sob b" "word_of_nat n \<noteq> sob"
      using Suc.prems(2) by (auto simp: Cons block_ok_def n_def)
    have step0: "word_of_nat (p + 12) + (word_of_nat n - 4) = (word_of_nat (p + 8 + n) :: u64)"
      "word_of_nat (p + 12) + (word_of_nat n - word_of_nat 4) = (word_of_nat (p + 8 + n) :: u64)"
      by (simp_all add: n_def)
    have IH: "v2_view (pairs_loop k io sz sha sob (le_bytes 8 (word_of_nat n :: u64)) (le_bytes 4 (block_ident b))
        (word_of_nat (p + 8 + n)) v') = foldl (scan_block io sz sha) (v2_view v') (take k bs')"
      if "length (v2_size4 v') = 4" for v'
      using Suc.IH [of "p + 8 + n" bs'] a3 Suc.prems(2) that by (simp add: u_def Cons)
    have cb: "check_block io sz sha (v2_size4 v) (word_of_nat (p + 12)) 4 =
        (signed_by io sz sha s, le_bytes 4 (word_of_nat (length (sg_cert s)) :: u32),
         word_of_nat (p + 12 + signer_read sz s), word_of_nat (4 + signer_read sz s))"
      and st: "word_of_nat (p + 12 + signer_read sz s) + (word_of_nat n - ucast (word_of_nat (4 + signer_read sz s) :: u32))
         = (word_of_nat (p + 8 + n) :: u64)"
      if "block_body b = signer_bytes s" for s
      using check_block_at [OF f a2 [unfolded that], of "v2_size4 v" sz sha 4] Suc.prems(5) sz
        pos_step [of "signer_read sz s" n p] n31 signer_read_le(2) [of sz s] that
      by (simp_all add: n_def del: of_nat_add)
    note simps = r ok(2) step0 Cons
    show ?thesis
    proof (cases b)
      case (Scheme_v2 s)
      then show ?thesis using cb [of s] st [of s]
        by (simp add: simps IH [unfolded Scheme_v2 block_ident.simps] scan_view(1) [where bs = "le_bytes 4 (word_of_nat (length (sg_cert s)) :: u32)"] Let_def
            del: of_nat_add of_nat_numeral)
    next
      case (Scheme_v3 s)
      then show ?thesis using cb [of s] st [of s] Suc.prems(5)
        by (simp add: simps IH [unfolded Scheme_v3 block_ident.simps] scan_view(2) [where bs = "le_bytes 4 (word_of_nat (length (sg_cert s)) :: u32)"] Let_def
            del: of_nat_add of_nat_numeral)
    next
      case (Scheme_v3_1 bs)
      then show ?thesis using Suc.prems(5)
        by (simp add: simps IH [unfolded Scheme_v3_1 block_ident.simps] scan_view Let_def del: of_nat_add of_nat_numeral)
    next
      case (Other_block i bs)
      then show ?thesis using ok Suc.prems(5)
        by (simp add: simps IH [unfolded Other_block block_ident.simps] scan_view Let_def block_ok_def del: of_nat_add of_nat_numeral)
    qed
  qed
qed simp

end
