(* ===== verification/Apk_Archive.thy ===== *)
theory Apk_Archive
  imports Apk_Layout
begin

text \<open>
  The whole APK: zip entries, signing block, directory and end record, and the properties of
  \<open>check_v2_signature\<close> and \<open>has_v1_signature_file\<close> of \<^verbatim>\<open>apk_sign.c\<close>: what is accepted on a well-formed
  file, that the search for a v1 signature ends on any regular file, and what an accepted file
  carries however it is laid out.
\<close>

subsection \<open>Zip entries\<close>

record zip_entry =
  ze_mid :: "u8 list"
  ze_uncompressed :: "u8 list"
  ze_name :: "u8 list"
  ze_extra :: "u8 list"
  ze_data :: "u8 list"

definition zip_header :: "zip_entry \<Rightarrow> u8 list" where
  "zip_header e =
     le_bytes 4 (0x04034b50 :: u32) @ ze_mid e @ le_bytes 4 (word_of_nat (length (ze_data e)) :: u32) @
     ze_uncompressed e @ le_bytes 2 (word_of_nat (length (ze_name e)) :: u16) @
     le_bytes 2 (word_of_nat (length (ze_extra e)) :: u16)"

definition zip_entry_bytes :: "zip_entry \<Rightarrow> u8 list" where
  "zip_entry_bytes e = zip_header e @ ze_name e @ ze_extra e @ ze_data e"

definition zip_entry_ok :: "zip_entry \<Rightarrow> bool" where
  "zip_entry_ok e \<longleftrightarrow> length (ze_mid e) = 14 \<and> length (ze_uncompressed e) = 4 \<and>
     length (ze_name e) < 2 ^ 16 \<and> length (ze_extra e) < 2 ^ 16"

definition has_manifest :: "zip_entry list \<Rightarrow> bool" where
  "has_manifest es \<longleftrightarrow> (\<exists>e \<in> set es. map byte_chr (ze_name e) = MANIFEST)"

lemma zip_header_fields:
  assumes "zip_entry_ok e"
  shows "length (zip_header e) = 30"
    "zip_signature (zip_header e @ r) = 0x04034b50"
    "zip_compressed_size (zip_header e @ r) = word_of_nat (length (ze_data e))"
    "zip_file_name_length (zip_header e @ r) = word_of_nat (length (ze_name e))"
    "zip_extra_field_length (zip_header e @ r) = word_of_nat (length (ze_extra e))"
  using assms
  by (simp_all add: zip_entry_ok_def zip_header_def zip_signature_def zip_compressed_size_def
      zip_file_name_length_def zip_extra_field_length_def sub_def of_le_bytes)

lemma cstr_take_eq:
  assumes "length s = n" "take n (cstr s) = m" "length m = n"
  shows "s = m"
proof -
  have split: "s = cstr s @ dropWhile (\<lambda>c. c \<noteq> NUL) s" by (simp add: cstr_def)
  then have "length s = length (cstr s) + length (dropWhile (\<lambda>c. c \<noteq> NUL) s)" by (metis length_append)
  moreover have "n \<le> length (cstr s)" using assms(2,3) by auto
  ultimately have "dropWhile (\<lambda>c. c \<noteq> NUL) s = []" "length (cstr s) = n" using assms(1) by auto
  then have "s = cstr s" using split by (metis append_Nil2)
  then show ?thesis using assms(2) \<open>length (cstr s) = n\<close> by simp
qed

lemma manifest_cmp:
  "length name = 20 \<Longrightarrow> strncmp_eq MANIFEST (map byte_chr name) 20 \<longleftrightarrow> map byte_chr name = MANIFEST"
proof -
  assume l: "length name = 20"
  have m: "length MANIFEST = 20" "cstr MANIFEST = MANIFEST" by (code_simp, code_simp)
  then show ?thesis
    using cstr_take_eq [of "map byte_chr name" 20 MANIFEST] l by (auto simp: strncmp_eq_def)
qed

subsection \<open>The search for a v1 signature\<close>

lemma ucast_as_nat: "ucast w = (word_of_nat (unat w) :: u64)"
  by (simp add: unsigned_def)

lemma v1_step:
  assumes f: "apk_file io f" and p: "p < 2 ^ 40"
  obtains "v1_loop io old (word_of_nat p) = Some False" | "v1_loop io old (word_of_nat p) = Some True"
  | old' k where "p + 30 \<le> length f" "k < 2 ^ 34"
      "v1_loop io old (word_of_nat p) = v1_loop io old' (word_of_nat (p + 30 + k))"
proof -
  have len: "io_read io (sint (word_of_nat p :: u64)) 30 = sub p 30 f" using apk_read [OF f] p by simp
  show ?thesis
  proof (cases "length (sub p 30 f) = 30")
    case False
    then have "v1_loop io old (word_of_nat p) = Some False"
      by (subst v1_loop.simps) (simp add: len split: prod.split)
    then show ?thesis by (rule that(1))
  next
    case True
    define h where "h = sub p 30 f @ drop 30 old"
    define s where "s = ucast (zip_extra_field_length h) + zip_compressed_size h"
    have r: "rd io 30 old (word_of_nat p) = (h, word_of_nat (p + 30))"
      using True by (simp add: rd_def len h_def)
    obtain name m where nm: "rd io (length MANIFEST) (io_name_junk io (word_of_nat (p + 30))) (word_of_nat (p + 30)) =
        (name, word_of_nat (p + 30) + word_of_nat m)" and m: "m \<le> 20"
      using apk_read [OF f, of "p + 30" "length MANIFEST"] p by (simp add: rd_def Let_def sub_def MANIFEST_def)
    have le: "p + 30 \<le> length f" using True by (auto simp: sub_def)
    have b: "unat s < 2 ^ 32" "unat (zip_file_name_length h) < 2 ^ 16"
      using unsigned_less [of s] unsigned_less [of "zip_file_name_length h"] by simp_all
    have "v1_loop io old (word_of_nat p) =
      (if zip_signature h \<noteq> 0x04034b50 then Some False
       else if unat (zip_file_name_length h) = length MANIFEST then
         if strncmp_eq MANIFEST (map byte_chr (take (length MANIFEST) name)) (length MANIFEST) then Some True
         else v1_loop io h (word_of_nat (p + 30) + word_of_nat m + ucast s)
       else v1_loop io h (word_of_nat (p + 30) + ucast (zip_file_name_length h) + ucast s))"
      by (subst v1_loop.simps)
        (simp only: len True r nm s_def [symmetric] Let_def prod.case refl not_True_eq_False if_False simp_thms)
    then have "v1_loop io old (word_of_nat p) \<in> {Some False, Some True,
        v1_loop io h (word_of_nat (p + 30 + (m + unat s))),
        v1_loop io h (word_of_nat (p + 30 + (unat (zip_file_name_length h) + unat s)))}"
      by (simp only: ucast_as_nat of_nat_add add.assoc split: if_split) simp
    then show ?thesis
      using that(1,2) that(3) [OF le, of "m + unat s" h] that(3) [OF le, of "unat (zip_file_name_length h) + unat s" h] b m
      by auto
  qed
qed

lemma v1_loop_terminates:
  assumes f: "apk_file io f"
  shows "p < 2 ^ 40 \<Longrightarrow> \<exists>b. v1_loop io old (word_of_nat p) = Some b"
proof (induction "length f - p" arbitrary: p old rule: less_induct)
  case less
  show ?case
  proof (rule v1_step [OF f less.prems, of old])
    fix old' k
    assume a: "p + 30 \<le> length f" "k < 2 ^ 34" and e: "v1_loop io old (word_of_nat p) = v1_loop io old' (word_of_nat (p + 30 + k))"
    have "p + 30 + k < 2 ^ 40" using a f by (simp add: apk_file_def)
    then show ?thesis unfolding e by (rule less.hyps [rotated]) (use a in simp)
  qed auto
qed

subsection \<open>A well-formed archive\<close>

lemma v1_loop_entries:
  assumes f: "apk_file io f"
  shows "at f p (concat (map zip_entry_bytes es) @ t) \<Longrightarrow> \<forall>e \<in> set es. zip_entry_ok e \<Longrightarrow>
    \<not> (30 \<le> length t \<and> (of_le (take 4 t) :: u32) = 0x04034b50) \<Longrightarrow>
    v1_loop io old (word_of_nat p) = Some (has_manifest es)"
proof (induction es arbitrary: p old)
  case Nil
  have p: "p < 2 ^ 63" using Nil.prems(1) f by (auto simp: apk_file_def at_def)
  have len: "io_read io (sint (word_of_nat p :: u64)) 30 = take 30 t"
    using apk_read [OF f p] Nil.prems(1) by (simp add: sub_def at_def)
  show ?case
  proof (cases "30 \<le> length t")
    case True
    then have "rd io 30 old (word_of_nat p) = (take 30 t @ drop 30 old, word_of_nat (p + 30))"
      by (simp add: rd_def len)
    then show ?thesis using Nil.prems True
      by (subst v1_loop.simps) (simp add: len zip_signature_def sub_def has_manifest_def min_def)
  next
    case False
    then show ?thesis by (subst v1_loop.simps) (simp add: len has_manifest_def split: prod.split)
  qed
next
  case (Cons e es)
  define u where "u = concat (map zip_entry_bytes es) @ t"
  define h where "h = zip_header e @ drop 30 old"
  define skip where "skip = length (ze_extra e) + length (ze_data e)"
  have ok: "zip_entry_ok e" using Cons.prems by simp
  note hl = zip_header_fields [OF ok]
  have a0: "at f p (zip_header e @ ze_name e @ ze_extra e @ ze_data e @ u)"
    using Cons.prems(1) by (simp add: zip_entry_bytes_def [of e] u_def)
  have a1: "at f (p + 30) (ze_name e @ ze_extra e @ ze_data e @ u)" using at_append [OF a0] hl by simp
  have a4: "at f (p + 30 + length (ze_name e) + skip) u"
    using at_append [OF at_append [OF at_append [OF a1]]] by (simp add: skip_def ac_simps)
  have p: "p < 2 ^ 63" using a0 f by (auto simp: apk_file_def at_def)
  have len: "length (io_read io (sint (word_of_nat p :: u64)) 30) = 30"
    using apk_read [OF f p] at_sub [OF a0] hl(1) by simp
  have r: "rd io 30 old (word_of_nat p) = (h, word_of_nat (p + 30))"
    using rd_at [OF f a0 hl(1)] by (simp add: h_def)
  have sk: "ucast (ucast (zip_extra_field_length h) + zip_compressed_size h) = (word_of_nat skip :: u64)"
  proof -
    have "(ucast (word_of_nat (length (ze_extra e)) :: u16) :: u32) = word_of_nat (length (ze_extra e))"
      using ok by (simp add: zip_entry_ok_def word_eq_iff_unsigned unsigned_ucast_eq unsigned_of_nat take_bit_nat_eq_self)
    then have "ucast (zip_extra_field_length h) + zip_compressed_size h = (word_of_nat skip :: u32)"
      by (simp add: h_def hl skip_def)
    moreover have "skip < 2 ^ 32" using at_length [OF a1] f by (simp add: skip_def apk_file_def)
    ultimately show ?thesis by (simp add: ucast_small_nat del: of_nat_add)
  qed
  have fnl: "unat (zip_file_name_length h) = length (ze_name e)"
    "ucast (zip_file_name_length h) = (word_of_nat (length (ze_name e)) :: u64)"
    using ok by (simp_all add: h_def hl zip_entry_ok_def unat_of_nat word_eq_iff_unsigned unsigned_ucast_eq
        unsigned_of_nat take_bit_nat_eq_self)
  have IH: "v1_loop io h (word_of_nat (p + 30 + length (ze_name e) + skip)) = Some (has_manifest es)"
    using Cons.IH [of "p + 30 + length (ze_name e) + skip" h] a4 Cons.prems by (simp add: u_def)
  have man: "length MANIFEST = 20" by code_simp
  show ?case
  proof (cases "length (ze_name e) = 20")
    case True
    let ?junk = "io_name_junk io (word_of_nat (p + 30))"
    have rn: "rd io 20 ?junk (word_of_nat (p + 30)) = (ze_name e @ drop 20 ?junk, word_of_nat (p + 30 + 20))"
      by (rule rd_at [OF f a1 True])
    have tn: "take 20 (ze_name e @ xs) = ze_name e" for xs using True by simp
    have IH': "v1_loop io h (word_of_nat (p + 30 + 20) + word_of_nat skip) = Some (has_manifest es)"
      using IH by (simp add: True ac_simps)
    show ?thesis using IH'
      by (subst v1_loop.simps)
        (simp add: r len hl(2) h_def [symmetric] fnl True man rn tn sk manifest_cmp has_manifest_def del: of_nat_add of_nat_numeral,
         simp add: h_def hl)
  next
    case False
    then have "map byte_chr (ze_name e) \<noteq> MANIFEST" using man by (metis length_map)
    then show ?thesis using IH False
      by (subst v1_loop.simps)
        (simp add: r len fnl man sk has_manifest_def, simp add: h_def hl)
  qed
qed

definition pairs_bytes :: "sig_block list \<Rightarrow> u8 list" where
  "pairs_bytes bs = concat (map pair_bytes bs)"

definition block_size :: "sig_block list \<Rightarrow> u64" where
  "block_size bs = word_of_nat (length (pairs_bytes bs) + 24)"

definition sig_block_bytes :: "sig_block list \<Rightarrow> u8 list" where
  "sig_block_bytes bs =
     le_bytes 8 (block_size bs) @ pairs_bytes bs @ le_bytes 8 (block_size bs) @ map chr_byte ''APK Sig Block 42''"

definition apk_image :: "zip_entry list \<Rightarrow> sig_block list \<Rightarrow> u8 list \<Rightarrow> u8 list \<Rightarrow> u8 list" where
  "apk_image es bs dir mid =
     (let body = concat (map zip_entry_bytes es) @ sig_block_bytes bs
      in body @ dir @ le_bytes 4 (0x06054b50 :: u32) @ mid @ le_bytes 4 (word_of_nat (length body) :: u32) @
         le_bytes 2 (0 :: u16))"

text \<open>Entries and pairs of the right shape, twelve bytes in the end record, and a block whose size is
  not mistaken for the header of an entry.\<close>

definition apk_image_ok :: "zip_entry list \<Rightarrow> sig_block list \<Rightarrow> u8 list \<Rightarrow> bool" where
  "apk_image_ok es bs mid \<longleftrightarrow> list_all zip_entry_ok es \<and> list_all (block_ok (block_size bs)) bs \<and>
     length mid = 12 \<and> (ucast (block_size bs) :: u32) \<noteq> 0x04034b50"

lemma length_sig_block [simp]: "length (sig_block_bytes bs) = length (pairs_bytes bs) + 32"
  by (simp add: sig_block_bytes_def)

lemma take_le_bytes: "m \<le> n \<Longrightarrow> take m (le_bytes n w) = le_bytes m w"
  by (induction m n arbitrary: w rule: diff_induct) auto

lemma bit_of_le_bytes_cast:
  "bit (of_le (le_bytes n (w :: u64)) :: u32) i \<longleftrightarrow> i < 32 \<and> i < 8 * n \<and> bit w i"
proof (induction n arbitrary: w i)
  case (Suc n)
  show ?case by (auto simp: Suc bit_simps)
qed simp

lemma of_le_low: "of_le (take 4 (le_bytes 8 (w :: u64) @ t)) = (ucast w :: u32)"
proof -
  have "take 4 (le_bytes 8 w @ t) = le_bytes 4 w" using take_le_bytes [of 4 8 w] by simp
  moreover have "of_le (le_bytes 4 w) = (ucast w :: u32)"
    by (rule bit_word_eqI) (simp add: bit_of_le_bytes_cast bit_ucast_iff)
  ultimately show ?thesis by simp
qed

lemma v1_on_image:
  assumes f: "apk_file io (apk_image es bs dir mid)" and ok: "apk_image_ok es bs mid"
  shows "has_v1_signature_file io = Some (has_manifest es)"
proof -
  have "at (apk_image es bs dir mid) 0 (concat (map zip_entry_bytes es) @
      (sig_block_bytes bs @ drop (length (concat (map zip_entry_bytes es)) + length (sig_block_bytes bs))
        (apk_image es bs dir mid)))"
    by (simp add: at_def apk_image_def Let_def)
  from v1_loop_entries [OF f this, of "io_header_junk io"] show ?thesis
    using ok of_le_low [of "block_size bs"]
    by (simp add: has_v1_signature_file_def apk_image_ok_def list_all_iff sig_block_bytes_def)
qed

lemma at_split: "at (a @ b) (length a) b"
  by (simp add: at_def)

lemma eocd_on_image:
  assumes f: "apk_file io f" and a: "at f p (le_bytes 4 (0x06054b50 :: u32) @ u @ le_bytes 2 (0 :: u16))"
    and u: "length u = 16"
  shows "eocd_loop io (replicate 2 0) (replicate 4 0) 0 = Some (le_bytes 4 (0x06054b50 :: u32), word_of_nat (p + 4))"
proof -
  have L: "length f = p + 22" using at_length [OF a] u by simp
  have "io_seek_end io (- 2) = int (p + 20)" using f L by (simp add: apk_file_def)
  then have pos: "word_of_int (io_seek_end io (- 2)) = (word_of_nat (p + 20) :: u64)" by simp
  have a2: "at f (p + 20) (le_bytes 2 (0 :: u16) @ [])"
    using at_append [OF at_append [OF a]] u by (simp add: ac_simps)
  have eq: "(word_of_nat (p + 20 + 2) :: u64) - 22 = word_of_nat p" by simp
  show ?thesis
    using rd_at [OF f a2, of 2 "replicate 2 0"] rd_at [OF f a, of 4 "replicate 4 0"] eq
    by (subst eocd_loop.simps) (simp add: pos Let_def del: of_nat_add of_nat_numeral)
qed

lemma check_v2_block_on_image:
  assumes f: "apk_file io f" and sz: "unat sz \<le> 4096"
    and sig: "at f e (sig_block_bytes bs @ t)" and ok: "list_all (block_ok (block_size bs)) bs"
    and dir: "at f p (m @ le_bytes 4 (word_of_nat (e + length (sig_block_bytes bs)) :: u32) @ t')" "length m = 12"
    and l: "length size4 = 4"
  shows "\<exists>v. check_v2_block io sz sha size4 (word_of_nat p) = Some v \<and>
    v2_view v = foldl (scan_block io sz sha) (0, False, False) (take 10 bs)"
proof -
  define P where "P = length (pairs_bytes bs)"
  define n where "n = block_size bs"
  define c where "c = (word_of_nat (e + P + 32) :: u32)"
  define mg where "mg = map chr_byte ''APK Sig Block 42''"
  have lm: "length mg = 16" by (simp add: mg_def)
  have a0: "at f e (le_bytes 8 n @ pairs_bytes bs @ le_bytes 8 n @ mg @ t)"
    using sig by (simp add: sig_block_bytes_def n_def mg_def)
  have a1: "at f (e + 8) (pairs_bytes bs @ le_bytes 8 n @ mg @ t)" using at_append [OF a0] by simp
  have a2: "at f (e + 8 + P) (le_bytes 8 n @ mg @ t)" using at_append [OF a1] by (simp add: P_def)
  have a3: "at f (e + 8 + P + 8) (mg @ t)" using at_append [OF a2] by (simp add: ac_simps)
  define q where "q = e + 8 + P + 8"
  have d: "at f (p + 12) (le_bytes 4 c @ t')" using at_append [OF dir(1)] dir(2) by (simp add: c_def P_def ac_simps)
  have small: "e + P + 32 < 2 ^ 31" using at_length [OF a3] f lm by (simp add: apk_file_def)
  have w1: "(ucast (c - 0x18) :: u64) = word_of_nat (e + 8 + P)"
  proof -
    have "c - 0x18 = word_of_nat (e + 8 + P)" by (simp add: c_def)
    then show ?thesis using small by (simp add: ucast_small_nat del: of_nat_add)
  qed
  have w2: "(ucast c :: u64) - (n + 8) = word_of_nat e"
  proof -
    have "(ucast c :: u64) = word_of_nat (e + P + 32)" unfolding c_def using small by (intro ucast_small_nat) simp
    then show ?thesis by (simp add: n_def block_size_def P_def)
  qed
  have r: "rd io 4 size4 (word_of_nat (p + 12)) = (le_bytes 4 c, word_of_nat (p + 12 + 4))"
    "rd io 8 (replicate 8 0) (word_of_nat (e + 8 + P)) = (le_bytes 8 n, word_of_nat q)"
    "rd io 16 (replicate 17 0) (word_of_nat q) = (mg @ [0], word_of_nat (q + 16))"
    "rd io 8 (replicate 8 0) (word_of_nat e) = (le_bytes 8 n, word_of_nat (e + 8))"
    using rd_at [OF f d, of 4 size4] rd_at [OF f a2, of 8 "replicate 8 0"] rd_at [OF f a3 lm, of "replicate 17 0"]
      rd_at [OF f a0, of 8 "replicate 8 0"] l
    by (simp_all add: q_def)
  have magic: "strcmp_eq (map byte_chr (mg @ [0])) ''APK Sig Block 42''"
    unfolding mg_def by code_simp
  have w0: "word_of_nat p + 12 = (word_of_nat (p + 12) :: u64)" by simp
  define v0 where "v0 = \<lparr>v2_signing_valid = False, v2_signing_blocks = 0, v3_1_signing_exist = False, v2_size4 = le_bytes 4 c\<rparr>"
  have "check_v2_block io sz sha size4 (word_of_nat p) =
      Some (pairs_loop 10 io sz sha n (le_bytes 8 n) (replicate 4 0) (word_of_nat (e + 8)) v0)"
    unfolding check_v2_block_def Let_def v0_def w0
    by (simp add: r w1 w2 magic [simplified] del: of_nat_add of_nat_numeral)
  moreover have "v2_view (pairs_loop 10 io sz sha n (le_bytes 8 n) (replicate 4 0) (word_of_nat (e + 8)) v0) =
      foldl (scan_block io sz sha) (v2_view v0) (take 10 bs)"
    using a1 ok by (intro pairs_loop_refines [OF f sz, where t = "mg @ t"])
      (simp_all add: pairs_bytes_def n_def v0_def list_all_iff)
  ultimately show ?thesis by (simp add: v2_view_def v0_def)
qed

subsection \<open>Acceptance\<close>

fun block_signers :: "sig_block list \<Rightarrow> signer list" where
  "block_signers [] = []"
| "block_signers (Scheme_v2 s # bs) = s # block_signers bs"
| "block_signers (Scheme_v3 s # bs) = s # block_signers bs"
| "block_signers (_ # bs) = block_signers bs"

definition has_v3_1 :: "sig_block list \<Rightarrow> bool" where
  "has_v3_1 bs \<longleftrightarrow> (\<exists>b \<in> set bs. case b of Scheme_v3_1 _ \<Rightarrow> True | _ \<Rightarrow> False)"

lemma scan_result:
  "foldl (scan_block io sz sha) (n, ok, x) bs = (n', ok', x') \<Longrightarrow>
     n' = n + length (block_signers bs) \<and> (x' \<longleftrightarrow> x \<or> has_v3_1 bs) \<and>
     (block_signers bs = [] \<longrightarrow> ok' = ok) \<and>
     (\<forall>s. \<not> ok \<longrightarrow> block_signers bs = [s] \<longrightarrow> ok' = signed_by io sz sha s)"
proof (induction bs arbitrary: n ok x)
  case Nil
  then show ?case by (simp add: has_v3_1_def)
next
  case (Cons b bs)
  then show ?case by (cases b) (fastforce simp: has_v3_1_def)+
qed

definition accepted :: "apk_io \<Rightarrow> u32 \<Rightarrow> string \<Rightarrow> sig_block list \<Rightarrow> bool" where
  "accepted io sz sha bs \<longleftrightarrow> (\<exists>s. block_signers bs = [s] \<and> signed_by io sz sha s) \<and> \<not> has_v3_1 bs"

lemma check_v2_on_image:
  assumes f: "apk_file io (apk_image es bs dir mid)" and ok: "apk_image_ok es bs mid" and sz: "unat sz \<le> 4096"
  shows "check_v2_signature io sz sha = Some (accepted io sz sha (take 10 bs) \<and> \<not> has_manifest es)"
proof -
  define e where "e = length (concat (map zip_entry_bytes es))"
  define p where "p = e + length (sig_block_bytes bs) + length dir"
  define c where "c = le_bytes 4 (word_of_nat (e + length (sig_block_bytes bs)) :: u32)"
  have a: "at (apk_image es bs dir mid) e (sig_block_bytes bs @ drop (e + length (sig_block_bytes bs)) (apk_image es bs dir mid))"
    by (simp add: at_def apk_image_def Let_def e_def)
  have b: "at (apk_image es bs dir mid) p (le_bytes 4 (0x06054b50 :: u32) @ mid @ c @ le_bytes 2 (0 :: u16))"
    by (simp add: at_def apk_image_def Let_def p_def e_def c_def)
  have b4: "at (apk_image es bs dir mid) (p + 4) (mid @ c @ le_bytes 2 (0 :: u16))" using at_append [OF b] by simp
  have eocd: "eocd_loop io (replicate 2 0) (replicate 4 0) 0 = Some (le_bytes 4 (0x06054b50 :: u32), word_of_nat (p + 4))"
    using eocd_on_image [OF f, of p "mid @ c"] b ok by (simp add: c_def apk_image_ok_def del: of_nat_add)
  obtain v where v: "check_v2_block io sz sha (le_bytes 4 (0x06054b50 :: u32)) (word_of_nat (p + 4)) = Some v"
    "v2_view v = foldl (scan_block io sz sha) (0, False, False) (take 10 bs)"
    using check_v2_block_on_image [OF f sz a _ b4 [unfolded c_def], of "le_bytes 4 (0x06054b50 :: u32)"] ok
    by (auto simp: apk_image_ok_def)
  have scan: "v2_signing_blocks v = length (block_signers (take 10 bs))"
    "v3_1_signing_exist v \<longleftrightarrow> has_v3_1 (take 10 bs)"
    "block_signers (take 10 bs) = [s] \<Longrightarrow> v2_signing_valid v = signed_by io sz sha s" for s
    using scan_result [of io sz sha 0 False False "take 10 bs", OF v(2) [unfolded v2_view_def, symmetric]] by auto
  have "io_opened io" using f by (simp add: apk_file_def)
  then have res: "check_v2_signature io sz sha =
      Some (v2_signing_blocks v = 1 \<and> v2_signing_valid v \<and> \<not> has_manifest es \<and> \<not> v3_1_signing_exist v)"
    unfolding check_v2_signature_def eocd using v1_on_image [OF f ok]
    by (auto simp: v(1) Let_def simp del: of_nat_add split: bool.split)
  show ?thesis
  proof (cases "\<exists>s. block_signers (take 10 bs) = [s]")
    case True
    then show ?thesis using scan unfolding res accepted_def by auto
  next
    case False
    then have "length (block_signers (take 10 bs)) \<noteq> 1" by (auto simp: length_Suc_conv)
    then show ?thesis using False scan(1) unfolding res accepted_def by auto
  qed
qed

lemma known_managers_small: "\<forall>(n, sha) \<in> set known_managers. unat n \<le> 4096"
  by (simp add: known_managers_def)

lemma any_manager_on_image:
  assumes "apk_file io (apk_image es bs dir mid)" "apk_image_ok es bs mid"
  shows "\<forall>(n, sha) \<in> set ms. unat n \<le> 4096 \<Longrightarrow> any_manager io ms =
    Some ((\<exists>(n, sha) \<in> set ms. accepted io n sha (take 10 bs)) \<and> \<not> has_manifest es)"
proof (induction ms)
  case (Cons m ms)
  obtain n sha where m: "m = (n, sha)" by (cases m)
  have e: "check_v2_signature io n sha = Some (accepted io n sha (take 10 bs) \<and> \<not> has_manifest es)"
    using Cons.prems by (intro check_v2_on_image [OF assms]) (simp add: m)
  have IH: "any_manager io ms =
      Some ((\<exists>(n, sha) \<in> set ms. accepted io n sha (take 10 bs)) \<and> \<not> has_manifest es)"
    using Cons by simp
  show ?case by (cases "accepted io n sha (take 10 bs) \<and> \<not> has_manifest es") (auto simp: m e IH)
qed simp

text \<open>C7. On a well-formed APK the manager check succeeds exactly when the first ten pairs of its
  signing block hold one v2 or v3 signer, the length and the SHA-256 of that signer's first certificate
  are those of the configured manager or of one of the seven built-in ones, there is no v3.1 block, and
  no entry of the archive is named META-INF/MANIFEST.MF. This ties the offset arithmetic of
  \<open>check_v2_signature\<close>, \<open>check_block\<close> and \<open>has_v1_signature_file\<close> to the layout of the file.\<close>
theorem manager_apk_accepted_iff:
  assumes "apk_file io (apk_image es bs dir mid)" "apk_image_ok es bs mid" "unat sz \<le> 4096"
  shows "ksu_is_manager_apk io sz sha256 =
    Some ((\<exists>(n, sha) \<in> set ((sz, sha256) # known_managers). \<exists>s. block_signers (take 10 bs) = [s] \<and> signed_by io n sha s)
      \<and> \<not> has_v3_1 (take 10 bs) \<and> \<not> has_manifest es)"
  unfolding ksu_is_manager_apk_def
  using any_manager_on_image [OF assms(1,2), of "(sz, sha256) # known_managers"] known_managers_small assms(3)
  by (auto simp: accepted_def)

definition ex_apk_io :: "u8 list \<Rightarrow> apk_io" where
  "ex_apk_io f =
     \<lparr>io_opened = True, io_read = (\<lambda>off n. if off < 0 then [] else sub (nat off) n f),
      io_seek_end = (\<lambda>d. if int (length f) + d < 0 then - 22 else int (length f) + d),
      io_sha256 = (\<lambda>bs. if bs = [1, 2, 3] then Some (replicate 32 7) else None),
      io_bin2hex = (\<lambda>bs. if bs = replicate 32 7 then ''0707'' else []),
      io_cert_junk = replicate 4096 0, io_header_junk = replicate 30 0, io_name_junk = \<lambda>p. replicate 20 85\<rparr>"

definition ex_signer :: signer where
  "ex_signer = \<lparr>sg_lengths = (19, 15, 11), sg_digests = [], sg_certs_length = 7, sg_cert = [1, 2, 3], sg_rest = [9]\<rparr>"

lemma ex_apk_file: "length f < 2 ^ 31 \<Longrightarrow> apk_file (ex_apk_io f) f"
  by (simp add: apk_file_def ex_apk_io_def)

lemma ex_signed_by: "signed_by (ex_apk_io f) 3 ''0707'' ex_signer"
  by (simp add: signed_by_def ex_signer_def check_cert_def ex_apk_io_def)

lemma ex_length_signer: "length (signer_bytes ex_signer) = 28"
  by (simp add: signer_bytes_def ex_signer_def)

definition ex_image :: "sig_block list \<Rightarrow> u8 list" where
  "ex_image bs = apk_image [] bs [5] (replicate 12 0)"

lemma ex_length_image: "length (ex_image bs) = length (pairs_bytes bs) + 55"
  by (simp add: ex_image_def apk_image_def)

lemma manager_apk_accepted_iff_witness:
  "ksu_is_manager_apk (ex_apk_io (ex_image [Scheme_v2 ex_signer])) 3 ''0707'' = Some True"
proof -
  have len: "length (pairs_bytes [Scheme_v2 ex_signer]) = 40"
    by (simp add: pairs_bytes_def pair_bytes_def ex_length_signer)
  have fl: "apk_file (ex_apk_io (ex_image [Scheme_v2 ex_signer])) (apk_image [] [Scheme_v2 ex_signer] [5] (replicate 12 0))"
    using ex_apk_file [of "ex_image [Scheme_v2 ex_signer]"] ex_length_image [of "[Scheme_v2 ex_signer]"] len
    by (simp add: ex_image_def)
  have ok: "apk_image_ok [] [Scheme_v2 ex_signer] (replicate 12 0)"
    by (simp add: apk_image_ok_def block_ok_def block_size_def len ex_length_signer)
  show ?thesis
    using manager_apk_accepted_iff [OF fl ok, of 3 "''0707''"]
    by (simp add: ex_signed_by has_v3_1_def has_manifest_def)
qed

text \<open>An APK whose first ten pairs hold no signer, or more than one, is never the manager's:
  in particular one that carries the same valid certificate in a v2 and in a v3 block, as APKs signed
  with both schemes do, is refused although the comment says v3 is accepted as well.\<close>
theorem several_signers_refused:
  assumes "apk_file io (apk_image es bs dir mid)" "apk_image_ok es bs mid" "unat sz \<le> 4096"
    and "length (block_signers (take 10 bs)) \<noteq> 1"
  shows "ksu_is_manager_apk io sz sha256 = Some False"
proof -
  have "\<not> accepted io n sha (take 10 bs)" for n sha using assms(4) by (auto simp: accepted_def)
  then show ?thesis
    unfolding ksu_is_manager_apk_def
    using any_manager_on_image [OF assms(1,2), of "(sz, sha256) # known_managers"] known_managers_small assms(3)
    by auto
qed

lemma several_signers_refused_witness:
  "signed_by (ex_apk_io (ex_image [Scheme_v2 ex_signer, Scheme_v3 ex_signer])) 3 ''0707'' ex_signer \<and>
   ksu_is_manager_apk (ex_apk_io (ex_image [Scheme_v2 ex_signer, Scheme_v3 ex_signer])) 3 ''0707'' = Some False"
proof -
  let ?bs = "[Scheme_v2 ex_signer, Scheme_v3 ex_signer]"
  have len: "length (pairs_bytes ?bs) = 80"
    by (simp add: pairs_bytes_def pair_bytes_def ex_length_signer)
  have fl: "apk_file (ex_apk_io (ex_image ?bs)) (apk_image [] ?bs [5] (replicate 12 0))"
    using ex_apk_file [of "ex_image ?bs"] ex_length_image [of ?bs] len by (simp add: ex_image_def)
  have ok: "apk_image_ok [] ?bs (replicate 12 0)"
    by (simp add: apk_image_ok_def block_ok_def block_size_def len ex_length_signer)
  show ?thesis
    using several_signers_refused [OF fl ok, of 3 "''0707''"] ex_signed_by by simp
qed

subsection \<open>Any file\<close>

lemma check_v2_terminates:
  assumes "apk_file io f"
  shows "\<exists>b. check_v2_signature io sz sha = Some b"
proof -
  obtain b where "has_v1_signature_file io = Some b"
    using v1_loop_terminates [OF assms, of 0 "io_header_junk io"] by (auto simp: has_v1_signature_file_def)
  then show ?thesis
    unfolding check_v2_signature_def by (auto simp: Let_def split: option.split bool.split prod.split)
qed

text \<open>C39. The manager check returns on every regular file below two gigabytes, whatever it holds: the
  search for the end record gives up after 65536 positions, the pair loop after ten, and the walk over
  the zip entries advances by a header in every round, also when the lengths it reads are hostile.\<close>
theorem manager_check_returns:
  assumes "apk_file io f"
  shows "\<exists>b. ksu_is_manager_apk io sz sha256 = Some b"
proof -
  have "\<exists>b. any_manager io ms = Some b" for ms
  proof (induction ms)
    case (Cons m ms)
    then show ?case
      using check_v2_terminates [OF assms, of "fst m" "snd m"] by (cases m) (auto split: bool.split)
  qed auto
  then show ?thesis unfolding ksu_is_manager_apk_def .
qed

lemma manager_check_returns_witness: "\<exists>b. ksu_is_manager_apk (ex_apk_io [0x50, 0x4b, 3, 4]) 3 ''0707'' = Some b"
  by (rule manager_check_returns [OF ex_apk_file]) simp

definition cert_seen :: "apk_io \<Rightarrow> u32 \<Rightarrow> string \<Rightarrow> bool" where
  "cert_seen io sz sha \<longleftrightarrow> unat sz \<le> 4096 \<and>
     (\<exists>pos. check_cert io sz sha (take (unat sz) (fst (rd io (unat sz) (io_cert_junk io) pos))))"

lemma check_block_seen: "fst (check_block io sz sha size4 pos offset) \<Longrightarrow> cert_seen io sz sha"
  by (auto simp: check_block_def Let_def cert_seen_def word_less_nat_alt not_less
      split: prod.splits if_splits) (metis fst_conv)+

lemma pairs_loop_seen:
  "v2_signing_valid (pairs_loop k io sz sha sob size8 ident pos v) \<Longrightarrow>
   v2_signing_valid v \<or> cert_seen io sz sha"
proof (induction k arbitrary: size8 ident pos v)
  case (Suc k)
  obtain s8 p1 where a: "rd io 8 size8 pos = (s8, p1)" by fastforce
  obtain i4 p2 where b: "rd io 4 ident p1 = (i4, p2)" by fastforce
  obtain ok s4 p3 off where c: "check_block io sz sha (v2_size4 v) p2 4 = (ok, s4, p3, off)"
    by (metis prod_cases4)
  have ok: "ok \<Longrightarrow> cert_seen io sz sha"
    using check_block_seen [of io sz sha "v2_size4 v" p2 4] c by simp
  show ?case
    using Suc.prems by (auto simp: a b c Let_def split: if_splits dest!: Suc.IH dest: ok)
qed simp

text \<open>C40. Whatever the file holds and however its reads fail, a positive answer means that the file
  was opened, that a certificate of the length expected for some known manager, at most 4096 bytes, was
  read from it whose SHA-256 is the one expected, and that the walk over the entries ended without
  finding a v1 signature.\<close>
theorem manager_apk_needs_certificate:
  assumes "ksu_is_manager_apk io sz sha256 = Some True"
  shows "io_opened io \<and> has_v1_signature_file io = Some False \<and>
    (\<exists>(n, sha) \<in> set ((sz, sha256) # known_managers). unat n \<le> 4096 \<and>
      (\<exists>pos digest. io_sha256 io (take (unat n) (fst (rd io (unat n) (io_cert_junk io) pos))) = Some digest \<and>
         strcmp_eq sha (io_bin2hex io digest)))"
proof -
  have one: "io_opened io \<and> has_v1_signature_file io = Some False \<and> cert_seen io n sha"
    if "check_v2_signature io n sha = Some True" for n sha
    using that pairs_loop_seen
    by (auto simp: check_v2_signature_def check_v2_block_def Let_def
        split: if_splits option.splits prod.splits bool.splits) fastforce+
  have "\<exists>(n, sha) \<in> set ms. check_v2_signature io n sha = Some True" if "any_manager io ms = Some True" for ms
    using that by (induction ms) (auto split: option.splits bool.splits)
  then obtain n sha where "(n, sha) \<in> set ((sz, sha256) # known_managers)" "check_v2_signature io n sha = Some True"
    using assms unfolding ksu_is_manager_apk_def by blast
  then show ?thesis
    using one [of n sha] unfolding cert_seen_def check_cert_def by (fastforce split: option.splits)
qed

lemma ex_image_manager: "ksu_is_manager_apk (ex_apk_io (ex_image [Scheme_v2 ex_signer])) 3 ''0707'' = Some True"
proof -
  let ?bs = "[Scheme_v2 ex_signer]"
  have len: "length (pairs_bytes ?bs) = 40"
    by (simp add: pairs_bytes_def pair_bytes_def ex_length_signer)
  have fl: "apk_file (ex_apk_io (ex_image ?bs)) (apk_image [] ?bs [5] (replicate 12 0))"
    using ex_apk_file [of "ex_image ?bs"] ex_length_image [of ?bs] len by (simp add: ex_image_def)
  have ok: "apk_image_ok [] ?bs (replicate 12 0)"
    by (simp add: apk_image_ok_def block_ok_def block_size_def len ex_length_signer)
  show ?thesis
    using check_v2_on_image [OF fl ok, of 3 "''0707''"] ex_signed_by
    by (simp add: ksu_is_manager_apk_def accepted_def has_v3_1_def has_manifest_def)
qed

lemma manager_apk_needs_certificate_witness:
  "has_v1_signature_file (ex_apk_io (ex_image [Scheme_v2 ex_signer])) = Some False"
  using manager_apk_needs_certificate [OF ex_image_manager] by blast

end
