(* ===== verification/Allowlist_Props.thy ===== *)
theory Allowlist_Props
  imports Allowlist_Lemmas
begin

text \<open>
  The properties of \<^verbatim>\<open>allowlist.c\<close>: who can be granted root in a reachable state, what setting
  and pruning profiles do, the array rewrite, and the two failure paths on which the tables and
  the list of profiles part.
\<close>

subsection \<open>Runs of the allowlist\<close>

text \<open>The operations other files call, in any order, after \<open>ksu_allowlist_init\<close>. The scratch
  allocations of \<open>remove_uid_from_arr\<close> succeed; \<open>revoke_without_memory\<close> below shows why
  that matters.\<close>

inductive allow_step :: "allow_state \<Rightarrow> allow_state \<Rightarrow> bool" where
  step_set: "tmp_ok (se_tmp_arr e) \<Longrightarrow> allow_step st (snd (ksu_set_app_profile e p persist st))"
| step_prune: "(\<And>k. tmp_ok (tmps k)) \<Longrightarrow> allow_step st (ksu_prune_allowlist valid tmps st)"
| step_queue_load: "allow_step st (snd (ksu_load_allow_list st))"
| step_saved: "allow_step st (st\<lparr>al_save_pending := False\<rparr>)"

inductive allow_reach :: "allow_state \<Rightarrow> bool" where
  reach_init: "allow_reach (ksu_allowlist_init full_cap static_allow_state)"
| reach_step: "allow_reach st \<Longrightarrow> allow_step st st' \<Longrightarrow> allow_reach st'"

lemma fill_loop_0: "fill_loop xs 0 = replicate (length xs) (- 1)"
  by (simp add: fill_loop_eq)

lemma allow_init_tables:
  "al_list (ksu_allowlist_init c static_allow_state) = []"
  "al_bitmap (ksu_allowlist_init c static_allow_state) = replicate PAGE_SIZE 0"
  "al_arr (ksu_allowlist_init c static_allow_state) = replicate ALLOW_ARR_SIZE (- 1)"
  "al_ptr (ksu_allowlist_init c static_allow_state) = 0"
  by (simp_all add: ksu_allowlist_init_def init_default_profiles_def static_allow_state_def fill_loop_0)

lemma bitmap_test_zero: "low_uid u \<Longrightarrow> \<not> bitmap_test (replicate PAGE_SIZE 0) u"
  by (simp add: bitmap_test_def low_uid_index)

lemma allow_init_inv: "allow_inv (ksu_allowlist_init c static_allow_state)"
  by (auto simp: allow_inv_def allow_wf_def allow_sound_def allow_init_tables granted_def
      arr_mem_def bitmap_test_zero)

lemma allow_step_inv: "allow_step st st' \<Longrightarrow> allow_inv st \<Longrightarrow> allow_inv st'"
proof (induction rule: allow_step.induct)
  case (step_set e st p persist)
  then show ?case
    by (cases "ksu_set_app_profile e p persist st") (auto intro: set_app_profile_inv)
next
  case (step_prune tmps st valid)
  then show ?case by (intro prune_inv)
qed (simp_all add: allow_inv_def allow_wf_def allow_sound_def granted_def arr_mem_def
    ksu_load_allow_list_def)

lemma allow_reach_inv: "allow_reach st \<Longrightarrow> allow_inv st"
  by (induction rule: allow_reach.induct) (blast intro: allow_init_inv allow_step_inv)+

subsection \<open>Example profiles, for the witnesses\<close>

definition ex_config :: profile_config where
  "ex_config = \<lparr>rp_use_default = False, rp_template_name = replicate KSU_MAX_PACKAGE_NAME NUL,
     rp_profile = zero_root_profile\<lparr>rp_selinux_domain := ''u:r:su:s0''\<rparr>\<rparr>"

definition ex_profile :: "uid_t \<Rightarrow> bool \<Rightarrow> app_profile" where
  "ex_profile uid allow = \<lparr>ap_version = 2, ap_key = ''com.app'', ap_current_uid = uid,
     ap_allow_su = allow, ap_config = ex_config\<rparr>"

definition ex_env :: set_env where
  "ex_env = \<lparr>se_node_alloc = True, se_tmp_arr = Some (replicate ALLOW_ARR_SIZE 0)\<rparr>"

definition ex_init :: allow_state where
  "ex_init = ksu_allowlist_init 0 static_allow_state"

lemma ex_env_ok [simp]: "tmp_ok (se_tmp_arr ex_env)" "se_node_alloc ex_env"
  by (simp_all add: ex_env_def tmp_ok_def)

lemma ex_profile_valid [simp]: "profile_valid (Some (ex_profile u a))"
  by (simp add: profile_valid_def ex_profile_def ex_config_def zero_root_profile_def c_strlen_def)

lemma ex_profile_sel [simp]:
  "ap_current_uid (ex_profile u a) = u" "ap_allow_su (ex_profile u a) = a"
  "ap_config (ex_profile u a) = ex_config" "ap_key (ex_profile u a) = ''com.app''"
  by (simp_all add: ex_profile_def)

lemma ex_init_reach: "allow_reach ex_init"
  by (simp add: ex_init_def reach_init)

lemma ex_init_inv [simp]: "allow_inv ex_init" "allow_wf ex_init" "al_list ex_init = []"
  "al_ptr ex_init = 0"
  using allow_init_inv by (simp_all add: ex_init_def allow_init_tables allow_inv_def)

lemma low_uid_numeral: "low_uid 10123" "\<not> low_uid 1010123"
  by (simp_all add: low_uid_def size_defs)

lemma ex_set_True:
  "fst (ksu_set_app_profile ex_env (ex_profile u a) persist ex_init)"
  by (simp add: ksu_set_app_profile_def override_profile_def set_app_profile_out_def
      record_grant_def arr_push_def Let_def size_defs)

definition ex_state :: "uid_t \<Rightarrow> bool \<Rightarrow> allow_state" where
  "ex_state u a = snd (ksu_set_app_profile ex_env (ex_profile u a) False ex_init)"

lemma ex_state_set: "ksu_set_app_profile ex_env (ex_profile u a) False ex_init = (True, ex_state u a)"
  using ex_set_True [of u a False] by (simp add: ex_state_def prod_eq_iff)

lemma ex_state_reach: "allow_reach (ex_state u a)"
  unfolding ex_state_def by (rule reach_step [OF ex_init_reach step_set]) simp

lemma ex_state_granted: "granted (ex_state u a) u = a"
  using set_app_profile_grants(1) [OF ex_init_inv(2) ex_env_ok(1) ex_state_set, of u a u] by simp

lemma ex_state_list: "al_list (ex_state u a) = [ex_profile u a]"
  using set_app_profile_list [OF ex_state_set, of u a]
  by (simp add: placed_def override_profile_def)

subsection \<open>Properties\<close>

text \<open>C2. In every state the driver reaches (with its scratch allocations served),
  \<open>__ksu_is_allow_uid\<close> answers yes only for root already in the KernelSU domain, for the
  manager, or for a uid that has a profile with \<open>allow_su\<close> in the list: no bit of the bitmap
  and no array entry survives the profile it stands for.\<close>

theorem allowed_only_by_profile:
  assumes "allow_reach st" and "ksu_is_allow_uid is_ksu_domain manager_uid st uid"
  shows "uid = 0 \<and> is_ksu_domain \<or> manager_uid \<noteq> KSU_INVALID_UID \<and> manager_uid = uid \<or>
    uid \<noteq> 0 \<and> \<not> forbid_system_uid uid \<and>
      (\<exists>p \<in> set (al_list st). ap_current_uid p = uid \<and> ap_allow_su p)"
proof -
  have "allow_sound st" using allow_reach_inv [OF assms(1)] by (simp add: allow_inv_def)
  with assms(2) show ?thesis
    by (auto simp: ksu_is_allow_uid_def allow_sound_def kdefs split: if_splits)
qed

theorem allowed_only_by_profile_witness:
  "ksu_is_allow_uid False KSU_INVALID_UID (ex_state 10123 True) 10123 \<and>
   (\<exists>p \<in> set (al_list (ex_state 10123 True)). ap_current_uid p = 10123 \<and> ap_allow_su p)"
proof -
  have a: "ksu_is_allow_uid False KSU_INVALID_UID (ex_state 10123 True) 10123"
    by (simp add: ksu_is_allow_uid_def forbid_system_uid_def kdefs ex_state_granted)
  from allowed_only_by_profile [OF ex_state_reach a] a show ?thesis by simp
qed

text \<open>C5. A successful \<open>ksu_set_app_profile\<close> changes exactly one answer of the grant tables:
  the profile's uid is granted if and only if the profile says \<open>allow_su\<close>, and every other uid
  keeps its answer, whether the uid lives in the bitmap or in the array.\<close>

theorem set_app_profile_refines_map:
  assumes "allow_wf st" and "tmp_ok (se_tmp_arr e)"
    and "ksu_set_app_profile e p persist st = (True, st')"
  shows "granted st' = (granted st)(ap_current_uid p := ap_allow_su p) \<and> allow_wf st'"
  using set_app_profile_grants [OF assms] by (auto simp: fun_eq_iff)

theorem set_app_profile_refines_map_witness:
  "granted (ex_state 1010123 True) 1010123 \<and> \<not> granted (ex_state 1010123 True) 10123"
proof -
  have "\<not> granted ex_init 10123"
    using ex_init_inv(1,3) by (auto simp: allow_inv_def allow_sound_def)
  then show ?thesis
    using set_app_profile_refines_map [OF ex_init_inv(2) ex_env_ok(1) ex_state_set, of 1010123 True]
    by simp
qed

lemma placed_split:
  assumes "distinct (map profile_id ps)"
    and "\<forall>q \<in> set ps. ap_current_uid q = ap_current_uid p \<longrightarrow> strcmp_eq (ap_key q) (ap_key p)"
  obtains as bs where "placed p ps = as @ p # bs"
    "\<forall>a \<in> set as. ap_current_uid a \<noteq> ap_current_uid p"
    "\<forall>b \<in> set bs. ap_current_uid b \<noteq> ap_current_uid p"
proof -
  have id: "q \<in> set ps \<Longrightarrow> ap_current_uid q = ap_current_uid p \<Longrightarrow> profile_id q = profile_id p" for q
    using assms(2) by (auto simp: profile_id_def strcmp_eq_def)
  show ?thesis
  proof (cases "override_profile p ps")
    case None
    then have "\<forall>q \<in> set ps. ap_current_uid q \<noteq> ap_current_uid p"
      using id by (auto simp: override_profile_alt update_first_None_iff)
    with None show ?thesis by (intro that [of ps "[]"]) (simp_all add: placed_def)
  next
    case (Some l)
    then obtain as x bs where s: "ps = as @ x # bs" "l = as @ p # bs" "profile_id x = profile_id p"
      unfolding override_profile_alt by (auto dest!: update_first_split)
    have "profile_id p \<notin> profile_id ` set as" "profile_id p \<notin> profile_id ` set bs"
      using assms(1) unfolding s(1) by (simp_all add: s(3))
    then have "\<forall>a \<in> set as. ap_current_uid a \<noteq> ap_current_uid p"
      "\<forall>b \<in> set bs. ap_current_uid b \<noteq> ap_current_uid p"
      using id by (auto simp: s(1) image_iff)
    with Some s(2) show ?thesis by (intro that [of as bs]) (simp_all add: placed_def)
  qed
qed

text \<open>What is set is what is read back. If no profile of another package shares the uid,
  then after a successful \<open>ksu_set_app_profile\<close> the lookup by uid returns the profile, the app
  is unmounted according to it (never for a root app), and the root profile used for the uid is
  the app's own one exactly when it is a root app that does not ask for the default.\<close>

theorem set_then_lookup:
  assumes "allow_inv st" and "tmp_ok (se_tmp_arr e)"
    and "\<forall>q \<in> set (al_list st). ap_current_uid q = ap_current_uid p \<longrightarrow>
           strcmp_eq (ap_key q) (ap_key p)"
    and "ksu_set_app_profile e p persist st = (True, st')"
    and "ap_current_uid q = ap_current_uid p"
  shows "ksu_get_app_profile q st' = (True, p) \<and>
    (manager_uid \<noteq> ap_current_uid p \<longrightarrow>
      ksu_uid_should_umount manager_uid st' (ap_current_uid p) =
        (\<not> ap_allow_su p \<and>
         (if nrp_use_default (ap_config p) then umount_modules (al_default_non_root st')
          else umount_modules (nrp_profile (ap_config p))))) \<and>
    ksu_get_root_profile st' (ap_current_uid p) =
      (if ap_allow_su p \<and> \<not> rp_use_default (ap_config p) then rp_profile (ap_config p)
       else al_default_root st')"
proof -
  from assms(1) have d: "distinct (map profile_id (al_list st))" by (simp add: allow_inv_def)
  obtain as bs where l: "al_list st' = as @ p # bs"
    "\<forall>a \<in> set as. ap_current_uid a \<noteq> ap_current_uid p"
    "\<forall>b \<in> set bs. ap_current_uid b \<noteq> ap_current_uid p"
    using set_app_profile_list [OF assms(4)] placed_split [OF d assms(3)] by metis
  have f: "List.find (\<lambda>r. ap_current_uid p = ap_current_uid r) (al_list st') = Some p"
    using l by (auto simp: find_append split: option.splits dest: find_Some_iff [THEN iffD1])
      (metis (mono_tags, lifting) find_Some_iff nth_mem)
  then have "ksu_get_app_profile q' st' = (True, p)" if "ap_current_uid q' = ap_current_uid p" for q'
    using that by (simp add: ksu_get_app_profile_def)
  moreover have "List.find (\<lambda>r. ap_current_uid p = ap_current_uid r \<and> ap_allow_su r \<and>
      \<not> rp_use_default (ap_config r)) (al_list st') =
      (if ap_allow_su p \<and> \<not> rp_use_default (ap_config p) then Some p else None)"
    using l by (auto simp: find_append find_None_iff split: option.splits)
      (metis (mono_tags, lifting) find_Some_iff nth_mem)+
  ultimately show ?thesis
    using assms(5) by (auto simp: ksu_uid_should_umount_def ksu_get_root_profile_def kdefs)
qed


theorem set_then_lookup_witness:
  "ksu_get_app_profile (ex_profile 10123 False) (ex_state 10123 True) =
     (True, ex_profile 10123 True) \<and>
   \<not> ksu_uid_should_umount KSU_INVALID_UID (ex_state 10123 True) 10123 \<and>
   rp_selinux_domain (ksu_get_root_profile (ex_state 10123 True) 10123) = ''u:r:su:s0''"
proof -
  have none: "\<forall>q \<in> set (al_list ex_init). ap_current_uid q = ap_current_uid (ex_profile 10123 True) \<longrightarrow>
      strcmp_eq (ap_key q) (ap_key (ex_profile 10123 True))"
    by simp
  show ?thesis
    using set_then_lookup [OF ex_init_inv(1) ex_env_ok(1) none ex_state_set,
        of "ex_profile 10123 False" KSU_INVALID_UID]
    by (simp add: ex_config_def)
qed

text \<open>\<open>remove_uid_from_arr\<close> computes the array without the uid, in order and followed by
  -1 entries, whatever the scratch memory held before; it never grows the array, and no entry
  beyond the live ones is read.\<close>

theorem remove_uid_from_arr_filters:
  assumes "allow_wf st" and "length temp = ALLOW_ARR_SIZE" and "al_ptr st \<noteq> 0"
  shows "let ys = filter (\<lambda>x. x \<noteq> uid) (take (al_ptr st) (al_arr st));
             st' = remove_uid_from_arr (Some temp) uid st
         in al_arr st' = ys @ replicate (ALLOW_ARR_SIZE - length ys) (- 1) \<and>
            al_ptr st' = length ys \<and> al_ptr st' \<le> al_ptr st \<and> \<not> arr_mem st' uid"
proof -
  let ?xs = "take (al_ptr st) (al_arr st)"
  have "length (filter (\<lambda>x. x \<noteq> uid) ?xs) \<le> al_ptr st"
    using length_filter_le [of "\<lambda>x. x \<noteq> uid" ?xs] by simp
  then show ?thesis
    using assms by (simp add: Let_def remove_uid_from_arr_eq arr_mem_def arr_search_iff)
qed

definition ex_arr :: allow_state where
  "ex_arr = static_allow_state\<lparr>al_arr := [7, 8, 7] @ replicate (ALLOW_ARR_SIZE - 3) (- 1), al_ptr := 3\<rparr>"

theorem remove_uid_from_arr_filters_witness:
  "al_ptr (remove_uid_from_arr (Some (replicate ALLOW_ARR_SIZE 5)) 7 ex_arr) = 1 \<and>
   take 2 (al_arr (remove_uid_from_arr (Some (replicate ALLOW_ARR_SIZE 5)) 7 ex_arr)) = [8, - 1]"
proof -
  have "allow_wf ex_arr" "al_ptr ex_arr \<noteq> 0"
    by (simp_all add: ex_arr_def allow_wf_def static_allow_state_def size_defs)
  note * = remove_uid_from_arr_filters [OF this(1) _ this(2), of "replicate ALLOW_ARR_SIZE 5" 7]
  then show ?thesis
    by (simp add: ex_arr_def Let_def size_defs numeral_2_eq_2)
qed

text \<open>C22. Pruning keeps exactly the profiles of installed apps (and those of the preserved uid),
  and takes root away from exactly the uids of the profiles it removes.\<close>

theorem prune_revokes_removed_apps:
  assumes "\<And>k. tmp_ok (tmps k)" and "allow_wf st"
  shows "al_list (ksu_prune_allowlist valid tmps st) =
      filter (\<lambda>p. ap_current_uid p = KSU_APP_PROFILE_PRESERVE_UID \<or>
        valid (ap_current_uid p) (ap_key p)) (al_list st) \<and>
    (granted (ksu_prune_allowlist valid tmps st) u \<longleftrightarrow>
      granted st u \<and> (\<forall>p \<in> set (al_list st). ap_current_uid p = u \<longrightarrow>
        u = KSU_APP_PROFILE_PRESERVE_UID \<or> valid u (ap_key p)))"
  using prune_spec(1,2) [OF assms] by (auto simp: keeps_def [abs_def])

theorem prune_revokes_removed_apps_witness:
  "al_list (ksu_prune_allowlist (\<lambda>u k. False) (\<lambda>k. se_tmp_arr ex_env) (ex_state 10123 True)) = [] \<and>
   \<not> granted (ksu_prune_allowlist (\<lambda>u k. False) (\<lambda>k. se_tmp_arr ex_env) (ex_state 10123 True)) 10123 \<and>
   granted (ex_state 10123 True) 10123"
proof -
  have "allow_wf (ex_state 10123 True)"
    using allow_reach_inv [OF ex_state_reach] by (simp add: allow_inv_def)
  from prune_revokes_removed_apps [OF ex_env_ok(1) this, where valid = "\<lambda>u k. False" and u = 10123]
  show ?thesis by (simp add: ex_state_list ex_state_granted)
qed

text \<open>C37. When the kernel has no page for the scratch array, denying root to a uid above
  \<open>BITMAP_UID_MAX\<close> still returns true and still stores the profile that denies it, but the
  array keeps the grant: \<open>__ksu_is_allow_uid\<close> goes on answering yes.\<close>

theorem revoke_without_memory:
  assumes "granted st uid" and "\<not> low_uid uid" and "uid \<noteq> 0" and "\<not> forbid_system_uid uid"
    and "ap_current_uid p = uid" and "\<not> ap_allow_su p" and "profile_valid (Some p)"
    and "se_node_alloc e" and "se_tmp_arr e = None"
  shows "fst (ksu_set_app_profile e p persist st) \<and>
    p \<in> set (al_list (snd (ksu_set_app_profile e p persist st))) \<and>
    ksu_is_allow_uid d m (snd (ksu_set_app_profile e p persist st)) uid"
proof -
  obtain r st' where s: "ksu_set_app_profile e p persist st = (r, st')" by fastforce
  let ?st = "st\<lparr>al_list := placed p (al_list st)\<rparr>"
  have g: "record_grant e p ?st = Some ?st"
    using assms by (simp add: record_grant_def Let_def remove_uid_from_arr_def)
  from s have "r \<and> st' = finish p persist ?st"
  proof (cases rule: set_app_profile_cases)
    case no_node
    with assms(8) show ?thesis by simp
  qed (use g assms(7) in auto)
  moreover have "granted ?st uid" using assms(1) by (simp add: allow_frame)
  ultimately show ?thesis
    using s assms(3,4) placed_mem [of p "al_list st"]
    by (auto simp: ksu_is_allow_uid_def allow_frame)
qed

theorem revoke_without_memory_witness:
  "fst (ksu_set_app_profile (ex_env\<lparr>se_tmp_arr := None\<rparr>) (ex_profile 1010123 False) True
      (ex_state 1010123 True)) \<and>
   ksu_is_allow_uid False KSU_INVALID_UID
     (snd (ksu_set_app_profile (ex_env\<lparr>se_tmp_arr := None\<rparr>) (ex_profile 1010123 False) True
       (ex_state 1010123 True))) 1010123"
  using revoke_without_memory [of "ex_state 1010123 True" 1010123 "ex_profile 1010123 False"
      "ex_env\<lparr>se_tmp_arr := None\<rparr>" True False KSU_INVALID_UID] low_uid_numeral(2)
  by (simp add: ex_state_granted forbid_system_uid_def ex_env_def)

text \<open>Re-granting root to an app above \<open>BITMAP_UID_MAX\<close> that already has it appends its uid
  to the array again: every successful call uses up one of the 1024 slots, so after at most 1024
  calls for one app \<open>ksu_set_app_profile\<close> answers false, with the profile already overwritten in
  the list.\<close>

theorem regrant_uses_a_slot:
  assumes "allow_wf st" and "\<not> low_uid (ap_current_uid p)" and "ap_allow_su p"
    and "profile_valid (Some p)" and "override_profile p (al_list st) = Some l"
  shows "(let (r, st') = ksu_set_app_profile e p persist st
          in r = (al_ptr st < ALLOW_ARR_SIZE) \<and> al_list st' = l \<and>
             al_ptr st' = (if al_ptr st < ALLOW_ARR_SIZE then Suc (al_ptr st) else al_ptr st) \<and>
             take (al_ptr st') (al_arr st') =
               take (al_ptr st) (al_arr st) @ (if r then [ap_current_uid p] else []))"
proof -
  obtain r st' where s: "ksu_set_app_profile e p persist st = (r, st')" by fastforce
  let ?st = "st\<lparr>al_list := l\<rparr>"
  from s assms(4,5) have out: "set_app_profile_out e p persist ?st = (r, st')"
    by (simp add: ksu_set_app_profile_def)
  have rg: "record_grant e p ?st = arr_push (ap_current_uid p) ?st"
    using assms(2,3) by (simp add: record_grant_def)
  show ?thesis
  proof (cases "al_ptr st < ALLOW_ARR_SIZE")
    case True
    then obtain st1 where p1: "arr_push (ap_current_uid p) ?st = Some st1"
      by (simp add: arr_push_def)
    have "allow_wf ?st" using assms(1) by (simp add: allow_frame)
    note live = arr_push_live(1) [OF this p1]
    have "al_ptr st1 = Suc (al_ptr st)" "al_list st1 = l"
      using p1 by (auto simp: arr_push_def split: if_splits)
    moreover have "r" "st' = finish p persist st1"
      using out rg p1 by (simp_all add: set_app_profile_out_def Let_def)
    ultimately show ?thesis using s True live by (simp add: allow_frame)
  next
    case False
    then have "\<not> r" "st' = ?st"
      using out rg by (simp_all add: set_app_profile_out_def arr_push_def)
    with s False show ?thesis by simp
  qed
qed

theorem regrant_uses_a_slot_witness:
  "al_ptr (snd (ksu_set_app_profile ex_env (ex_profile 1010123 True) False (ex_state 1010123 True))) =
     Suc (al_ptr (ex_state 1010123 True)) \<and>
   al_ptr (ex_state 1010123 True) < ALLOW_ARR_SIZE"
proof -
  have wf: "allow_wf (ex_state 1010123 True)"
    using allow_reach_inv [OF ex_state_reach] by (simp add: allow_inv_def)
  have o: "override_profile (ex_profile 1010123 True) (al_list (ex_state 1010123 True)) =
      Some [ex_profile 1010123 True]"
    by (simp add: override_profile_def ex_state_list)
  have f: "al_ptr (ex_state 1010123 True) < ALLOW_ARR_SIZE"
    using ex_set_True [of 1010123 True False]
    by (simp add: ex_state_def ksu_set_app_profile_def override_profile_def set_app_profile_out_def
        record_grant_def arr_push_def Let_def low_uid_numeral allow_frame size_defs)
  show ?thesis
    using regrant_uses_a_slot [OF wf _ _ _ o, of ex_env False] f
    by (simp add: low_uid_numeral split: prod.splits)
qed

end
