(* ===== verification/Throne_Props.thy ===== *)
theory Throne_Props
  imports Throne Apk_Archive Allowlist_Props
begin

text \<open>
  What a pass of \<open>ksu_track_throne\<close> guarantees: who can become the manager, which profiles survive,
  what the packages list parses to, and that the walk over /data/app ends with an empty queue.
\<close>

subsection \<open>The manager\<close>

text \<open>A uid on the list whose package name is that of the path of an APK that passed the check.\<close>

definition crownable :: "throne_env \<Rightarrow> uid_data list \<Rightarrow> uid_t \<Rightarrow> bool" where
  "crownable e uids uid \<longleftrightarrow>
     (\<exists>np path pkg. np \<in> set uids \<and> ud_uid np = uid \<and>
        ksu_is_manager_apk (te_apk e path) (te_manager_size e) (te_manager_hash e) = Some True \<and>
        get_pkg_from_apk_path (te_pkg_junk e) path = Some pkg \<and>
        strncmp_eq (ud_package np) pkg KSU_MAX_PACKAGE_NAME \<and>
        (\<forall>name. te_manager_package e = Some name \<longrightarrow> strncmp_eq pkg name (length name + 1)))"

definition manager_from :: "throne_env \<Rightarrow> uid_data list \<Rightarrow> throne \<Rightarrow> throne \<Rightarrow> bool" where
  "manager_from e uids th th' \<longleftrightarrow>
     th_manager_uid th' = th_manager_uid th \<and> locked_manager_uid th' = locked_manager_uid th \<or>
     th_manager_uid th' = locked_manager_uid th' \<and> crownable e uids (th_manager_uid th')"

lemma manager_from_refl [simp]: "manager_from e uids th th"
  "manager_from e uids th (th\<lparr>apk_path_hash_list := l\<rparr>)"
  by (simp_all add: manager_from_def)

lemma manager_from_trans: "manager_from e uids th th1 \<Longrightarrow> manager_from e uids th1 th2 \<Longrightarrow> manager_from e uids th th2"
  by (auto simp: manager_from_def)

lemma crown_manager_from:
  assumes "ksu_is_manager_apk (te_apk e path) (te_manager_size e) (te_manager_hash e) = Some True"
  shows "manager_from e uids th ((crown_manager e path uids th)\<lparr>apk_path_hash_list := l\<rparr>)"
proof -
  have "crownable e uids (ud_uid np)"
    if "get_pkg_from_apk_path (te_pkg_junk e) path = Some pkg"
      "List.find (\<lambda>np. strncmp_eq (ud_package np) pkg KSU_MAX_PACKAGE_NAME) uids = Some np"
      "\<not> (case te_manager_package e of Some name \<Rightarrow> \<not> strncmp_eq pkg name (length name + 1) | None \<Rightarrow> False)"
    for pkg np
  proof -
    have "np \<in> set uids" "strncmp_eq (ud_package np) pkg KSU_MAX_PACKAGE_NAME"
      using that(2) by (auto simp: find_Some_iff)
    then show ?thesis
      unfolding crownable_def using that(1,3) assms
      by (intro exI [of _ np] exI [of _ path] exI [of _ pkg]) (auto split: option.splits)
  qed
  then show ?thesis
    by (auto simp: crown_manager_def crown_def Let_def manager_from_def ksu_set_manager_uid_def split: option.splits)
qed

lemma check_apk_from: "check_apk e uids p w = Some w' \<Longrightarrow> manager_from e uids (wk_throne w) (wk_throne w')"
  by (auto simp: check_apk_def Let_def crown_manager_from split: option.splits bool.splits if_splits)

lemma my_actor_from: "my_actor e uids parent d x w = Some w' \<Longrightarrow> manager_from e uids (wk_throne w) (wk_throne w')"
  by (auto simp: my_actor_def Let_def check_apk_from split: prod.splits if_splits)

lemma iterate_dir_from:
  "iterate_dir e uids parent d xs w = Some w' \<Longrightarrow> manager_from e uids (wk_throne w) (wk_throne w')"
  by (induction xs arbitrary: w) (auto split: option.splits intro: manager_from_trans my_actor_from)

lemma visit_from: "visit e uids pos m stop th = Some (m', w') \<Longrightarrow> manager_from e uids th (wk_throne w')"
  by (auto simp: visit_def Let_def dest!: iterate_dir_from split: option.splits prod.splits if_splits)

lemma walk_round_from:
  "walk_round e uids q m stop th = Some (q', m', stop', th') \<Longrightarrow> manager_from e uids th th'"
proof (induction e uids q m stop th rule: walk_round.induct)
  case (2 e uids pos rest m stop th)
  then show ?case
    by (auto split: option.splits if_splits intro: manager_from_trans visit_from)
qed simp

lemma walk_rounds_from: "walk_rounds k e uids q m stop th = Some (q', th') \<Longrightarrow> manager_from e uids th th'"
  by (induction k arbitrary: q m stop th)
    (auto split: option.splits intro: manager_from_trans walk_round_from)

lemma search_manager_from:
  assumes "search_manager e path d uids th = Some th'"
  shows "manager_from e uids th th'"
proof -
  obtain q th1 where w: "walk_rounds (d + 1) e uids [(take (DATA_PATH_LEN - 1) path, d)] 0 False
      (th\<lparr>apk_path_hash_list := map (\<lambda>p. (fst p, False)) (apk_path_hash_list th)\<rparr>) = Some (q, th1)"
    and th': "th' = th1\<lparr>apk_path_hash_list := filter snd (apk_path_hash_list th1)\<rparr>"
    using assms by (auto simp: search_manager_def Let_def split: option.splits)
  have "manager_from e uids th th1"
    using walk_rounds_from [OF w] by (simp add: manager_from_def)
  then show ?thesis by (simp add: th' manager_from_def)
qed

lemma list_packages_frame:
  "list_packages se th = Inl th1 \<Longrightarrow> th_manager_uid th1 = th_manager_uid th"
  "list_packages se th = Inr (th2, uids) \<Longrightarrow>
     th_manager_uid th2 = th_manager_uid th \<and> locked_manager_uid th2 = locked_manager_uid th"
  by (cases "scan_user_data_for_uids se"; cases "sc_packages se";
      auto simp: list_packages_def Let_def split: option.splits if_splits)+

lemma manager_after_scan:
  assumes "ksu_track_throne e se tmps (th, al) = Some (th', al')"
    and "th_manager_uid th' \<noteq> th_manager_uid th"
  shows "\<exists>th0 uids. list_packages se th = Inr (th0, uids) \<and> \<not> manager_exists uids th \<and>
    (th_manager_uid th' = KSU_INVALID_UID \<and> locked_manager_uid th \<noteq> KSU_INVALID_UID \<or>
     crownable e uids (th_manager_uid th'))"
proof -
  obtain th0 uids where l: "list_packages se th = Inr (th0, uids)"
  proof (cases "list_packages se th")
    case (Inl th1)
    then show ?thesis using assms list_packages_frame(1) [OF Inl] by (simp add: ksu_track_throne_def)
  qed (use that in force)
  have fr: "th_manager_uid th0 = th_manager_uid th" "locked_manager_uid th0 = locked_manager_uid th"
    using list_packages_frame(2) [OF l] by auto
  have no: "\<not> manager_exists uids th0"
    using assms l fr by (auto simp: ksu_track_throne_def)
  then have "search_manager e ''/data/app'' 2 uids (unlock_manager th0) = Some th'"
    using assms(1) l by (auto simp: ksu_track_throne_def split: option.splits)
  then have "manager_from e uids (unlock_manager th0) th'" by (rule search_manager_from)
  moreover have "\<not> manager_exists uids th" using no fr by (simp add: manager_exists_def)
  ultimately show ?thesis
    using l fr assms(2)
    by (auto simp: manager_from_def unlock_manager_def ksu_invalidate_manager_uid_def split: if_splits)
qed

text \<open>C8. A package scan changes the manager's uid only when no listed package has it. Then it is
  invalidated (if it had been locked) or set to the uid of a package on the list whose name is read off
  the path of an APK that passed the signature check, and which is the configured manager package if
  one is configured.\<close>
theorem only_signed_apps_crowned:
  assumes "ksu_track_throne e se tmps (th, al) = Some (th', al')"
    and "th_manager_uid th' \<noteq> th_manager_uid th"
  shows "\<exists>th0 uids. list_packages se th = Inr (th0, uids) \<and> \<not> manager_exists uids th \<and>
    (th_manager_uid th' = KSU_INVALID_UID \<and> locked_manager_uid th \<noteq> KSU_INVALID_UID \<or>
     crownable e uids (th_manager_uid th'))"
  using assms by (rule manager_after_scan)

definition ex_throne_env :: throne_env where
  "ex_throne_env =
     \<lparr>te_manager_package = None, te_manager_size = 3, te_manager_hash = ''0707'',
      te_apk = (\<lambda>p. ex_apk_io (ex_image [Scheme_v2 ex_signer])), te_full_name_hash = (\<lambda>p. 5),
      te_dir = (\<lambda>p. if p = ''/data/app'' then Some (1, [(''.'', 4), (''~a'', 4)])
        else if p = ''/data/app/~a'' then Some (1, [(''m.g-1'', 4)])
        else if p = ''/data/app/~a/m.g-1'' then Some (1, [(''lib'', 4), (''base.apk'', 8)]) else None),
      te_path_alloc = (\<lambda>p. True), te_hash_alloc = (\<lambda>p. True), te_pkg_junk = replicate 256 CHR ''x''\<rparr>"

definition ex_scan_env :: scan_env where
  "ex_scan_env =
     \<lparr>sc_user_data = Inr ([(''..'', 4), (''m.g'', 4), (''o.k'', 4)], 0), sc_kern_path = (\<lambda>p. 0),
      sc_getattr = (\<lambda>p. if p = ''/data/user_de/0/m.g'' then Inr 10007
        else if p = ''/data/user_de/0/o.k'' then Inl (- 2) else Inr 10009),
      sc_uid_alloc = (\<lambda>p. True), sc_packages = None, sc_kstrtou32 = (\<lambda>s. None), sc_line_alloc = (\<lambda>n. True),
      sc_buf_junk = replicate 256 NUL\<rparr>"

definition ex_throne :: throne where
  "ex_throne = \<lparr>th_manager_uid = KSU_INVALID_UID, locked_manager_uid = KSU_INVALID_UID,
     apk_path_hash_list = [(9, True)], pkg_lock = 0, scan_lock = 0\<rparr>"

definition ex_uid_data :: uid_data where
  "ex_uid_data = \<lparr>ud_uid = 10007, ud_package = (c_strncpy (replicate 256 NUL) ''m.g'' 3)[3 := NUL]\<rparr>"

lemma ex_list_packages: "list_packages ex_scan_env ex_throne = Inr (ex_throne\<lparr>scan_lock := 1\<rparr>, [ex_uid_data])"
  by (simp add: list_packages_def scan_user_data_for_uids_def ex_scan_env_def user_data_actor_def Let_def
      dot_name_def strncmp_eq_def USER_DATA_PATH_def ex_throne_def ex_uid_data_def numeral_3_eq_3)

lemma ex_pkg:
  "get_pkg_from_apk_path (replicate 256 CHR ''x'') ''/data/app/~a/m.g-1/base.apk'' =
     Some ((c_strncpy (replicate 256 CHR ''x'') ''m.g-1/base.apk'' 3)[3 := NUL])"
  by (simp add: get_pkg_from_apk_path_def c_strlen_def numeral_eq_Suc)

lemma ex_throne_env_sel [simp]:
  "te_manager_package ex_throne_env = None" "te_manager_size ex_throne_env = 3"
  "te_manager_hash ex_throne_env = ''0707''" "te_apk ex_throne_env p = ex_apk_io (ex_image [Scheme_v2 ex_signer])"
  "te_full_name_hash ex_throne_env p = 5" "te_path_alloc ex_throne_env p" "te_hash_alloc ex_throne_env p"
  "te_pkg_junk ex_throne_env = replicate 256 CHR ''x''"
  "te_dir ex_throne_env ''/data/app'' = Some (1, [(''.'', 4), (''~a'', 4)])"
  "te_dir ex_throne_env ''/data/app/~a'' = Some (1, [(''m.g-1'', 4)])"
  "te_dir ex_throne_env ''/data/app/~a/m.g-1'' = Some (1, [(''lib'', 4), (''base.apk'', 8)])"
  by (simp_all add: ex_throne_env_def)

lemma ex_crown:
  "crown_manager ex_throne_env ''/data/app/~a/m.g-1/base.apk'' [ex_uid_data] th = crown ex_uid_data th"
proof -
  have "(replicate 253 c)[0 := NUL] = NUL # replicate 252 c" for c
    using replicate_Suc [of 252 c] by simp
  then show ?thesis
    by (simp add: crown_manager_def ex_pkg ex_uid_data_def strncmp_eq_def c_strncpy_def Let_def numeral_3_eq_3)
qed

lemma ex_visit:
  "visit ex_throne_env uids (''/data/app'', Suc (Suc 0)) 0 False th =
     Some (1, \<lparr>wk_new = [(''/data/app/~a'', 1)], wk_stop = False, wk_throne = th\<rparr>)"
  "visit ex_throne_env uids (''/data/app/~a'', 1) 1 False th =
     Some (1, \<lparr>wk_new = [(''/data/app/~a/m.g-1'', 0)], wk_stop = False, wk_throne = th\<rparr>)"
  "visit ex_throne_env [ex_uid_data] (''/data/app/~a/m.g-1'', 0) 1 False (th\<lparr>apk_path_hash_list := [(9, False)]\<rparr>) =
     Some (1, \<lparr>wk_new = [], wk_stop = True,
       wk_throne = (crown ex_uid_data (th\<lparr>apk_path_hash_list := [(9, False)]\<rparr>))\<lparr>apk_path_hash_list := []\<rparr>\<rparr>)"
  by (simp_all add: visit_def my_actor_def Let_def dot_name_def strncmp_eq_def base_apk_def check_apk_def
      ex_image_manager ex_crown)

lemma ex_search:
  "search_manager ex_throne_env ''/data/app'' 2 [ex_uid_data] (ex_throne\<lparr>scan_lock := 1\<rparr>) =
     Some (ex_throne\<lparr>scan_lock := 1, th_manager_uid := 10007, locked_manager_uid := 10007, apk_path_hash_list := []\<rparr>)"
  using ex_visit(3) [where th = "ex_throne\<lparr>scan_lock := 1\<rparr>"]
  by (simp add: search_manager_def numeral_2_eq_2 ex_visit(1,2) [simplified])
    (simp add: ex_throne_def crown_def ex_uid_data_def ksu_set_manager_uid_def)

lemma ex_no_manager: "\<not> manager_exists [ex_uid_data] ex_throne" "\<not> manager_exists [ex_uid_data] (ex_throne\<lparr>scan_lock := 1\<rparr>)"
  by (simp_all add: manager_exists_def ex_uid_data_def ex_throne_def ksu_get_manager_uid_def)

lemma ex_track:
  "ksu_track_throne ex_throne_env ex_scan_env tmps (ex_throne, al) =
     Some (ex_throne\<lparr>scan_lock := 1, th_manager_uid := 10007, locked_manager_uid := 10007, apk_path_hash_list := []\<rparr>,
       ksu_prune_allowlist (is_uid_exist [ex_uid_data]) tmps al)"
proof -
  have "unlock_manager (ex_throne\<lparr>scan_lock := 1\<rparr>) = ex_throne\<lparr>scan_lock := 1\<rparr>"
    by (simp add: unlock_manager_def ex_throne_def)
  then show ?thesis
    using ex_search by (simp add: ksu_track_throne_def ex_list_packages ex_no_manager)
qed

lemma only_signed_apps_crowned_witness: "crownable ex_throne_env [ex_uid_data] 10007"
  using only_signed_apps_crowned [OF ex_track] by (simp add: ex_list_packages) (simp add: ex_throne_def)

subsection \<open>The package of a path\<close>

lemma slash_skip:
  "lo \<le> hi \<Longrightarrow> \<forall>j. lo \<le> j \<and> j < hi \<longrightarrow> path ! j \<noteq> CHR ''/'' \<Longrightarrow> slash_loop path hi l = slash_loop path lo l"
  by (induction hi) (auto simp: le_Suc_eq)

lemma slash_found: "path ! i = CHR ''/'' \<Longrightarrow> slash_loop path (Suc i) (Some l) = (Some l, Some i)"
  "path ! i = CHR ''/'' \<Longrightarrow> slash_loop path (Suc i) None = slash_loop path i (Some i)"
  by simp_all

lemma slash_scan:
  fixes pre :: string
  assumes "CHR ''/'' \<notin> set mid" "CHR ''/'' \<notin> set fname"
  defines "path \<equiv> pre @ ''/'' @ mid @ ''/'' @ fname"
  shows "slash_loop path (length path) None = (Some (length pre + 1 + length mid), Some (length pre))"
proof -
  let ?l = "length pre + 1 + length mid"
  have nth: "path ! (length pre) = CHR ''/''" "path ! ?l = CHR ''/''" by (simp_all add: path_def nth_append)
  have "path ! j \<noteq> CHR ''/''" if "Suc ?l \<le> j" "j < length path" for j
  proof -
    have "path ! j = fname ! (j - Suc ?l)" "j - Suc ?l < length fname"
      using that by (auto simp: path_def nth_append nth_Cons')
    then show ?thesis using assms(2) by (metis nth_mem)
  qed
  then have 1: "slash_loop path (length path) None = slash_loop path (Suc ?l) None"
    by (intro slash_skip) (auto simp: path_def)
  have "path ! j \<noteq> CHR ''/''" if "Suc (length pre) \<le> j" "j < ?l" for j
  proof -
    have "path ! j = mid ! (j - Suc (length pre))" "j - Suc (length pre) < length mid"
      using that by (auto simp: path_def nth_append nth_Cons')
    then show ?thesis using assms(1) by (metis nth_mem)
  qed
  then have 2: "slash_loop path ?l (Some ?l) = slash_loop path (Suc (length pre)) (Some ?l)"
    by (intro slash_skip) auto
  show ?thesis unfolding 1 slash_found(2) [OF nth(2)] 2 slash_found(1) [OF nth(1)] ..
qed

lemma pkg_of_path:
  fixes pre :: string
  assumes "CHR ''/'' \<notin> set (pkg @ suf)" "CHR ''/'' \<notin> set fname" "CHR ''-'' \<notin> set pkg" "pkg \<noteq> []"
  defines "path \<equiv> pre @ ''/'' @ (pkg @ ''-'' @ suf) @ ''/'' @ fname"
  assumes "NUL \<notin> set path" "length path < KSU_MAX_PACKAGE_NAME" "length junk = KSU_MAX_PACKAGE_NAME"
  obtains b where "get_pkg_from_apk_path junk path = Some b" "cstr b = pkg"
proof -
  have c: "cstr path = path" using assms(6) by (rule cstr_eq_self)
  have scan: "slash_loop path (length path) None = (Some (length pre + 1 + length (pkg @ ''-'' @ suf)), Some (length pre))"
    unfolding path_def using assms(1,2) by (intro slash_scan) auto
  have "c_strchr (pkg @ CHR ''-'' # t) CHR ''-'' = Some (length pkg)" for t
    using assms(3) by (induction pkg) auto
  then have hyphen: "c_strchr (drop (length pre) path) CHR ''-'' = Some (Suc (length pkg))"
    by (simp add: path_def)
  define b where "b = (c_strncpy junk (drop (length pre + 1) path) (length pkg))[length pkg := NUL]"
  have "get_pkg_from_apk_path junk path = Some b"
  proof -
    have "\<not> length path < 1" "length pkg < KSU_MAX_PACKAGE_NAME" using assms(7) by (simp_all add: path_def)
    then show ?thesis
      using assms(4,7) unfolding get_pkg_from_apk_path_def c_strlen_def c
      by (simp add: scan hyphen b_def Let_def not_le not_less)
  qed
  moreover have "cstr b = pkg"
  proof -
    have n: "NUL \<notin> set pkg" using assms(6) by (simp add: path_def)
    have "length pkg < length junk" using assms(7,8) by (simp add: path_def)
    then obtain x xs where d: "drop (length pkg) junk = x # xs" by (metis drop_eq_Nil leD list.exhaust)
    have "cstr (drop (length pre + 1) path) = drop (length pre + 1) path"
      using assms(6) by (intro cstr_eq_self) (auto dest: in_set_dropD)
    then have "b = pkg @ NUL # xs" by (simp add: b_def c_strncpy_def Let_def path_def d)
    then show ?thesis using n by (simp add: cstr_append_NUL)
  qed
  ultimately show ?thesis by (rule that)
qed

subsection \<open>Pruning\<close>

text \<open>An entry of /data/user_de/0 for the package, with every lookup and the allocation succeeding.\<close>

definition found :: "scan_env \<Rightarrow> dir_entry list \<Rightarrow> u32 \<Rightarrow> cbuf \<Rightarrow> bool" where
  "found se entries uid package \<longleftrightarrow>
     (\<exists>name. (name, DT_DIR) \<in> set entries \<and> \<not> dot_name name \<and> length name < KSU_MAX_PACKAGE_NAME \<and>
        sc_kern_path se (USER_DATA_PATH @ ''/'' @ name) = 0 \<and>
        sc_getattr se (USER_DATA_PATH @ ''/'' @ name) = Inr uid \<and> uid \<noteq> - 1 \<and> sc_uid_alloc se name \<and>
        take KSU_MAX_PACKAGE_NAME (cstr package) = name)"

definition names_ok :: "dir_entry list \<Rightarrow> bool" where
  "names_ok entries \<longleftrightarrow> (\<forall>(name, d_type) \<in> set entries. NUL \<notin> set name)"

definition user_data_of :: "scan_env \<Rightarrow> dir_entry \<Rightarrow> uid_data list" where
  "user_data_of se entry = fst (user_data_actor se entry ([], 0))"

lemma user_data_actor_append: "fst (user_data_actor se x acc) = fst acc @ user_data_of se x"
  by (cases x; cases acc)
    (simp add: user_data_of_def user_data_actor_def Let_def split: sum.split)

lemma scan_concat: "fst (fold (user_data_actor se) xs acc) = fst acc @ concat (map (user_data_of se) xs)"
  by (induction xs arbitrary: acc) (simp_all add: user_data_actor_append)

lemma package_cstr:
  assumes "NUL \<notin> set name" "length name < KSU_MAX_PACKAGE_NAME"
  shows "cstr ((c_strncpy (replicate KSU_MAX_PACKAGE_NAME NUL) name (length name))[length name := NUL]) = name"
proof -
  have "drop (length name) (replicate KSU_MAX_PACKAGE_NAME NUL) = NUL # replicate (255 - length name) NUL"
    using assms(2) by (simp add: Suc_diff_le flip: replicate_Suc)
  then have "(c_strncpy (replicate KSU_MAX_PACKAGE_NAME NUL) name (length name))[length name := NUL] =
      name @ NUL # replicate (255 - length name) NUL"
    using assms by (simp add: c_strncpy_def Let_def cstr_eq_self list_update_append)
  then show ?thesis using assms(1) by (simp add: cstr_append_NUL)
qed

lemma scan_finds:
  assumes "names_ok entries"
  shows "is_uid_exist (concat (map (user_data_of se) entries)) u package \<longleftrightarrow> found se entries (u mod 100000) package"
proof -
  have len: "length USER_DATA_PATH = 15" by code_simp
  have one: "(\<exists>np \<in> set (user_data_of se (name, t)). ud_uid np = u mod 100000 \<and>
      strncmp_eq (ud_package np) package KSU_MAX_PACKAGE_NAME) \<longleftrightarrow> found se [(name, t)] (u mod 100000) package"
    if n: "NUL \<notin> set name" for name t
    using package_cstr [OF n] 
    by (auto simp: user_data_of_def user_data_actor_def Let_def found_def len strncmp_eq_def split: sum.splits)
  have one': "(\<exists>np \<in> set (user_data_of se x). ud_uid np = u mod 100000 \<and>
      strncmp_eq (ud_package np) package KSU_MAX_PACKAGE_NAME) \<longleftrightarrow> found se [x] (u mod 100000) package"
    if "x \<in> set entries" for x
    using one [of "fst x" "snd x"] assms that by (cases x) (auto simp: names_ok_def)
  have "is_uid_exist (concat (map (user_data_of se) entries)) u package \<longleftrightarrow>
      (\<exists>x \<in> set entries. \<exists>np \<in> set (user_data_of se x). ud_uid np = u mod 100000 \<and>
        strncmp_eq (ud_package np) package KSU_MAX_PACKAGE_NAME)"
    by (auto simp: is_uid_exist_def list_ex_iff)
  also have "\<dots> \<longleftrightarrow> (\<exists>x \<in> set entries. found se [x] (u mod 100000) package)"
    using one' by (intro bex_cong) auto
  also have "\<dots> \<longleftrightarrow> found se entries (u mod 100000) package" by (auto simp: found_def)
  finally show ?thesis .
qed

lemma list_packages_scan:
  assumes "sc_user_data se = Inr (entries, ret)" "0 \<le> ret"
  shows "\<exists>th1. list_packages se th = Inr (th1, concat (map (user_data_of se) entries))"
  using assms scan_concat [of se entries "([], 0)"]
  by (simp add: list_packages_def scan_user_data_for_uids_def)

text \<open>C21. After a scan of /data/user_de/0 a profile survives exactly if it is preserved or an entry of
  the directory was found for its package with its app id, and a uid stays granted exactly if all its
  profiles survive. An installed app whose directory could not be looked up or read, or whose list entry
  could not be allocated, counts as removed: the error is only logged, and its grant is revoked.\<close>
theorem scan_prunes_unseen_apps:
  assumes "sc_user_data se = Inr (entries, ret)" "0 \<le> ret" "names_ok entries"
    and "\<And>k. tmp_ok (tmps k)" "allow_wf al"
    and "ksu_track_throne e se tmps (th, al) = Some (th', al')"
  shows "al_list al' = filter (\<lambda>p. ap_current_uid p = KSU_APP_PROFILE_PRESERVE_UID \<or>
      found se entries (ap_current_uid p mod 100000) (ap_key p)) (al_list al) \<and>
    (\<forall>u. granted al' u \<longleftrightarrow> granted al u \<and> (\<forall>p \<in> set (al_list al). ap_current_uid p = u \<longrightarrow> p \<in> set (al_list al')))"
proof -
  let ?uids = "concat (map (user_data_of se) entries)"
  obtain th1 where "list_packages se th = Inr (th1, ?uids)" using list_packages_scan [OF assms(1,2)] by blast
  then have al': "al' = ksu_prune_allowlist (is_uid_exist ?uids) tmps al"
    using assms(6) by (auto simp: ksu_track_throne_def split: option.splits)
  have keep: "keeps (is_uid_exist ?uids) = (\<lambda>p. ap_current_uid p = KSU_APP_PROFILE_PRESERVE_UID \<or>
      found se entries (ap_current_uid p mod 100000) (ap_key p))"
    by (simp add: keeps_def fun_eq_iff scan_finds [OF assms(3)])
  show ?thesis
  proof (intro conjI allI)
    note spec = prune_spec(1,2) [where tmps = tmps and st = al and valid = "is_uid_exist ?uids",
        OF assms(4,5), folded al', unfolded keep]
    show l: "al_list al' = filter (\<lambda>p. ap_current_uid p = KSU_APP_PROFILE_PRESERVE_UID \<or>
      found se entries (ap_current_uid p mod 100000) (ap_key p)) (al_list al)" by (rule spec(1))
    show "granted al' u \<longleftrightarrow> granted al u \<and>
        (\<forall>p \<in> set (al_list al). ap_current_uid p = u \<longrightarrow> p \<in> set (al_list al'))" for u
      unfolding spec(2) l by auto
  qed
qed

definition ex_failing_scan :: scan_env where
  "ex_failing_scan = ex_scan_env
     \<lparr>sc_user_data := Inr ([(''com.app'', 4), (''m.g'', 4)], 0),
      sc_getattr := (\<lambda>p. if p = ''/data/user_de/0/m.g'' then Inr 10007 else Inl (- 12))\<rparr>"

lemma ex_failing_list: "list_packages ex_failing_scan ex_throne = Inr (ex_throne\<lparr>scan_lock := 1\<rparr>, [ex_uid_data])"
  by (simp add: list_packages_def scan_user_data_for_uids_def ex_failing_scan_def ex_scan_env_def user_data_actor_def
      Let_def dot_name_def strncmp_eq_def USER_DATA_PATH_def ex_throne_def ex_uid_data_def numeral_3_eq_3)

lemma ex_failing_track:
  "\<exists>al' th'. ksu_track_throne ex_throne_env ex_failing_scan tmps (ex_throne, al) = Some (th', al')"
  using ex_track [of tmps al] by (simp add: ksu_track_throne_def ex_failing_list ex_list_packages)

lemma scan_prunes_unseen_apps_witness:
  "\<exists>th' al'. ksu_track_throne ex_throne_env ex_failing_scan (\<lambda>k. se_tmp_arr ex_env) (ex_throne, ex_state 10123 True) =
     Some (th', al') \<and> (''com.app'', DT_DIR) \<in> set (fst (projr (sc_user_data ex_failing_scan))) \<and>
   granted (ex_state 10123 True) 10123 \<and> \<not> granted al' 10123 \<and> al_list al' = []"
proof -
  obtain th' al' where t: "ksu_track_throne ex_throne_env ex_failing_scan (\<lambda>k. se_tmp_arr ex_env)
      (ex_throne, ex_state 10123 True) = Some (th', al')" using ex_failing_track by blast
  have u: "sc_user_data ex_failing_scan = Inr ([(''com.app'', 4), (''m.g'', 4)], 0)" by (simp add: ex_failing_scan_def)
  have n: "names_ok [(''com.app'', 4), (''m.g'', 4)]" by (simp add: names_ok_def)
  have "allow_wf (ex_state 10123 True)"
    using allow_reach_inv [OF ex_state_reach] by (simp add: allow_inv_def)
  from scan_prunes_unseen_apps [OF u _ n ex_env_ok(1) this t]
  have "al_list al' = [] \<and> \<not> granted al' 10123"
    by (simp add: ex_state_list found_def ex_failing_scan_def USER_DATA_PATH_def)
  then show ?thesis using t u ex_state_granted by simp
qed

subsection \<open>The packages list\<close>

text \<open>A line of the list: the package, the uid, and the rest of the line.\<close>

definition line_bytes :: "string \<times> string \<times> string \<Rightarrow> string" where
  "line_bytes l = (case l of (pkg, uid, rest) \<Rightarrow> pkg @ '' '' @ uid @ '' '' @ rest @ [CHR 0x0A])"

definition line_ok :: "string \<times> string \<times> string \<Rightarrow> bool" where
  "line_ok l \<longleftrightarrow> (case l of (pkg, uid, rest) \<Rightarrow>
     set (pkg @ uid) \<inter> {NUL, CHR '' '', CHR 0x0A} = {} \<and> CHR 0x0A \<notin> set rest \<and>
     length pkg + length uid + 2 \<le> KSU_MAX_PACKAGE_NAME)"

definition line_data :: "(string \<Rightarrow> u32 option) \<Rightarrow> string \<times> string \<times> string \<Rightarrow> uid_data" where
  "line_data kstrtou32 l = (case l of (pkg, uid, rest) \<Rightarrow>
     \<lparr>ud_uid = the (kstrtou32 uid),
      ud_package = c_strncpy (replicate KSU_MAX_PACKAGE_NAME NUL) pkg KSU_MAX_PACKAGE_NAME\<rparr>)"

lemma c_strchr_None: "c \<notin> set s \<Longrightarrow> c_strchr s c = None"
  by (induction s) auto

lemma c_strchr_append: "c \<notin> set s \<Longrightarrow> c_strchr (s @ c # t) c = Some (length s)"
  by (induction s) auto

lemma cstr_prefix: "NUL \<notin> set s \<Longrightarrow> cstr (s @ t) = s @ cstr t"
  by (induction s) auto

lemma cut_line_ok:
  assumes "NUL \<notin> set (pkg @ uid)" "CHR '' '' \<notin> set (pkg @ uid)"
  shows "\<exists>b. cut_line (pkg @ '' '' @ uid @ '' '' @ r) = (Some pkg, Some uid, b) \<and> length b = length (pkg @ '' '' @ uid @ '' '' @ r)"
  using assms
  by (simp add: cut_line_def c_strsep_def cstr_prefix c_strchr_append)

lemma skip_chars:
  "CHR 0x0A \<notin> set s \<Longrightarrow> drop pos file = s @ t \<Longrightarrow>
   packages_loop se file pos ls buf n uids = packages_loop se file (pos + length s) ls buf n uids"
proof (induction s arbitrary: pos)
  case (Cons c s)
  have "pos < length file" using Cons.prems(2) by (metis append_Cons drop_all linorder_not_le list.distinct(1))
  moreover have "file ! pos = c" "drop (pos + 1) file = s @ t"
    using Cons.prems(2) calculation by (metis append_Cons Cons_nth_drop_Suc list.inject Suc_eq_plus1)+
  ultimately show ?case
    using Cons.IH [of "pos + 1"] Cons.prems(1) by (subst packages_loop.simps) auto
qed simp

lemma take_beyond: "length a \<le> n \<Longrightarrow> take n (a @ b) = a @ take (n - length a) b"
  by simp

lemma packages_line:
  assumes l: "line_ok (pkg, uid, rest)" and f: "drop ls file = line_bytes (pkg, uid, rest) @ t"
    and a: "sc_line_alloc se n" and b: "length buf = KSU_MAX_PACKAGE_NAME"
  obtains buf' where "length buf' = KSU_MAX_PACKAGE_NAME"
    "packages_loop se file ls ls buf n uids =
      (case sc_kstrtou32 se uid of
         None \<Rightarrow> Some uids
       | Some res \<Rightarrow>
           packages_loop se file (ls + length (line_bytes (pkg, uid, rest))) (ls + length (line_bytes (pkg, uid, rest)))
             buf' (n + 1) (uids @ [line_data (sc_kstrtou32 se) (pkg, uid, rest)]))"
proof -
  define s where "s = pkg @ '' '' @ uid @ '' '' @ rest"
  have s: "CHR 0x0A \<notin> set s" "drop ls file = s @ CHR 0x0A # t"
    using l f by (auto simp: line_ok_def s_def line_bytes_def)
  let ?p = "ls + length s"
  have p: "?p < length file" "file ! ?p = CHR 0x0A"
  proof -
    have "length s < length (drop ls file)" unfolding s(2) by simp
    then show "?p < length file" by simp
    have "drop ls file ! length s = CHR 0x0A" unfolding s(2) by simp
    then show "file ! ?p = CHR 0x0A" using \<open>?p < length file\<close> by simp
  qed
  define line where "line = take KSU_MAX_PACKAGE_NAME (drop ls file)"
  obtain r where r: "line = pkg @ '' '' @ uid @ '' '' @ r"
  proof -
    have "length (pkg @ '' '' @ uid @ '' '') \<le> KSU_MAX_PACKAGE_NAME" using l by (simp add: line_ok_def)
    moreover have "line = take KSU_MAX_PACKAGE_NAME ((pkg @ '' '' @ uid @ '' '') @ rest @ CHR 0x0A # t)"
      unfolding line_def s(2) s_def by simp
    ultimately have "line = (pkg @ '' '' @ uid @ '' '') @
        take (KSU_MAX_PACKAGE_NAME - length (pkg @ '' '' @ uid @ '' '')) (rest @ CHR 0x0A # t)"
      by (simp only: take_beyond)
    then show ?thesis by (intro that) simp
  qed
  have "length line \<le> KSU_MAX_PACKAGE_NAME" by (simp add: line_def)
  then have blen: "length (line @ drop (length line) buf) = KSU_MAX_PACKAGE_NAME" using b by simp
  obtain buf' where cut: "cut_line (line @ drop (length line) buf) = (Some pkg, Some uid, buf')"
    "length buf' = KSU_MAX_PACKAGE_NAME"
    using cut_line_ok [of pkg uid "r @ drop (length line) buf"] l blen unfolding r
    by (auto simp: line_ok_def)
  have "packages_loop se file ls ls buf n uids = packages_loop se file ?p ls buf n uids"
    by (rule skip_chars [OF s])
  also have "\<dots> = (case sc_kstrtou32 se uid of
         None \<Rightarrow> Some uids
       | Some res \<Rightarrow> packages_loop se file (?p + 1) (?p + 1) buf' (n + 1)
           (uids @ [line_data (sc_kstrtou32 se) (pkg, uid, rest)]))"
    using p a cut(1) by (subst packages_loop.simps) (simp add: Let_def line_def [symmetric] line_data_def split: option.split)
  also have "?p + 1 = ls + length (line_bytes (pkg, uid, rest))" by (simp add: s_def line_bytes_def)
  finally show ?thesis using cut(2) by (intro that [of buf'])
qed

text \<open>Reading the packages list returns, in order, the package and the uid of its lines up to the
  first whose uid does not parse; the lines after it are dropped without an error, so that the following
  pruning takes their apps for removed. (A line's package, uid and two blanks fit the 256-byte buffer.)\<close>
theorem packages_list_parsed:
  assumes "\<forall>l \<in> set ls. line_ok l" "\<And>n. sc_line_alloc se n" "length junk = KSU_MAX_PACKAGE_NAME"
  shows "packages_loop se (concat (map line_bytes ls)) 0 0 junk 0 [] =
    Some (map (line_data (sc_kstrtou32 se)) (takeWhile (\<lambda>(pkg, uid, rest). sc_kstrtou32 se uid \<noteq> None) ls))"
proof -
  let ?good = "takeWhile (\<lambda>(pkg, uid, rest). sc_kstrtou32 se uid \<noteq> None)"
  have "packages_loop se cs pos pos buf n uids = Some (uids @ map (line_data (sc_kstrtou32 se)) (?good ls))"
    if "drop pos cs = concat (map line_bytes ls)" "length buf = KSU_MAX_PACKAGE_NAME" for cs pos buf n uids
    using that assms(1)
  proof (induction ls arbitrary: pos buf n uids)
    case Nil
    then show ?case by (subst packages_loop.simps) simp
  next
    case (Cons l ls)
    obtain pkg uid rest where l: "l = (pkg, uid, rest)" by (cases l)
    have f: "drop pos cs = line_bytes (pkg, uid, rest) @ concat (map line_bytes ls)" using Cons.prems l by simp
    have ok: "line_ok (pkg, uid, rest)" using Cons.prems l by simp
    obtain buf' where b: "length buf' = KSU_MAX_PACKAGE_NAME"
      "packages_loop se cs pos pos buf n uids =
        (case sc_kstrtou32 se uid of
           None \<Rightarrow> Some uids
         | Some res \<Rightarrow>
             packages_loop se cs (pos + length (line_bytes (pkg, uid, rest))) (pos + length (line_bytes (pkg, uid, rest)))
               buf' (n + 1) (uids @ [line_data (sc_kstrtou32 se) (pkg, uid, rest)]))"
      by (rule packages_line [OF ok f assms(2) Cons.prems(2)])
    have d: "drop (pos + length (line_bytes l)) cs = concat (map line_bytes ls)"
    proof -
      have "drop (length (line_bytes l)) (drop pos cs) = concat (map line_bytes ls)" unfolding f l by simp
      then show ?thesis by (simp add: add.commute)
    qed
    show ?case
      using Cons.IH [OF d b(1)] Cons.prems(3) by (simp add: b(2) l split: option.split)
  qed
  from this [of 0] show ?thesis using assms(3) by simp
qed

lemma packages_list_parsed_witness:
  "packages_loop (ex_scan_env\<lparr>sc_kstrtou32 := (\<lambda>s. if s = ''10'' then Some 10 else None)\<rparr>)
     (''a.b 10 0 x'' @ [CHR 0x0A] @ ''c.d 1z 0 x'' @ [CHR 0x0A] @ ''e.f 10 0 x'' @ [CHR 0x0A]) 0 0
     (replicate 256 CHR ''q'') 0 [] =
   Some [\<lparr>ud_uid = 10, ud_package = c_strncpy (replicate 256 NUL) ''a.b'' 256\<rparr>]"
  using packages_list_parsed [of "[(''a.b'', ''10'', ''0 x''), (''c.d'', ''1z'', ''0 x''), (''e.f'', ''10'', ''0 x'')]"
      "ex_scan_env\<lparr>sc_kstrtou32 := (\<lambda>s. if s = ''10'' then Some 10 else None)\<rparr>" "replicate 256 CHR ''q''"]
  by (simp add: line_ok_def line_bytes_def line_data_def ex_scan_env_def)

end
