(* ===== verification/Throne_Search.thy ===== *)
theory Throne_Search
  imports Throne_Props
begin

text \<open>
  The walk of \<open>search_manager\<close> (\<^verbatim>\<open>throne_tracker.c\<close>) ends with an empty queue, and finds an installed
  manager: an invariant of the queue is carried through the visits.
\<close>

subsection \<open>The queue empties\<close>

lemma walk_round_depth:
  "walk_round e uids q m stop th = Some (q', m', stop', th') \<Longrightarrow> \<forall>x \<in> set q. snd x < d \<Longrightarrow> \<forall>x \<in> set q'. Suc (snd x) < d"
proof (induction e uids q m stop th rule: walk_round.induct)
  case (2 e uids pos rest m stop th)
  obtain m1 w where v: "visit e uids pos m stop th = Some (m1, w)"
    using "2.prems" by (auto split: option.splits)
  have new: "\<forall>x \<in> set (wk_new w). Suc (snd x) < d" using visit_new [OF v] "2.prems"(2) by fastforce
  show ?case
  proof (cases "rest = []")
    case True
    then show ?thesis using "2.prems" v new by simp
  next
    case False
    then have "walk_round e uids (rest @ wk_new w) m1 (wk_stop w) (wk_throne w) = Some (q', m', stop', th')"
      using "2.prems" v by simp
    moreover have "\<forall>x \<in> set (rest @ wk_new w). snd x < d" using "2.prems"(2) new by auto
    ultimately show ?thesis using "2.IH" [OF v refl False] by blast
  qed
qed simp

lemma walk_rounds_empty:
  "walk_rounds k e uids q m stop th = Some (q', th') \<Longrightarrow> \<forall>x \<in> set q. snd x < k \<Longrightarrow> q' = []"
proof (induction k arbitrary: q m stop th)
  case 0
  then have "q = []" by (metis list.set_sel(1) not_less_zero)
  then show ?case using 0 by simp
next
  case (Suc k)
  then obtain q1 m1 stop1 th1 where r: "walk_round e uids q m stop th = Some (q1, m1, stop1, th1)"
    "walk_rounds k e uids q1 m1 stop1 th1 = Some (q', th')" by (auto split: option.splits)
  have "\<forall>x \<in> set q1. snd x < k" using walk_round_depth [OF r(1) Suc.prems(2)] by simp
  then show ?case using Suc.IH [OF r(2)] by blast
qed

definition checks_return :: "throne_env \<Rightarrow> bool" where
  "checks_return e \<longleftrightarrow> (\<forall>p. te_hash_alloc e p \<and>
     (\<exists>b. ksu_is_manager_apk (te_apk e p) (te_manager_size e) (te_manager_hash e) = Some b))"

lemma check_apk_returns: "checks_return e \<Longrightarrow> check_apk e uids p w \<noteq> None"
  unfolding check_apk_def checks_return_def Let_def
  by (auto split: option.split bool.split) (metis option.distinct(1))

lemma my_actor_returns: "checks_return e \<Longrightarrow> my_actor e uids p d x w \<noteq> None"
  using check_apk_returns by (auto simp: my_actor_def Let_def split: prod.split)

lemma iterate_dir_returns: "checks_return e \<Longrightarrow> iterate_dir e uids p d xs w \<noteq> None"
  by (induction xs arbitrary: w) (auto simp: my_actor_returns split: option.split)

lemma visit_returns: "checks_return e \<Longrightarrow> visit e uids pos m stop th \<noteq> None"
  using iterate_dir_returns by (auto simp: visit_def Let_def split: option.split prod.split)

lemma walk_round_returns: "checks_return e \<Longrightarrow> walk_round e uids q m stop th \<noteq> None"
  by (induction e uids q m stop th rule: walk_round.induct) (auto simp: visit_returns split: option.split)

lemma walk_rounds_returns: "checks_return e \<Longrightarrow> walk_rounds k e uids q m stop th \<noteq> None"
  using walk_round_returns by (induction k arbitrary: q m stop th) (auto split: option.split)

text \<open>The search for the manager ends: the rounds over the growing queue terminate, and after one
  round more than the depth the queue is empty, so that every directory queued is closed and freed. It
  needs the cache entries to be allocated and the APK checks to return (they do on regular files).\<close>
theorem search_ends_with_empty_queue:
  assumes "checks_return e"
  shows "\<exists>th'. walk_rounds (depth + 1) e uids [(path, depth)] magic stop th = Some ([], th')"
proof -
  obtain q' th' where w: "walk_rounds (depth + 1) e uids [(path, depth)] magic stop th = Some (q', th')"
    using walk_rounds_returns [OF assms, of "depth + 1"] by fastforce
  then have "q' = []" using walk_rounds_empty [OF w] by simp
  with w show ?thesis by blast
qed

lemma ex_checks_return: "checks_return ex_throne_env"
  by (auto simp: checks_return_def ex_image_manager)

lemma search_ends_with_empty_queue_witness:
  "\<exists>th'. walk_rounds 3 ex_throne_env [ex_uid_data] [(''/data/app'', 2)] 0 False ex_throne = Some ([], th')"
  using search_ends_with_empty_queue [OF ex_checks_return, of 2] by simp

subsection \<open>The manager is found\<close>

text \<open>The files named base.apk that a walk to depth \<open>d\<close> below a directory can come across: finitely many
  paths, those the directories list.\<close>

definition entries_of :: "throne_env \<Rightarrow> string \<Rightarrow> dir_entry list" where
  "entries_of e dir = (case te_dir e dir of None \<Rightarrow> [] | Some (magic, es) \<Rightarrow> es)"

definition apks_in :: "throne_env \<Rightarrow> string \<Rightarrow> string set" where
  "apks_in e dir = (if base_apk \<in> fst ` set (entries_of e dir) then {dir @ ''/'' @ base_apk} else {})"

fun apks_below :: "throne_env \<Rightarrow> nat \<Rightarrow> string \<Rightarrow> string set" where
  "apks_below e 0 dir = apks_in e dir"
| "apks_below e (Suc d) dir =
     apks_in e dir \<union> (\<Union>x \<in> set (entries_of e dir). if snd x = DT_DIR then apks_below e d (dir @ ''/'' @ fst x) else {})"

lemma apks_below_finite: "finite (apks_below e d dir)"
  by (induction e d dir rule: apks_below.induct) (auto simp: apks_in_def)

lemma apks_below_here:
  assumes "te_dir e dir = Some (magic, es)" "x \<in> set es" "fst x = base_apk"
  shows "dir @ ''/'' @ base_apk \<in> apks_below e d dir"
proof -
  have "dir @ ''/'' @ base_apk \<in> apks_in e dir" using assms by (force simp: apks_in_def entries_of_def)
  then show ?thesis by (cases d) auto
qed

text \<open>An installed APK at the usual place: /data/app lists \<open>outer\<close>, that lists \<open>package-suffix\<close>, and that
  lists base.apk, all on one file system; of the files named base.apk that the walk can come across it
  alone passes the check and it alone has its hash (the cache compares hashes only), and \<open>in_entry\<close> is
  the first entry of its package on the list.\<close>

definition plain_dir :: "string \<Rightarrow> bool" where
  "plain_dir name \<longleftrightarrow> \<not> dot_name name \<and>
     \<not> (length name \<ge> 8 \<and> strncmp_eq name ''vmdl'' 4 \<and> strncmp_eq (drop (length name - 4) name) ''.tmp'' 4)"

record install =
  in_outer :: string
  in_package :: string
  in_suffix :: string
  in_magic :: u64
  in_entry :: uid_data

definition in_inner :: "install \<Rightarrow> string" where
  "in_inner i = in_package i @ ''-'' @ in_suffix i"

definition dir0 :: string where "dir0 = ''/data/app''"
definition dir1 :: "install \<Rightarrow> string" where "dir1 i = dir0 @ ''/'' @ in_outer i"
definition dir2 :: "install \<Rightarrow> string" where "dir2 i = dir1 i @ ''/'' @ in_inner i"
definition apk_path :: "install \<Rightarrow> string" where "apk_path i = dir2 i @ ''/'' @ base_apk"

definition accepted_at :: "throne_env \<Rightarrow> string \<Rightarrow> bool" where
  "accepted_at e p \<longleftrightarrow> ksu_is_manager_apk (te_apk e p) (te_manager_size e) (te_manager_hash e) = Some True"

definition installed :: "throne_env \<Rightarrow> uid_data list \<Rightarrow> install \<Rightarrow> bool" where
  "installed e uids i \<longleftrightarrow>
     (\<exists>es0 es1 es2 t. te_dir e dir0 = Some (in_magic i, es0) \<and> te_dir e (dir1 i) = Some (in_magic i, es1) \<and>
        te_dir e (dir2 i) = Some (in_magic i, es2) \<and> (in_outer i, DT_DIR) \<in> set es0 \<and>
        (in_inner i, DT_DIR) \<in> set es1 \<and> (base_apk, t) \<in> set es2 \<and> t \<noteq> DT_DIR) \<and>
     in_magic i \<noteq> 0 \<and> plain_dir (in_outer i) \<and> plain_dir (in_inner i) \<and>
     te_path_alloc e (dir1 i) \<and> te_path_alloc e (dir2 i) \<and> accepted_at e (apk_path i) \<and>
     (\<forall>p \<in> apks_below e 2 dir0.
        accepted_at e p \<or> te_full_name_hash e p = te_full_name_hash e (apk_path i) \<longrightarrow> p = apk_path i) \<and>
     in_package i \<noteq> [] \<and> set (in_package i) \<inter> {CHR ''/'', CHR ''-''} = {} \<and> CHR ''/'' \<notin> set (in_suffix i) \<and>
     NUL \<notin> set (apk_path i) \<and> length (apk_path i) < KSU_MAX_PACKAGE_NAME \<and> length (te_pkg_junk e) = KSU_MAX_PACKAGE_NAME \<and>
     te_manager_package e \<in> {None, Some (in_package i)} \<and>
     List.find (\<lambda>np. take KSU_MAX_PACKAGE_NAME (cstr (ud_package np)) = in_package i) uids = Some (in_entry i)"

definition target_hash :: "throne_env \<Rightarrow> install \<Rightarrow> u32" where
  "target_hash e i = te_full_name_hash e (apk_path i)"

text \<open>Either the manager is crowned and the walk stopped, or its hash is not cached and \<open>P\<close> holds.\<close>

definition searching :: "throne_env \<Rightarrow> install \<Rightarrow> bool \<Rightarrow> throne \<Rightarrow> bool \<Rightarrow> bool" where
  "searching e i stop th P \<longleftrightarrow>
     (if stop then th_manager_uid th = ud_uid (in_entry i)
      else target_hash e i \<notin> fst ` set (apk_path_hash_list th) \<and> P)"

lemma installed_short: "installed e uids i \<Longrightarrow> length (apk_path i) < DATA_PATH_LEN"
  by (simp add: installed_def)

lemma installed_crown:
  assumes "installed e uids i"
  shows "crown_manager e (apk_path i) uids th = crown (in_entry i) th"
proof -
  have path: "apk_path i = (dir1 i) @ ''/'' @ (in_package i @ ''-'' @ in_suffix i) @ ''/'' @ base_apk"
    by (simp add: apk_path_def dir2_def in_inner_def)
  have "CHR ''/'' \<notin> set base_apk" by code_simp
  then obtain b where b: "get_pkg_from_apk_path (te_pkg_junk e) (apk_path i) = Some b" "cstr b = in_package i"
    unfolding path using assms
    by (elim pkg_of_path [rotated -1]) (auto simp: installed_def path)
  have short: "length (in_package i) < KSU_MAX_PACKAGE_NAME" using assms by (auto simp: installed_def path)
  have n: "NUL \<notin> set (in_package i)" using assms by (auto simp: installed_def path)
  have eq: "(\<lambda>np. strncmp_eq (ud_package np) b KSU_MAX_PACKAGE_NAME) =
      (\<lambda>np. take KSU_MAX_PACKAGE_NAME (cstr (ud_package np)) = in_package i)"
    using short by (simp add: strncmp_eq_def b(2) fun_eq_iff)
  have "List.find (\<lambda>np. strncmp_eq (ud_package np) b KSU_MAX_PACKAGE_NAME) uids = Some (in_entry i)"
    unfolding eq using assms by (simp add: installed_def)
  moreover have "te_manager_package e \<in> {None, Some (in_package i)}" using assms by (simp only: installed_def)
  moreover have "strncmp_eq b (in_package i) (length (in_package i) + 1)"
    using n by (simp add: strncmp_eq_def b(2) cstr_eq_self)
  ultimately show ?thesis by (auto simp: crown_manager_def b(1))
qed

lemma check_apk_other:
  assumes "installed e uids i" "checks_return e" "p \<noteq> apk_path i" "\<not> wk_stop w"
    "p \<in> apks_below e 2 dir0"
    "target_hash e i \<notin> fst ` set (apk_path_hash_list (wk_throne w))" "check_apk e uids p w = Some w'"
  shows "\<not> wk_stop w' \<and> target_hash e i \<notin> fst ` set (apk_path_hash_list (wk_throne w')) \<and> wk_new w' = wk_new w"
proof -
  have h: "te_full_name_hash e p \<noteq> target_hash e i" "\<not> accepted_at e p"
  proof -
    have all: "\<forall>p \<in> apks_below e 2 dir0.
        accepted_at e p \<or> te_full_name_hash e p = te_full_name_hash e (apk_path i) \<longrightarrow> p = apk_path i"
      using assms(1) unfolding installed_def by (elim conjE)
    show "te_full_name_hash e p \<noteq> target_hash e i" "\<not> accepted_at e p"
      using bspec [OF all assms(5)] assms(3) by (auto simp: target_hash_def)
  qed
  show ?thesis
  proof (cases "update_first (\<lambda>q. fst q = te_full_name_hash e p) (te_full_name_hash e p, True)
      (apk_path_hash_list (wk_throne w))")
    case None
    then show ?thesis using assms h by (auto simp: check_apk_def Let_def accepted_at_def split: option.splits bool.splits if_splits)
  next
    case (Some l)
    have "fst ` set l \<subseteq> fst ` insert (te_full_name_hash e p, True) (set (apk_path_hash_list (wk_throne w)))"
      by (rule image_mono) (rule update_first_set [OF Some])
    moreover have "target_hash e i \<notin> fst ` insert (te_full_name_hash e p, True) (set (apk_path_hash_list (wk_throne w)))"
      using assms(6) not_sym [OF h(1)] by (simp only: image_insert fst_conv insert_iff simp_thms)
    ultimately have "target_hash e i \<notin> fst ` set l" by (rule contra_subsetD)
    moreover have "w' = w\<lparr>wk_throne := (wk_throne w)\<lparr>apk_path_hash_list := l\<rparr>\<rparr>"
      using Some assms(7) by (simp add: check_apk_def Let_def)
    ultimately show ?thesis using assms(4) by simp
  qed
qed

lemma check_apk_target:
  assumes "installed e uids i" "\<not> wk_stop w" "target_hash e i \<notin> fst ` set (apk_path_hash_list (wk_throne w))"
  shows "\<exists>w'. check_apk e uids (apk_path i) w = Some w' \<and> wk_stop w' \<and> th_manager_uid (wk_throne w') = ud_uid (in_entry i)"
proof -
  have "update_first (\<lambda>q. fst q = te_full_name_hash e (apk_path i)) y (apk_path_hash_list (wk_throne w)) = None" for y
    using assms(3) unfolding update_first_None_iff target_hash_def by (metis image_eqI)
  moreover have "accepted_at e (apk_path i)" using assms(1) unfolding installed_def by (elim conjE)
  moreover note installed_crown [OF assms(1)]
  ultimately show ?thesis
    by (simp add: check_apk_def Let_def accepted_at_def crown_def ksu_set_manager_uid_def)
qed

lemma base_apk_name: "length name = 8 \<Longrightarrow> strncmp_eq name base_apk (length name) \<longleftrightarrow> name = base_apk"
proof -
  assume l: "length name = 8"
  have "length base_apk = 8" "cstr base_apk = base_apk" by (code_simp, code_simp)
  then show ?thesis using cstr_take_eq [OF l, of base_apk] l by (auto simp: strncmp_eq_def)
qed

lemma my_actor_other:
  assumes "installed e uids i" "checks_return e" "\<not> wk_stop w"
    "target_hash e i \<notin> fst ` set (apk_path_hash_list (wk_throne w))"
    "parent \<noteq> dir2 i" "my_actor e uids parent d x w = Some w'"
    "fst x = base_apk \<Longrightarrow> parent @ ''/'' @ base_apk \<in> apks_below e 2 dir0"
  shows "\<not> wk_stop w' \<and> target_hash e i \<notin> fst ` set (apk_path_hash_list (wk_throne w')) \<and>
    set (wk_new w) \<subseteq> set (wk_new w')"
proof -
  have "parent @ ''/'' @ fst x \<noteq> apk_path i" if "fst x = base_apk"
    using assms(5) that by (simp add: apk_path_def)
  then show ?thesis
    using assms(3-7) check_apk_other [OF assms(1,2) _ assms(3) _ assms(4), of "parent @ ''/'' @ fst x" w'] base_apk_name [of "fst x"]
    by (cases x) (auto simp: my_actor_def Let_def split: if_splits)
qed

lemma my_actor_queues:
  assumes "plain_dir name" "length (parent @ ''/'' @ name) < DATA_PATH_LEN" "te_path_alloc e (parent @ ''/'' @ name)"
    "0 < d" "\<not> wk_stop w"
  shows "my_actor e uids parent d (name, DT_DIR) w = Some (w\<lparr>wk_new := wk_new w @ [(parent @ ''/'' @ name, d - 1)]\<rparr>)"
  using assms by (auto simp: my_actor_def Let_def plain_dir_def)

lemma my_actor_target:
  assumes "installed e uids i" "\<not> wk_stop w" "target_hash e i \<notin> fst ` set (apk_path_hash_list (wk_throne w))"
    and "t \<noteq> DT_DIR"
  shows "\<exists>w'. my_actor e uids (dir2 i) d (base_apk, t) w = Some w' \<and> wk_stop w' \<and>
    th_manager_uid (wk_throne w') = ud_uid (in_entry i)"
proof -
  have n: "length base_apk = 8" "\<not> dot_name base_apk" by (code_simp, code_simp)
  have "length (dir2 i @ ''/'' @ base_apk) < DATA_PATH_LEN" "dir2 i @ ''/'' @ base_apk = apk_path i"
    "length (apk_path i) < DATA_PATH_LEN"
    using installed_short [OF assms(1)] by (simp_all add: apk_path_def)
  then show ?thesis
    using check_apk_target [OF assms(1-3)] assms(2,4) base_apk_name [OF n(1)] n
    by (simp add: my_actor_def Let_def)
qed

lemma iterate_dir_stopped: "wk_stop w \<Longrightarrow> iterate_dir e uids p d xs w = Some w"
  by (induction xs) (simp_all add: my_actor_def Let_def split: prod.split)

lemma iterate_dir_other:
  assumes i: "installed e uids i" "checks_return e"
  shows "\<not> wk_stop w \<Longrightarrow> target_hash e i \<notin> fst ` set (apk_path_hash_list (wk_throne w)) \<Longrightarrow>
    parent \<noteq> dir2 i \<Longrightarrow> iterate_dir e uids parent d xs w = Some w' \<Longrightarrow>
    (\<forall>x \<in> set xs. fst x = base_apk \<longrightarrow> parent @ ''/'' @ base_apk \<in> apks_below e 2 dir0) \<Longrightarrow>
    \<not> wk_stop w' \<and> target_hash e i \<notin> fst ` set (apk_path_hash_list (wk_throne w')) \<and> set (wk_new w) \<subseteq> set (wk_new w') \<and>
    (\<forall>name. (name, DT_DIR) \<in> set xs \<longrightarrow> plain_dir name \<longrightarrow> length (parent @ ''/'' @ name) < DATA_PATH_LEN \<longrightarrow>
       te_path_alloc e (parent @ ''/'' @ name) \<longrightarrow> 0 < d \<longrightarrow> (parent @ ''/'' @ name, d - 1) \<in> set (wk_new w'))"
proof (induction xs arbitrary: w)
  case (Cons x xs)
  obtain w1 where s: "my_actor e uids parent d x w = Some w1" "iterate_dir e uids parent d xs w1 = Some w'"
    using Cons.prems by (auto split: option.splits)
  have "\<not> wk_stop w1 \<and> target_hash e i \<notin> fst ` set (apk_path_hash_list (wk_throne w1)) \<and> set (wk_new w) \<subseteq> set (wk_new w1)"
    using Cons.prems(5) by (intro my_actor_other [OF i Cons.prems(1-3) s(1)]) simp
  then have w1: "\<not> wk_stop w1" "target_hash e i \<notin> fst ` set (apk_path_hash_list (wk_throne w1))"
    "set (wk_new w) \<subseteq> set (wk_new w1)" by blast+
  have tail: "\<forall>x \<in> set xs. fst x = base_apk \<longrightarrow> parent @ ''/'' @ base_apk \<in> apks_below e 2 dir0"
    using Cons.prems(5) by simp
  note ih = Cons.IH [OF w1(1,2) Cons.prems(3) s(2) tail]
  have "(parent @ ''/'' @ name, d - 1) \<in> set (wk_new w1)"
    if "(name, DT_DIR) = x" "plain_dir name" "length (parent @ ''/'' @ name) < DATA_PATH_LEN"
      "te_path_alloc e (parent @ ''/'' @ name)" "0 < d" for name
  proof -
    have "w1 = w\<lparr>wk_new := wk_new w @ [(parent @ ''/'' @ name, d - 1)]\<rparr>"
      using s(1) my_actor_queues [OF that(2-5) Cons.prems(1), of uids] that(1) by simp
    then show ?thesis by simp
  qed
  then show ?case using ih w1(3) by (simp only: set_simps insert_iff) blast
qed simp

lemma my_actor_dirs:
  "my_actor e uids parent d x w = Some w' \<Longrightarrow> y \<in> set (wk_new w') \<Longrightarrow>
    y \<in> set (wk_new w) \<or> 0 < d \<and> snd x = DT_DIR \<and> y = (parent @ ''/'' @ fst x, d - 1)"
  by (auto simp: my_actor_def Let_def dest!: check_apk_new split: prod.splits if_splits)

lemma iterate_dir_dirs:
  "iterate_dir e uids parent d xs w = Some w' \<Longrightarrow> y \<in> set (wk_new w') \<Longrightarrow>
    y \<in> set (wk_new w) \<or> 0 < d \<and> (\<exists>x \<in> set xs. snd x = DT_DIR \<and> y = (parent @ ''/'' @ fst x, d - 1))"
proof (induction xs arbitrary: w)
  case (Cons x xs)
  obtain w1 where s: "my_actor e uids parent d x w = Some w1" "iterate_dir e uids parent d xs w1 = Some w'"
    using Cons.prems by (auto split: option.splits)
  show ?case using Cons.IH [OF s(2) Cons.prems(2)] my_actor_dirs [OF s(1), of y] by auto
qed simp

text \<open>What can be found below a queued directory can be found below /data/app.\<close>

definition below :: "throne_env \<Rightarrow> string \<times> nat \<Rightarrow> bool" where
  "below e x \<longleftrightarrow> apks_below e (snd x) (fst x) \<subseteq> apks_below e 2 dir0"

lemma below_child:
  assumes "below e (dir, d)" "te_dir e dir = Some (magic, es)" "x \<in> set es" "snd x = DT_DIR" "0 < d"
  shows "below e (dir @ ''/'' @ fst x, d - 1)"
proof -
  obtain d' where d: "d = Suc d'" using assms(5) gr0_implies_Suc by blast
  have "apks_below e d' (dir @ ''/'' @ fst x) \<subseteq> apks_below e d dir"
    using assms(2-4) unfolding d by (force simp: entries_of_def)
  then show ?thesis using assms(1) by (auto simp: below_def d)
qed

lemma visit_below:
  assumes "below e pos" "visit e uids pos m stop th = Some (m', w)" "y \<in> set (wk_new w)"
  shows "below e y"
proof -
  let ?w = "\<lparr>wk_new = [], wk_stop = False, wk_throne = th\<rparr>"
  have "\<exists>magic es. te_dir e (fst pos) = Some (magic, es) \<and> iterate_dir e uids (fst pos) (snd pos) es ?w = Some w"
    using assms(2,3) by (auto simp: visit_def Let_def split: option.splits prod.splits if_splits)
  then obtain magic es where v: "te_dir e (fst pos) = Some (magic, es)" "wk_new ?w = []"
    "iterate_dir e uids (fst pos) (snd pos) es ?w = Some w" by auto
  then show ?thesis
    using iterate_dir_dirs [OF v(3) assms(3)] below_child [of e "fst pos" "snd pos", OF _ v(1)] assms(1)
    by auto
qed

lemma my_actor_dir2:
  assumes "installed e uids i" "\<not> wk_stop w" "target_hash e i \<notin> fst ` set (apk_path_hash_list (wk_throne w))"
    "my_actor e uids (dir2 i) d x w = Some w'"
  shows "wk_stop w' \<and> th_manager_uid (wk_throne w') = ud_uid (in_entry i) \<or>
    \<not> wk_stop w' \<and> target_hash e i \<notin> fst ` set (apk_path_hash_list (wk_throne w'))"
  using assms(2-4) check_apk_target [OF assms(1-3)] base_apk_name [of "fst x"]
  by (cases x) (auto simp: my_actor_def Let_def apk_path_def split: if_splits)

lemma iterate_dir_target:
  assumes i: "installed e uids i" "checks_return e"
  shows "\<not> wk_stop w \<Longrightarrow> target_hash e i \<notin> fst ` set (apk_path_hash_list (wk_throne w)) \<Longrightarrow>
    (base_apk, t) \<in> set xs \<Longrightarrow> t \<noteq> DT_DIR \<Longrightarrow> iterate_dir e uids (dir2 i) d xs w = Some w' \<Longrightarrow>
    wk_stop w' \<and> th_manager_uid (wk_throne w') = ud_uid (in_entry i)"
proof (induction xs arbitrary: w)
  case (Cons x xs)
  obtain w1 where s: "my_actor e uids (dir2 i) d x w = Some w1" "iterate_dir e uids (dir2 i) d xs w1 = Some w'"
    using Cons.prems by (auto split: option.splits)
  show ?case
  proof (cases "fst x = base_apk \<and> snd x \<noteq> DT_DIR")
    case True
    then have "wk_stop w1 \<and> th_manager_uid (wk_throne w1) = ud_uid (in_entry i)"
      using my_actor_target [OF i(1) Cons.prems(1,2), of "snd x" d] s(1) by (cases x) auto
    then show ?thesis using iterate_dir_stopped [of w1 e uids "dir2 i" d xs] s(2) by simp
  next
    case False
    then have "(base_apk, t) \<in> set xs" using Cons.prems(3,4) by auto
    then show ?thesis
      using my_actor_dir2 [OF i(1) Cons.prems(1,2) s(1)] Cons.IH [of w1] s(2) Cons.prems(4)
        iterate_dir_stopped [of w1 e uids "dir2 i" d xs] by auto
  qed
qed simp

text \<open>The invariant of the walk: the queue holds a directory on the way to the APK at its depth.\<close>

definition on_the_way :: "install \<Rightarrow> (string \<times> nat) set" where
  "on_the_way i = {(dir0, 2), (dir1 i, 1), (dir2 i, 0)}"

definition way_inv :: "throne_env \<Rightarrow> install \<Rightarrow> (string \<times> nat) list \<Rightarrow> u64 \<Rightarrow> bool \<Rightarrow> throne \<Rightarrow> bool" where
  "way_inv e i q m stop th \<longleftrightarrow> searching e i stop th
     (set q \<inter> on_the_way i \<noteq> {} \<and> (m = in_magic i \<or> m = 0 \<and> q = [(dir0, 2)]) \<and> (\<forall>x \<in> set q. below e x))"

lemma visit_way:
  assumes i: "installed e uids i" "checks_return e"
    and inv: "way_inv e i (pos # rest) m stop th"
    and v: "visit e uids pos m stop th = Some (m', w)"
  shows "way_inv e i (rest @ wk_new w) m' (wk_stop w) (wk_throne w)"
proof (cases stop)
  case True
  then show ?thesis using v inv by (auto simp: visit_def Let_def way_inv_def searching_def)
next
  case False
  define w0 where "w0 = \<lparr>wk_new = [], wk_stop = False, wk_throne = th\<rparr>"
  have h: "target_hash e i \<notin> fst ` set (apk_path_hash_list (wk_throne w0))" "\<not> wk_stop w0"
    using inv False by (simp_all add: way_inv_def searching_def w0_def)
  have way: "set (pos # rest) \<inter> on_the_way i \<noteq> {}" and m: "m = in_magic i \<or> m = 0 \<and> pos = (dir0, 2) \<and> rest = []"
    and bl: "below e pos" "\<forall>x \<in> set rest. below e x"
    using inv False by (auto simp: way_inv_def searching_def)
  have nz: "in_magic i \<noteq> 0" using i(1) by (simp add: installed_def)
  obtain es0 es1 es2 t where dirs: "te_dir e dir0 = Some (in_magic i, es0)" "te_dir e (dir1 i) = Some (in_magic i, es1)"
    "te_dir e (dir2 i) = Some (in_magic i, es2)" "(in_outer i, DT_DIR) \<in> set es0"
    "(in_inner i, DT_DIR) \<in> set es1" "(base_apk, t) \<in> set es2" "t \<noteq> DT_DIR"
    using i(1) unfolding installed_def by (elim conjE exE) metis
  have fits: "plain_dir (in_outer i)" "plain_dir (in_inner i)" "te_path_alloc e (dir1 i)" "te_path_alloc e (dir2 i)"
    using i(1) by (simp_all only: installed_def simp_thms)
  have len: "length (dir1 i) < DATA_PATH_LEN" "length (dir2 i) < DATA_PATH_LEN"
    using installed_short [OF i(1)] by (simp_all add: apk_path_def dir2_def)
  have visit: "m' = in_magic i \<and> (case te_dir e (fst pos) of
       Some (magic, es) \<Rightarrow> (if magic = in_magic i then iterate_dir e uids (fst pos) (snd pos) es w0 = Some w else w = w0)
     | None \<Rightarrow> w = w0)"
    using v m nz dirs(1) False
    by (auto simp: visit_def Let_def w0_def split: option.splits prod.splits if_splits)
  show ?thesis
  proof (cases "fst pos = dir2 i")
    case True
    then have "iterate_dir e uids (dir2 i) (snd pos) es2 w0 = Some w" using visit dirs(3) by simp
    then show ?thesis
      using iterate_dir_target [OF i h(2,1) dirs(6,7)] by (simp add: way_inv_def searching_def)
  next
    case False
    have listed: "\<forall>x \<in> set es. fst x = base_apk \<longrightarrow> fst pos @ ''/'' @ base_apk \<in> apks_below e 2 dir0"
      if "te_dir e (fst pos) = Some (magic, es)" for magic es
      using that bl(1) apks_below_here [OF that, of _ "snd pos"] unfolding below_def by blast
    have other: "te_dir e (fst pos) = Some (magic, es) \<Longrightarrow> iterate_dir e uids (fst pos) (snd pos) es w0 = Some w \<Longrightarrow>
      \<not> wk_stop w \<and> target_hash e i \<notin> fst ` set (apk_path_hash_list (wk_throne w)) \<and>
      (\<forall>name. (name, DT_DIR) \<in> set es \<longrightarrow> plain_dir name \<longrightarrow> length (fst pos @ ''/'' @ name) < DATA_PATH_LEN \<longrightarrow>
       te_path_alloc e (fst pos @ ''/'' @ name) \<longrightarrow> 0 < snd pos \<longrightarrow> (fst pos @ ''/'' @ name, snd pos - 1) \<in> set (wk_new w))" for magic es
      using iterate_dir_other [OF i h(2,1) False _ listed] by blast
    have keep: "\<not> wk_stop w \<and> target_hash e i \<notin> fst ` set (apk_path_hash_list (wk_throne w))"
      using visit other h by (auto split: option.splits if_splits)
    have "set (rest @ wk_new w) \<inter> on_the_way i \<noteq> {}"
    proof (cases "pos \<in> on_the_way i")
      case True
      then have "pos = (dir0, 2) \<or> pos = (dir1 i, 1)" using False by (auto simp: on_the_way_def)
      then show ?thesis
      proof
        assume p: "pos = (dir0, 2)"
        then have "(dir1 i, 1) \<in> set (wk_new w)"
          using other [of "in_magic i" es0] visit dirs(1,4) fits len by (simp add: dir1_def)
        then show ?thesis by (auto simp: on_the_way_def)
      next
        assume p: "pos = (dir1 i, 1)"
        then have "(dir2 i, 0) \<in> set (wk_new w)"
          using other [of "in_magic i" es1] visit dirs(2,5) fits len by (simp add: dir2_def)
        then show ?thesis by (auto simp: on_the_way_def)
      qed
    next
      case False
      then show ?thesis using way by auto
    qed
    moreover have "\<forall>x \<in> set (rest @ wk_new w). below e x" using bl visit_below [OF bl(1) v] by auto
    ultimately show ?thesis using keep visit by (simp add: way_inv_def searching_def)
  qed
qed

lemma walk_round_way:
  assumes i: "installed e uids i" "checks_return e"
  shows "walk_round e uids q m stop th = Some (q', m', stop', th') \<Longrightarrow> way_inv e i q m stop th \<Longrightarrow>
    way_inv e i q' m' stop' th'"
  using i
proof (induction e uids q m stop th rule: walk_round.induct)
  case (2 e uids pos rest m stop th)
  obtain m1 w where v: "visit e uids pos m stop th = Some (m1, w)"
    using "2.prems" by (auto split: option.splits)
  note inv = visit_way [OF "2.prems"(3,4,2) v]
  show ?case
  proof (cases "rest = []")
    case True
    then show ?thesis using "2.prems"(1) v inv by simp
  next
    case False
    then have "walk_round e uids (rest @ wk_new w) m1 (wk_stop w) (wk_throne w) = Some (q', m', stop', th')"
      using "2.prems"(1) v by simp
    then show ?thesis by (rule "2.IH" [OF v refl False]) (fact inv "2.prems"(3,4))+
  qed
qed simp

lemma walk_rounds_way:
  assumes i: "installed e uids i" "checks_return e"
  shows "walk_rounds k e uids q m stop th = Some (q', th') \<Longrightarrow> way_inv e i q m stop th \<Longrightarrow>
    \<exists>m' stop'. way_inv e i q' m' stop' th'"
proof (induction k arbitrary: q m stop th)
  case (Suc k)
  then obtain q1 m1 stop1 th1 where r: "walk_round e uids q m stop th = Some (q1, m1, stop1, th1)"
    "walk_rounds k e uids q1 m1 stop1 th1 = Some (q', th')" by (auto split: option.splits)
  show ?case by (rule Suc.IH [OF r(2)]) (rule walk_round_way [OF i r(1) Suc.prems(2)])
qed auto

lemma search_finds_manager:
  assumes i: "installed e uids i" "checks_return e"
    and c: "target_hash e i \<notin> fst ` set (apk_path_hash_list th)"
  shows "\<exists>th'. search_manager e ''/data/app'' 2 uids th = Some th' \<and> th_manager_uid th' = ud_uid (in_entry i)"
proof -
  let ?th = "th\<lparr>apk_path_hash_list := map (\<lambda>p. (fst p, False)) (apk_path_hash_list th)\<rparr>"
  obtain q th1 where w: "walk_rounds 3 e uids [(dir0, 2)] 0 False ?th = Some (q, th1)"
    using walk_rounds_returns [OF i(2), of 3 uids "[(dir0, 2)]" 0 False ?th] by auto
  have "way_inv e i [(dir0, 2)] 0 False ?th"
    using c by (auto simp: way_inv_def searching_def on_the_way_def image_image below_def)
  then obtain m' stop' where inv: "way_inv e i q m' stop' th1" using walk_rounds_way [OF i w] by blast
  have "q = []" using walk_rounds_empty [OF w] by simp
  then have "th_manager_uid th1 = ud_uid (in_entry i)" using inv by (auto simp: way_inv_def searching_def split: if_splits)
  then show ?thesis using w by (simp add: search_manager_def dir0_def)
qed

text \<open>C19. When no listed package has the manager's uid and the manager's APK is installed, the pass
  ends with its package crowned: if /data/app lists a directory that lists one named after the package
  and holding base.apk, on one file system and with paths that fit; if its package is on the list and is
  the configured one where one is configured; and if, of the finitely many files named base.apk in the
  directories up to two levels below /data/app, it alone passes the check and it alone has its path's
  hash, a hash that the cache of seen APKs does not hold either. (The cache compares 32-bit hashes
  only: an entry left for the same path, or for one that collides with it, would hide the APK.)\<close>
theorem installed_manager_is_crowned:
  assumes "installed e uids i" "checks_return e"
    and "list_packages se th = Inr (th0, uids)" "\<not> manager_exists uids th0"
    and "target_hash e i \<notin> fst ` set (apk_path_hash_list th0)"
  shows "\<exists>th' al'. ksu_track_throne e se tmps (th, al) = Some (th', al') \<and> th_manager_uid th' = ud_uid (in_entry i)"
proof -
  have "apk_path_hash_list (unlock_manager th0) = apk_path_hash_list th0" by (simp add: unlock_manager_def)
  then show ?thesis
    using search_finds_manager [OF assms(1,2), of "unlock_manager th0"] assms(3-5)
    by (auto simp: ksu_track_throne_def)
qed

definition ex_install :: install where
  "ex_install = \<lparr>in_outer = ''~a'', in_package = ''m.g'', in_suffix = ''1'', in_magic = 1, in_entry = ex_uid_data\<rparr>"

definition ex_search_env :: throne_env where
  "ex_search_env = ex_throne_env
     \<lparr>te_apk := (\<lambda>p. if p = ''/data/app/~a/m.g-1/base.apk'' then ex_apk_io (ex_image [Scheme_v2 ex_signer])
        else (ex_apk_io [])\<lparr>io_opened := False\<rparr>),
      te_full_name_hash := (\<lambda>p. if p = ''/data/app/~a/m.g-1/base.apk'' then 5 else 6)\<rparr>"

lemma ex_unopened: "ksu_is_manager_apk ((ex_apk_io [])\<lparr>io_opened := False\<rparr>) sz sha = Some False"
proof -
  have "any_manager ((ex_apk_io [])\<lparr>io_opened := False\<rparr>) ms = Some False" for ms
    by (induction ms) (auto simp: check_v2_signature_def)
  then show ?thesis unfolding ksu_is_manager_apk_def .
qed

lemma ex_apk_path: "apk_path ex_install = ''/data/app/~a/m.g-1/base.apk''"
  "dir1 ex_install = ''/data/app/~a''" "dir2 ex_install = ''/data/app/~a/m.g-1''"
  by (simp_all add: apk_path_def dir2_def dir1_def dir0_def in_inner_def ex_install_def base_apk_def)

lemma ex_installed: "installed ex_search_env [ex_uid_data] ex_install"
proof -
  have acc: "accepted_at ex_search_env p \<longleftrightarrow> p = apk_path ex_install" for p
    by (simp add: accepted_at_def ex_search_env_def ex_image_manager ex_unopened ex_apk_path)
  have hash: "te_full_name_hash ex_search_env p = te_full_name_hash ex_search_env (apk_path ex_install) \<Longrightarrow>
      p = apk_path ex_install" for p
    by (simp add: ex_search_env_def ex_apk_path split: if_splits)
  have pkg: "te_manager_package ex_search_env = None" "te_pkg_junk ex_search_env = replicate 256 CHR ''x''"
    by (simp_all add: ex_search_env_def)
  have "cstr (ud_package ex_uid_data) = ''m.g''"
    using package_cstr [of "''m.g''"] by (simp add: ex_uid_data_def numeral_3_eq_3)
  then have find: "List.find (\<lambda>np. take 256 (cstr (ud_package np)) = in_package ex_install) [ex_uid_data] = Some (in_entry ex_install)"
    by (simp add: ex_install_def)
  have dirs: "te_dir ex_search_env = te_dir ex_throne_env" "te_path_alloc ex_search_env p" for p
    by (simp_all add: ex_search_env_def)
  have plain: "plain_dir ''~a''" "plain_dir ''m.g-1''" by (simp_all add: plain_dir_def dot_name_def strncmp_eq_def)
  have es: "te_dir ex_throne_env dir0 = Some (1, [(''.'', 4), (''~a'', 4)])" by (simp add: dir0_def)
  show ?thesis
    unfolding installed_def
    using acc hash plain es find by (simp add: dirs pkg ex_apk_path) (simp add: ex_install_def in_inner_def base_apk_def)
qed

lemma installed_manager_is_crowned_witness:
  "\<forall>tmps al. \<exists>th' al'. ksu_track_throne ex_search_env ex_scan_env tmps (ex_throne, al) = Some (th', al') \<and>
     th_manager_uid th' = 10007"
proof (intro allI)
  fix tmps al
  have "checks_return ex_search_env"
    by (auto simp: checks_return_def ex_search_env_def ex_image_manager ex_unopened)
  moreover have "target_hash ex_search_env ex_install = 5"
    by (simp add: target_hash_def ex_apk_path) (simp add: ex_search_env_def)
  ultimately have "\<exists>th' al'. ksu_track_throne ex_search_env ex_scan_env tmps (ex_throne, al) = Some (th', al') \<and>
      th_manager_uid th' = ud_uid (in_entry ex_install)"
    by (intro installed_manager_is_crowned [OF ex_installed _ ex_list_packages ex_no_manager(2)])
      (simp_all add: ex_throne_def)
  then show "\<exists>th' al'. ksu_track_throne ex_search_env ex_scan_env tmps (ex_throne, al) = Some (th', al') \<and>
      th_manager_uid th' = 10007" by (simp add: ex_install_def ex_uid_data_def)
qed

end
