(* ===== verification/Selinux.thy ===== *)
theory Selinux
  imports Kprelude
begin

text \<open>
  \<^verbatim>\<open>selinux/selinux.c\<close>: security identifiers of tasks and the domains the driver recognises.
  The kernel's translation between contexts and identifiers is a parameter: \<open>to_secid\<close> is
  \<open>security_secctx_to_secid\<close>, \<open>to_secctx\<close> is \<open>security_secid_to_secctx\<close> with the context
  buffer and the length it reports.
\<close>

definition KERNEL_SU_DOMAIN :: string where "KERNEL_SU_DOMAIN = ''u:r:su:s0''"
definition KERNEL_INIT_DOMAIN :: string where "KERNEL_INIT_DOMAIN = ''u:r:init:s0''"
definition KERNEL_ZYGOTE_DOMAIN :: string where "KERNEL_ZYGOTE_DOMAIN = ''u:r:zygote:s0''"
definition DEVPTS_DOMAIN :: string where "DEVPTS_DOMAIN = ''u:object_r:ksu_file:s0''"

record task_security =
  ts_sid :: u32
  ts_create_sid :: u32
  ts_keycreate_sid :: u32
  ts_sockcreate_sid :: u32

record selinux_env =
  to_secid :: "string \<Rightarrow> int + u32"
  to_secctx :: "u32 \<Rightarrow> int + (cbuf \<times> nat)"
  cfg_selinux_develop :: bool
  cfg_selinux_disable :: bool

record selinux_globals =
  sl_enforcing :: bool
  sl_disabled :: bool
  susfs_ksu_sid :: u32
  susfs_init_sid :: u32
  susfs_zygote_sid :: u32

text \<open>The value of \<open>transive_to_domain\<close> and the task's security struct (\<open>None\<close> for NULL).\<close>

definition transive_to_domain ::
  "selinux_env \<Rightarrow> cbuf \<Rightarrow> task_security option \<Rightarrow> int \<times> task_security option" where
  "transive_to_domain se domain tsec =
     (case tsec of
        None \<Rightarrow> (- 1, tsec)
      | Some t \<Rightarrow>
          (case to_secid se (cstr domain) of
             Inl error \<Rightarrow> (error, tsec)
           | Inr sid \<Rightarrow> (0, Some (t\<lparr>ts_sid := sid, ts_create_sid := 0, ts_keycreate_sid := 0,
                                  ts_sockcreate_sid := 0\<rparr>))))"

definition ksu_setup_selinux :: "selinux_env \<Rightarrow> cbuf \<Rightarrow> task_security option \<Rightarrow> task_security option" where
  "ksu_setup_selinux se domain tsec = snd (transive_to_domain se domain tsec)"

definition ksu_setenforce :: "selinux_env \<Rightarrow> bool \<Rightarrow> selinux_globals \<Rightarrow> selinux_globals" where
  "ksu_setenforce se enforce g = (if cfg_selinux_develop se then g\<lparr>sl_enforcing := enforce\<rparr> else g)"

definition ksu_getenforce :: "selinux_env \<Rightarrow> selinux_globals \<Rightarrow> bool" where
  "ksu_getenforce se g =
     (if cfg_selinux_disable se \<and> sl_disabled g then False
      else if cfg_selinux_develop se then sl_enforcing g else True)"

definition sid_in_domain :: "selinux_env \<Rightarrow> string \<Rightarrow> u32 \<Rightarrow> bool" where
  "sid_in_domain se name sid =
     (case to_secctx se sid of
        Inl err \<Rightarrow> False
      | Inr (domain, seclen) \<Rightarrow> strncmp_eq name domain seclen)"

definition ksu_is_ksu_domain :: "selinux_env \<Rightarrow> u32 \<Rightarrow> bool" where
  "ksu_is_ksu_domain se current_sid = sid_in_domain se KERNEL_SU_DOMAIN current_sid"

definition ksu_is_zygote :: "selinux_env \<Rightarrow> task_security option \<Rightarrow> bool" where
  "ksu_is_zygote se sec =
     (case sec of None \<Rightarrow> False | Some t \<Rightarrow> sid_in_domain se ''u:r:zygote:s0'' (ts_sid t))"

text \<open>\<open>susfs_set_sid\<close> writes through its out pointer: the sid to store, or the old one.\<close>

definition susfs_set_sid :: "selinux_env \<Rightarrow> string \<Rightarrow> u32 \<Rightarrow> u32" where
  "susfs_set_sid se secctx_name out_sid =
     (case to_secid se secctx_name of Inl err \<Rightarrow> out_sid | Inr sid \<Rightarrow> sid)"

definition susfs_is_sid_equal :: "task_security option \<Rightarrow> u32 \<Rightarrow> bool" where
  "susfs_is_sid_equal sec sid2 = (case sec of None \<Rightarrow> False | Some t \<Rightarrow> ts_sid t = sid2)"

definition susfs_get_sid_from_name :: "selinux_env \<Rightarrow> string option \<Rightarrow> u32" where
  "susfs_get_sid_from_name se secctx_name =
     (case secctx_name of None \<Rightarrow> 0
      | Some n \<Rightarrow> (case to_secid se n of Inl err \<Rightarrow> 0 | Inr sid \<Rightarrow> sid))"

definition susfs_set_zygote_sid :: "selinux_env \<Rightarrow> selinux_globals \<Rightarrow> selinux_globals" where
  "susfs_set_zygote_sid se g =
     g\<lparr>susfs_zygote_sid := susfs_set_sid se KERNEL_ZYGOTE_DOMAIN (susfs_zygote_sid g)\<rparr>"

definition susfs_set_ksu_sid :: "selinux_env \<Rightarrow> selinux_globals \<Rightarrow> selinux_globals" where
  "susfs_set_ksu_sid se g = g\<lparr>susfs_ksu_sid := susfs_set_sid se KERNEL_SU_DOMAIN (susfs_ksu_sid g)\<rparr>"

definition susfs_set_init_sid :: "selinux_env \<Rightarrow> selinux_globals \<Rightarrow> selinux_globals" where
  "susfs_set_init_sid se g =
     g\<lparr>susfs_init_sid := susfs_set_sid se KERNEL_INIT_DOMAIN (susfs_init_sid g)\<rparr>"

definition susfs_is_current_zygote_domain :: "selinux_globals \<Rightarrow> u32 \<Rightarrow> bool" where
  "susfs_is_current_zygote_domain g current_sid \<longleftrightarrow> current_sid = susfs_zygote_sid g"

definition susfs_is_current_ksu_domain :: "selinux_globals \<Rightarrow> u32 \<Rightarrow> bool" where
  "susfs_is_current_ksu_domain g current_sid \<longleftrightarrow> current_sid = susfs_ksu_sid g"

definition susfs_is_current_init_domain :: "selinux_globals \<Rightarrow> u32 \<Rightarrow> bool" where
  "susfs_is_current_init_domain g current_sid \<longleftrightarrow> current_sid = susfs_init_sid g"

definition ksu_get_devpts_sid :: "selinux_env \<Rightarrow> u32" where
  "ksu_get_devpts_sid se = susfs_set_sid se DEVPTS_DOMAIN 0"

subsection \<open>Recognising a domain\<close>

text \<open>The comparison is exact when the reported length counts the terminator, and a prefix test
  when it does not.\<close>

lemma sid_in_domain_exact:
  assumes "to_secctx se sid = Inr (ctx, Suc (length (cstr ctx)))"
  shows "sid_in_domain se name sid \<longleftrightarrow> cstr ctx = cstr name"
proof -
  have "take (Suc (length c)) n = c \<longleftrightarrow> n = c" for n c :: string
  proof
    assume a: "take (Suc (length c)) n = c"
    then have "length n \<le> length c"
      using arg_cong [where f = length, OF a] unfolding length_take by linarith
    with a show "n = c" by simp
  qed simp
  then show ?thesis
    using assms by (auto simp: sid_in_domain_def strncmp_eq_def)
qed

lemma sid_in_domain_prefix:
  assumes "to_secctx se sid = Inr (ctx, length (cstr ctx))"
  shows "sid_in_domain se name sid \<longleftrightarrow> (\<exists>r. cstr name = cstr ctx @ r)"
  using assms by (auto simp: sid_in_domain_def strncmp_eq_def)
    (metis append_take_drop_id)

text \<open>A task moved to a domain the kernel knows is recognised by its identifier.\<close>

lemma setup_selinux_sid:
  assumes "to_secid se (cstr domain) = Inr sid"
  shows "ksu_setup_selinux se domain (Some t) =
    Some (t\<lparr>ts_sid := sid, ts_create_sid := 0, ts_keycreate_sid := 0, ts_sockcreate_sid := 0\<rparr>)"
    and "susfs_is_sid_equal (ksu_setup_selinux se domain (Some t)) sid"
  using assms by (simp_all add: ksu_setup_selinux_def transive_to_domain_def susfs_is_sid_equal_def)

end
