(* ===== verification/Core_Cred.thy ===== *)
theory Core_Cred
  imports Allowlist_Props Selinux
begin

text \<open>
  \<open>ksu_escape_to_root\<close> of \<^verbatim>\<open>core_hook.c\<close> and what it calls: the credentials of a root profile,
  its supplementary groups, the seccomp filter and the SELinux domain. The kernel's credential
  and group services are parameters. An access outside an array is the result \<open>None\<close>.
\<close>

subsection \<open>State\<close>

record cred =
  cr_uid :: u32
  cr_gid :: u32
  cr_suid :: u32
  cr_sgid :: u32
  cr_euid :: u32
  cr_egid :: u32
  cr_fsuid :: u32
  cr_fsgid :: u32
  cr_securebits :: u32
  cr_cap_inheritable :: u64
  cr_cap_permitted :: u64
  cr_cap_effective :: u64
  cr_cap_bset :: u64
  cr_cap_ambient :: u64
  cr_groups :: "u32 list"

record task =
  tk_cred :: cred
  tk_security :: "task_security option"
  tk_tif_seccomp :: bool
  tk_seccomp_mode :: nat
  tk_seccomp_filter :: bool
  tk_seccomp_filter_count :: nat

text \<open>\<open>ce_groups_alloc n\<close> is whether \<open>groups_alloc\<close> serves a group set of \<open>n\<close> entries;
  \<open>ce_cap_dac_read_search\<close> is the kernel's constant \<open>CAP_DAC_READ_SEARCH\<close>, a capability
  number.\<close>

record cred_env =
  ce_prepare_creds :: bool
  ce_groups_alloc :: "u32 \<Rightarrow> bool"
  ce_make_kgid :: "u32 \<Rightarrow> u32"
  ce_groups_sort :: "u32 list \<Rightarrow> u32 list"
  ce_cap_dac_read_search :: u64

abbreviation INVALID_GID :: u32 where "INVALID_GID \<equiv> - 1"

subsection \<open>\<open>setup_groups\<close>\<close>

datatype groups_result = GroupsOutOfBounds | GroupsInvalid | Groups "u32 list"

text \<open>The loop over \<open>groups[i]\<close> for \<open>i < ngroups\<close>; \<open>n\<close> counts the iterations left, and the
  profile's array ends before the loop does when \<open>ngroups\<close> exceeds it.\<close>

fun groups_loop :: "(u32 \<Rightarrow> u32) \<Rightarrow> nat \<Rightarrow> u32 list \<Rightarrow> u32 list \<Rightarrow> groups_result" where
  "groups_loop make_kgid 0 groups acc = Groups acc"
| "groups_loop make_kgid (Suc n) [] acc = GroupsOutOfBounds"
| "groups_loop make_kgid (Suc n) (gid # groups) acc =
     (if make_kgid gid = INVALID_GID then GroupsInvalid
      else groups_loop make_kgid n groups (acc @ [make_kgid gid]))"

definition setup_groups :: "cred_env \<Rightarrow> root_profile \<Rightarrow> cred \<Rightarrow> cred option" where
  "setup_groups ce profile c =
     (if sint (rp_groups_count profile) > int KSU_MAX_GROUPS then Some c
      else if rp_groups_count profile = 1 \<and> rp_groups profile ! 0 = 0 then Some (c\<lparr>cr_groups := []\<rparr>)
      else let ngroups = rp_groups_count profile in
        if \<not> ce_groups_alloc ce ngroups then Some c
        else (case groups_loop (ce_make_kgid ce) (unat ngroups) (rp_groups profile) [] of
          GroupsOutOfBounds \<Rightarrow> None
        | GroupsInvalid \<Rightarrow> Some c
        | Groups gs \<Rightarrow> Some (c\<lparr>cr_groups := ce_groups_sort ce gs\<rparr>)))"

subsection \<open>\<open>ksu_escape_to_root\<close>\<close>

definition disable_seccomp :: "task \<Rightarrow> task" where
  "disable_seccomp t =
     t\<lparr>tk_tif_seccomp := False, tk_seccomp_mode := 0, tk_seccomp_filter := False,
       tk_seccomp_filter_count := 0\<rparr>"

text \<open>The ids and capabilities written before \<open>setup_groups\<close>.\<close>

definition profile_cred :: "cred_env \<Rightarrow> root_profile \<Rightarrow> cred \<Rightarrow> cred" where
  "profile_cred ce profile c =
     (let cap_for_ksud = cap_effective profile OR ce_cap_dac_read_search ce in
      c\<lparr>cr_uid := rp_uid profile, cr_suid := rp_uid profile, cr_euid := rp_uid profile,
        cr_fsuid := rp_uid profile, cr_gid := rp_gid profile, cr_fsgid := rp_gid profile,
        cr_sgid := rp_gid profile, cr_egid := rp_gid profile, cr_securebits := 0,
        cr_cap_effective := cap_for_ksud, cr_cap_permitted := cap_effective profile,
        cr_cap_bset := cap_effective profile, cr_cap_ambient := 0\<rparr>)"

definition ksu_escape_to_root :: "cred_env \<Rightarrow> selinux_env \<Rightarrow> allow_state \<Rightarrow> task \<Rightarrow> task option" where
  "ksu_escape_to_root ce se al t =
     (if \<not> ce_prepare_creds ce then Some t
      else if cr_euid (tk_cred t) = 0 then Some t
      else let profile = ksu_get_root_profile al (cr_uid (tk_cred t)) in
        (case setup_groups ce profile (profile_cred ce profile (tk_cred t)) of
           None \<Rightarrow> None
         | Some c \<Rightarrow>
             (let t1 = disable_seccomp (t\<lparr>tk_cred := c\<rparr>)
              in Some (t1\<lparr>tk_security :=
                    ksu_setup_selinux se (rp_selinux_domain profile) (tk_security t1)\<rparr>))))"

subsection \<open>Lemmas\<close>

lemma groups_loop_bounded:
  "n \<le> length gs \<Longrightarrow> groups_loop mk n gs acc =
     (if INVALID_GID \<in> mk ` set (take n gs) then GroupsInvalid else Groups (acc @ map mk (take n gs)))"
  by (induction mk n gs acc rule: groups_loop.induct) auto

lemma groups_loop_overrun:
  "length gs < n \<Longrightarrow> \<forall>g \<in> set gs. mk g \<noteq> INVALID_GID \<Longrightarrow> groups_loop mk n gs acc = GroupsOutOfBounds"
  by (induction mk n gs acc rule: groups_loop.induct) auto

lemma uint_eq_sint: "0 \<le> sint (w :: u32) \<Longrightarrow> uint w = sint w"
  using sint_lt [of w] by (simp add: uint_sint take_bit_int_eq_self)

lemma unat_nonneg_le:
  assumes "0 \<le> sint (w :: u32)" and "sint w \<le> int k"
  shows "unat w \<le> k"
proof -
  have "int (unat w) = sint w" using assms(1) by (simp add: uint_eq_sint)
  with assms(2) show ?thesis by linarith
qed

lemma unat_negative:
  assumes "sint (w :: u32) < 0"
  shows "2 ^ 31 \<le> unat w"
proof -
  have "uint w = sint w mod 2 ^ 32" by (simp add: uint_sint take_bit_eq_mod)
  also have "\<dots> = (sint w + 2 ^ 32) mod 2 ^ 32" by simp
  also have "\<dots> = sint w + 2 ^ 32"
    using assms sint_ge [of w] by (intro mod_pos_pos_trivial) auto
  finally have "int (unat w) = sint w + 2 ^ 32" by simp
  then have "(2 :: int) ^ 31 \<le> int (unat w)" using sint_ge [of w] by simp
  then show ?thesis by (metis of_nat_le_iff of_nat_numeral of_nat_power)
qed

lemma take_one_eq: "length xs = 32 \<Longrightarrow> unat (n :: u32) \<le> 32 \<Longrightarrow>
    take (unat n) xs = [0] \<longleftrightarrow> n = 1 \<and> xs ! 0 = (0 :: u32)"
proof -
  assume l: "length xs = 32" and n: "unat n \<le> 32"
  then obtain x ys where xs: "xs = x # ys" by (cases xs) auto
  show ?thesis
  proof
    assume t: "take (unat n) xs = [0]"
    then have "unat n = 1" using l n by (metis length_Cons length_take list.size(3) min.absorb2 One_nat_def)
    then have n1: "n = 1" by (simp add: word_unat_eq_iff)
    with t show "n = 1 \<and> xs ! 0 = 0" by (simp add: xs)
  qed (simp add: xs)
qed

text \<open>The supplementary groups of a root profile: the profile's groups through \<open>make_kgid\<close>,
  sorted; the single group 0 counts as none; the old ones stay where the count is beyond the
  array, memory is short or a group is invalid.\<close>

lemma setup_groups_eq:
  assumes "length (rp_groups p) = KSU_MAX_GROUPS" and "0 \<le> sint (rp_groups_count p)"
    and "gs = take (unat (rp_groups_count p)) (rp_groups p)"
  shows "setup_groups ce p c = Some (c\<lparr>cr_groups :=
    if KSU_MAX_GROUPS < unat (rp_groups_count p) then cr_groups c
    else if gs = [0] then []
    else if ce_groups_alloc ce (rp_groups_count p) \<and> INVALID_GID \<notin> ce_make_kgid ce ` set gs
    then ce_groups_sort ce (map (ce_make_kgid ce) gs) else cr_groups c\<rparr>)"
proof -
  have i: "sint (rp_groups_count p) = int (unat (rp_groups_count p))"
    using assms(2) by (simp add: uint_eq_sint)
  have k: "c\<lparr>cr_groups := cr_groups c\<rparr> = c" by simp
  show ?thesis
  proof (cases "KSU_MAX_GROUPS < unat (rp_groups_count p)")
    case True
    then have "sint (rp_groups_count p) > int KSU_MAX_GROUPS" unfolding i by (simp only: of_nat_less_iff)
    with True show ?thesis by (simp add: setup_groups_def)
  next
    case False
    then have n: "unat (rp_groups_count p) \<le> length (rp_groups p)" and m: "unat (rp_groups_count p) \<le> 32"
      using assms(1) by simp_all
    have ns: "\<not> sint (rp_groups_count p) > int KSU_MAX_GROUPS" using False unfolding i by (simp only: of_nat_less_iff not_False_eq_True)
    have z: "gs = [0] \<longleftrightarrow> rp_groups_count p = 1 \<and> rp_groups p ! 0 = 0"
      using take_one_eq [OF _ m, of "rp_groups p"] assms(1,3) by simp
    show ?thesis
      using False ns
      by (simp add: setup_groups_def Let_def groups_loop_bounded [OF n] z flip: assms(3))
  qed
qed

lemma setup_groups_cases:
  assumes "length (rp_groups p) = KSU_MAX_GROUPS" and "0 \<le> sint (rp_groups_count p)"
  obtains gs where "setup_groups ce p c = Some (c\<lparr>cr_groups := gs\<rparr>)"
  using setup_groups_eq [OF assms refl] by blast

lemma bit_or_two: "bit ((x :: u64) OR 2) n \<longleftrightarrow> n = 1 \<or> bit x n"
proof -
  have "bit (2 :: u64) n \<longleftrightarrow> n = 1" by (cases n) (auto simp: bit_simps bit_Suc)
  then show ?thesis by (auto simp only: bit_or_iff)
qed

subsection \<open>Properties\<close>

text \<open>C6. Escaping to root gives the caller exactly the identity of its root profile: every user
  and group id, the profile's supplementary groups (through \<open>make_kgid\<close> and sorted; none where
  the only one is 0; the caller's own where the count is beyond the array, memory is short or
  one is invalid), no securebits, the profile's capabilities as permitted and bounding set, no
  ambient ones, no seccomp filter, and the profile's SELinux domain. The effective set gets one
  bit on top, whichever the mask \<open>CAP_DAC_READ_SEARCH\<close> holds; with the kernel's number 2 used
  as a mask that is bit 1, \<open>CAP_DAC_OVERRIDE\<close>, which is then effective without being permitted.\<close>

theorem escape_installs_profile:
  assumes "ce_prepare_creds ce" and "cr_euid (tk_cred t) \<noteq> 0"
    and "ksu_get_root_profile al (cr_uid (tk_cred t)) = p"
    and "wf_root_profile p" and "0 \<le> sint (rp_groups_count p)"
    and "tk_security t = Some sec" and "to_secid se (cstr (rp_selinux_domain p)) = Inr sid"
    and "ce_cap_dac_read_search ce = 2"
    and "gs = take (unat (rp_groups_count p)) (rp_groups p)"
  shows "\<exists>t'. ksu_escape_to_root ce se al t = Some t' \<and>
    {cr_uid (tk_cred t'), cr_suid (tk_cred t'), cr_euid (tk_cred t'), cr_fsuid (tk_cred t')} = {rp_uid p} \<and>
    {cr_gid (tk_cred t'), cr_sgid (tk_cred t'), cr_egid (tk_cred t'), cr_fsgid (tk_cred t')} = {rp_gid p} \<and>
    cr_groups (tk_cred t') =
      (if KSU_MAX_GROUPS < unat (rp_groups_count p) then cr_groups (tk_cred t)
       else if gs = [0] then []
       else if ce_groups_alloc ce (rp_groups_count p) \<and> INVALID_GID \<notin> ce_make_kgid ce ` set gs
       then ce_groups_sort ce (map (ce_make_kgid ce) gs) else cr_groups (tk_cred t)) \<and>
    cr_securebits (tk_cred t') = 0 \<and> cr_cap_permitted (tk_cred t') = cap_effective p \<and>
    cr_cap_bset (tk_cred t') = cap_effective p \<and> cr_cap_ambient (tk_cred t') = 0 \<and>
    cr_cap_inheritable (tk_cred t') = cr_cap_inheritable (tk_cred t) \<and>
    (\<forall>n. bit (cr_cap_effective (tk_cred t')) n \<longleftrightarrow> n = 1 \<or> bit (cap_effective p) n) \<and>
    \<not> tk_tif_seccomp t' \<and> tk_seccomp_mode t' = 0 \<and> \<not> tk_seccomp_filter t' \<and>
    susfs_is_sid_equal (tk_security t') sid"
proof -
  have l: "length (rp_groups p) = KSU_MAX_GROUPS" using assms(4) by (simp add: wf_root_profile_def)
  have c: "cr_groups (profile_cred ce p (tk_cred t)) = cr_groups (tk_cred t)"
    by (simp add: profile_cred_def Let_def)
  note g = setup_groups_eq [OF l assms(5,9), of ce "profile_cred ce p (tk_cred t)", unfolded c]
  show ?thesis
    unfolding ksu_escape_to_root_def Let_def assms(3) g
    using assms(1,2,6,8) setup_selinux_sid(2) [OF assms(7), of sec]
    by (simp add: disable_seccomp_def profile_cred_def bit_or_two del: One_nat_def)
qed

definition ex_cred_env :: cred_env where
  "ex_cred_env = \<lparr>ce_prepare_creds = True, ce_groups_alloc = \<lambda>n. True, ce_make_kgid = id,
     ce_groups_sort = id, ce_cap_dac_read_search = 2\<rparr>"

definition ex_selinux_env :: selinux_env where
  "ex_selinux_env = \<lparr>to_secid = \<lambda>n. if n = ''u:r:su:s0'' then Inr 42 else Inl 22,
     to_secctx = \<lambda>s. Inl 22, cfg_selinux_develop = True, cfg_selinux_disable = False\<rparr>"

definition ex_task :: task where
  "ex_task = \<lparr>tk_cred = \<lparr>cr_uid = 10123, cr_gid = 10123, cr_suid = 10123, cr_sgid = 10123,
     cr_euid = 10123, cr_egid = 10123, cr_fsuid = 10123, cr_fsgid = 10123, cr_securebits = 0,
     cr_cap_inheritable = 0, cr_cap_permitted = 0, cr_cap_effective = 0, cr_cap_bset = 0,
     cr_cap_ambient = 0, cr_groups = [3003]\<rparr>,
     tk_security = Some \<lparr>ts_sid = 7, ts_create_sid = 1, ts_keycreate_sid = 1, ts_sockcreate_sid = 1\<rparr>,
     tk_tif_seccomp = True, tk_seccomp_mode = 2, tk_seccomp_filter = True, tk_seccomp_filter_count = 1\<rparr>"

definition ex_root :: "u32 \<Rightarrow> root_profile" where
  "ex_root n = zero_root_profile\<lparr>rp_groups_count := n, cap_effective := 9,
     rp_selinux_domain := c_strcpy (replicate 64 NUL) ''u:r:su:s0''\<rparr>"

lemma ex_root_ok: "wf_root_profile (ex_root n)" "rp_groups_count (ex_root n) = n"
  "rp_groups (ex_root n) = replicate 32 0" "cstr (rp_selinux_domain (ex_root n)) = ''u:r:su:s0''"
  by (simp_all add: wf_root_profile_def ex_root_def zero_root_profile_def c_strcpy_def)

lemma ex_root_get:
  "ksu_get_root_profile (static_allow_state\<lparr>al_default_root := ex_root n\<rparr>) u = ex_root n"
  by (simp add: ksu_get_root_profile_def static_allow_state_def)

theorem escape_installs_profile_witness:
  "\<exists>t'. ksu_escape_to_root ex_cred_env ex_selinux_env
      (static_allow_state\<lparr>al_default_root := ex_root 1\<rparr>) ex_task = Some t' \<and>
    cr_uid (tk_cred t') = 0 \<and> cr_groups (tk_cred ex_task) = [3003] \<and> cr_groups (tk_cred t') = [] \<and>
    bit (cr_cap_effective (tk_cred t')) 1 \<and>
    \<not> bit (cr_cap_effective (tk_cred t')) 2 \<and> \<not> bit (cr_cap_permitted (tk_cred t')) 1"
proof -
  have a: "ce_prepare_creds ex_cred_env" "cr_euid (tk_cred ex_task) \<noteq> 0"
    "ce_cap_dac_read_search ex_cred_env = 2" "0 \<le> sint (rp_groups_count (ex_root 1))"
    "to_secid ex_selinux_env (cstr (rp_selinux_domain (ex_root 1))) = Inr 42"
    by (simp_all add: ex_cred_env_def ex_task_def ex_root_ok ex_selinux_env_def)
  obtain sec where sec: "tk_security ex_task = Some sec" by (simp add: ex_task_def)
  have b: "\<not> bit (9 :: u64) 1" "\<not> bit (9 :: u64) 2" by simp_all
  show ?thesis
    using escape_installs_profile [OF a(1,2) ex_root_get ex_root_ok(1) a(4) sec a(5) a(3) refl] b
    by (auto simp: ex_root_def zero_root_profile_def ex_task_def)
qed

text \<open>The sign of \<open>groups_count\<close> decides whether \<open>setup_groups\<close> stays inside the profile: the
  test against \<open>KSU_MAX_GROUPS\<close> is signed, so a negative count passes it, as it passes
  \<open>profile_valid\<close>; then, where \<open>groups_alloc\<close> serves the wrapped size and the groups are valid,
  the loop with its unsigned bound reads beyond the 32 entries. With a count from 0 to 32 it
  never does.\<close>

theorem groups_in_bounds_iff_nonnegative:
  assumes "wf_root_profile p" and "sint (rp_groups_count p) \<le> int KSU_MAX_GROUPS"
    and "\<forall>g \<in> set (rp_groups p). ce_make_kgid ce g \<noteq> INVALID_GID"
    and "ce_groups_alloc ce (rp_groups_count p)"
  shows "setup_groups ce p c \<noteq> None \<longleftrightarrow> 0 \<le> sint (rp_groups_count p)"
proof (cases "0 \<le> sint (rp_groups_count p)")
  case True
  then show ?thesis
    using assms(1) setup_groups_cases [of p] by (metis option.distinct(1) wf_root_profile_def)
next
  case False
  then have big: "2 ^ 31 \<le> unat (rp_groups_count p)" by (intro unat_negative) simp
  have "length (rp_groups p) < unat (rp_groups_count p)"
    using big assms(1) by (simp add: wf_root_profile_def)
  then have "groups_loop (ce_make_kgid ce) (unat (rp_groups_count p)) (rp_groups p) [] = GroupsOutOfBounds"
    using assms(3) by (rule groups_loop_overrun)
  moreover have "rp_groups_count p \<noteq> 1" using False by auto
  ultimately have "setup_groups ce p c = None"
    using assms(2,4) by (simp add: setup_groups_def Let_def)
  with False show ?thesis by simp
qed

theorem groups_in_bounds_iff_nonnegative_witness:
  "setup_groups ex_cred_env (ex_root (- 1)) (tk_cred ex_task) = None \<and>
   profile_valid (Some ((ex_profile 10123 True)\<lparr>ap_config := ex_config\<lparr>rp_profile := ex_root (- 1)\<rparr>\<rparr>))"
proof -
  have s: "sint (rp_groups_count (ex_root (- 1))) = - 1" by (simp add: ex_root_ok)
  have "setup_groups ex_cred_env (ex_root (- 1)) (tk_cred ex_task) \<noteq> None \<longleftrightarrow>
      0 \<le> sint (rp_groups_count (ex_root (- 1)))"
    by (rule groups_in_bounds_iff_nonnegative) (simp_all add: ex_root_ok ex_cred_env_def)
  then show ?thesis
    by (simp add: s profile_valid_def ex_profile_def c_strlen_def ex_root_ok)
qed

end
