(* ===== verification/Kernel_Paths.thy ===== *)
theory Kernel_Paths
  imports Kprelude
begin

text \<open>
  What the code under verification sees of the kernel's paths and mounts, and
  \<open>ksu_try_umount\<close> of \<^verbatim>\<open>core_hook.c\<close>. A \<open>kpath\<close> holds what the code reads through a
  \<open>struct path\<close>; path lookup and unmounting are parameters. Every successful lookup takes a
  reference on the path that \<open>path_put\<close> gives back; the models count them.
\<close>

abbreviation ENOENT :: int where "ENOENT \<equiv> 2"
abbreviation ENOMEM :: int where "ENOMEM \<equiv> 12"
abbreviation EFAULT :: int where "EFAULT \<equiv> 14"
abbreviation ENOSYS :: int where "ENOSYS \<equiv> 38"

abbreviation MNT_DETACH :: int where "MNT_DETACH \<equiv> 2"

text \<open>\<open>kp_inode\<close> is \<open>d_inode(dentry)\<close>, \<open>None\<close> for NULL; \<open>kp_is_root\<close> is
  \<open>dentry == mnt->mnt_root\<close>; \<open>kp_mnt_devname_ksu\<close> the answer of
  \<open>susfs_is_mnt_devname_ksu\<close>.\<close>

record kpath =
  kp_fstype :: string
  kp_mnt_group_id :: int
  kp_inode :: "nat option"
  kp_is_root :: bool
  kp_mnt_devname_ksu :: bool

text \<open>\<open>kern_path\<close>: an error number or a path.\<close>

type_synonym kern_path = "cbuf \<Rightarrow> int + kpath"

subsection \<open>\<open>ksu_try_umount\<close>\<close>

text \<open>The mount namespace is an abstract \<open>'ns\<close>. \<open>me_path_umount\<close> is \<open>path_umount\<close>, which
  also drops the reference it is given; \<open>me_has_path_umount\<close> is the \<open>#if\<close> of
  \<open>ksu_umount_mnt\<close>.\<close>

record 'ns mnt_env =
  me_kern_path :: "'ns \<Rightarrow> kern_path"
  me_path_umount :: "'ns \<Rightarrow> kpath \<Rightarrow> int \<Rightarrow> int \<times> 'ns"
  me_has_path_umount :: bool
  me_global_ns :: bool
  me_susfs :: bool

record 'ns mnt_state =
  ms_ns :: 'ns
  ms_refs :: nat
  ms_log :: "(string \<times> int) list"

definition should_umount :: "'ns mnt_env \<Rightarrow> kpath option \<Rightarrow> bool" where
  "should_umount me path =
     (case path of
        None \<Rightarrow> False
      | Some p \<Rightarrow>
          if me_global_ns me then False
          else if me_susfs me then kp_mnt_devname_ksu p
          else kp_fstype p = ''overlay'')"

definition ksu_umount_mnt :: "'ns mnt_env \<Rightarrow> kpath \<Rightarrow> int \<Rightarrow> 'ns mnt_state \<Rightarrow> int \<times> 'ns mnt_state" where
  "ksu_umount_mnt me p flags s =
     (if me_has_path_umount me then
        let (err, ns) = me_path_umount me (ms_ns s) p flags
        in (err, s\<lparr>ms_ns := ns, ms_refs := ms_refs s - 1\<rparr>)
      else (- ENOSYS, s))"

text \<open>The log records the attempted unmounts with their flags.\<close>

definition ksu_try_umount ::
  "'ns mnt_env \<Rightarrow> cbuf \<Rightarrow> bool \<Rightarrow> int \<Rightarrow> uid_t \<Rightarrow> 'ns mnt_state \<Rightarrow> 'ns mnt_state" where
  "ksu_try_umount me mnt check_mnt flags uid s =
     (case me_kern_path me (ms_ns s) mnt of
        Inl err \<Rightarrow> s
      | Inr path \<Rightarrow>
          let s1 = s\<lparr>ms_refs := ms_refs s + 1\<rparr> in
          if \<not> kp_is_root path then s1\<lparr>ms_refs := ms_refs s1 - 1\<rparr>
          else if check_mnt \<and> \<not> should_umount me (Some path) then s1\<lparr>ms_refs := ms_refs s1 - 1\<rparr>
          else snd (ksu_umount_mnt me path flags (s1\<lparr>ms_log := ms_log s1 @ [(cstr mnt, flags)]\<rparr>)))"

lemma ksu_try_umount_refs:
  "me_has_path_umount me \<Longrightarrow> ms_refs (ksu_try_umount me mnt c f uid s) = ms_refs s"
  by (simp add: ksu_try_umount_def ksu_umount_mnt_def Let_def split: sum.splits prod.splits)

text \<open>Without \<open>path_umount\<close> the reference of every mount it decides to unmount is lost, and the
  namespace never changes.\<close>

lemma ksu_try_umount_no_path_umount:
  assumes "\<not> me_has_path_umount me"
  shows "ms_ns (ksu_try_umount me mnt c f uid s) = ms_ns s"
    and "ms_refs (ksu_try_umount me mnt c f uid s) + length (ms_log s) =
      ms_refs s + length (ms_log (ksu_try_umount me mnt c f uid s))"
  using assms by (simp_all add: ksu_try_umount_def ksu_umount_mnt_def Let_def split: sum.splits)

lemma ksu_try_umount_log:
  "\<exists>l. ms_log (ksu_try_umount me mnt c f uid s) = ms_log s @ l \<and> set l \<subseteq> {(cstr mnt, f)}"
  by (simp add: ksu_try_umount_def ksu_umount_mnt_def Let_def split: sum.splits prod.splits)

end
