(* ===== verification/Path_Table.thy ===== *)
theory Path_Table
  imports Kprelude
begin

text \<open>
  The hash tables of \<^verbatim>\<open>fs/susfs.c\<close> (\<open>DEFINE_HASHTABLE(_, 10)\<close>): entries are added under the
  inode number they stand for, deleted by the pathname they were registered with, and looked up by
  inode number in one bucket. The kernel's hash function is a parameter, assumed to give a
  bucket of the table. \<open>path_table\<close> is the interface the registries rely on;
  it is interpreted for any entry type by its name and inode projections.
\<close>

subsection \<open>The interface\<close>

locale path_table =
  fixes inv :: "'t \<Rightarrow> bool"
    and entries :: "'t \<Rightarrow> 'e set"
    and name :: "'e \<Rightarrow> string"
    and ino :: "'e \<Rightarrow> u64"
    and remove :: "string \<Rightarrow> 't \<Rightarrow> 't"
    and add :: "'e \<Rightarrow> 't \<Rightarrow> 't"
    and lookup :: "u64 \<Rightarrow> 't \<Rightarrow> 'e option"
  assumes inv_remove: "inv t \<Longrightarrow> inv (remove n t)"
    and entries_remove: "inv t \<Longrightarrow> entries (remove n t) = {e \<in> entries t. name e \<noteq> n}"
    and inv_add: "inv t \<Longrightarrow> \<forall>x \<in> entries t. name x \<noteq> name e \<Longrightarrow> inv (add e t)"
    and entries_add: "inv t \<Longrightarrow> entries (add e t) = insert e (entries t)"
    and lookup_add: "inv t \<Longrightarrow> lookup i (add e t) = (if i = ino e then Some e else lookup i t)"
    and lookup_remove: "inv t \<Longrightarrow> \<forall>e \<in> entries t. name e = n \<longrightarrow> ino e \<noteq> i \<Longrightarrow> lookup i (remove n t) = lookup i t"
    and lookup_Some: "inv t \<Longrightarrow> lookup i t = Some e \<Longrightarrow> e \<in> entries t \<and> ino e = i"
    and lookup_None: "inv t \<Longrightarrow> lookup i t = None \<longleftrightarrow> (\<forall>e \<in> entries t. ino e \<noteq> i)"
    and name_inj: "inv t \<Longrightarrow> e \<in> entries t \<Longrightarrow> e' \<in> entries t \<Longrightarrow> name e = name e' \<Longrightarrow> e = e'"
begin

text \<open>Registering an entry \<open>e\<close> is \<open>add e (remove (name e) t)\<close>: it replaces the one with its
  name.\<close>

lemma register_inv: "inv t \<Longrightarrow> inv (add e (remove (name e) t))"
  by (simp add: inv_add inv_remove entries_remove)

lemma register_entries:
  "inv t \<Longrightarrow> entries (add e (remove (name e) t)) = insert e {x \<in> entries t. name x \<noteq> name e}"
  by (simp add: entries_add inv_remove entries_remove)

lemma register_lookup: "inv t \<Longrightarrow> lookup (ino e) (add e (remove (name e) t)) = Some e"
  by (simp add: lookup_add inv_remove)

text \<open>Another inode is answered as before, unless the entry replaced was the one of that inode.\<close>

lemma register_lookup_other:
  "inv t \<Longrightarrow> i \<noteq> ino e \<Longrightarrow> \<forall>x \<in> entries t. name x = name e \<longrightarrow> ino x \<noteq> i \<Longrightarrow>
     lookup i (add e (remove (name e) t)) = lookup i t"
  by (simp add: lookup_add inv_remove lookup_remove)

lemma lookup_remove_None:
  "inv t \<Longrightarrow> lookup i (remove n t) = None \<longleftrightarrow> (\<forall>e \<in> entries t. ino e = i \<longrightarrow> name e = n)"
  by (auto simp: lookup_None inv_remove entries_remove)

lemma register_lookup_None:
  "inv t \<Longrightarrow> lookup i (add e (remove (name e) t)) = None \<longleftrightarrow>
     i \<noteq> ino e \<and> (\<forall>x \<in> entries t. ino x = i \<longrightarrow> name x = name e)"
  by (simp add: lookup_add inv_remove lookup_remove_None)

text \<open>An inode held by a single entry is answered by that entry.\<close>

lemma lookup_unique:
  assumes "inv t" and "e \<in> entries t" and "\<forall>x \<in> entries t. ino x = ino e \<longrightarrow> x = e"
  shows "lookup (ino e) t = Some e"
proof (cases "lookup (ino e) t")
  case None
  with assms lookup_None [of t "ino e"] show ?thesis by auto
next
  case (Some x)
  with assms lookup_Some [of t "ino e" x] show ?thesis by auto
qed

end

subsection \<open>The tables\<close>

definition HASH_SIZE :: nat where
  "HASH_SIZE = 2 ^ 10"

type_synonym 'e htable = "'e list list"

definition hash_empty :: "'e htable" where
  "hash_empty = replicate HASH_SIZE []"

definition hash_add :: "(u64 \<Rightarrow> nat) \<Rightarrow> u64 \<Rightarrow> 'e \<Rightarrow> 'e htable \<Rightarrow> 'e htable" where
  "hash_add hash key e tbl = tbl[hash key := e # tbl ! hash key]"

text \<open>The walk of all buckets that deletes the first entry passing a test and stops there; and
  whether it found one.\<close>

fun hash_del_first :: "('e \<Rightarrow> bool) \<Rightarrow> 'e htable \<Rightarrow> 'e htable" where
  "hash_del_first P [] = []"
| "hash_del_first P (b # bs) =
     (case remove_first P b of Some b' \<Rightarrow> b' # bs | None \<Rightarrow> b # hash_del_first P bs)"

fun hash_find :: "('e \<Rightarrow> bool) \<Rightarrow> 'e htable \<Rightarrow> 'e option" where
  "hash_find P [] = None"
| "hash_find P (b # bs) = (case List.find P b of Some e \<Rightarrow> Some e | None \<Rightarrow> hash_find P bs)"

definition hash_lookup :: "(u64 \<Rightarrow> nat) \<Rightarrow> ('e \<Rightarrow> u64) \<Rightarrow> u64 \<Rightarrow> 'e htable \<Rightarrow> 'e option" where
  "hash_lookup hash inof ino tbl = List.find (\<lambda>e. inof e = ino) (tbl ! hash ino)"

definition hash_inv :: "(u64 \<Rightarrow> nat) \<Rightarrow> ('e \<Rightarrow> string) \<Rightarrow> ('e \<Rightarrow> u64) \<Rightarrow> 'e htable \<Rightarrow> bool" where
  "hash_inv hash nm inof tbl \<longleftrightarrow> length tbl = HASH_SIZE \<and> distinct (map nm (concat tbl)) \<and>
     (\<forall>b < HASH_SIZE. \<forall>e \<in> set (tbl ! b). hash (inof e) = b) \<and> (\<forall>k. hash k < HASH_SIZE)"

definition hash_entries :: "'e htable \<Rightarrow> 'e set" where
  "hash_entries tbl = set (concat tbl)"

lemma hash_find_eq: "hash_find P tbl = List.find P (concat tbl)"
  by (induction tbl) (auto simp: find_append split: option.splits)

lemma hash_find_Some: "hash_find P tbl = Some x \<Longrightarrow> x \<in> hash_entries tbl \<and> P x"
  unfolding hash_find_eq hash_entries_def find_Some_iff by (metis nth_mem)

lemma remove_first_append:
  "remove_first P (xs @ ys) =
     (case remove_first P xs of Some zs \<Rightarrow> Some (zs @ ys) | None \<Rightarrow> map_option ((@) xs) (remove_first P ys))"
  by (cases "remove_first P ys"; induction xs) (auto split: option.splits)

lemma hash_del_first_concat:
  "concat (hash_del_first P tbl) =
     (case remove_first P (concat tbl) of Some xs \<Rightarrow> xs | None \<Rightarrow> concat tbl)"
  by (induction tbl) (auto simp: remove_first_append split: option.splits)

lemma length_hash_del_first [simp]: "length (hash_del_first P tbl) = length tbl"
  by (induction tbl) (auto split: option.splits)

lemma hash_del_first_bucket: "b < length tbl \<Longrightarrow> set (hash_del_first P tbl ! b) \<subseteq> set (tbl ! b)"
proof (induction tbl arbitrary: b)
  case (Cons c cs)
  then show ?case
    by (cases b) (auto split: option.splits dest: remove_first_subset)
qed simp

lemma mem_hash_entries: "e \<in> hash_entries tbl \<longleftrightarrow> (\<exists>b < length tbl. e \<in> set (tbl ! b))"
  unfolding hash_entries_def set_concat by (metis UN_iff in_set_conv_nth)

lemma hash_inv_bucket:
  "hash_inv hash nm inof tbl \<Longrightarrow> e \<in> hash_entries tbl \<longleftrightarrow> e \<in> set (tbl ! hash (inof e))"
  by (auto simp: hash_inv_def mem_hash_entries)

lemma hash_inv_empty: "\<forall>k. hash k < HASH_SIZE \<Longrightarrow> hash_inv hash nm inof hash_empty"
  by (simp add: hash_inv_def hash_empty_def)

lemma hash_entries_empty [simp]: "hash_entries hash_empty = {}"
  by (simp add: hash_entries_def hash_empty_def)

lemma concat_update:
  assumes "i < length tbl"
  obtains as bs where "concat tbl = as @ tbl ! i @ bs" "concat (tbl[i := x]) = as @ x @ bs"
  using that [of "concat (take i tbl)" "concat (drop (Suc i) tbl)"] assms
  by (metis concat.simps(2) concat_append id_take_nth_drop upd_conv_take_nth_drop)

lemma hash_del_first_entries:
  assumes "hash_inv hash nm inof tbl"
  shows "hash_inv hash nm inof (hash_del_first (\<lambda>e. nm e = n) tbl)"
    and "hash_entries (hash_del_first (\<lambda>e. nm e = n) tbl) = {e \<in> hash_entries tbl. nm e \<noteq> n}"
proof -
  let ?t = "hash_del_first (\<lambda>e. nm e = n) tbl"
  have d: "distinct (map nm (concat tbl))" using assms by (simp add: hash_inv_def)
  have c: "concat ?t = filter (\<lambda>e. nm e \<noteq> n) (concat tbl)"
  proof (cases "remove_first (\<lambda>e. nm e = n) (concat tbl)")
    case None
    then have "filter (\<lambda>e. nm e \<noteq> n) (concat tbl) = concat tbl"
      by (simp only: filter_id_conv remove_first_None_iff)
    with None show ?thesis by (simp only: hash_del_first_concat option.case)
  next
    case (Some xs)
    from remove_first_distinct_filter [OF Some d, of n] Some show ?thesis
      by (simp add: hash_del_first_concat)
  qed
  then show "hash_entries ?t = {e \<in> hash_entries tbl. nm e \<noteq> n}"
    by (auto simp: hash_entries_def)
  have "\<forall>e \<in> set (?t ! b). hash (inof e) = b" if "b < HASH_SIZE" for b
    using that assms hash_del_first_bucket [of b tbl "\<lambda>e. nm e = n"] by (auto simp: hash_inv_def)
  then show "hash_inv hash nm inof ?t"
    using assms c distinct_map_filter [OF d] by (simp add: hash_inv_def)
qed

lemma hash_add_entries:
  assumes "hash_inv hash nm inof tbl"
  shows "hash_entries (hash_add hash (inof e) e tbl) = insert e (hash_entries tbl)"
    and "\<forall>x \<in> hash_entries tbl. nm x \<noteq> nm e \<Longrightarrow> hash_inv hash nm inof (hash_add hash (inof e) e tbl)"
proof -
  have i: "hash (inof e) < length tbl" using assms by (simp add: hash_inv_def)
  obtain as bs where c: "concat tbl = as @ tbl ! hash (inof e) @ bs"
    "concat (hash_add hash (inof e) e tbl) = as @ (e # tbl ! hash (inof e)) @ bs"
    unfolding hash_add_def by (rule concat_update [OF i])
  then show "hash_entries (hash_add hash (inof e) e tbl) = insert e (hash_entries tbl)"
    by (auto simp: hash_entries_def)
  assume f: "\<forall>x \<in> hash_entries tbl. nm x \<noteq> nm e"
  have "distinct (map nm (as @ (e # tbl ! hash (inof e)) @ bs))"
    using assms f c by (auto simp: hash_inv_def hash_entries_def)
  moreover have "\<forall>x \<in> set (hash_add hash (inof e) e tbl ! b). hash (inof x) = b" if "b < HASH_SIZE" for b
    using that assms i by (cases "b = hash (inof e)") (auto simp: hash_inv_def hash_add_def)
  moreover have "length (hash_add hash (inof e) e tbl) = HASH_SIZE" "\<forall>k. hash k < HASH_SIZE"
    using assms by (simp_all add: hash_inv_def hash_add_def)
  ultimately show "hash_inv hash nm inof (hash_add hash (inof e) e tbl)"
    unfolding hash_inv_def c(2) by blast
qed

lemma hash_lookup_add:
  assumes "hash_inv hash nm inof tbl"
  shows "hash_lookup hash inof i (hash_add hash (inof e) e tbl) =
    (if i = inof e then Some e else hash_lookup hash inof i tbl)"
  using assms by (cases "hash i = hash (inof e)") (auto simp: hash_lookup_def hash_add_def hash_inv_def)

lemma find_remove_first:
  "remove_first P xs = Some ys \<Longrightarrow> \<forall>x \<in> set xs. P x \<longrightarrow> \<not> Q x \<Longrightarrow> List.find Q ys = List.find Q xs"
  by (induction xs arbitrary: ys) (auto split: if_splits)

lemma hash_del_first_find:
  "b < length tbl \<Longrightarrow> \<forall>x \<in> set (tbl ! b). P x \<longrightarrow> \<not> Q x \<Longrightarrow>
     List.find Q (hash_del_first P tbl ! b) = List.find Q (tbl ! b)"
proof (induction tbl arbitrary: b)
  case (Cons c cs)
  then show ?case
    by (cases b) (auto split: option.split dest: find_remove_first)
qed simp

lemma hash_lookup_remove:
  assumes "hash_inv hash nm inof tbl" "\<forall>e \<in> hash_entries tbl. nm e = n \<longrightarrow> inof e \<noteq> i"
  shows "hash_lookup hash inof i (hash_del_first (\<lambda>e. nm e = n) tbl) = hash_lookup hash inof i tbl"
proof -
  have b: "hash i < length tbl" using assms(1) by (simp add: hash_inv_def)
  then have "\<forall>x \<in> set (tbl ! hash i). nm x = n \<longrightarrow> inof x \<noteq> i" using assms(2) by (auto simp: mem_hash_entries)
  then show ?thesis unfolding hash_lookup_def by (rule hash_del_first_find [OF b])
qed

lemma hash_lookup_Some:
  "hash_inv hash nm inof tbl \<Longrightarrow> hash_lookup hash inof i tbl = Some e \<Longrightarrow>
     e \<in> hash_entries tbl \<and> inof e = i"
  by (auto simp: hash_lookup_def find_Some_iff hash_inv_bucket)

lemma hash_lookup_None:
  "hash_inv hash nm inof tbl \<Longrightarrow>
     hash_lookup hash inof i tbl = None \<longleftrightarrow> (\<forall>e \<in> hash_entries tbl. inof e \<noteq> i)"
  by (auto simp: hash_lookup_def find_None_iff hash_inv_bucket)

lemma hash_name_inj:
  "hash_inv hash nm inof tbl \<Longrightarrow> e \<in> hash_entries tbl \<Longrightarrow> e' \<in> hash_entries tbl \<Longrightarrow>
     nm e = nm e' \<Longrightarrow> e = e'"
  by (auto simp: hash_inv_def hash_entries_def distinct_map dest: inj_onD)

lemma hash_path_table:
  "path_table (hash_inv hash nm inof) hash_entries nm inof
     (\<lambda>n. hash_del_first (\<lambda>e. nm e = n)) (\<lambda>e. hash_add hash (inof e) e) (hash_lookup hash inof)"
  by unfold_locales
     (auto simp: hash_del_first_entries hash_add_entries hash_lookup_add hash_lookup_remove hash_lookup_None
       dest: hash_lookup_Some intro: hash_name_inj)

end
