(* ===== verification/Susfs_State.thy ===== *)
theory Susfs_State
  imports Kernel_Paths Path_Table
begin

text \<open>
  The data of \<^verbatim>\<open>fs/susfs.c\<close> and \<^verbatim>\<open>include/linux/susfs.h\<close>: the structs exchanged with user
  space, the entries of the registries, the state they form, and the kernel services an
  operation calls. The build is the one of \<^verbatim>\<open>apply.sh\<close>: every \<open>CONFIG_KSU_SUSFS_*\<close> feature
  except \<open>SUS_SU\<close> is on; \<open>MAGIC_MOUNT\<close> support is a switch of the environment.
\<close>

abbreviation SUSFS_MAX_LEN_PATHNAME :: nat where "SUSFS_MAX_LEN_PATHNAME \<equiv> 256"
abbreviation SUSFS_FAKE_CMDLINE_OR_BOOTCONFIG_SIZE :: nat where
  "SUSFS_FAKE_CMDLINE_OR_BOOTCONFIG_SIZE \<equiv> 4096"
abbreviation NEW_UTS_LEN :: nat where "NEW_UTS_LEN \<equiv> 64"
abbreviation TRY_UMOUNT_DEFAULT :: int where "TRY_UMOUNT_DEFAULT \<equiv> 0"
abbreviation TRY_UMOUNT_DETACH :: int where "TRY_UMOUNT_DETACH \<equiv> 1"
abbreviation DEFAULT_SUS_MNT_GROUP_ID :: int where "DEFAULT_SUS_MNT_GROUP_ID \<equiv> 1000"

abbreviation INODE_STATE_SUS_PATH :: u64 where "INODE_STATE_SUS_PATH \<equiv> push_bit 24 1"
abbreviation INODE_STATE_SUS_MOUNT :: u64 where "INODE_STATE_SUS_MOUNT \<equiv> push_bit 25 1"
abbreviation INODE_STATE_SUS_KSTAT :: u64 where "INODE_STATE_SUS_KSTAT \<equiv> push_bit 26 1"
abbreviation INODE_STATE_OPEN_REDIRECT :: u64 where "INODE_STATE_OPEN_REDIRECT \<equiv> push_bit 27 1"

definition MAGIC_MOUNT_WORKDIR :: string where
  "MAGIC_MOUNT_WORKDIR = ''/debug_ramdisk/workdir''"

subsection \<open>Structs\<close>

record st_susfs_sus_path =
  sp_target_ino :: u64
  sp_target_pathname :: cbuf

record st_susfs_sus_mount =
  sm_target_pathname :: cbuf
  sm_target_dev :: u64

record st_susfs_sus_kstat =
  sk_is_statically :: int
  sk_target_ino :: u64
  sk_target_pathname :: cbuf
  spoofed_ino :: u64
  spoofed_dev :: u64
  spoofed_nlink :: u32
  spoofed_size :: u64
  spoofed_atime_tv_sec :: u64
  spoofed_mtime_tv_sec :: u64
  spoofed_ctime_tv_sec :: u64
  spoofed_atime_tv_nsec :: u64
  spoofed_mtime_tv_nsec :: u64
  spoofed_ctime_tv_nsec :: u64
  spoofed_blksize :: u64
  spoofed_blocks :: u64

text \<open>The list node keeps \<open>target_ino\<close> next to the whole struct.\<close>

record st_susfs_sus_kstat_hlist =
  kh_target_ino :: u64
  kh_info :: st_susfs_sus_kstat

record st_susfs_try_umount =
  tu_target_pathname :: cbuf
  tu_mnt_mode :: int

record st_susfs_uname =
  un_release :: cbuf
  un_version :: cbuf

record st_susfs_open_redirect =
  or_target_ino :: u64
  or_target_pathname :: cbuf
  or_redirected_pathname :: cbuf

subsection \<open>State and environment\<close>

record susfs_state =
  ss_i_state :: "nat \<Rightarrow> u64"
  ss_refs :: nat
  SUS_PATH_HLIST :: "st_susfs_sus_path htable"
  LH_SUS_MOUNT :: "st_susfs_sus_mount list"
  SUS_KSTAT_HLIST :: "st_susfs_sus_kstat_hlist htable"
  LH_TRY_UMOUNT_PATH :: "st_susfs_try_umount list"
  my_uname :: st_susfs_uname
  susfs_is_log_enabled :: bool
  fake_cmdline :: "cbuf option"
  OPEN_REDIRECT_HLIST :: "st_susfs_open_redirect htable"

text \<open>\<open>se_alloc\<close> is whether \<open>kmalloc\<close> serves the new node, \<open>se_junk\<close> the contents of the
  path buffers of a fresh node.\<close>

record susfs_env =
  se_hash :: "u64 \<Rightarrow> nat"
  se_kern_path :: kern_path
  se_alloc :: bool
  se_junk :: "cbuf \<times> cbuf"
  se_decode_dev :: "u64 \<Rightarrow> u64"
  se_has_magic_mount :: bool

text \<open>Setting a flag of \<open>i_state\<close> unless it is set.\<close>

definition set_inode_state :: "nat \<Rightarrow> u64 \<Rightarrow> susfs_state \<Rightarrow> susfs_state" where
  "set_inode_state i flag s =
     (if ss_i_state s i AND flag = 0
      then s\<lparr>ss_i_state := (ss_i_state s)(i := ss_i_state s i OR flag)\<rparr> else s)"

definition path_get :: "susfs_state \<Rightarrow> susfs_state" where
  "path_get s = s\<lparr>ss_refs := ss_refs s + 1\<rparr>"

definition path_put :: "susfs_state \<Rightarrow> susfs_state" where
  "path_put s = s\<lparr>ss_refs := ss_refs s - 1\<rparr>"

subsection \<open>\<open>susfs_init\<close>\<close>

definition susfs_my_uname_init :: st_susfs_uname where
  "susfs_my_uname_init = \<lparr>un_release = replicate (NEW_UTS_LEN + 1) NUL,
     un_version = replicate (NEW_UTS_LEN + 1) NUL\<rparr>"

definition susfs_init :: "susfs_state \<Rightarrow> susfs_state" where
  "susfs_init s = s\<lparr>my_uname := susfs_my_uname_init\<rparr>"

text \<open>The statics before any call.\<close>

definition susfs_static :: susfs_state where
  "susfs_static = \<lparr>ss_i_state = \<lambda>i. 0, ss_refs = 0, SUS_PATH_HLIST = hash_empty, LH_SUS_MOUNT = [],
     SUS_KSTAT_HLIST = hash_empty, LH_TRY_UMOUNT_PATH = [], my_uname = susfs_my_uname_init,
     susfs_is_log_enabled = True, fake_cmdline = None, OPEN_REDIRECT_HLIST = hash_empty\<rparr>"

subsection \<open>Frames\<close>

named_theorems susfs_frame \<open>fields a SUSFS helper leaves alone\<close>

lemma set_inode_state_frame [susfs_frame]:
  "ss_refs (set_inode_state i f s) = ss_refs s"
  "SUS_PATH_HLIST (set_inode_state i f s) = SUS_PATH_HLIST s"
  "LH_SUS_MOUNT (set_inode_state i f s) = LH_SUS_MOUNT s"
  "SUS_KSTAT_HLIST (set_inode_state i f s) = SUS_KSTAT_HLIST s"
  "LH_TRY_UMOUNT_PATH (set_inode_state i f s) = LH_TRY_UMOUNT_PATH s"
  "my_uname (set_inode_state i f s) = my_uname s"
  "susfs_is_log_enabled (set_inode_state i f s) = susfs_is_log_enabled s"
  "fake_cmdline (set_inode_state i f s) = fake_cmdline s"
  "OPEN_REDIRECT_HLIST (set_inode_state i f s) = OPEN_REDIRECT_HLIST s"
  by (simp_all add: set_inode_state_def)

lemma path_ref_frame [susfs_frame]:
  "ss_refs (path_get s) = Suc (ss_refs s)" "ss_refs (path_put s) = ss_refs s - 1"
  "ss_i_state (path_get s) = ss_i_state s" "ss_i_state (path_put s) = ss_i_state s"
  "SUS_PATH_HLIST (path_get s) = SUS_PATH_HLIST s" "SUS_PATH_HLIST (path_put s) = SUS_PATH_HLIST s"
  "LH_SUS_MOUNT (path_get s) = LH_SUS_MOUNT s" "LH_SUS_MOUNT (path_put s) = LH_SUS_MOUNT s"
  "SUS_KSTAT_HLIST (path_get s) = SUS_KSTAT_HLIST s" "SUS_KSTAT_HLIST (path_put s) = SUS_KSTAT_HLIST s"
  "LH_TRY_UMOUNT_PATH (path_get s) = LH_TRY_UMOUNT_PATH s"
  "LH_TRY_UMOUNT_PATH (path_put s) = LH_TRY_UMOUNT_PATH s"
  "OPEN_REDIRECT_HLIST (path_get s) = OPEN_REDIRECT_HLIST s"
  "OPEN_REDIRECT_HLIST (path_put s) = OPEN_REDIRECT_HLIST s"
  by (simp_all add: path_get_def path_put_def)

lemma set_inode_state_bit:
  assumes "n < 64"
  shows "bit (ss_i_state (set_inode_state i (push_bit n 1) s) j) m \<longleftrightarrow>
    (j = i \<and> m = n) \<or> bit (ss_i_state s j) m"
proof -
  have "ss_i_state s i AND push_bit n 1 = 0 \<longleftrightarrow> \<not> bit (ss_i_state s i) n"
    using bit_word_and_push_bit [of "ss_i_state s i" n] by blast
  then show ?thesis
    using bit_or_push_bit [of n "ss_i_state s i" m] assms
    by (auto simp: set_inode_state_def simp del: push_bit_of_1)
qed

end
