(* ===== verification/Susfs_Registry.thy ===== *)
theory Susfs_Registry
  imports Susfs_State
begin

text \<open>
  The three hashed registries of \<^verbatim>\<open>fs/susfs.c\<close>: hidden paths, spoofed \<open>kstat\<close>s and open
  redirects. An operation takes the struct it copied from user space (\<open>None\<close> when the copy
  faults) and returns the C function's value with the new state. The interpretations at the end
  give each table its contract.
\<close>

subsection \<open>\<open>sus_path\<close>\<close>

definition susfs_update_sus_path_inode :: "susfs_env \<Rightarrow> cbuf \<Rightarrow> susfs_state \<Rightarrow> int \<times> susfs_state" where
  "susfs_update_sus_path_inode e target_pathname s =
     (case se_kern_path e target_pathname of
        Inl err \<Rightarrow> (1, s)
      | Inr p \<Rightarrow>
          let s1 = path_get s in
          if kp_fstype p = ''tmpfs'' \<or> kp_fstype p = ''fuse'' then (1, path_put s1)
          else (case kp_inode p of
            None \<Rightarrow> (1, path_put s1)
          | Some i \<Rightarrow> (0, path_put (set_inode_state i INODE_STATE_SUS_PATH s1))))"

definition susfs_add_sus_path ::
  "susfs_env \<Rightarrow> st_susfs_sus_path option \<Rightarrow> susfs_state \<Rightarrow> int \<times> susfs_state" where
  "susfs_add_sus_path e user_info s =
     (case user_info of
        None \<Rightarrow> (1, s)
      | Some info \<Rightarrow>
          let s1 = s\<lparr>SUS_PATH_HLIST := hash_del_first
                (\<lambda>t. strcmp_eq (sp_target_pathname t) (sp_target_pathname info)) (SUS_PATH_HLIST s)\<rparr>
          in if \<not> se_alloc e then (1, s1)
          else let new_entry = \<lparr>sp_target_ino = sp_target_ino info,
                   sp_target_pathname = c_strncpy (fst (se_junk e)) (sp_target_pathname info)
                     (SUSFS_MAX_LEN_PATHNAME - 1)\<rparr>;
                   (r, s2) = susfs_update_sus_path_inode e (sp_target_pathname new_entry) s1
               in if r \<noteq> 0 then (1, s2)
                  else (0, s2\<lparr>SUS_PATH_HLIST := hash_add (se_hash e) (sp_target_ino info) new_entry
                              (SUS_PATH_HLIST s2)\<rparr>))"

definition susfs_sus_ino_for_filldir64 :: "(u64 \<Rightarrow> nat) \<Rightarrow> susfs_state \<Rightarrow> u64 \<Rightarrow> int" where
  "susfs_sus_ino_for_filldir64 hash s ino =
     (case hash_lookup hash sp_target_ino ino (SUS_PATH_HLIST s) of None \<Rightarrow> 0 | Some _ \<Rightarrow> 1)"

subsection \<open>\<open>sus_kstat\<close>\<close>

definition susfs_update_sus_kstat_inode :: "susfs_env \<Rightarrow> cbuf \<Rightarrow> susfs_state \<Rightarrow> int \<times> susfs_state" where
  "susfs_update_sus_kstat_inode e target_pathname s =
     (case se_kern_path e target_pathname of
        Inl err \<Rightarrow> (1, s)
      | Inr p \<Rightarrow>
          let s1 = path_get s in
          if kp_fstype p = ''tmpfs'' then (1, path_put s1)
          else (case kp_inode p of
            None \<Rightarrow> (1, path_put s1)
          | Some i \<Rightarrow> (0, path_put (set_inode_state i INODE_STATE_SUS_KSTAT s1))))"

definition susfs_add_sus_kstat ::
  "susfs_env \<Rightarrow> st_susfs_sus_kstat option \<Rightarrow> susfs_state \<Rightarrow> int \<times> susfs_state" where
  "susfs_add_sus_kstat e user_info s =
     (case user_info of
        None \<Rightarrow> (1, s)
      | Some info \<Rightarrow>
          if c_strlen (sk_target_pathname info) = 0 then (1, s)
          else let s1 = s\<lparr>SUS_KSTAT_HLIST := hash_del_first
                (\<lambda>t. strcmp_eq (sk_target_pathname (kh_info t)) (sk_target_pathname info))
                (SUS_KSTAT_HLIST s)\<rparr>
          in if \<not> se_alloc e then (1, s1)
          else let info' = info\<lparr>spoofed_dev := se_decode_dev e (spoofed_dev info)\<rparr>;
                   new_entry = \<lparr>kh_target_ino = sk_target_ino info', kh_info = info'\<rparr>;
                   (r, s2) = susfs_update_sus_kstat_inode e (sk_target_pathname (kh_info new_entry)) s1
               in if r \<noteq> 0 then (1, s2)
                  else (0, s2\<lparr>SUS_KSTAT_HLIST := hash_add (se_hash e) (sk_target_ino info') new_entry
                              (SUS_KSTAT_HLIST s2)\<rparr>))"

text \<open>The first entry with the name, in the order of the walk, is re-added under the new inode
  number. \<open>spoofed_size\<close> is signed, \<open>spoofed_blocks\<close> unsigned.\<close>

definition susfs_update_sus_kstat ::
  "susfs_env \<Rightarrow> st_susfs_sus_kstat option \<Rightarrow> susfs_state \<Rightarrow> int \<times> susfs_state" where
  "susfs_update_sus_kstat e user_info s =
     (case user_info of
        None \<Rightarrow> (1, s)
      | Some info \<Rightarrow>
          let named = (\<lambda>t. strcmp_eq (sk_target_pathname (kh_info t)) (sk_target_pathname info)) in
          (case hash_find named (SUS_KSTAT_HLIST s) of
             None \<Rightarrow> (0, s)
           | Some tmp_entry \<Rightarrow>
               let (r, s1) = susfs_update_sus_kstat_inode e (sk_target_pathname (kh_info tmp_entry)) s in
               if r \<noteq> 0 then (1, s1)
               else if \<not> se_alloc e then (1, s1)
               else let i0 = (kh_info tmp_entry)\<lparr>sk_target_ino := sk_target_ino info\<rparr>;
                        i1 = (if sint (spoofed_size info) > 0
                              then i0\<lparr>spoofed_size := spoofed_size info\<rparr> else i0);
                        i2 = (if spoofed_blocks info > 0
                              then i1\<lparr>spoofed_blocks := spoofed_blocks info\<rparr> else i1);
                        new_entry = \<lparr>kh_target_ino = sk_target_ino info, kh_info = i2\<rparr>
                    in (0, s1\<lparr>SUS_KSTAT_HLIST := hash_add (se_hash e) (sk_target_ino info) new_entry
                              (hash_del_first named (SUS_KSTAT_HLIST s1))\<rparr>)))"

record timespec =
  tv_sec :: u64
  tv_nsec :: u64

record kstat =
  ks_dev :: u32
  ks_ino :: u64
  ks_nlink :: u32
  ks_size :: u64
  ks_atime :: timespec
  ks_mtime :: timespec
  ks_ctime :: timespec
  ks_blocks :: u64
  ks_blksize :: u32
  ks_mode :: u32

text \<open>\<open>dev_t\<close> and \<open>blksize\<close> of 32 bits (Linux 4.19): the assignments truncate.\<close>

definition susfs_sus_ino_for_generic_fillattr ::
  "(u64 \<Rightarrow> nat) \<Rightarrow> susfs_state \<Rightarrow> u64 \<Rightarrow> kstat \<Rightarrow> kstat" where
  "susfs_sus_ino_for_generic_fillattr hash s ino stat =
     (case hash_lookup hash kh_target_ino ino (SUS_KSTAT_HLIST s) of
        None \<Rightarrow> stat
      | Some entry \<Rightarrow>
          let i = kh_info entry in
          stat\<lparr>ks_dev := ucast (spoofed_dev i), ks_ino := spoofed_ino i,
            ks_nlink := spoofed_nlink i, ks_size := spoofed_size i,
            ks_atime := \<lparr>tv_sec = spoofed_atime_tv_sec i, tv_nsec = spoofed_atime_tv_nsec i\<rparr>,
            ks_mtime := \<lparr>tv_sec = spoofed_mtime_tv_sec i, tv_nsec = spoofed_mtime_tv_nsec i\<rparr>,
            ks_ctime := \<lparr>tv_sec = spoofed_ctime_tv_sec i, tv_nsec = spoofed_ctime_tv_nsec i\<rparr>,
            ks_blocks := spoofed_blocks i, ks_blksize := ucast (spoofed_blksize i)\<rparr>)"

definition susfs_sus_ino_for_show_map_vma ::
  "(u64 \<Rightarrow> nat) \<Rightarrow> susfs_state \<Rightarrow> u64 \<Rightarrow> u32 \<times> u64 \<Rightarrow> u32 \<times> u64" where
  "susfs_sus_ino_for_show_map_vma hash s ino out =
     (case hash_lookup hash kh_target_ino ino (SUS_KSTAT_HLIST s) of
        None \<Rightarrow> out
      | Some entry \<Rightarrow> (ucast (spoofed_dev (kh_info entry)), spoofed_ino (kh_info entry)))"

subsection \<open>\<open>open_redirect\<close>\<close>

definition susfs_update_open_redirect_inode ::
  "susfs_env \<Rightarrow> st_susfs_open_redirect \<Rightarrow> susfs_state \<Rightarrow> int \<times> susfs_state" where
  "susfs_update_open_redirect_inode e new_entry s =
     (case se_kern_path e (or_target_pathname new_entry) of
        Inl err \<Rightarrow> (err, s)
      | Inr p \<Rightarrow>
          let s1 = path_get s in
          (case kp_inode p of
             None \<Rightarrow> (1, path_put s1)
           | Some i \<Rightarrow>
               (0, path_put (s1\<lparr>ss_i_state := (ss_i_state s1)
                     (i := ss_i_state s1 i OR INODE_STATE_OPEN_REDIRECT)\<rparr>))))"

definition susfs_add_open_redirect ::
  "susfs_env \<Rightarrow> st_susfs_open_redirect option \<Rightarrow> susfs_state \<Rightarrow> int \<times> susfs_state" where
  "susfs_add_open_redirect e user_info s =
     (case user_info of
        None \<Rightarrow> (1, s)
      | Some info \<Rightarrow>
          let s1 = s\<lparr>OPEN_REDIRECT_HLIST := hash_del_first
                (\<lambda>t. strcmp_eq (or_target_pathname t) (or_target_pathname info)) (OPEN_REDIRECT_HLIST s)\<rparr>
          in if \<not> se_alloc e then (1, s1)
          else let new_entry = \<lparr>or_target_ino = or_target_ino info,
                   or_target_pathname = c_strncpy (fst (se_junk e)) (or_target_pathname info)
                     (SUSFS_MAX_LEN_PATHNAME - 1),
                   or_redirected_pathname = c_strncpy (snd (se_junk e)) (or_redirected_pathname info)
                     (SUSFS_MAX_LEN_PATHNAME - 1)\<rparr>;
                   (r, s2) = susfs_update_open_redirect_inode e new_entry s1
               in if r \<noteq> 0 then (1, s2)
                  else (0, s2\<lparr>OPEN_REDIRECT_HLIST := hash_add (se_hash e) (or_target_ino info) new_entry
                              (OPEN_REDIRECT_HLIST s2)\<rparr>))"

text \<open>\<open>getname_kernel\<close> is a parameter; the other result is \<open>ERR_PTR(-ENOENT)\<close>.\<close>

definition susfs_get_redirected_path ::
  "(u64 \<Rightarrow> nat) \<Rightarrow> (cbuf \<Rightarrow> int + 'f) \<Rightarrow> susfs_state \<Rightarrow> u64 \<Rightarrow> int + 'f" where
  "susfs_get_redirected_path hash getname_kernel s ino =
     (case hash_lookup hash or_target_ino ino (OPEN_REDIRECT_HLIST s) of
        None \<Rightarrow> Inl (- ENOENT)
      | Some entry \<Rightarrow> getname_kernel (or_redirected_pathname entry))"

subsection \<open>The tables meet the contract\<close>

definition sp_name :: "st_susfs_sus_path \<Rightarrow> string" where
  "sp_name t = cstr (sp_target_pathname t)"

definition kh_name :: "st_susfs_sus_kstat_hlist \<Rightarrow> string" where
  "kh_name t = cstr (sk_target_pathname (kh_info t))"

definition or_name :: "st_susfs_open_redirect \<Rightarrow> string" where
  "or_name t = cstr (or_target_pathname t)"

interpretation sus_paths: path_table "hash_inv hash sp_name sp_target_ino" hash_entries sp_name
  sp_target_ino "\<lambda>n. hash_del_first (\<lambda>t. sp_name t = n)"
  "\<lambda>t. hash_add hash (sp_target_ino t) t" "hash_lookup hash sp_target_ino" for hash
  by (rule hash_path_table)

interpretation sus_kstats: path_table "hash_inv hash kh_name kh_target_ino" hash_entries kh_name
  kh_target_ino "\<lambda>n. hash_del_first (\<lambda>t. kh_name t = n)"
  "\<lambda>t. hash_add hash (kh_target_ino t) t" "hash_lookup hash kh_target_ino" for hash
  by (rule hash_path_table)

interpretation redirects: path_table "hash_inv hash or_name or_target_ino" hash_entries or_name
  or_target_ino "\<lambda>n. hash_del_first (\<lambda>t. or_name t = n)"
  "\<lambda>t. hash_add hash (or_target_ino t) t" "hash_lookup hash or_target_ino" for hash
  by (rule hash_path_table)

text \<open>The registries as one invariant.\<close>

definition registry_inv :: "(u64 \<Rightarrow> nat) \<Rightarrow> susfs_state \<Rightarrow> bool" where
  "registry_inv hash s \<longleftrightarrow> hash_inv hash sp_name sp_target_ino (SUS_PATH_HLIST s) \<and>
     hash_inv hash kh_name kh_target_ino (SUS_KSTAT_HLIST s) \<and>
     hash_inv hash or_name or_target_ino (OPEN_REDIRECT_HLIST s)"

lemma registry_inv_static: "\<forall>k. hash k < HASH_SIZE \<Longrightarrow> registry_inv hash susfs_static"
  by (simp add: registry_inv_def susfs_static_def hash_inv_empty)

end
