(* ===== verification/Susfs_Registry_Props.thy ===== *)
theory Susfs_Registry_Props
  imports Susfs_Registry
begin

text \<open>
  The properties of the hashed registries. Each registration is the \<open>register\<close> of the table's
  contract, so the facts come from the interpretations \<open>sus_paths\<close>, \<open>sus_kstats\<close> and
  \<open>redirects\<close>; a pathname is \<open>short\<close> when the copy into the entry keeps its terminator.
\<close>

definition short :: "cbuf \<Rightarrow> bool" where
  "short b \<longleftrightarrow> length (cstr b) < SUSFS_MAX_LEN_PATHNAME - 1"

lemma cstr_short_copy: "short b \<Longrightarrow> cstr (c_strncpy junk b (SUSFS_MAX_LEN_PATHNAME - 1)) = cstr b"
  unfolding short_def by (rule cstr_c_strncpy)

lemma cstr_short_copy' [simp]: "short b \<Longrightarrow> cstr (c_strncpy junk b 255) = cstr b"
  using cstr_short_copy [of b junk] by simp

subsection \<open>The inode part of a registration\<close>

lemma sus_path_inode_cases:
  assumes "susfs_update_sus_path_inode e n s = (r, s')"
  obtains (failed) "r = 1" "ss_refs s' = ss_refs s" "ss_i_state s' = ss_i_state s"
      "SUS_PATH_HLIST s' = SUS_PATH_HLIST s" "SUS_KSTAT_HLIST s' = SUS_KSTAT_HLIST s"
      "OPEN_REDIRECT_HLIST s' = OPEN_REDIRECT_HLIST s"
  | (flagged) p i where "r = 0" "se_kern_path e n = Inr p" "kp_inode p = Some i"
      "kp_fstype p \<noteq> ''tmpfs''" "kp_fstype p \<noteq> ''fuse''" "bit (ss_i_state s' i) 24"
      "ss_refs s' = ss_refs s"
      "SUS_PATH_HLIST s' = SUS_PATH_HLIST s" "SUS_KSTAT_HLIST s' = SUS_KSTAT_HLIST s"
      "OPEN_REDIRECT_HLIST s' = OPEN_REDIRECT_HLIST s"
  using assms
  by (auto simp: susfs_update_sus_path_inode_def Let_def susfs_frame set_inode_state_bit
      simp del: push_bit_of_1 split: sum.splits option.splits if_splits)

lemma set_flag_word:
  fixes w :: u64
  assumes "w AND push_bit n 1 \<noteq> 0"
  shows "w OR push_bit n 1 = w"
proof -
  have b: "bit w n" using assms bit_word_and_push_bit [of w n] by blast
  show ?thesis
    by (rule bit_word_eqI) (use b in \<open>auto simp: bit_simps\<close>)
qed

lemma kstat_flag_bit: "bit ((w :: u64) OR INODE_STATE_SUS_KSTAT) 26"
  by (simp add: bit_simps)

lemma kstat_flagged:
  "path_put (set_inode_state i (push_bit n 1) (path_get s)) =
     s\<lparr>ss_i_state := (ss_i_state s)(i := ss_i_state s i OR push_bit n 1)\<rparr>"
  by (auto simp: set_inode_state_def path_put_def path_get_def set_flag_word simp del: push_bit_of_1)

lemma sus_kstat_inode_cases:
  assumes "susfs_update_sus_kstat_inode e n s = (r, s')"
  obtains (failed) "r = 1" "ss_refs s' = ss_refs s" "ss_i_state s' = ss_i_state s"
      "SUS_PATH_HLIST s' = SUS_PATH_HLIST s" "SUS_KSTAT_HLIST s' = SUS_KSTAT_HLIST s"
      "OPEN_REDIRECT_HLIST s' = OPEN_REDIRECT_HLIST s"
  | (flagged) p i where "r = 0" "se_kern_path e n = Inr p" "kp_inode p = Some i"
      "kp_fstype p \<noteq> ''tmpfs''" "bit (ss_i_state s' i) 26" "ss_refs s' = ss_refs s"
      "s' = s\<lparr>ss_i_state := (ss_i_state s)(i := ss_i_state s i OR INODE_STATE_SUS_KSTAT)\<rparr>"
      "SUS_PATH_HLIST s' = SUS_PATH_HLIST s" "SUS_KSTAT_HLIST s' = SUS_KSTAT_HLIST s"
      "OPEN_REDIRECT_HLIST s' = OPEN_REDIRECT_HLIST s"
  using assms
  by (auto simp: susfs_update_sus_kstat_inode_def Let_def susfs_frame set_inode_state_bit kstat_flagged kstat_flag_bit
      simp del: push_bit_of_1 split: sum.splits option.splits if_splits)

lemma open_redirect_inode_frame:
  assumes "susfs_update_open_redirect_inode e n s = (r, s')"
  shows "ss_refs s' = ss_refs s" "SUS_PATH_HLIST s' = SUS_PATH_HLIST s"
    "SUS_KSTAT_HLIST s' = SUS_KSTAT_HLIST s" "OPEN_REDIRECT_HLIST s' = OPEN_REDIRECT_HLIST s"
  using assms
  by (auto simp: susfs_update_open_redirect_inode_def Let_def susfs_frame
      split: sum.splits option.splits)

subsection \<open>Registrations as table updates\<close>

lemma named_eq:
  "(\<lambda>t. strcmp_eq (sp_target_pathname t) n) = (\<lambda>t. sp_name t = cstr n)"
  "(\<lambda>t. strcmp_eq (sk_target_pathname (kh_info t)) n) = (\<lambda>t. kh_name t = cstr n)"
  "(\<lambda>t. strcmp_eq (or_target_pathname t) n) = (\<lambda>t. or_name t = cstr n)"
  by (simp_all add: strcmp_eq_def sp_name_def kh_name_def or_name_def)

lemma add_sus_path_ok:
  assumes "susfs_add_sus_path e (Some info) s = (0, s')"
  obtains p i t where "se_kern_path e (sp_target_pathname t) = Inr p" "kp_inode p = Some i"
    "kp_fstype p \<noteq> ''tmpfs''" "kp_fstype p \<noteq> ''fuse''" "bit (ss_i_state s' i) 24"
    "sp_target_ino t = sp_target_ino info"
    "sp_target_pathname t = c_strncpy (fst (se_junk e)) (sp_target_pathname info) 255"
    "SUS_PATH_HLIST s' = hash_add (se_hash e) (sp_target_ino t) t
       (hash_del_first (\<lambda>x. sp_name x = cstr (sp_target_pathname info)) (SUS_PATH_HLIST s))"
    "SUS_KSTAT_HLIST s' = SUS_KSTAT_HLIST s" "OPEN_REDIRECT_HLIST s' = OPEN_REDIRECT_HLIST s"
proof -
  let ?t = "\<lparr>sp_target_ino = sp_target_ino info,
    sp_target_pathname = c_strncpy (fst (se_junk e)) (sp_target_pathname info) 255\<rparr>"
  let ?s = "s\<lparr>SUS_PATH_HLIST :=
    hash_del_first (\<lambda>x. sp_name x = cstr (sp_target_pathname info)) (SUS_PATH_HLIST s)\<rparr>"
  obtain r s2 where u: "susfs_update_sus_path_inode e (sp_target_pathname ?t) ?s = (r, s2)"
    by fastforce
  have s': "r = 0" "s' = s2\<lparr>SUS_PATH_HLIST :=
      hash_add (se_hash e) (sp_target_ino info) ?t (SUS_PATH_HLIST s2)\<rparr>"
    using assms u by (auto simp: susfs_add_sus_path_def Let_def named_eq split: if_splits)
  from u show ?thesis
  proof (cases rule: sus_path_inode_cases)
    case failed
    with s' show ?thesis by simp
  next
    case (flagged p i)
    with s' show ?thesis by (intro that [of ?t p i]) auto
  qed
qed

lemma add_sus_path_failed:
  assumes "susfs_add_sus_path e (Some info) s = (r, s')" and "r \<noteq> 0"
  shows "SUS_PATH_HLIST s' =
    hash_del_first (\<lambda>x. sp_name x = cstr (sp_target_pathname info)) (SUS_PATH_HLIST s)"
  using assms
  by (auto simp: susfs_add_sus_path_def Let_def named_eq split: if_splits prod.splits
      elim!: sus_path_inode_cases)

lemma add_sus_kstat_ok:
  assumes "susfs_add_sus_kstat e (Some info) s = (0, s')"
  obtains p i t where "se_kern_path e (sk_target_pathname info) = Inr p" "kp_inode p = Some i"
    "s' = s\<lparr>SUS_KSTAT_HLIST := SUS_KSTAT_HLIST s',
      ss_i_state := (ss_i_state s)(i := ss_i_state s i OR INODE_STATE_SUS_KSTAT)\<rparr>"
    "kh_target_ino t = sk_target_ino info"
    "kh_info t = info\<lparr>spoofed_dev := se_decode_dev e (spoofed_dev info)\<rparr>"
    "kh_name t = cstr (sk_target_pathname info)"
    "SUS_KSTAT_HLIST s' = hash_add (se_hash e) (kh_target_ino t) t
       (hash_del_first (\<lambda>x. kh_name x = kh_name t) (SUS_KSTAT_HLIST s))"
    "SUS_PATH_HLIST s' = SUS_PATH_HLIST s" "OPEN_REDIRECT_HLIST s' = OPEN_REDIRECT_HLIST s"
proof -
  let ?i = "info\<lparr>spoofed_dev := se_decode_dev e (spoofed_dev info)\<rparr>"
  let ?t = "\<lparr>kh_target_ino = sk_target_ino info, kh_info = ?i\<rparr>"
  let ?s = "s\<lparr>SUS_KSTAT_HLIST :=
    hash_del_first (\<lambda>x. kh_name x = cstr (sk_target_pathname info)) (SUS_KSTAT_HLIST s)\<rparr>"
  obtain r s2 where u: "susfs_update_sus_kstat_inode e (sk_target_pathname info) ?s = (r, s2)"
    by fastforce
  have s': "r = 0" "s' = s2\<lparr>SUS_KSTAT_HLIST :=
      hash_add (se_hash e) (sk_target_ino info) ?t (SUS_KSTAT_HLIST s2)\<rparr>"
    using assms u by (auto simp: susfs_add_sus_kstat_def Let_def named_eq split: if_splits)
  from u show ?thesis
  proof (cases rule: sus_kstat_inode_cases)
    case failed
    with s' show ?thesis by simp
  next
    case (flagged p i)
    with s' show ?thesis
      by (intro that [of p i ?t]) (auto simp: kh_name_def simp del: push_bit_of_1)
  qed
qed

lemma add_open_redirect_ok:
  assumes "susfs_add_open_redirect e (Some info) s = (0, s')"
  obtains t where "or_target_ino t = or_target_ino info"
    "or_target_pathname t = c_strncpy (fst (se_junk e)) (or_target_pathname info) 255"
    "or_redirected_pathname t = c_strncpy (snd (se_junk e)) (or_redirected_pathname info) 255"
    "OPEN_REDIRECT_HLIST s' = hash_add (se_hash e) (or_target_ino t) t
       (hash_del_first (\<lambda>x. or_name x = cstr (or_target_pathname info)) (OPEN_REDIRECT_HLIST s))"
    "SUS_PATH_HLIST s' = SUS_PATH_HLIST s" "SUS_KSTAT_HLIST s' = SUS_KSTAT_HLIST s"
proof -
  let ?t = "\<lparr>or_target_ino = or_target_ino info,
    or_target_pathname = c_strncpy (fst (se_junk e)) (or_target_pathname info) 255,
    or_redirected_pathname = c_strncpy (snd (se_junk e)) (or_redirected_pathname info) 255\<rparr>"
  let ?s = "s\<lparr>OPEN_REDIRECT_HLIST :=
    hash_del_first (\<lambda>x. or_name x = cstr (or_target_pathname info)) (OPEN_REDIRECT_HLIST s)\<rparr>"
  obtain r s2 where u: "susfs_update_open_redirect_inode e ?t ?s = (r, s2)" by fastforce
  have s': "s' = s2\<lparr>OPEN_REDIRECT_HLIST :=
      hash_add (se_hash e) (or_target_ino info) ?t (OPEN_REDIRECT_HLIST s2)\<rparr>"
    using assms u by (auto simp: susfs_add_open_redirect_def Let_def named_eq split: if_splits)
  show ?thesis
    using open_redirect_inode_frame [OF u] s' by (intro that [of ?t]) auto
qed

subsection \<open>An environment for the witnesses\<close>

definition ex_kpath :: kpath where
  "ex_kpath = \<lparr>kp_fstype = ''erofs'', kp_mnt_group_id = 0, kp_inode = Some 5, kp_is_root = True,
     kp_mnt_devname_ksu = False\<rparr>"

definition ex_susfs_env :: susfs_env where
  "ex_susfs_env = \<lparr>se_hash = \<lambda>k. 0, se_kern_path = \<lambda>n. Inr ex_kpath, se_alloc = True,
     se_junk = (replicate 256 CHR ''x'', replicate 256 CHR ''y''), se_decode_dev = id,
     se_has_magic_mount = True\<rparr>"

definition ex_bad_env :: susfs_env where
  "ex_bad_env = ex_susfs_env\<lparr>se_kern_path := \<lambda>n. Inl (- ENOENT)\<rparr>"

definition ex_path :: cbuf where
  "ex_path = c_strcpy (replicate 256 NUL) ''/system/bin/su''"

definition ex_sus_path :: st_susfs_sus_path where
  "ex_sus_path = \<lparr>sp_target_ino = 77, sp_target_pathname = ex_path\<rparr>"

lemma ex_path_cstr [simp]: "cstr ex_path = ''/system/bin/su''"
  by (simp add: ex_path_def c_strcpy_def)

lemma ex_path_short [simp]: "short ex_path"
  by (simp add: short_def)

lemma ex_env_hash [simp]: "se_hash ex_susfs_env = (\<lambda>k. 0)" "se_hash ex_bad_env = (\<lambda>k. 0)"
  by (simp_all add: ex_susfs_env_def ex_bad_env_def)

lemma ex_static_inv [simp]: "registry_inv (\<lambda>k. 0) susfs_static"
  by (rule registry_inv_static) (simp add: HASH_SIZE_def)

definition ex_hidden :: susfs_state where
  "ex_hidden = snd (susfs_add_sus_path ex_susfs_env (Some ex_sus_path) susfs_static)"

lemma ex_hidden_eq: "susfs_add_sus_path ex_susfs_env (Some ex_sus_path) susfs_static = (0, ex_hidden)"
  by (simp add: ex_hidden_def susfs_add_sus_path_def susfs_update_sus_path_inode_def Let_def
      ex_susfs_env_def ex_kpath_def)

lemma ex_hidden_inv: "registry_inv (\<lambda>k. 0) ex_hidden"
proof -
  obtain p i t where t: "se_kern_path ex_susfs_env (sp_target_pathname t) = Inr p"
    "sp_target_ino t = sp_target_ino ex_sus_path"
    "sp_target_pathname t = c_strncpy (fst (se_junk ex_susfs_env)) (sp_target_pathname ex_sus_path) 255"
    "SUS_PATH_HLIST ex_hidden = hash_add (se_hash ex_susfs_env) (sp_target_ino t) t
       (hash_del_first (\<lambda>x. sp_name x = cstr (sp_target_pathname ex_sus_path)) (SUS_PATH_HLIST susfs_static))"
    "SUS_KSTAT_HLIST ex_hidden = SUS_KSTAT_HLIST susfs_static"
    "OPEN_REDIRECT_HLIST ex_hidden = OPEN_REDIRECT_HLIST susfs_static"
    by (rule add_sus_path_ok [OF ex_hidden_eq])
  have "cstr (sp_target_pathname ex_sus_path) = sp_name t"
    by (simp add: sp_name_def t(3)) (simp add: ex_sus_path_def)
  then show ?thesis
    using ex_static_inv t sus_paths.register_inv [of "\<lambda>k. 0" "SUS_PATH_HLIST susfs_static" t]
    by (simp add: registry_inv_def)
qed

lemma ex_hidden_entries:
  obtains t where "sp_target_ino t = 77" "cstr (sp_target_pathname t) = cstr ex_path"
    "hash_entries (SUS_PATH_HLIST ex_hidden) = {t}"
proof -
  obtain p i t where t: "se_kern_path ex_susfs_env (sp_target_pathname t) = Inr p"
    "sp_target_ino t = sp_target_ino ex_sus_path"
    "sp_target_pathname t = c_strncpy (fst (se_junk ex_susfs_env)) (sp_target_pathname ex_sus_path) 255"
    "SUS_PATH_HLIST ex_hidden = hash_add (se_hash ex_susfs_env) (sp_target_ino t) t
       (hash_del_first (\<lambda>x. sp_name x = cstr (sp_target_pathname ex_sus_path)) (SUS_PATH_HLIST susfs_static))"
    by (rule add_sus_path_ok [OF ex_hidden_eq])
  have n: "cstr (sp_target_pathname ex_sus_path) = sp_name t"
    by (simp add: sp_name_def t(3)) (simp add: ex_sus_path_def)
  have inv: "hash_inv (\<lambda>k. 0) sp_name sp_target_ino (SUS_PATH_HLIST susfs_static)"
    using ex_static_inv by (simp add: registry_inv_def)
  have "hash_entries (SUS_PATH_HLIST ex_hidden) = {t}"
    using sus_paths.register_entries [OF inv, of t] t(4) n by (simp add: susfs_static_def)
  then show ?thesis
    using that [of t] t(2) n by (simp add: ex_sus_path_def sp_name_def)
qed

subsection \<open>Properties\<close>

text \<open>C23. Registering a hidden path hides it: after \<open>susfs_add_sus_path\<close> returns 0 the inode
  number is filtered from directory listings, the inode of the path carries its flag, the path
  is not on tmpfs or fuse, and the answer for every other inode number comes from the entries
  registered under other pathnames: the path's earlier entry is replaced, not duplicated.\<close>

theorem sus_path_hidden:
  assumes "registry_inv (se_hash e) s" and "short (sp_target_pathname info)"
    and "susfs_add_sus_path e (Some info) s = (0, s')"
  shows "registry_inv (se_hash e) s' \<and>
    susfs_sus_ino_for_filldir64 (se_hash e) s' (sp_target_ino info) = 1 \<and>
    (\<forall>ino. ino \<noteq> sp_target_ino info \<longrightarrow>
      (susfs_sus_ino_for_filldir64 (se_hash e) s' ino = 1 \<longleftrightarrow>
        (\<exists>t \<in> hash_entries (SUS_PATH_HLIST s). sp_target_ino t = ino \<and>
          cstr (sp_target_pathname t) \<noteq> cstr (sp_target_pathname info)))) \<and>
    (\<exists>n p i. cstr n = cstr (sp_target_pathname info) \<and> se_kern_path e n = Inr p \<and>
      kp_inode p = Some i \<and> kp_fstype p \<notin> {''tmpfs'', ''fuse''} \<and> bit (ss_i_state s' i) 24)"
proof -
  obtain p i t where t: "se_kern_path e (sp_target_pathname t) = Inr p" "kp_inode p = Some i"
    "kp_fstype p \<noteq> ''tmpfs''" "kp_fstype p \<noteq> ''fuse''" "bit (ss_i_state s' i) 24"
    "sp_target_ino t = sp_target_ino info"
    "sp_target_pathname t = c_strncpy (fst (se_junk e)) (sp_target_pathname info) 255"
    "SUS_PATH_HLIST s' = hash_add (se_hash e) (sp_target_ino t) t
       (hash_del_first (\<lambda>x. sp_name x = cstr (sp_target_pathname info)) (SUS_PATH_HLIST s))"
    "SUS_KSTAT_HLIST s' = SUS_KSTAT_HLIST s" "OPEN_REDIRECT_HLIST s' = OPEN_REDIRECT_HLIST s"
    by (rule add_sus_path_ok [OF assms(3)])
  have n: "cstr (sp_target_pathname info) = sp_name t" "cstr (sp_target_pathname t) = sp_name t"
    using assms(2) by (simp_all add: sp_name_def t(7))
  have inv: "hash_inv (se_hash e) sp_name sp_target_ino (SUS_PATH_HLIST s)"
    using assms(1) by (simp add: registry_inv_def)
  note tab = t(8) [unfolded n]
  have "registry_inv (se_hash e) s'"
    using assms(1) sus_paths.register_inv [OF inv] by (simp add: registry_inv_def tab t(9,10))
  moreover have "susfs_sus_ino_for_filldir64 (se_hash e) s' (sp_target_ino info) = 1"
    using sus_paths.register_lookup [OF inv, of t]
    by (simp add: susfs_sus_ino_for_filldir64_def tab t(6))
  moreover have "susfs_sus_ino_for_filldir64 (se_hash e) s' ino = 1 \<longleftrightarrow>
      (\<exists>x \<in> hash_entries (SUS_PATH_HLIST s). sp_target_ino x = ino \<and> sp_name x \<noteq> sp_name t)"
    if "ino \<noteq> sp_target_ino info" for ino
    using sus_paths.register_lookup_None [OF inv, of ino t] that
    by (auto simp: susfs_sus_ino_for_filldir64_def tab t(6) split: option.splits)
  moreover have "\<exists>n p i. cstr n = sp_name t \<and> se_kern_path e n = Inr p \<and>
      kp_inode p = Some i \<and> kp_fstype p \<notin> {''tmpfs'', ''fuse''} \<and> bit (ss_i_state s' i) 24"
    by (rule exI [of _ "sp_target_pathname t"], rule exI [of _ p], rule exI [of _ i])
      (use t(1-5) n(2) in simp)
  ultimately show ?thesis
    unfolding n(1) sp_name_def by blast
qed

theorem sus_path_hidden_witness:
  "susfs_sus_ino_for_filldir64 (\<lambda>k. 0) ex_hidden 77 = 1 \<and>
   susfs_sus_ino_for_filldir64 (\<lambda>k. 0) ex_hidden 78 \<noteq> 1"
proof -
  have sh: "short (sp_target_pathname ex_sus_path)" by (simp add: ex_sus_path_def)
  have no: "hash_entries (SUS_PATH_HLIST susfs_static) = {}" by (simp add: susfs_static_def)
  show ?thesis
    using sus_path_hidden [OF _ sh ex_hidden_eq] no by (simp add: ex_sus_path_def)
qed

text \<open>A failed re-registration unhides: \<open>susfs_add_sus_path\<close> deletes the path's entry before
  it looks the path up or has memory for the new one, so when it then returns an error the
  path that was hidden is listed again.\<close>

theorem sus_path_failed_readd_unhides:
  assumes "registry_inv (se_hash e) s" and "t \<in> hash_entries (SUS_PATH_HLIST s)"
    and "cstr (sp_target_pathname t) = cstr (sp_target_pathname info)"
    and "\<forall>x \<in> hash_entries (SUS_PATH_HLIST s). sp_target_ino x = sp_target_ino t \<longrightarrow> x = t"
    and "susfs_add_sus_path e (Some info) s = (r, s')" and "r \<noteq> 0"
  shows "susfs_sus_ino_for_filldir64 (se_hash e) s (sp_target_ino t) = 1 \<and>
    susfs_sus_ino_for_filldir64 (se_hash e) s' (sp_target_ino t) = 0"
proof -
  have inv: "hash_inv (se_hash e) sp_name sp_target_ino (SUS_PATH_HLIST s)"
    using assms(1) by (simp add: registry_inv_def)
  have n: "sp_name t = cstr (sp_target_pathname info)" using assms(3) by (simp add: sp_name_def)
  have "hash_lookup (se_hash e) sp_target_ino (sp_target_ino t) (SUS_PATH_HLIST s') = None"
    unfolding add_sus_path_failed [OF assms(5,6)] sus_paths.lookup_remove_None [OF inv]
    using assms(4) n by blast
  then show ?thesis
    using sus_paths.lookup_unique [OF inv assms(2)] assms(4)
    by (simp add: susfs_sus_ino_for_filldir64_def)
qed

theorem sus_path_failed_readd_unhides_witness:
  "susfs_sus_ino_for_filldir64 (\<lambda>k. 0) ex_hidden 77 = 1 \<and>
   susfs_sus_ino_for_filldir64 (\<lambda>k. 0)
     (snd (susfs_add_sus_path ex_bad_env (Some ex_sus_path) ex_hidden)) 77 = 0"
proof -
  obtain t where t: "sp_target_ino t = 77" "cstr (sp_target_pathname t) = cstr ex_path"
    "hash_entries (SUS_PATH_HLIST ex_hidden) = {t}"
    by (rule ex_hidden_entries)
  have inv: "registry_inv (se_hash ex_bad_env) ex_hidden"
    using ex_hidden_inv by simp
  obtain r s' where r: "susfs_add_sus_path ex_bad_env (Some ex_sus_path) ex_hidden = (r, s')" by fastforce
  have "r = 1"
    using r by (simp add: susfs_add_sus_path_def susfs_update_sus_path_inode_def Let_def
        ex_bad_env_def ex_susfs_env_def)
  with sus_path_failed_readd_unhides [OF inv _ _ _ r, of t] t r show ?thesis
    by (simp add: ex_sus_path_def)
qed

text \<open>C28. Spoofed \<open>kstat\<close>: after a registration every field of a \<open>stat\<close> on the inode number comes
  from the registered struct, with its device number decoded, \<open>/proc/pid/maps\<close> shows the same
  device and inode, and fields the struct does not name keep their value. Nothing else changes: the
  entry takes the place of the one its pathname had and every other one stays; every other inode
  number, spoofed or not, answers both as before, but for the one the pathname had before, which
  is no longer spoofed unless another pathname holds it; and outside the table only the flag of the
  pathname's inode is set.\<close>

theorem kstat_spoofed:
  assumes "registry_inv (se_hash e) s" and "susfs_add_sus_kstat e (Some info) s = (0, s')"
  defines "name \<equiv> cstr (sk_target_pathname info)"
  shows "registry_inv (se_hash e) s' \<and>
    (let st' = susfs_sus_ino_for_generic_fillattr (se_hash e) s' (sk_target_ino info) st
     in ks_dev st' = ucast (se_decode_dev e (spoofed_dev info)) \<and> ks_ino st' = spoofed_ino info \<and>
        ks_nlink st' = spoofed_nlink info \<and> ks_size st' = spoofed_size info \<and>
        ks_atime st' = \<lparr>tv_sec = spoofed_atime_tv_sec info, tv_nsec = spoofed_atime_tv_nsec info\<rparr> \<and>
        ks_mtime st' = \<lparr>tv_sec = spoofed_mtime_tv_sec info, tv_nsec = spoofed_mtime_tv_nsec info\<rparr> \<and>
        ks_ctime st' = \<lparr>tv_sec = spoofed_ctime_tv_sec info, tv_nsec = spoofed_ctime_tv_nsec info\<rparr> \<and>
        ks_blocks st' = spoofed_blocks info \<and> ks_blksize st' = ucast (spoofed_blksize info) \<and>
        ks_mode st' = ks_mode st \<and>
        susfs_sus_ino_for_show_map_vma (se_hash e) s' (sk_target_ino info) out =
          (ks_dev st', ks_ino st')) \<and>
    (\<exists>t. kh_target_ino t = sk_target_ino info \<and> kh_name t = name \<and>
      hash_entries (SUS_KSTAT_HLIST s') = insert t {x \<in> hash_entries (SUS_KSTAT_HLIST s). kh_name x \<noteq> name}) \<and>
    (\<forall>ino st out. ino \<noteq> sk_target_ino info \<longrightarrow>
      ((\<forall>t \<in> hash_entries (SUS_KSTAT_HLIST s). kh_name t = name \<longrightarrow> kh_target_ino t \<noteq> ino) \<longrightarrow>
        susfs_sus_ino_for_generic_fillattr (se_hash e) s' ino st = susfs_sus_ino_for_generic_fillattr (se_hash e) s ino st \<and>
        susfs_sus_ino_for_show_map_vma (se_hash e) s' ino out = susfs_sus_ino_for_show_map_vma (se_hash e) s ino out) \<and>
      ((\<forall>t \<in> hash_entries (SUS_KSTAT_HLIST s). kh_target_ino t = ino \<longrightarrow> kh_name t = name) \<longrightarrow>
        susfs_sus_ino_for_generic_fillattr (se_hash e) s' ino st = st \<and>
        susfs_sus_ino_for_show_map_vma (se_hash e) s' ino out = out)) \<and>
    (\<exists>p i. se_kern_path e (sk_target_pathname info) = Inr p \<and> kp_inode p = Some i \<and>
      s' = s\<lparr>SUS_KSTAT_HLIST := SUS_KSTAT_HLIST s',
        ss_i_state := (ss_i_state s)(i := ss_i_state s i OR INODE_STATE_SUS_KSTAT)\<rparr>)"
proof -
  obtain p i t where pi: "se_kern_path e (sk_target_pathname info) = Inr p" "kp_inode p = Some i"
    "s' = s\<lparr>SUS_KSTAT_HLIST := SUS_KSTAT_HLIST s',
      ss_i_state := (ss_i_state s)(i := ss_i_state s i OR INODE_STATE_SUS_KSTAT)\<rparr>"
    and t: "kh_target_ino t = sk_target_ino info"
    "kh_info t = info\<lparr>spoofed_dev := se_decode_dev e (spoofed_dev info)\<rparr>"
    "kh_name t = name"
    "SUS_KSTAT_HLIST s' = hash_add (se_hash e) (kh_target_ino t) t
       (hash_del_first (\<lambda>x. kh_name x = kh_name t) (SUS_KSTAT_HLIST s))"
    "SUS_PATH_HLIST s' = SUS_PATH_HLIST s" "OPEN_REDIRECT_HLIST s' = OPEN_REDIRECT_HLIST s"
    unfolding name_def by (rule add_sus_kstat_ok [OF assms(2)])
  have inv: "hash_inv (se_hash e) kh_name kh_target_ino (SUS_KSTAT_HLIST s)"
    using assms(1) by (simp add: registry_inv_def)
  have l: "hash_lookup (se_hash e) kh_target_ino (sk_target_ino info) (SUS_KSTAT_HLIST s') = Some t"
    using sus_kstats.register_lookup [OF inv, of t] by (simp only: t(4) t(1) [symmetric])
  have none: "hash_lookup (se_hash e) kh_target_ino ino (SUS_KSTAT_HLIST s') = None"
    if "\<forall>x \<in> hash_entries (SUS_KSTAT_HLIST s). kh_target_ino x = ino \<longrightarrow> kh_name x = name" "ino \<noteq> sk_target_ino info" for ino
    unfolding t(4) sus_kstats.register_lookup_None [OF inv] using that t(1,3) by blast
  have other: "hash_lookup (se_hash e) kh_target_ino ino (SUS_KSTAT_HLIST s') =
      hash_lookup (se_hash e) kh_target_ino ino (SUS_KSTAT_HLIST s)"
    if "\<forall>x \<in> hash_entries (SUS_KSTAT_HLIST s). kh_name x = name \<longrightarrow> kh_target_ino x \<noteq> ino" "ino \<noteq> sk_target_ino info" for ino
    unfolding t(4) using that t(1,3) by (intro sus_kstats.register_lookup_other [OF inv]) simp_all
  have "registry_inv (se_hash e) s'"
    using assms(1) sus_kstats.register_inv [OF inv] by (simp add: registry_inv_def t(4-6))
  moreover have "hash_entries (SUS_KSTAT_HLIST s') = insert t {x \<in> hash_entries (SUS_KSTAT_HLIST s). kh_name x \<noteq> name}"
    unfolding t(4) using sus_kstats.register_entries [OF inv, of t] t(3) by simp
  ultimately show ?thesis
    using l none other t(1,3) pi
    by (simp add: susfs_sus_ino_for_generic_fillattr_def susfs_sus_ino_for_show_map_vma_def Let_def t(2)
        del: push_bit_of_1) blast
qed

definition ex_kstat_info :: "cbuf \<Rightarrow> u64 \<Rightarrow> u64 \<Rightarrow> st_susfs_sus_kstat" where
  "ex_kstat_info n ino sz = \<lparr>sk_is_statically = 0, sk_target_ino = ino, sk_target_pathname = n,
     spoofed_ino = 11, spoofed_dev = 12, spoofed_nlink = 13, spoofed_size = sz,
     spoofed_atime_tv_sec = 1, spoofed_mtime_tv_sec = 2, spoofed_ctime_tv_sec = 3,
     spoofed_atime_tv_nsec = 4, spoofed_mtime_tv_nsec = 5, spoofed_ctime_tv_nsec = 6,
     spoofed_blksize = 4096, spoofed_blocks = 8\<rparr>"

definition ex_kstat :: kstat where
  "ex_kstat = \<lparr>ks_dev = 0, ks_ino = 88, ks_nlink = 1, ks_size = 5,
     ks_atime = \<lparr>tv_sec = 0, tv_nsec = 0\<rparr>, ks_mtime = \<lparr>tv_sec = 0, tv_nsec = 0\<rparr>,
     ks_ctime = \<lparr>tv_sec = 0, tv_nsec = 0\<rparr>, ks_blocks = 1, ks_blksize = 512, ks_mode = 33188\<rparr>"

definition ex_spoofed :: susfs_state where
  "ex_spoofed = snd (susfs_add_sus_kstat ex_susfs_env (Some (ex_kstat_info ex_path 88 100)) susfs_static)"

lemma ex_spoofed_eq:
  "susfs_add_sus_kstat ex_susfs_env (Some (ex_kstat_info ex_path 88 100)) susfs_static = (0, ex_spoofed)"
  by (simp add: ex_spoofed_def susfs_add_sus_kstat_def susfs_update_sus_kstat_inode_def Let_def
      ex_susfs_env_def ex_kpath_def ex_kstat_info_def c_strlen_def)

theorem kstat_spoofed_witness:
  "ks_ino (susfs_sus_ino_for_generic_fillattr (\<lambda>k. 0) ex_spoofed 88 ex_kstat) = 11 \<and>
   ks_size (susfs_sus_ino_for_generic_fillattr (\<lambda>k. 0) ex_spoofed 88 ex_kstat) = 100 \<and>
   ks_mode (susfs_sus_ino_for_generic_fillattr (\<lambda>k. 0) ex_spoofed 88 ex_kstat) = 33188"
  using kstat_spoofed [OF _ ex_spoofed_eq, of ex_kstat "(0, 0)"]
  by (simp add: ex_kstat_info_def Let_def) (simp add: ex_kstat_def)

lemma update_sus_kstat_ok:
  assumes inv: "hash_inv (se_hash e) kh_name kh_target_ino (SUS_KSTAT_HLIST s)"
    and t: "t \<in> hash_entries (SUS_KSTAT_HLIST s)" "kh_name t = cstr (sk_target_pathname info)"
    and u: "susfs_update_sus_kstat e (Some info) s = (0, s')"
  obtains n where "kh_target_ino n = sk_target_ino info" "kh_name n = kh_name t"
    "spoofed_ino (kh_info n) = spoofed_ino (kh_info t)" "spoofed_dev (kh_info n) = spoofed_dev (kh_info t)"
    "spoofed_size (kh_info n) =
      (if sint (spoofed_size info) > 0 then spoofed_size info else spoofed_size (kh_info t))"
    "spoofed_blocks (kh_info n) =
      (if spoofed_blocks info > 0 then spoofed_blocks info else spoofed_blocks (kh_info t))"
    "SUS_KSTAT_HLIST s' = hash_add (se_hash e) (kh_target_ino n) n
       (hash_del_first (\<lambda>x. kh_name x = kh_name n) (SUS_KSTAT_HLIST s))"
    "SUS_PATH_HLIST s' = SUS_PATH_HLIST s" "OPEN_REDIRECT_HLIST s' = OPEN_REDIRECT_HLIST s"
proof -
  have f: "hash_find (\<lambda>x. kh_name x = cstr (sk_target_pathname info)) (SUS_KSTAT_HLIST s) = Some t"
  proof (cases "hash_find (\<lambda>x. kh_name x = cstr (sk_target_pathname info)) (SUS_KSTAT_HLIST s)")
    case None
    with t show ?thesis by (auto simp: hash_find_eq find_None_iff hash_entries_def)
  next
    case (Some x)
    then have "x \<in> hash_entries (SUS_KSTAT_HLIST s)" "kh_name x = kh_name t"
      using t(2) by (auto dest: hash_find_Some)
    then have "x = t" using sus_kstats.name_inj [OF inv _ t(1)] by blast
    with Some show ?thesis by simp
  qed
  obtain r s1 where i: "susfs_update_sus_kstat_inode e (sk_target_pathname (kh_info t)) s = (r, s1)"
    by fastforce
  have r: "r = 0" "se_alloc e"
    using u f i by (auto simp: susfs_update_sus_kstat_def named_eq Let_def split: if_splits)
  from i show ?thesis
  proof (cases rule: sus_kstat_inode_cases)
    case failed
    with r show ?thesis by simp
  next
    case flagged
    let ?i0 = "(kh_info t)\<lparr>sk_target_ino := sk_target_ino info\<rparr>"
    let ?i1 = "if sint (spoofed_size info) > 0 then ?i0\<lparr>spoofed_size := spoofed_size info\<rparr> else ?i0"
    let ?i2 = "if spoofed_blocks info > 0 then ?i1\<lparr>spoofed_blocks := spoofed_blocks info\<rparr> else ?i1"
    let ?n = "\<lparr>kh_target_ino = sk_target_ino info, kh_info = ?i2\<rparr>"
    have "s' = s1\<lparr>SUS_KSTAT_HLIST := hash_add (se_hash e) (sk_target_ino info) ?n
        (hash_del_first (\<lambda>x. kh_name x = cstr (sk_target_pathname info)) (SUS_KSTAT_HLIST s1))\<rparr>"
      using u f i r by (simp add: susfs_update_sus_kstat_def named_eq Let_def)
    with flagged t(2) show ?thesis
      by (intro that [of ?n]) (simp_all add: kh_name_def)
  qed
qed

text \<open>Updating a spoofed \<open>kstat\<close> moves the entry of the pathname to the new inode number:
  the new number answers with the old spoofed values, except a size and a block count the caller
  gave as positive, and the old number is no longer spoofed.\<close>

theorem kstat_update_rekeys:
  assumes "registry_inv (se_hash e) s" and "t \<in> hash_entries (SUS_KSTAT_HLIST s)"
    and "kh_name t = cstr (sk_target_pathname info)"
    and "susfs_update_sus_kstat e (Some info) s = (0, s')"
  shows "registry_inv (se_hash e) s' \<and>
    (let st' = susfs_sus_ino_for_generic_fillattr (se_hash e) s' (sk_target_ino info) st
     in ks_ino st' = spoofed_ino (kh_info t) \<and> ks_dev st' = ucast (spoofed_dev (kh_info t)) \<and>
        ks_size st' = (if sint (spoofed_size info) > 0 then spoofed_size info
                       else spoofed_size (kh_info t)) \<and>
        ks_blocks st' = (if spoofed_blocks info > 0 then spoofed_blocks info
                         else spoofed_blocks (kh_info t))) \<and>
    (kh_target_ino t \<noteq> sk_target_ino info \<and>
       (\<forall>x \<in> hash_entries (SUS_KSTAT_HLIST s). kh_target_ino x = kh_target_ino t \<longrightarrow> x = t) \<longrightarrow>
     susfs_sus_ino_for_generic_fillattr (se_hash e) s' (kh_target_ino t) st = st)"
proof -
  have inv: "hash_inv (se_hash e) kh_name kh_target_ino (SUS_KSTAT_HLIST s)"
    using assms(1) by (simp add: registry_inv_def)
  obtain n where n: "kh_target_ino n = sk_target_ino info" "kh_name n = kh_name t"
    "spoofed_ino (kh_info n) = spoofed_ino (kh_info t)" "spoofed_dev (kh_info n) = spoofed_dev (kh_info t)"
    "spoofed_size (kh_info n) =
      (if sint (spoofed_size info) > 0 then spoofed_size info else spoofed_size (kh_info t))"
    "spoofed_blocks (kh_info n) =
      (if spoofed_blocks info > 0 then spoofed_blocks info else spoofed_blocks (kh_info t))"
    "SUS_KSTAT_HLIST s' = hash_add (se_hash e) (kh_target_ino n) n
       (hash_del_first (\<lambda>x. kh_name x = kh_name n) (SUS_KSTAT_HLIST s))"
    "SUS_PATH_HLIST s' = SUS_PATH_HLIST s" "OPEN_REDIRECT_HLIST s' = OPEN_REDIRECT_HLIST s"
    by (rule update_sus_kstat_ok [OF inv assms(2,3,4)])
  have l: "hash_lookup (se_hash e) kh_target_ino (sk_target_ino info) (SUS_KSTAT_HLIST s') = Some n"
    using sus_kstats.register_lookup [OF inv, of n] by (simp only: n(7) n(1) [symmetric])
  have old: "hash_lookup (se_hash e) kh_target_ino (kh_target_ino t) (SUS_KSTAT_HLIST s') = None"
    if "kh_target_ino t \<noteq> sk_target_ino info"
      "\<forall>x \<in> hash_entries (SUS_KSTAT_HLIST s). kh_target_ino x = kh_target_ino t \<longrightarrow> x = t"
    unfolding n(7) sus_kstats.register_lookup_None [OF inv] using that n(1,2) by metis
  have "registry_inv (se_hash e) s'"
    using assms(1) sus_kstats.register_inv [OF inv] by (simp add: registry_inv_def n(7-9))
  then show ?thesis
    using l old n(3-6) by (simp add: susfs_sus_ino_for_generic_fillattr_def Let_def)
qed

theorem kstat_update_rekeys_witness:
  "\<exists>s'. susfs_update_sus_kstat ex_susfs_env (Some (ex_kstat_info ex_path 99 200)) ex_spoofed = (0, s') \<and>
    ks_size (susfs_sus_ino_for_generic_fillattr (\<lambda>k. 0) s' 99 ex_kstat) = 200 \<and>
    ks_ino (susfs_sus_ino_for_generic_fillattr (\<lambda>k. 0) s' 99 ex_kstat) = 11"
proof -
  obtain t where t: "kh_target_ino t = 88" "kh_info t = ex_kstat_info ex_path 88 100"
    "kh_name t = cstr ex_path"
    "SUS_KSTAT_HLIST ex_spoofed = hash_add (\<lambda>k. 0) (kh_target_ino t) t
       (hash_del_first (\<lambda>x. kh_name x = kh_name t) (SUS_KSTAT_HLIST susfs_static))"
    "SUS_PATH_HLIST ex_spoofed = SUS_PATH_HLIST susfs_static"
    "OPEN_REDIRECT_HLIST ex_spoofed = OPEN_REDIRECT_HLIST susfs_static"
    by (rule add_sus_kstat_ok [OF ex_spoofed_eq]) (simp add: ex_kstat_info_def ex_susfs_env_def)
  have inv0: "hash_inv (\<lambda>k. 0) kh_name kh_target_ino (SUS_KSTAT_HLIST susfs_static)"
    using ex_static_inv by (simp add: registry_inv_def)
  have inv: "registry_inv (se_hash ex_susfs_env) ex_spoofed"
    using ex_static_inv sus_kstats.register_inv [OF inv0, of t] by (simp add: registry_inv_def t(4-6))
  have mem: "t \<in> hash_entries (SUS_KSTAT_HLIST ex_spoofed)"
    using sus_kstats.register_entries [OF inv0, of t] by (simp add: t(4))
  obtain r s' where u: "susfs_update_sus_kstat ex_susfs_env (Some (ex_kstat_info ex_path 99 200)) ex_spoofed = (r, s')"
    by fastforce
  have "r = 0"
    using u by (auto simp: susfs_update_sus_kstat_def susfs_update_sus_kstat_inode_def Let_def
        ex_susfs_env_def ex_kpath_def split: option.splits)
  with kstat_update_rekeys [OF inv mem _ u [unfolded this], of ex_kstat] t(2,3) u show ?thesis
    by (simp add: ex_kstat_info_def Let_def)
qed

end
