(* ===== verification/Susfs_Lists.thy ===== *)
theory Susfs_Lists
  imports Susfs_State
begin

text \<open>
  The parts of \<^verbatim>\<open>fs/susfs.c\<close> kept in lists and single buffers: hidden mounts, the unmount list
  with its automatic additions, the spoofed \<open>uname\<close>, the log switch and the fake command line.
\<close>

subsection \<open>\<open>sus_mount\<close>\<close>

definition legit_peer_group :: "int \<Rightarrow> bool" where
  "legit_peer_group g \<longleftrightarrow> g > 0 \<and> g < DEFAULT_SUS_MNT_GROUP_ID"

text \<open>The return for a legit peer group does not give the path back.\<close>

definition susfs_update_sus_mount_inode :: "susfs_env \<Rightarrow> cbuf \<Rightarrow> susfs_state \<Rightarrow> susfs_state" where
  "susfs_update_sus_mount_inode e target_pathname s =
     (case se_kern_path e target_pathname of
        Inl err \<Rightarrow> s
      | Inr p \<Rightarrow>
          let s1 = path_get s in
          if legit_peer_group (kp_mnt_group_id p) then s1
          else (case kp_inode p of
            None \<Rightarrow> path_put s1
          | Some i \<Rightarrow> path_put (set_inode_state i INODE_STATE_SUS_MOUNT s1)))"

definition susfs_add_sus_mount ::
  "susfs_env \<Rightarrow> st_susfs_sus_mount option \<Rightarrow> susfs_state \<Rightarrow> int \<times> susfs_state" where
  "susfs_add_sus_mount e user_info s =
     (case user_info of
        None \<Rightarrow> (1, s)
      | Some info0 \<Rightarrow>
          let info = info0\<lparr>sm_target_dev := se_decode_dev e (sm_target_dev info0)\<rparr> in
          (case update_first (\<lambda>c. strcmp_eq (sm_target_pathname c) (sm_target_pathname info)) info
                  (LH_SUS_MOUNT s) of
             Some l \<Rightarrow> (0, susfs_update_sus_mount_inode e (sm_target_pathname info)
                            (s\<lparr>LH_SUS_MOUNT := l\<rparr>))
           | None \<Rightarrow>
               if \<not> se_alloc e then (1, s)
               else let s1 = susfs_update_sus_mount_inode e (sm_target_pathname info) s
                    in (0, s1\<lparr>LH_SUS_MOUNT := LH_SUS_MOUNT s1 @ [info]\<rparr>)))"

definition susfs_auto_add_sus_bind_mount :: "kpath \<Rightarrow> susfs_state \<Rightarrow> int \<times> susfs_state" where
  "susfs_auto_add_sus_bind_mount path_target s =
     (if legit_peer_group (kp_mnt_group_id path_target) then (0, s)
      else case kp_inode path_target of
        None \<Rightarrow> (1, s)
      | Some i \<Rightarrow> (0, set_inode_state i INODE_STATE_SUS_MOUNT s))"

text \<open>\<open>strncpy_from_user\<close> on a user string is a parameter: from the buffer and the count to the
  value it returns and the buffer it leaves. \<open>buf\<close> is the fresh \<open>kmalloc\<close> buffer.\<close>

type_synonym from_user = "cbuf \<Rightarrow> nat \<Rightarrow> int \<times> cbuf"

definition default_mount_path :: "cbuf \<Rightarrow> bool" where
  "default_mount_path pathname \<longleftrightarrow>
     strncmp_eq pathname ''/data/adb/modules'' 17 \<or>
     strncmp_eq pathname ''/debug_ramdisk'' 14 \<or>
     strncmp_eq pathname ''/system'' 7 \<or>
     strncmp_eq pathname ''/system_ext'' 11 \<or>
     strncmp_eq pathname ''/vendor'' 7 \<or>
     strncmp_eq pathname ''/product'' 8 \<or>
     strncmp_eq pathname ''/odm'' 4"

definition susfs_auto_add_sus_ksu_default_mount ::
  "susfs_env \<Rightarrow> from_user \<Rightarrow> cbuf option \<Rightarrow> susfs_state \<Rightarrow> susfs_state" where
  "susfs_auto_add_sus_ksu_default_mount e strncpy_from_user buf s =
     (case buf of
        None \<Rightarrow> s
      | Some b \<Rightarrow>
          let (r, pathname) = strncpy_from_user b (SUSFS_MAX_LEN_PATHNAME - 1) in
          if r < 0 then s
          else if default_mount_path pathname then
            (case se_kern_path e pathname of
               Inl err \<Rightarrow> s
             | Inr path \<Rightarrow>
                 let s1 = path_get s in
                 (case kp_inode path of
                    None \<Rightarrow> path_put s1
                  | Some i \<Rightarrow> path_put (set_inode_state i INODE_STATE_SUS_MOUNT s1)))
          else s)"

subsection \<open>\<open>try_umount\<close>\<close>

definition susfs_add_try_umount ::
  "susfs_env \<Rightarrow> st_susfs_try_umount option \<Rightarrow> susfs_state \<Rightarrow> int \<times> susfs_state" where
  "susfs_add_try_umount e user_info s =
     (case user_info of
        None \<Rightarrow> (1, s)
      | Some info \<Rightarrow>
          if list_ex (\<lambda>c. strcmp_eq (tu_target_pathname info) (tu_target_pathname c))
               (LH_TRY_UMOUNT_PATH s) then (1, s)
          else if \<not> se_alloc e then (1, s)
          else (0, s\<lparr>LH_TRY_UMOUNT_PATH := LH_TRY_UMOUNT_PATH s @ [info]\<rparr>))"

text \<open>\<open>list_for_each_entry_reverse\<close> over the list, each entry handed to \<open>ksu_try_umount\<close>.\<close>

fun try_umount_loop ::
  "'ns mnt_env \<Rightarrow> uid_t \<Rightarrow> st_susfs_try_umount list \<Rightarrow> 'ns mnt_state \<Rightarrow> 'ns mnt_state" where
  "try_umount_loop me uid [] m = m"
| "try_umount_loop me uid (c # cs) m =
     try_umount_loop me uid cs
       (if tu_mnt_mode c = TRY_UMOUNT_DEFAULT then
          ksu_try_umount me (tu_target_pathname c) False 0 uid m
        else if tu_mnt_mode c = TRY_UMOUNT_DETACH then
          ksu_try_umount me (tu_target_pathname c) False MNT_DETACH uid m
        else m)"

definition susfs_try_umount ::
  "'ns mnt_env \<Rightarrow> susfs_state \<Rightarrow> uid_t \<Rightarrow> 'ns mnt_state \<Rightarrow> 'ns mnt_state" where
  "susfs_try_umount me s target_uid m =
     try_umount_loop me target_uid (rev (LH_TRY_UMOUNT_PATH s)) m"

text \<open>What \<open>d_path\<close> returns: NULL, an \<open>ERR_PTR\<close> or the name in the buffer. The code tests
  for NULL only; reading through an \<open>ERR_PTR\<close> is an oops, the result \<open>None\<close>, as is the NULL
  inode of the first test.\<close>

datatype dpath = DNull | DErr int | DName cbuf

fun auto_umount_blocked :: "bool \<Rightarrow> bool \<Rightarrow> cbuf \<Rightarrow> st_susfs_try_umount list \<Rightarrow> bool" where
  "auto_umount_blocked has_magic is_magic dpath [] = False"
| "auto_umount_blocked has_magic is_magic dpath (c # cs) =
     (if has_magic \<and> is_magic \<and> c_strstr (cstr dpath) (cstr (tu_target_pathname c)) then True
      else if strcmp_eq dpath (tu_target_pathname c) then True
      else auto_umount_blocked has_magic is_magic dpath cs)"

definition susfs_auto_add_try_umount_for_bind_mount ::
  "susfs_env \<Rightarrow> bool \<Rightarrow> kpath \<Rightarrow> dpath \<Rightarrow> susfs_state \<Rightarrow> susfs_state option" where
  "susfs_auto_add_try_umount_for_bind_mount e page_alloc path d s =
     (case kp_inode path of
        None \<Rightarrow> None
      | Some i \<Rightarrow>
          if ss_i_state s i AND INODE_STATE_SUS_KSTAT \<noteq> 0 then Some s
          else if \<not> page_alloc then Some s
          else (case d of
            DNull \<Rightarrow> Some s
          | DErr err \<Rightarrow>
              if se_has_magic_mount e \<or> LH_TRY_UMOUNT_PATH s \<noteq> [] then None
              else if \<not> se_alloc e then Some s else None
          | DName dp \<Rightarrow>
              let is_magic = (se_has_magic_mount e \<and> c_strstr (cstr dp) MAGIC_MOUNT_WORKDIR) in
              if auto_umount_blocked (se_has_magic_mount e) is_magic dp (LH_TRY_UMOUNT_PATH s) then Some s
              else if \<not> se_alloc e then Some s
              else let src = (if is_magic then drop (length MAGIC_MOUNT_WORKDIR) dp else dp);
                       new_list = \<lparr>tu_target_pathname = c_strncpy (fst (se_junk e)) src
                           (SUSFS_MAX_LEN_PATHNAME - 1), tu_mnt_mode = TRY_UMOUNT_DETACH\<rparr>
                   in Some (s\<lparr>LH_TRY_UMOUNT_PATH := LH_TRY_UMOUNT_PATH s @ [new_list]\<rparr>)))"

subsection \<open>\<open>spoof_uname\<close>\<close>

text \<open>\<open>uts\<close> is \<open>utsname()\<close>; \<open>locked\<close> is \<open>spin_is_locked(&susfs_uname_spin_lock)\<close>.\<close>

definition susfs_set_uname ::
  "st_susfs_uname \<Rightarrow> st_susfs_uname option \<Rightarrow> susfs_state \<Rightarrow> int \<times> susfs_state" where
  "susfs_set_uname uts user_info s =
     (case user_info of
        None \<Rightarrow> (1, s)
      | Some info \<Rightarrow>
          let release = (if strcmp_eq (un_release info) ''default'' then un_release uts
                         else un_release info);
              version = (if strcmp_eq (un_version info) ''default'' then un_version uts
                         else un_version info)
          in (0, s\<lparr>my_uname :=
                \<lparr>un_release = c_strncpy (un_release (my_uname s)) release NEW_UTS_LEN,
                 un_version = c_strncpy (un_version (my_uname s)) version NEW_UTS_LEN\<rparr>\<rparr>))"

definition susfs_spoof_uname :: "bool \<Rightarrow> susfs_state \<Rightarrow> st_susfs_uname \<Rightarrow> st_susfs_uname" where
  "susfs_spoof_uname locked s tmp =
     (if un_release (my_uname s) ! 0 = NUL \<or> locked then tmp
      else \<lparr>un_release = c_strncpy (un_release tmp) (un_release (my_uname s)) NEW_UTS_LEN,
            un_version = c_strncpy (un_version tmp) (un_version (my_uname s)) NEW_UTS_LEN\<rparr>)"

subsection \<open>\<open>set_log\<close>, \<open>spoof_cmdline_or_bootconfig\<close>\<close>

definition susfs_set_log :: "bool \<Rightarrow> susfs_state \<Rightarrow> susfs_state" where
  "susfs_set_log enabled s = s\<lparr>susfs_is_log_enabled := enabled\<rparr>"

definition susfs_set_cmdline_or_bootconfig ::
  "bool \<Rightarrow> from_user \<Rightarrow> susfs_state \<Rightarrow> int \<times> susfs_state" where
  "susfs_set_cmdline_or_bootconfig alloc strncpy_from_user s =
     (if fake_cmdline s = None \<and> \<not> alloc then (- ENOMEM, s)
      else let (res, buf) = strncpy_from_user
               (replicate SUSFS_FAKE_CMDLINE_OR_BOOTCONFIG_SIZE NUL)
               (SUSFS_FAKE_CMDLINE_OR_BOOTCONFIG_SIZE - 1);
             s1 = s\<lparr>fake_cmdline := Some buf\<rparr>
           in if res > 0 then (0, s1) else (res, s1))"

text \<open>What is written to the \<open>seq_file\<close>, with the value returned.\<close>

definition susfs_spoof_cmdline_or_bootconfig :: "susfs_state \<Rightarrow> int \<times> string" where
  "susfs_spoof_cmdline_or_bootconfig s =
     (case fake_cmdline s of Some c \<Rightarrow> (0, cstr c) | None \<Rightarrow> (1, []))"

end
