(* ===== verification/Susfs_Props.thy ===== *)
theory Susfs_Props
  imports Susfs_Registry_Props Susfs_Lists
begin

text \<open>
  The remaining properties of \<^verbatim>\<open>fs/susfs.c\<close>: open redirects, the balance of path references over
  all operations, hidden mounts, the unmount list and its order, the spoofed \<open>uname\<close> and the fake
  command line.
\<close>

subsection \<open>Open redirects\<close>

text \<open>After \<open>susfs_add_open_redirect\<close> returns 0, opening the inode number is answered with
  the redirected pathname that was given; a number held only by an earlier registration of the
  same pathname is answered with \<open>-ENOENT\<close>.\<close>

theorem open_redirected:
  assumes "registry_inv (se_hash e) s"
    and "short (or_target_pathname info)" and "short (or_redirected_pathname info)"
    and "susfs_add_open_redirect e (Some info) s = (0, s')"
  shows "registry_inv (se_hash e) s' \<and>
    susfs_get_redirected_path (se_hash e) (\<lambda>b. Inr (cstr b)) s' (or_target_ino info) =
      Inr (cstr (or_redirected_pathname info)) \<and>
    (\<forall>ino. ino \<noteq> or_target_ino info \<and> (\<forall>t \<in> hash_entries (OPEN_REDIRECT_HLIST s).
        or_target_ino t = ino \<longrightarrow> or_name t = cstr (or_target_pathname info)) \<longrightarrow>
      susfs_get_redirected_path (se_hash e) (\<lambda>b. Inr (cstr b)) s' ino = Inl (- ENOENT))"
proof -
  obtain t where t: "or_target_ino t = or_target_ino info"
    "or_target_pathname t = c_strncpy (fst (se_junk e)) (or_target_pathname info) 255"
    "or_redirected_pathname t = c_strncpy (snd (se_junk e)) (or_redirected_pathname info) 255"
    "OPEN_REDIRECT_HLIST s' = hash_add (se_hash e) (or_target_ino t) t
       (hash_del_first (\<lambda>x. or_name x = cstr (or_target_pathname info)) (OPEN_REDIRECT_HLIST s))"
    "SUS_PATH_HLIST s' = SUS_PATH_HLIST s" "SUS_KSTAT_HLIST s' = SUS_KSTAT_HLIST s"
    by (rule add_open_redirect_ok [OF assms(4)])
  have n: "cstr (or_target_pathname info) = or_name t"
    using assms(2) by (simp add: or_name_def t(2))
  note tab = t(4) [unfolded n]
  have inv: "hash_inv (se_hash e) or_name or_target_ino (OPEN_REDIRECT_HLIST s)"
    using assms(1) by (simp add: registry_inv_def)
  have "hash_lookup (se_hash e) or_target_ino (or_target_ino info) (OPEN_REDIRECT_HLIST s') = Some t"
    using redirects.register_lookup [OF inv, of t] by (simp only: tab t(1) [symmetric])
  moreover have "registry_inv (se_hash e) s'"
    using assms(1) redirects.register_inv [OF inv] by (simp add: registry_inv_def tab t(5,6))
  moreover have "hash_lookup (se_hash e) or_target_ino ino (OPEN_REDIRECT_HLIST s') = None"
    if "ino \<noteq> or_target_ino info" "\<forall>x \<in> hash_entries (OPEN_REDIRECT_HLIST s).
      or_target_ino x = ino \<longrightarrow> or_name x = or_name t" for ino
    unfolding tab redirects.register_lookup_None [OF inv] using that t(1) by blast
  ultimately show ?thesis
    using assms(3) by (simp add: susfs_get_redirected_path_def t(3) n)
qed

definition ex_redirect :: st_susfs_open_redirect where
  "ex_redirect = \<lparr>or_target_ino = 55, or_target_pathname = ex_path, or_redirected_pathname = ''/dev/null''\<rparr>"

theorem open_redirected_witness:
  "\<exists>s'. susfs_add_open_redirect ex_susfs_env (Some ex_redirect) susfs_static = (0, s') \<and>
    susfs_get_redirected_path (\<lambda>k. 0) (\<lambda>b. Inr (cstr b)) s' 55 = Inr ''/dev/null''"
proof -
  obtain r s' where u: "susfs_add_open_redirect ex_susfs_env (Some ex_redirect) susfs_static = (r, s')"
    by fastforce
  have "r = 0"
    using u by (auto simp: susfs_add_open_redirect_def susfs_update_open_redirect_inode_def Let_def
        ex_susfs_env_def ex_kpath_def)
  with open_redirected [OF _ _ _ u [unfolded this]] u show ?thesis
    by (simp add: ex_redirect_def short_def)
qed

subsection \<open>Path references\<close>

lemma sus_mount_inode_refs:
  "ss_refs (susfs_update_sus_mount_inode e n s) = ss_refs s +
     (case se_kern_path e n of Inl _ \<Rightarrow> 0 | Inr p \<Rightarrow> if legit_peer_group (kp_mnt_group_id p) then 1 else 0)"
  "LH_SUS_MOUNT (susfs_update_sus_mount_inode e n s) = LH_SUS_MOUNT s"
  by (auto simp: susfs_update_sus_mount_inode_def Let_def susfs_frame split: sum.splits option.splits)

lemma registry_refs:
  "ss_refs (snd (susfs_add_sus_path e u s)) = ss_refs s"
  "ss_refs (snd (susfs_add_sus_kstat e k s)) = ss_refs s"
  "ss_refs (snd (susfs_update_sus_kstat e k s)) = ss_refs s"
  "ss_refs (snd (susfs_add_open_redirect e r s)) = ss_refs s"
  by (auto simp: susfs_add_sus_path_def susfs_add_sus_kstat_def susfs_update_sus_kstat_def
      susfs_add_open_redirect_def susfs_update_sus_path_inode_def susfs_update_sus_kstat_inode_def
      susfs_update_open_redirect_inode_def Let_def susfs_frame
      split: option.splits sum.splits prod.splits if_splits)

text \<open>C38. Path references: every SUSFS operation gives back the path it looks up, on every branch,
  except \<open>susfs_add_sus_mount\<close>, which keeps one exactly when it reaches the lookup, the lookup
  succeeds and the mount has a legit peer group.\<close>

theorem path_references_balanced:
  "ss_refs (snd (susfs_add_sus_path e u s)) = ss_refs s \<and>
   ss_refs (snd (susfs_add_sus_kstat e k s)) = ss_refs s \<and>
   ss_refs (snd (susfs_update_sus_kstat e k s)) = ss_refs s \<and>
   ss_refs (snd (susfs_add_open_redirect e r s)) = ss_refs s \<and>
   ss_refs (susfs_auto_add_sus_ksu_default_mount e f b s) = ss_refs s \<and>
   ss_refs (snd (susfs_auto_add_sus_bind_mount p s)) = ss_refs s \<and>
   ss_refs (snd (susfs_add_sus_mount e (Some m) s)) = ss_refs s +
     (case se_kern_path e (sm_target_pathname m) of
        Inl _ \<Rightarrow> 0
      | Inr q \<Rightarrow> if legit_peer_group (kp_mnt_group_id q) \<and> fst (susfs_add_sus_mount e (Some m) s) = 0
                 then 1 else 0)"
  by (simp add: registry_refs)
     (auto simp: susfs_auto_add_sus_ksu_default_mount_def susfs_auto_add_sus_bind_mount_def
       susfs_add_sus_mount_def sus_mount_inode_refs Let_def susfs_frame
       split: option.splits sum.splits prod.splits)

subsection \<open>Hidden mounts\<close>

definition mount_dev :: "susfs_state \<Rightarrow> string \<Rightarrow> u64 option" where
  "mount_dev s n = map_option sm_target_dev
     (List.find (\<lambda>c. cstr (sm_target_pathname c) = n) (LH_SUS_MOUNT s))"

lemma find_update_first:
  assumes "update_first (\<lambda>c. f c = f y) y xs = Some ys"
  shows "List.find (\<lambda>c. f c = n) ys = (if n = f y then Some y else List.find (\<lambda>c. f c = n) xs)"
  using assms
proof (induction xs arbitrary: ys)
  case (Cons x xs)
  then show ?case by (cases "f x = f y") auto
qed simp

text \<open>\<open>susfs_add_sus_mount\<close> is an update of the map from pathnames to device numbers, whether
  it overwrites a node or appends one; it returns 0 exactly when the copy from user space succeeds
  and the pathname is known or memory is available, and leaves the map alone otherwise.\<close>

theorem add_sus_mount_refines_map:
  "fst (susfs_add_sus_mount e user_info s) = (case user_info of None \<Rightarrow> 1 | Some info \<Rightarrow>
     if mount_dev s (cstr (sm_target_pathname info)) = None \<and> \<not> se_alloc e then 1 else 0) \<and>
   mount_dev (snd (susfs_add_sus_mount e user_info s)) =
     (case user_info of None \<Rightarrow> mount_dev s | Some info \<Rightarrow>
       if fst (susfs_add_sus_mount e user_info s) = 0
       then (mount_dev s)(cstr (sm_target_pathname info) \<mapsto> se_decode_dev e (sm_target_dev info))
       else mount_dev s)"
proof (cases user_info)
  case None
  then show ?thesis by (simp add: susfs_add_sus_mount_def)
next
  case (Some info0)
  let ?info = "info0\<lparr>sm_target_dev := se_decode_dev e (sm_target_dev info0)\<rparr>"
  let ?f = "\<lambda>c. cstr (sm_target_pathname c)"
  let ?u = "update_first (\<lambda>c. ?f c = ?f ?info) ?info (LH_SUS_MOUNT s)"
  have eq: "(\<lambda>c. strcmp_eq (sm_target_pathname c) (sm_target_pathname ?info)) = (\<lambda>c. ?f c = ?f ?info)"
    by (simp add: strcmp_eq_def)
  show ?thesis
  proof (cases ?u)
    case None
    then have none: "List.find (\<lambda>c. ?f c = ?f info0) (LH_SUS_MOUNT s) = None"
      by (simp add: update_first_None_iff find_None_iff)
    then show ?thesis
      using None Some
      by (auto simp: susfs_add_sus_mount_def strcmp_eq_def mount_dev_def Let_def fun_eq_iff
          sus_mount_inode_refs(2) find_append split: option.splits)
  next
    case l: (Some l)
    then have "List.find (\<lambda>c. ?f c = ?f info0) (LH_SUS_MOUNT s) \<noteq> None"
      by (auto simp: find_None_iff dest!: update_first_split)
    then show ?thesis
      using l Some find_update_first [where f = ?f, OF l]
      by (auto simp: susfs_add_sus_mount_def strcmp_eq_def mount_dev_def Let_def fun_eq_iff
          sus_mount_inode_refs(2))
  qed
qed

subsection \<open>The unmount list\<close>

definition mode_flags :: "int \<Rightarrow> int option" where
  "mode_flags m = (if m = TRY_UMOUNT_DEFAULT then Some 0
     else if m = TRY_UMOUNT_DETACH then Some MNT_DETACH else None)"

lemma try_umount_loop_append:
  "try_umount_loop me uid (xs @ ys) m = try_umount_loop me uid ys (try_umount_loop me uid xs m)"
  by (induction xs arbitrary: m) auto

lemma try_umount_loop_refs:
  "me_has_path_umount me \<Longrightarrow> ms_refs (try_umount_loop me uid cs m) = ms_refs m"
  by (induction cs arbitrary: m) (auto simp: ksu_try_umount_refs)

lemma try_umount_loop_log:
  "\<exists>l. ms_log (try_umount_loop me uid cs m) = ms_log m @ l \<and>
     (\<forall>(n, f) \<in> set l. \<exists>c \<in> set cs. n = cstr (tu_target_pathname c) \<and> mode_flags (tu_mnt_mode c) = Some f)"
proof (induction cs arbitrary: m)
  case (Cons c cs)
  let ?m = "if tu_mnt_mode c = TRY_UMOUNT_DEFAULT then ksu_try_umount me (tu_target_pathname c) False 0 uid m
    else if tu_mnt_mode c = TRY_UMOUNT_DETACH then
      ksu_try_umount me (tu_target_pathname c) False MNT_DETACH uid m else m"
  obtain l1 where l1: "ms_log ?m = ms_log m @ l1"
    "\<forall>(n, f) \<in> set l1. n = cstr (tu_target_pathname c) \<and> mode_flags (tu_mnt_mode c) = Some f"
    using ksu_try_umount_log [of me "tu_target_pathname c" False 0 uid m]
      ksu_try_umount_log [of me "tu_target_pathname c" False MNT_DETACH uid m]
    by (cases "tu_mnt_mode c = TRY_UMOUNT_DEFAULT"; cases "tu_mnt_mode c = TRY_UMOUNT_DETACH")
       (auto simp: mode_flags_def split: prod.splits)
  obtain l2 where "ms_log (try_umount_loop me uid cs ?m) = ms_log ?m @ l2"
    "\<forall>(n, f) \<in> set l2. \<exists>c \<in> set cs. n = cstr (tu_target_pathname c) \<and> mode_flags (tu_mnt_mode c) = Some f"
    using Cons.IH [of ?m] by blast
  with l1 show ?case by (intro exI [of _ "l1 @ l2"]) auto
qed simp

text \<open>C29. Unmounting is last in, first out, and touches only what was registered: a path that
  \<open>susfs_add_try_umount\<close> accepts was not in the list, a second registration is refused, and the
  next \<open>susfs_try_umount\<close> hands it to \<open>ksu_try_umount\<close> before every path registered earlier,
  detached exactly in mode 1; every unmount it attempts is of a registered path in its mode.\<close>

theorem try_umount_lifo:
  assumes "susfs_add_try_umount e (Some info) s = (0, s')"
  shows "(\<forall>c \<in> set (LH_TRY_UMOUNT_PATH s). cstr (tu_target_pathname c) \<noteq> cstr (tu_target_pathname info)) \<and>
    susfs_add_try_umount e (Some info) s' = (1, s') \<and>
    susfs_try_umount me s' uid m = susfs_try_umount me s uid
      (case mode_flags (tu_mnt_mode info) of None \<Rightarrow> m
       | Some f \<Rightarrow> ksu_try_umount me (tu_target_pathname info) False f uid m) \<and>
    (\<exists>l. ms_log (susfs_try_umount me s' uid m) = ms_log m @ l \<and>
      (\<forall>(n, f) \<in> set l. \<exists>c \<in> set (LH_TRY_UMOUNT_PATH s').
        n = cstr (tu_target_pathname c) \<and> mode_flags (tu_mnt_mode c) = Some f))"
proof -
  have new: "\<not> list_ex (\<lambda>c. strcmp_eq (tu_target_pathname info) (tu_target_pathname c)) (LH_TRY_UMOUNT_PATH s)"
    and s': "s' = s\<lparr>LH_TRY_UMOUNT_PATH := LH_TRY_UMOUNT_PATH s @ [info]\<rparr>"
    using assms by (auto simp: susfs_add_try_umount_def split: if_splits)
  show ?thesis
  proof (intro conjI)
    show "\<forall>c \<in> set (LH_TRY_UMOUNT_PATH s). cstr (tu_target_pathname c) \<noteq> cstr (tu_target_pathname info)"
      using new by (auto simp: list_ex_iff strcmp_eq_def)
    show "susfs_add_try_umount e (Some info) s' = (1, s')"
      by (simp add: susfs_add_try_umount_def s')
    show "susfs_try_umount me s' uid m = susfs_try_umount me s uid
      (case mode_flags (tu_mnt_mode info) of None \<Rightarrow> m
       | Some f \<Rightarrow> ksu_try_umount me (tu_target_pathname info) False f uid m)"
      by (simp add: susfs_try_umount_def s' mode_flags_def)
    show "\<exists>l. ms_log (susfs_try_umount me s' uid m) = ms_log m @ l \<and>
      (\<forall>(n, f) \<in> set l. \<exists>c \<in> set (LH_TRY_UMOUNT_PATH s').
        n = cstr (tu_target_pathname c) \<and> mode_flags (tu_mnt_mode c) = Some f)"
      using try_umount_loop_log [of me uid "rev (LH_TRY_UMOUNT_PATH s')" m]
      by (simp add: susfs_try_umount_def)
  qed
qed

definition ex_umount :: "cbuf \<Rightarrow> int \<Rightarrow> st_susfs_try_umount" where
  "ex_umount n m = \<lparr>tu_target_pathname = n, tu_mnt_mode = m\<rparr>"

definition ex_mnt_env :: "nat mnt_env" where
  "ex_mnt_env = \<lparr>me_kern_path = \<lambda>ns n. Inr ex_kpath, me_path_umount = \<lambda>ns p f. (0, Suc ns),
     me_has_path_umount = True, me_global_ns = False, me_susfs = True\<rparr>"

definition ex_mnt_state :: "nat mnt_state" where
  "ex_mnt_state = \<lparr>ms_ns = 0, ms_refs = 0, ms_log = []\<rparr>"

theorem try_umount_lifo_witness:
  "ms_log (susfs_try_umount ex_mnt_env (susfs_static\<lparr>LH_TRY_UMOUNT_PATH :=
      [ex_umount ''/a'' 0, ex_umount ''/a/b'' 1]\<rparr>) 10123 ex_mnt_state) = [(''/a/b'', 2), (''/a'', 0)]"
proof -
  have a: "susfs_add_try_umount ex_susfs_env (Some (ex_umount ''/a/b'' 1))
      (susfs_static\<lparr>LH_TRY_UMOUNT_PATH := [ex_umount ''/a'' 0]\<rparr>) =
    (0, susfs_static\<lparr>LH_TRY_UMOUNT_PATH := [ex_umount ''/a'' 0, ex_umount ''/a/b'' 1]\<rparr>)"
    by (simp add: susfs_add_try_umount_def ex_umount_def strcmp_eq_def ex_susfs_env_def)
  from try_umount_lifo [OF a, of ex_mnt_env 10123 ex_mnt_state] show ?thesis
    by (simp add: mode_flags_def susfs_try_umount_def ex_umount_def ksu_try_umount_def
        ksu_umount_mnt_def ex_mnt_env_def ex_mnt_state_def ex_kpath_def)
qed

definition umount_names :: "susfs_state \<Rightarrow> string list" where
  "umount_names s = map (\<lambda>c. cstr (tu_target_pathname c)) (LH_TRY_UMOUNT_PATH s)"

lemma auto_umount_not_blocked:
  "\<not> auto_umount_blocked h i dp cs \<Longrightarrow> c \<in> set cs \<Longrightarrow>
     cstr (tu_target_pathname c) \<noteq> cstr dp \<and>
     (h \<and> i \<longrightarrow> \<not> c_strstr (cstr dp) (cstr (tu_target_pathname c)))"
  by (induction cs) (auto simp: strcmp_eq_def split: if_splits)

lemma auto_umount_new_name:
  fixes dp :: cbuf and magic :: bool
  defines "src \<equiv> if magic \<and> c_strstr (cstr dp) MAGIC_MOUNT_WORKDIR then drop (length MAGIC_MOUNT_WORKDIR) dp else dp"
  assumes nb: "\<not> auto_umount_blocked magic (magic \<and> c_strstr (cstr dp) MAGIC_MOUNT_WORKDIR) dp (LH_TRY_UMOUNT_PATH s)"
  shows "cstr src \<notin> set (umount_names s)"
proof
  assume "cstr src \<in> set (umount_names s)"
  then obtain c where c: "c \<in> set (LH_TRY_UMOUNT_PATH s)" "cstr (tu_target_pathname c) = cstr src"
    by (auto simp: umount_names_def)
  note nb' = auto_umount_not_blocked [OF nb c(1)]
  show False
  proof (cases "magic \<and> c_strstr (cstr dp) MAGIC_MOUNT_WORKDIR")
    case True
    then have "length MAGIC_MOUNT_WORKDIR \<le> length (cstr dp)" by (auto simp: c_strstr_infix)
    then have "cstr src = drop (length MAGIC_MOUNT_WORKDIR) (cstr dp)" using True by (simp add: src_def cstr_drop)
    then have "c_strstr (cstr dp) (cstr (tu_target_pathname c))"
      unfolding c(2) c_strstr_infix by (metis append.right_neutral append_take_drop_id)
    with nb' True show False by simp
  next
    case False
    with nb' c(2) show False by (simp add: src_def)
  qed
qed

lemma auto_umount_distinct:
  assumes "distinct (umount_names s)"
    and sh: "\<And>n. d = DName n \<Longrightarrow> short n \<and> short (drop (length MAGIC_MOUNT_WORKDIR) n)"
    and a: "susfs_auto_add_try_umount_for_bind_mount e page path d s = Some s'"
  shows "distinct (umount_names s')"
proof (cases "s' = s")
  case True
  with assms show ?thesis by simp
next
  case False
  then obtain dp where d: "d = DName dp"
    using a by (auto simp: susfs_auto_add_try_umount_for_bind_mount_def split: option.splits dpath.splits if_splits)
  let ?magic = "se_has_magic_mount e \<and> c_strstr (cstr dp) MAGIC_MOUNT_WORKDIR"
  let ?src = "if ?magic then drop (length MAGIC_MOUNT_WORKDIR) dp else dp"
  have s': "\<not> auto_umount_blocked (se_has_magic_mount e) ?magic dp (LH_TRY_UMOUNT_PATH s)"
    "LH_TRY_UMOUNT_PATH s' = LH_TRY_UMOUNT_PATH s @ [\<lparr>tu_target_pathname =
       c_strncpy (fst (se_junk e)) ?src 255, tu_mnt_mode = TRY_UMOUNT_DETACH\<rparr>]"
    using a False d
    by (auto simp: susfs_auto_add_try_umount_for_bind_mount_def Let_def split: option.splits if_splits)
  have "short ?src" using sh d by simp
  then have "umount_names s' = umount_names s @ [cstr ?src]"
    by (simp add: umount_names_def s'(2) del: if_split)
  with auto_umount_new_name [OF s'(1)] assms(1) show ?thesis by simp
qed

text \<open>The unmount list never names a path twice, whether paths are added by command or
  automatically for bind mounts (with names that fit the node), and also for magic mounts, whose
  working directory is cut off the name before it is stored.\<close>

theorem umount_names_distinct:
  assumes "distinct (umount_names s)"
  shows "distinct (umount_names (snd (susfs_add_try_umount e u s))) \<and>
    (\<forall>s'. (\<forall>n. d = DName n \<longrightarrow> short n \<and> short (drop (length MAGIC_MOUNT_WORKDIR) n)) \<and>
      susfs_auto_add_try_umount_for_bind_mount e page path d s = Some s' \<longrightarrow>
      distinct (umount_names s'))"
proof (intro conjI allI impI)
  show "distinct (umount_names (snd (susfs_add_try_umount e u s)))"
    using assms
    by (auto simp: susfs_add_try_umount_def umount_names_def list_ex_iff strcmp_eq_def split: option.splits)
qed (use auto_umount_distinct [OF assms] in blast)

theorem umount_names_distinct_witness:
  "\<exists>s'. susfs_auto_add_try_umount_for_bind_mount ex_susfs_env True ex_kpath
      (DName ''/debug_ramdisk/workdir/system/app'') susfs_static = Some s' \<and>
    umount_names s' = [''/system/app''] \<and> distinct (umount_names s')"
proof -
  let ?d = "''/debug_ramdisk/workdir/system/app''"
  obtain s' where a: "susfs_auto_add_try_umount_for_bind_mount ex_susfs_env True ex_kpath
      (DName ?d) susfs_static = Some s'" "umount_names s' = [''/system/app'']"
    by (simp add: susfs_auto_add_try_umount_for_bind_mount_def ex_susfs_env_def ex_kpath_def
        susfs_static_def MAGIC_MOUNT_WORKDIR_def Let_def umount_names_def c_strncpy_def)
  have "distinct (umount_names susfs_static)" by (simp add: umount_names_def susfs_static_def)
  moreover have "\<forall>n. DName ?d = DName n \<longrightarrow> short n \<and> short (drop (length MAGIC_MOUNT_WORKDIR) n)"
    by (simp add: short_def MAGIC_MOUNT_WORKDIR_def)
  ultimately show ?thesis
    using umount_names_distinct [where s = susfs_static and d = "DName ?d" and e = ex_susfs_env and
        page = True and path = ex_kpath] a by blast
qed

subsection \<open>The spoofed \<open>uname\<close>\<close>

definition wf_uts :: "cbuf \<Rightarrow> bool" where
  "wf_uts b \<longleftrightarrow> length b = NEW_UTS_LEN + 1 \<and> b ! NEW_UTS_LEN = NUL"

lemma wf_uts_rest: "wf_uts b \<Longrightarrow> drop NEW_UTS_LEN b \<noteq> [] \<and> hd (drop NEW_UTS_LEN b) = NUL"
  by (simp add: wf_uts_def hd_drop_conv_nth)

lemma cstr_uts_copy: "wf_uts dst \<Longrightarrow> cstr (c_strncpy dst src NEW_UTS_LEN) = take NEW_UTS_LEN (cstr src)"
  using wf_uts_rest [of dst] cstr_c_strncpy_NUL_rest [of NEW_UTS_LEN dst src] by blast

lemma wf_uts_copy: "wf_uts dst \<Longrightarrow> wf_uts (c_strncpy dst src NEW_UTS_LEN)"
  by (auto simp: wf_uts_def c_strncpy_def Let_def nth_append)

lemma cstr_Nil_iff: "b \<noteq> [] \<Longrightarrow> b ! 0 = NUL \<longleftrightarrow> cstr b = []"
  by (cases b) auto

text \<open>The text shown for a setting: ``default'' stands for the kernel's own.\<close>

definition uts_choice :: "cbuf \<Rightarrow> cbuf \<Rightarrow> string" where
  "uts_choice given own = take NEW_UTS_LEN (if cstr given = ''default'' then cstr own else cstr given)"

text \<open>The spoofed \<open>uname\<close>: after \<open>susfs_set_uname\<close> a reader sees the given release and
  version, each cut to 64 characters and with ``default'' meaning the kernel's own, provided
  the release is not empty and the lock is free; otherwise it sees the unmodified struct. All
  buffers stay terminated.\<close>

theorem uname_spoofed:
  assumes "wf_uts (un_release (my_uname s))" and "wf_uts (un_version (my_uname s))"
    and "wf_uts (un_release tmp)" and "wf_uts (un_version tmp)"
    and "susfs_set_uname uts (Some info) s = (r, s')"
  shows "r = 0 \<and> wf_uts (un_release (my_uname s')) \<and> wf_uts (un_version (my_uname s')) \<and>
    (let shown = susfs_spoof_uname locked s' tmp in
     if uts_choice (un_release info) (un_release uts) = [] \<or> locked then shown = tmp
     else cstr (un_release shown) = uts_choice (un_release info) (un_release uts) \<and>
          cstr (un_version shown) = uts_choice (un_version info) (un_version uts) \<and>
          wf_uts (un_release shown) \<and> wf_uts (un_version shown))"
proof -
  have r: "cstr (un_release (my_uname s')) = uts_choice (un_release info) (un_release uts)"
    "cstr (un_version (my_uname s')) = uts_choice (un_version info) (un_version uts)"
    "wf_uts (un_release (my_uname s'))" "wf_uts (un_version (my_uname s'))" "r = 0"
    using assms
    by (auto simp: susfs_set_uname_def Let_def cstr_uts_copy wf_uts_copy uts_choice_def strcmp_eq_def)
  have ne: "un_release (my_uname s') \<noteq> []" using r(3) by (auto simp: wf_uts_def)
  have t: "take NEW_UTS_LEN (uts_choice g o') = uts_choice g o'" for g o' by (simp add: uts_choice_def)
  show ?thesis
    using r assms(3,4)
    by (simp add: susfs_spoof_uname_def Let_def cstr_Nil_iff [OF ne] cstr_uts_copy wf_uts_copy t)
qed

definition ex_uts :: "string \<Rightarrow> string \<Rightarrow> st_susfs_uname" where
  "ex_uts a b = \<lparr>un_release = c_strcpy (replicate 65 NUL) a, un_version = c_strcpy (replicate 65 NUL) b\<rparr>"

theorem uname_spoofed_witness:
  "cstr (un_release (susfs_spoof_uname False
     (snd (susfs_set_uname (ex_uts ''own'' ''own'') (Some (ex_uts ''4.19.0'' ''default'')) susfs_static))
     (ex_uts ''real'' ''real''))) = ''4.19.0''"
proof -
  let ?u = "susfs_set_uname (ex_uts ''own'' ''own'') (Some (ex_uts ''4.19.0'' ''default'')) susfs_static"
  have wf: "wf_uts (un_release (my_uname susfs_static))" "wf_uts (un_version (my_uname susfs_static))"
    "wf_uts (un_release (ex_uts ''real'' ''real''))" "wf_uts (un_version (ex_uts ''real'' ''real''))"
    by (simp_all add: wf_uts_def susfs_static_def susfs_my_uname_init_def ex_uts_def c_strcpy_def)
  have u: "?u = (fst ?u, snd ?u)" by simp
  from uname_spoofed [OF wf u, of False] show ?thesis
    by (simp add: Let_def uts_choice_def ex_uts_def c_strcpy_def)
qed

subsection \<open>The fake command line\<close>

text \<open>The documented \<open>strncpy_from_user\<close> on a readable string and on a bad pointer.\<close>

definition user_string :: "string \<Rightarrow> from_user" where
  "user_string str dst n =
     (if length (cstr str) < n then (int (length (cstr str)), c_strcpy dst str)
      else (int n, take n (cstr str) @ drop n dst))"

definition user_fault :: from_user where
  "user_fault dst n = (- EFAULT, dst)"

text \<open>The fake command line: setting a readable string returns 0 and the proc file
  then shows its first 4095 characters. A first call with a bad pointer returns \<open>-EFAULT\<close>, but
  the buffer is already installed and zeroed, so from then on the proc file is empty instead of
  showing the kernel's command line.\<close>

theorem fake_cmdline_set:
  "(let (r, s') = susfs_set_cmdline_or_bootconfig True (user_string str) s
    in r = 0 \<and> susfs_spoof_cmdline_or_bootconfig s' = (0, take 4095 (cstr str))) \<and>
   (let (r, s') = susfs_set_cmdline_or_bootconfig True user_fault susfs_static
    in r = - EFAULT \<and> susfs_spoof_cmdline_or_bootconfig susfs_static = (1, []) \<and>
       susfs_spoof_cmdline_or_bootconfig s' = (0, []))"
proof (intro conjI)
  have cut: "cstr (take 4095 (cstr str) @ [NUL]) = take 4095 (cstr str)"
    using cstr_append_NUL [of "take 4095 (cstr str)" "[]"] by simp
  have "drop 4095 (replicate 4096 NUL) = [NUL]" by (simp add: drop_replicate)
  then show "let (r, s') = susfs_set_cmdline_or_bootconfig True (user_string str) s
    in r = 0 \<and> susfs_spoof_cmdline_or_bootconfig s' = (0, take 4095 (cstr str))"
    by (auto simp: susfs_set_cmdline_or_bootconfig_def user_string_def susfs_spoof_cmdline_or_bootconfig_def
        Let_def c_strcpy_def cstr_append_NUL cut)
  show "let (r, s') = susfs_set_cmdline_or_bootconfig True user_fault susfs_static
    in r = - EFAULT \<and> susfs_spoof_cmdline_or_bootconfig susfs_static = (1, []) \<and>
       susfs_spoof_cmdline_or_bootconfig s' = (0, [])"
    by (simp add: susfs_set_cmdline_or_bootconfig_def user_fault_def susfs_spoof_cmdline_or_bootconfig_def
        susfs_static_def Let_def)
qed

end
