(* ===== verification/Core_Hooks.thy ===== *)
theory Core_Hooks
  imports Core_Cred Susfs_Props
begin

text \<open>
  The hooks of \<^verbatim>\<open>core_hook.c\<close> other than \<open>prctl\<close>: what happens when zygote gives a new process
  its uid, when \<^verbatim>\<open>packages.list\<close> is renamed, and at \<open>post-fs-data\<close>. The build is the one of
  \<^verbatim>\<open>apply.sh\<close>, with \<open>CONFIG_KSU_SUSFS\<close> and its mount features on.
\<close>

subsection \<open>Uids\<close>

definition is_appuid :: "uid_t \<Rightarrow> bool" where
  "is_appuid uid = (let appid = uid mod 100000 in appid \<ge> 10000 \<and> appid \<le> 19999)"

definition is_unsupported_uid :: "uid_t \<Rightarrow> bool" where
  "is_unsupported_uid uid = (let appid = uid mod 100000 in appid > 19999)"

definition is_allow_su :: "bool \<Rightarrow> uid_t \<Rightarrow> allow_state \<Rightarrow> uid_t \<Rightarrow> bool" where
  "is_allow_su is_ksu_domain manager_uid al current_uid =
     (if ksu_is_manager manager_uid current_uid then True
      else ksu_is_allow_uid is_ksu_domain manager_uid al current_uid)"

definition susfs_is_allow_su :: "bool \<Rightarrow> uid_t \<Rightarrow> allow_state \<Rightarrow> uid_t \<Rightarrow> bool" where
  "susfs_is_allow_su is_ksu_domain manager_uid al current_uid =
     (if ksu_is_manager manager_uid current_uid then True
      else ksu_is_allow_uid is_ksu_domain manager_uid al current_uid)"

subsection \<open>\<open>ksu_handle_setuid\<close>\<close>

definition umount_all_paths :: "(string \<times> bool \<times> int) list" where
  "umount_all_paths =
     [(''/system'', True, 0), (''/system_ext'', True, 0), (''/vendor'', True, 0),
      (''/product'', True, 0), (''/odm'', True, 0), (''/data/adb/modules'', False, MNT_DETACH),
      (''/debug_ramdisk'', True, MNT_DETACH), (''/sbin'', False, MNT_DETACH),
      (''/system/etc/hosts'', False, MNT_DETACH),
      (''/apex/com.android.art/bin/dex2oat64'', False, MNT_DETACH),
      (''/apex/com.android.art/bin/dex2oat32'', False, MNT_DETACH)]"

fun umount_paths ::
  "'ns mnt_env \<Rightarrow> uid_t \<Rightarrow> (string \<times> bool \<times> int) list \<Rightarrow> 'ns mnt_state \<Rightarrow> 'ns mnt_state" where
  "umount_paths me uid [] m = m"
| "umount_paths me uid ((mnt, check_mnt, flags) # ps) m =
     umount_paths me uid ps (ksu_try_umount me mnt check_mnt flags uid m)"

definition susfs_try_umount_all ::
  "'ns mnt_env \<Rightarrow> susfs_state \<Rightarrow> uid_t \<Rightarrow> 'ns mnt_state \<Rightarrow> 'ns mnt_state" where
  "susfs_try_umount_all me s uid m = umount_paths me uid umount_all_paths (susfs_try_umount me s uid m)"

abbreviation TASK_STRUCT_NON_ROOT_USER_APP_PROC :: u64 where
  "TASK_STRUCT_NON_ROOT_USER_APP_PROC \<equiv> push_bit 24 1"

text \<open>What the hook reads: the driver's globals and the two credentials (\<open>None\<close> for NULL), each
  its uid and its security struct.\<close>

record setuid_in =
  si_module_mounted :: bool
  si_zygote_sid :: u32
  si_umount_zygote_system :: bool
  si_is_ksu_domain :: bool
  si_manager_uid :: uid_t
  si_new :: "(uid_t \<times> task_security option) option"
  si_old :: "(uid_t \<times> task_security option) option"

definition handle_umount ::
  "'ns mnt_env \<Rightarrow> susfs_state \<Rightarrow> allow_state \<Rightarrow> setuid_in \<Rightarrow> bool \<Rightarrow> uid_t \<Rightarrow> 'ns mnt_state \<Rightarrow>
     'ns mnt_state" where
  "handle_umount me s al i is_zygote_child new_uid m =
     (if \<not> ksu_uid_should_umount (si_manager_uid i) al new_uid then m
      else if \<not> is_zygote_child then m
      else susfs_try_umount_all me s new_uid m)"

text \<open>The result is the task's \<open>susfs_task_state\<close> and the mounts; the C function returns 0.\<close>

definition ksu_handle_setuid ::
  "'ns mnt_env \<Rightarrow> susfs_state \<Rightarrow> allow_state \<Rightarrow> setuid_in \<Rightarrow> u64 \<Rightarrow> 'ns mnt_state \<Rightarrow>
     u64 \<times> 'ns mnt_state" where
  "ksu_handle_setuid me s al i task_state m =
     (if \<not> si_module_mounted i then (task_state, m)
      else case (si_new i, si_old i) of
        (Some (new_uid, _), Some (old_uid, old_sec)) \<Rightarrow>
          if old_uid \<noteq> 0 then (task_state, m)
          else let is_zygote_child = susfs_is_sid_equal old_sec (si_zygote_sid i) in
            if is_zygote_child \<and> new_uid < 10000 \<and> new_uid \<ge> 1000 \<and> si_umount_zygote_system i
            then (task_state, handle_umount me s al i is_zygote_child new_uid m)
            else if \<not> is_appuid new_uid \<or> is_unsupported_uid new_uid then (task_state, m)
            else if ksu_is_allow_uid (si_is_ksu_domain i) (si_manager_uid i) al new_uid
            then (task_state, m)
            else (task_state OR TASK_STRUCT_NON_ROOT_USER_APP_PROC,
                  handle_umount me s al i is_zygote_child new_uid m)
      | _ \<Rightarrow> (task_state, m))"

subsection \<open>\<open>ksu_handle_rename\<close>\<close>

text \<open>Whether the hook calls \<open>ksu_track_throne\<close>. A dentry is its \<open>d_iname\<close>; \<open>path\<close> is what
  \<open>dentry_path_raw\<close> returns for the new one.\<close>

definition ksu_handle_rename :: "bool \<Rightarrow> uid_t \<Rightarrow> cbuf option \<Rightarrow> cbuf option \<Rightarrow> int + cbuf \<Rightarrow> bool" where
  "ksu_handle_rename has_mm current_uid old_dentry new_dentry path =
     (if \<not> has_mm then False
      else if current_uid \<noteq> 1000 then False
      else case (old_dentry, new_dentry) of
        (Some _, Some iname) \<Rightarrow>
          if \<not> strcmp_eq iname ''packages.list'' then False
          else (case path of
            Inl err \<Rightarrow> False
          | Inr buf \<Rightarrow> c_strstr (cstr buf) ''/system/packages.list'')
      | _ \<Rightarrow> False)"

subsection \<open>\<open>susfs_on_post_fs_data\<close>, \<open>nuke_ext4_sysfs\<close>, \<open>is_system_bin_su\<close>\<close>

record susfs_switches =
  sw_umount_zygote_system :: bool
  sw_auto_add_sus_bind_mount :: bool
  sw_auto_add_sus_ksu_default_mount :: bool
  sw_auto_add_try_umount_for_bind_mount :: bool

definition path_exists :: "kern_path \<Rightarrow> string \<Rightarrow> bool" where
  "path_exists kp n = (case kp n of Inl err \<Rightarrow> False | Inr p \<Rightarrow> True)"

definition susfs_on_post_fs_data :: "kern_path \<Rightarrow> susfs_switches \<Rightarrow> susfs_switches" where
  "susfs_on_post_fs_data kp w =
     (let w1 = (if path_exists kp ''/data/adb/susfs_umount_for_zygote_system_process''
                then w\<lparr>sw_umount_zygote_system := True\<rparr> else w);
          w2 = (if path_exists kp ''/data/adb/susfs_no_auto_add_sus_bind_mount''
                then w1\<lparr>sw_auto_add_sus_bind_mount := False\<rparr> else w1);
          w3 = (if path_exists kp ''/data/adb/susfs_no_auto_add_sus_ksu_default_mount''
                then w2\<lparr>sw_auto_add_sus_ksu_default_mount := False\<rparr> else w2)
      in if path_exists kp ''/data/adb/susfs_no_auto_add_try_umount_for_bind_mount''
         then w3\<lparr>sw_auto_add_try_umount_for_bind_mount := False\<rparr> else w3)"

text \<open>Whether \<open>ext4_unregister_sysfs\<close> is called; the inode of a resolved path is not NULL.\<close>

definition nuke_ext4_sysfs :: "kern_path \<Rightarrow> bool" where
  "nuke_ext4_sysfs kp =
     (case kp ''/data/adb/modules'' of Inl err \<Rightarrow> False | Inr path \<Rightarrow> kp_fstype path = ''ext4'')"

definition su_paths :: "string list" where
  "su_paths = [''/system/bin/su'', ''/vendor/bin/su'', ''/product/bin/su'', ''/system_ext/bin/su'',
     ''/odm/bin/su'', ''/system/xbin/su'', ''/system_ext/xbin/su'']"

text \<open>\<open>exe\<close> is \<open>d_path\<close> of the task's \<open>exe_file\<close>, \<open>None\<close> without an mm or exe file.\<close>

definition is_system_bin_su :: "(int + cbuf) option \<Rightarrow> bool" where
  "is_system_bin_su exe =
     (case exe of
        None \<Rightarrow> False
      | Some (Inl err) \<Rightarrow> False
      | Some (Inr pathname) \<Rightarrow> list_ex (\<lambda>su. strcmp_eq pathname su) su_paths)"

subsection \<open>Lemmas\<close>

lemma appuid_supported: "is_appuid u \<Longrightarrow> \<not> is_unsupported_uid u"
  by (auto simp: is_appuid_def is_unsupported_uid_def Let_def)

lemma umount_paths_refs:
  "me_has_path_umount me \<Longrightarrow> ms_refs (umount_paths me uid ps m) = ms_refs m"
  by (induction me uid ps m rule: umount_paths.induct) (auto simp: ksu_try_umount_refs)

lemma umount_all_refs:
  "me_has_path_umount me \<Longrightarrow> ms_refs (susfs_try_umount_all me s uid m) = ms_refs m"
  by (simp add: susfs_try_umount_all_def umount_paths_refs susfs_try_umount_def try_umount_loop_refs)

lemma umount_paths_log:
  "\<exists>l. ms_log (umount_paths me uid ps m) = ms_log m @ l \<and>
     set l \<subseteq> (\<lambda>(p, c, f). (cstr p, f)) ` set ps"
proof (induction me uid ps m rule: umount_paths.induct)
  case (2 me uid mnt check_mnt flags ps m)
  obtain l1 where l1: "ms_log (ksu_try_umount me mnt check_mnt flags uid m) = ms_log m @ l1"
    "set l1 \<subseteq> {(cstr mnt, flags)}" using ksu_try_umount_log by blast
  obtain l2 where l2: "ms_log (umount_paths me uid ps (ksu_try_umount me mnt check_mnt flags uid m)) =
      ms_log (ksu_try_umount me mnt check_mnt flags uid m) @ l2"
    "set l2 \<subseteq> (\<lambda>(p, c, f). (cstr p, f)) ` set ps"
    using 2 by blast
  have "set (l1 @ l2) \<subseteq> (\<lambda>(p, c, f). (cstr p, f)) ` set ((mnt, check_mnt, flags) # ps)"
    using l1(2) l2(2) by auto
  with l1(1) l2(1) show ?case by (intro exI [of _ "l1 @ l2"]) simp
qed simp

subsection \<open>Properties\<close>

lemma should_umount_profile:
  assumes "ksu_uid_should_umount manager_uid al u"
  shows "\<not> (ksu_is_manager_uid_valid manager_uid \<and> manager_uid = u)"
    and "List.find (\<lambda>p. u = ap_current_uid p) (al_list al) = Some p \<Longrightarrow> \<not> ap_allow_su p"
  using assms
  by (auto simp: ksu_uid_should_umount_def ksu_get_app_profile_def zero_app_profile_def kdefs
      split: if_splits)

text \<open>C15. The setuid hook touches mounts only where it may: when it changes the mount state,
  modules are mounted, a root child of zygote becomes uid \<open>u\<close>, everything done is
  \<open>susfs_try_umount_all\<close> for \<open>u\<close>, and \<open>u\<close> is neither the manager nor a uid whose profile allows
  su; it is an app that \<open>__ksu_is_allow_uid\<close> refuses, flagged as such, or, when that is enabled,
  a system process. Path references come out even where the kernel has \<open>path_umount\<close>.\<close>

theorem setuid_umounts_only_unprivileged:
  assumes "ksu_handle_setuid me s al i ts m = (ts', m')" and "m' \<noteq> m"
  shows "\<exists>u new_sec old_sec. si_new i = Some (u, new_sec) \<and> si_old i = Some (0, old_sec) \<and>
    si_module_mounted i \<and> susfs_is_sid_equal old_sec (si_zygote_sid i) \<and>
    m' = susfs_try_umount_all me s u m \<and>
    \<not> (ksu_is_manager_uid_valid (si_manager_uid i) \<and> si_manager_uid i = u) \<and>
    (\<forall>p. List.find (\<lambda>p. u = ap_current_uid p) (al_list al) = Some p \<longrightarrow> \<not> ap_allow_su p) \<and>
    (is_appuid u \<and> \<not> ksu_is_allow_uid (si_is_ksu_domain i) (si_manager_uid i) al u \<and>
       ts' = ts OR TASK_STRUCT_NON_ROOT_USER_APP_PROC \<or>
     1000 \<le> u \<and> u < 10000 \<and> si_umount_zygote_system i \<and> ts' = ts) \<and>
    (me_has_path_umount me \<longrightarrow> ms_refs m' = ms_refs m)"
proof -
  obtain u new_sec old_sec where u: "si_new i = Some (u, new_sec)" "si_old i = Some (0, old_sec)"
    "si_module_mounted i"
    using assms by (auto simp: ksu_handle_setuid_def split: if_splits option.splits)
  let ?z = "susfs_is_sid_equal old_sec (si_zygote_sid i)"
  let ?sys = "?z \<and> u < 10000 \<and> u \<ge> 1000 \<and> si_umount_zygote_system i"
  have c: "m' = handle_umount me s al i ?z u m"
    "?sys \<and> ts' = ts \<or> is_appuid u \<and> \<not> ksu_is_allow_uid (si_is_ksu_domain i) (si_manager_uid i) al u \<and>
      ts' = ts OR TASK_STRUCT_NON_ROOT_USER_APP_PROC"
    using assms u
    by (auto simp: ksu_handle_setuid_def Let_def simp del: push_bit_of_1 split: if_splits)
  from c(1) assms(2) have d: "?z" "m' = susfs_try_umount_all me s u m"
    "ksu_uid_should_umount (si_manager_uid i) al u"
    by (auto simp: handle_umount_def split: if_splits)
  show ?thesis
    using u c(2) d should_umount_profile [OF d(3)] umount_all_refs [of me s u m] by blast
qed

definition ex_setuid :: setuid_in where
  "ex_setuid = \<lparr>si_module_mounted = True, si_zygote_sid = 3, si_umount_zygote_system = False,
     si_is_ksu_domain = False, si_manager_uid = 10050, si_new = Some (10123, None),
     si_old = Some (0, Some \<lparr>ts_sid = 3, ts_create_sid = 0, ts_keycreate_sid = 0, ts_sockcreate_sid = 0\<rparr>)\<rparr>"

theorem setuid_umounts_only_unprivileged_witness:
  "\<exists>ts' m'. ksu_handle_setuid ex_mnt_env
      (susfs_static\<lparr>LH_TRY_UMOUNT_PATH := [ex_umount ''/a'' 1]\<rparr>) ex_init ex_setuid 0 ex_mnt_state = (ts', m') \<and>
    m' \<noteq> ex_mnt_state \<and> ms_refs m' = 0 \<and> is_appuid 10123"
proof -
  let ?s = "susfs_static\<lparr>LH_TRY_UMOUNT_PATH := [ex_umount ''/a'' 1]\<rparr>"
  obtain ts' m' where h: "ksu_handle_setuid ex_mnt_env ?s ex_init ex_setuid 0 ex_mnt_state = (ts', m')"
    by fastforce
  have ng: "\<not> granted ex_init 10123"
    using ex_init_inv(1,3) by (auto simp: allow_inv_def allow_sound_def)
  have app: "is_appuid 10123" by (simp add: is_appuid_def Let_def)
  have "umount_modules (al_default_non_root ex_init)"
    by (simp add: ex_init_def ksu_allowlist_init_def init_default_profiles_def)
  then have su: "ksu_uid_should_umount 10050 ex_init 10123"
    by (simp add: ksu_uid_should_umount_def ksu_get_app_profile_def kdefs)
  have na: "\<not> ksu_is_allow_uid False 10050 ex_init 10123"
    using ng by (simp add: ksu_is_allow_uid_def forbid_system_uid_def kdefs)
  have "m' = susfs_try_umount_all ex_mnt_env ?s 10123 ex_mnt_state"
    using h app na su appuid_supported [OF app]
    by (simp add: ksu_handle_setuid_def ex_setuid_def handle_umount_def susfs_is_sid_equal_def)
  then have ne: "m' \<noteq> ex_mnt_state"
    by (simp add: susfs_try_umount_all_def susfs_try_umount_def ex_umount_def ksu_try_umount_def
        ksu_umount_mnt_def ex_mnt_env_def ex_mnt_state_def ex_kpath_def umount_all_paths_def should_umount_def)
  have "ms_refs m' = ms_refs ex_mnt_state"
    using setuid_umounts_only_unprivileged [OF h ne] by (auto simp: ex_mnt_env_def)
  then show ?thesis using h ne app by (simp add: ex_mnt_state_def)
qed

end
