(* ===== verification/Core_Prctl.thy ===== *)
theory Core_Prctl
  imports Core_Hooks
begin

text \<open>
  \<open>ksu_handle_prctl\<close> of \<^verbatim>\<open>core_hook.c\<close>: the gate, and one definition per command, in the order
  of the C function. User memory is what \<open>prctl_env\<close> says can be read and written; the
  replies are the list \<open>ks_writes\<close>. The calls into \<^verbatim>\<open>ksud.c\<close>, \<^verbatim>\<open>rules.c\<close>, \<^verbatim>\<open>sucompat.c\<close> and the
  kernel patch are recorded as events, which \<open>Driver\<close> carries out; their answers are read from the
  environment, where \<open>Driver\<close> puts them.
  The result \<open>None\<close> is an access outside a stack array.
\<close>

subsection \<open>State and environment\<close>

abbreviation KERNEL_SU_OPTION :: u32 where "KERNEL_SU_OPTION \<equiv> 0xDEADBEEF"

abbreviation CMD_GRANT_ROOT :: u64 where "CMD_GRANT_ROOT \<equiv> 0"
abbreviation CMD_BECOME_MANAGER :: u64 where "CMD_BECOME_MANAGER \<equiv> 1"
abbreviation CMD_GET_VERSION :: u64 where "CMD_GET_VERSION \<equiv> 2"
abbreviation CMD_GET_ALLOW_LIST :: u64 where "CMD_GET_ALLOW_LIST \<equiv> 5"
abbreviation CMD_GET_DENY_LIST :: u64 where "CMD_GET_DENY_LIST \<equiv> 6"
abbreviation CMD_REPORT_EVENT :: u64 where "CMD_REPORT_EVENT \<equiv> 7"
abbreviation CMD_SET_SEPOLICY :: u64 where "CMD_SET_SEPOLICY \<equiv> 8"
abbreviation CMD_CHECK_SAFEMODE :: u64 where "CMD_CHECK_SAFEMODE \<equiv> 9"
abbreviation CMD_GET_APP_PROFILE :: u64 where "CMD_GET_APP_PROFILE \<equiv> 10"
abbreviation CMD_SET_APP_PROFILE :: u64 where "CMD_SET_APP_PROFILE \<equiv> 11"
abbreviation CMD_UID_GRANTED_ROOT :: u64 where "CMD_UID_GRANTED_ROOT \<equiv> 12"
abbreviation CMD_UID_SHOULD_UMOUNT :: u64 where "CMD_UID_SHOULD_UMOUNT \<equiv> 13"
abbreviation CMD_IS_SU_ENABLED :: u64 where "CMD_IS_SU_ENABLED \<equiv> 14"
abbreviation CMD_ENABLE_SU :: u64 where "CMD_ENABLE_SU \<equiv> 15"
abbreviation CMD_GET_MANAGER_UID :: u64 where "CMD_GET_MANAGER_UID \<equiv> 16"
abbreviation CMD_HOOK_MODE :: u64 where "CMD_HOOK_MODE \<equiv> 0xC0DEAD1A"

abbreviation EVENT_POST_FS_DATA :: u64 where "EVENT_POST_FS_DATA \<equiv> 1"
abbreviation EVENT_BOOT_COMPLETED :: u64 where "EVENT_BOOT_COMPLETED \<equiv> 2"
abbreviation EVENT_MODULE_MOUNTED :: u64 where "EVENT_MODULE_MOUNTED \<equiv> 3"

abbreviation CMD_SUSFS_ADD_SUS_PATH :: u64 where "CMD_SUSFS_ADD_SUS_PATH \<equiv> 0x55550"
abbreviation CMD_SUSFS_ADD_SUS_MOUNT :: u64 where "CMD_SUSFS_ADD_SUS_MOUNT \<equiv> 0x55560"
abbreviation CMD_SUSFS_ADD_SUS_KSTAT :: u64 where "CMD_SUSFS_ADD_SUS_KSTAT \<equiv> 0x55570"
abbreviation CMD_SUSFS_UPDATE_SUS_KSTAT :: u64 where "CMD_SUSFS_UPDATE_SUS_KSTAT \<equiv> 0x55571"
abbreviation CMD_SUSFS_ADD_SUS_KSTAT_STATICALLY :: u64 where
  "CMD_SUSFS_ADD_SUS_KSTAT_STATICALLY \<equiv> 0x55572"
abbreviation CMD_SUSFS_ADD_TRY_UMOUNT :: u64 where "CMD_SUSFS_ADD_TRY_UMOUNT \<equiv> 0x55580"
abbreviation CMD_SUSFS_SET_UNAME :: u64 where "CMD_SUSFS_SET_UNAME \<equiv> 0x55590"
abbreviation CMD_SUSFS_ENABLE_LOG :: u64 where "CMD_SUSFS_ENABLE_LOG \<equiv> 0x555a0"
abbreviation CMD_SUSFS_SET_CMDLINE_OR_BOOTCONFIG :: u64 where
  "CMD_SUSFS_SET_CMDLINE_OR_BOOTCONFIG \<equiv> 0x555b0"
abbreviation CMD_SUSFS_ADD_OPEN_REDIRECT :: u64 where "CMD_SUSFS_ADD_OPEN_REDIRECT \<equiv> 0x555c0"
abbreviation CMD_SUSFS_RUN_UMOUNT_FOR_CURRENT_MNT_NS :: u64 where
  "CMD_SUSFS_RUN_UMOUNT_FOR_CURRENT_MNT_NS \<equiv> 0x555d0"
abbreviation CMD_SUSFS_SHOW_VERSION :: u64 where "CMD_SUSFS_SHOW_VERSION \<equiv> 0x555e1"
abbreviation CMD_SUSFS_SHOW_ENABLED_FEATURES :: u64 where "CMD_SUSFS_SHOW_ENABLED_FEATURES \<equiv> 0x555e2"
abbreviation CMD_SUSFS_SHOW_VARIANT :: u64 where "CMD_SUSFS_SHOW_VARIANT \<equiv> 0x555e3"

datatype udata = UInt int | UWord u32 | UBool bool | UWords "u32 list" | UString string
  | UFeatures u64 | UProfile app_profile

datatype event = EvPostFsData | EvNukeExt4 | EvSucompatInit | EvSucompatExit | EvRunTryUmount
  | EvSepolicy uaddr | EvSafeMode

text \<open>The \<open>CONFIG_KSU_SUSFS_*\<close> switches in the order of the feature word.\<close>

record susfs_kconfig =
  cfg_sus_path :: bool
  cfg_sus_mount :: bool
  cfg_auto_add_sus_ksu_default_mount :: bool
  cfg_auto_add_sus_bind_mount :: bool
  cfg_sus_kstat :: bool
  cfg_sus_overlayfs :: bool
  cfg_try_umount :: bool
  cfg_auto_add_try_umount_for_bind_mount :: bool
  cfg_spoof_uname :: bool
  cfg_enable_log :: bool
  cfg_hide_ksu_susfs_symbols :: bool
  cfg_spoof_cmdline_or_bootconfig :: bool
  cfg_open_redirect :: bool
  cfg_sus_su :: bool
  cfg_has_magic_mount :: bool
  cfg_sus_maps :: bool

record ksu_state =
  ks_allow :: allow_state
  ks_manager :: uid_t
  ks_task :: task
  ks_susfs :: susfs_state
  ks_switches :: susfs_switches
  ks_module_mounted :: bool
  ks_su_compat_enabled :: bool
  ks_post_fs_data_lock :: bool
  ks_boot_complete_lock :: bool
  ks_writes :: "(uaddr \<times> udata) list"
  ks_events :: "event list"

text \<open>The kernel, the user's memory and the build. \<open>pe_writable\<close> is where \<open>copy_to_user\<close>
  succeeds; the \<open>pe_*_at\<close> fields are what \<open>copy_from_user\<close> reads there (\<open>None\<close> on a fault).\<close>

record prctl_env =
  pe_writable :: "uaddr \<Rightarrow> bool"
  pe_access_ok :: "uaddr \<Rightarrow> nat \<Rightarrow> bool"
  pe_app_profile_at :: "uaddr \<Rightarrow> app_profile option"
  pe_sus_path_at :: "uaddr \<Rightarrow> st_susfs_sus_path option"
  pe_sus_mount_at :: "uaddr \<Rightarrow> st_susfs_sus_mount option"
  pe_sus_kstat_at :: "uaddr \<Rightarrow> st_susfs_sus_kstat option"
  pe_try_umount_at :: "uaddr \<Rightarrow> st_susfs_try_umount option"
  pe_uname_at :: "uaddr \<Rightarrow> st_susfs_uname option"
  pe_open_redirect_at :: "uaddr \<Rightarrow> st_susfs_open_redirect option"
  pe_string_at :: "uaddr \<Rightarrow> from_user"
  pe_cred :: cred_env
  pe_selinux :: selinux_env
  pe_set :: set_env
  pe_susfs :: susfs_env
  pe_uts :: st_susfs_uname
  pe_safe_mode :: bool
  pe_handle_sepolicy :: "uaddr \<Rightarrow> uaddr \<Rightarrow> int"
  pe_version :: u32
  pe_kconfig :: susfs_kconfig

definition current_uid :: "ksu_state \<Rightarrow> uid_t" where
  "current_uid s = cr_uid (tk_cred (ks_task s))"

text \<open>\<open>copy_to_user\<close>: whether it fails, and the state with the write recorded.\<close>

definition copy_to_user :: "prctl_env \<Rightarrow> uaddr \<Rightarrow> udata \<Rightarrow> ksu_state \<Rightarrow> bool \<times> ksu_state" where
  "copy_to_user pe addr d s =
     (if pe_writable pe addr then (False, s\<lparr>ks_writes := ks_writes s @ [(addr, d)]\<rparr>) else (True, s))"

definition reply :: "prctl_env \<Rightarrow> uaddr \<Rightarrow> ksu_state \<Rightarrow> ksu_state" where
  "reply pe result s = snd (copy_to_user pe result (UWord KERNEL_SU_OPTION) s)"

subsection \<open>The gate\<close>

definition adopt_manager :: "ksu_state \<Rightarrow> ksu_state" where
  "adopt_manager s =
     (let current_uid_val = current_uid s; manager_uid = ksu_get_manager_uid (ks_manager s) in
      if current_uid_val \<noteq> manager_uid \<and> current_uid_val mod 100000 = manager_uid
      then s\<lparr>ks_manager := ksu_set_manager_uid (ks_manager s) current_uid_val\<rparr> else s)"

definition current_is_ksu_domain :: "prctl_env \<Rightarrow> ksu_state \<Rightarrow> bool" where
  "current_is_ksu_domain pe s =
     (case tk_security (ks_task s) of None \<Rightarrow> False
      | Some t \<Rightarrow> ksu_is_ksu_domain (pe_selinux pe) (ts_sid t))"

subsection \<open>Commands of root and the manager\<close>

definition cmd_become_manager :: "prctl_env \<Rightarrow> bool \<Rightarrow> uaddr \<Rightarrow> ksu_state \<Rightarrow> ksu_state" where
  "cmd_become_manager pe from_manager result s = (if from_manager then reply pe result s else s)"

definition cmd_grant_root :: "prctl_env \<Rightarrow> uaddr \<Rightarrow> ksu_state \<Rightarrow> ksu_state option" where
  "cmd_grant_root pe result s =
     (if is_allow_su (current_is_ksu_domain pe s) (ks_manager s) (ks_allow s) (current_uid s) then
        (case ksu_escape_to_root (pe_cred pe) (pe_selinux pe) (ks_allow s) (ks_task s) of
           None \<Rightarrow> None
         | Some t \<Rightarrow> Some (reply pe result (s\<lparr>ks_task := t\<rparr>)))
      else Some s)"

definition cmd_get_version :: "prctl_env \<Rightarrow> uaddr \<Rightarrow> uaddr \<Rightarrow> ksu_state \<Rightarrow> ksu_state" where
  "cmd_get_version pe arg3 arg4 s =
     (let s1 = snd (copy_to_user pe arg3 (UWord (pe_version pe)) s)
      in if arg4 \<noteq> 0 then snd (copy_to_user pe arg4 (UWord 0) s1) else s1)"

definition cmd_get_manager_uid :: "prctl_env \<Rightarrow> uaddr \<Rightarrow> uaddr \<Rightarrow> ksu_state \<Rightarrow> ksu_state" where
  "cmd_get_manager_uid pe arg3 result s =
     reply pe result (snd (copy_to_user pe arg3 (UWord (ksu_get_manager_uid (ks_manager s))) s))"

definition cmd_hook_mode :: "prctl_env \<Rightarrow> uaddr \<Rightarrow> ksu_state \<Rightarrow> ksu_state" where
  "cmd_hook_mode pe arg3 s = snd (copy_to_user pe arg3 (UString ''Manual'') s)"

definition add_event :: "event \<Rightarrow> ksu_state \<Rightarrow> ksu_state" where
  "add_event ev s = s\<lparr>ks_events := ks_events s @ [ev]\<rparr>"

definition cmd_report_event :: "prctl_env \<Rightarrow> bool \<Rightarrow> u64 \<Rightarrow> ksu_state \<Rightarrow> ksu_state" where
  "cmd_report_event pe from_root arg3 s =
     (if \<not> from_root then s
      else if arg3 = EVENT_POST_FS_DATA then
        let s1 = s\<lparr>ks_switches := susfs_on_post_fs_data (se_kern_path (pe_susfs pe)) (ks_switches s)\<rparr>
        in if \<not> ks_post_fs_data_lock s1
           then add_event EvPostFsData (s1\<lparr>ks_post_fs_data_lock := True\<rparr>) else s1
      else if arg3 = EVENT_BOOT_COMPLETED then
        (if \<not> ks_boot_complete_lock s then s\<lparr>ks_boot_complete_lock := True\<rparr> else s)
      else if arg3 = EVENT_MODULE_MOUNTED then
        let s1 = s\<lparr>ks_module_mounted := True\<rparr>
        in if nuke_ext4_sysfs (se_kern_path (pe_susfs pe)) then add_event EvNukeExt4 s1 else s1
      else s)"

definition cmd_set_sepolicy :: "prctl_env \<Rightarrow> bool \<Rightarrow> uaddr \<Rightarrow> uaddr \<Rightarrow> uaddr \<Rightarrow> ksu_state \<Rightarrow> ksu_state" where
  "cmd_set_sepolicy pe from_root arg3 arg4 result s =
     (if \<not> from_root then s
      else let s1 = add_event (EvSepolicy arg4) s in
        if pe_handle_sepolicy pe arg3 arg4 = 0 then reply pe result s1 else s1)"

definition cmd_check_safemode :: "prctl_env \<Rightarrow> uaddr \<Rightarrow> ksu_state \<Rightarrow> ksu_state" where
  "cmd_check_safemode pe result s =
     (let s1 = add_event EvSafeMode s in if pe_safe_mode pe then reply pe result s1 else s1)"

text \<open>\<open>array\<close> has 128 entries and \<open>ksu_get_allow_list\<close> writes without a bound.\<close>

definition cmd_get_list :: "prctl_env \<Rightarrow> bool \<Rightarrow> uaddr \<Rightarrow> uaddr \<Rightarrow> uaddr \<Rightarrow> ksu_state \<Rightarrow> ksu_state option" where
  "cmd_get_list pe allow arg3 arg4 result s =
     (let (success, array, array_length) = ksu_get_allow_list (ks_allow s) allow in
      if array_length > 128 then None
      else if \<not> success then Some s
      else let (fail1, s1) = copy_to_user pe arg4 (UWord (word_of_nat array_length)) s in
        if fail1 then Some s1
        else let (fail2, s2) = copy_to_user pe arg3 (UWords array) s1 in
          Some (if fail2 then s2 else reply pe result s2))"

definition cmd_uid_query :: "prctl_env \<Rightarrow> u64 \<Rightarrow> u64 \<Rightarrow> uaddr \<Rightarrow> uaddr \<Rightarrow> ksu_state \<Rightarrow> ksu_state" where
  "cmd_uid_query pe arg2 arg3 arg4 result s =
     (let target_uid = ucast arg3 :: uid_t;
          allow = (if arg2 = CMD_UID_GRANTED_ROOT
                   then ksu_is_allow_uid (current_is_ksu_domain pe s) (ks_manager s) (ks_allow s) target_uid
                   else if arg2 = CMD_UID_SHOULD_UMOUNT
                   then ksu_uid_should_umount (ks_manager s) (ks_allow s) target_uid
                   else False);
          (fail, s1) = copy_to_user pe arg4 (UBool allow) s
      in if fail then s1 else reply pe result s1)"

subsection \<open>SUSFS commands\<close>

text \<open>The shape of a command that hands the struct at \<open>arg3\<close> to a SUSFS operation and writes its
  result to \<open>arg5\<close>; \<open>size\<close> is the \<open>sizeof\<close> of the struct.\<close>

definition susfs_call ::
  "prctl_env \<Rightarrow> nat \<Rightarrow> uaddr \<Rightarrow> uaddr \<Rightarrow> (susfs_state \<Rightarrow> int \<times> susfs_state) \<Rightarrow> ksu_state \<Rightarrow> ksu_state" where
  "susfs_call pe sz arg3 arg5 f s =
     (if \<not> pe_access_ok pe arg3 sz then s
      else if \<not> pe_access_ok pe arg5 4 then s
      else let (error, su) = f (ks_susfs s)
           in snd (copy_to_user pe arg5 (UInt error) (s\<lparr>ks_susfs := su\<rparr>)))"

definition cmd_susfs_enable_log :: "prctl_env \<Rightarrow> u64 \<Rightarrow> uaddr \<Rightarrow> ksu_state \<Rightarrow> ksu_state" where
  "cmd_susfs_enable_log pe arg3 arg5 s =
     (if arg3 \<noteq> 0 \<and> arg3 \<noteq> 1 then s
      else snd (copy_to_user pe arg5 (UInt 0) (s\<lparr>ks_susfs := susfs_set_log (arg3 \<noteq> 0) (ks_susfs s)\<rparr>)))"

definition susfs_show :: "prctl_env \<Rightarrow> nat \<Rightarrow> udata \<Rightarrow> uaddr \<Rightarrow> uaddr \<Rightarrow> ksu_state \<Rightarrow> ksu_state" where
  "susfs_show pe sz d arg3 arg5 s =
     (if \<not> pe_access_ok pe arg3 sz then s
      else if \<not> pe_access_ok pe arg5 4 then s
      else let (fail, s1) = copy_to_user pe arg3 d s
           in snd (copy_to_user pe arg5 (UInt (if fail then int sz else 0)) s1))"

definition enabled_features :: "susfs_kconfig \<Rightarrow> u64" where
  "enabled_features c =
     fold (\<lambda>(b, n) f. if b then f OR push_bit n 1 else f)
       [(cfg_sus_path c, 0), (cfg_sus_mount c, 1), (cfg_auto_add_sus_ksu_default_mount c, 2),
        (cfg_auto_add_sus_bind_mount c, 3), (cfg_sus_kstat c, 4), (cfg_sus_overlayfs c, 5),
        (cfg_try_umount c, 6), (cfg_auto_add_try_umount_for_bind_mount c, 7), (cfg_spoof_uname c, 8),
        (cfg_enable_log c, 9), (cfg_hide_ksu_susfs_symbols c, 10),
        (cfg_spoof_cmdline_or_bootconfig c, 11), (cfg_open_redirect c, 12), (cfg_sus_su c, 13),
        (cfg_has_magic_mount c, 14), (cfg_sus_maps c, 15)] 0"

text \<open>The block under \<open>current_uid_val == 0\<close>, in two halves: \<open>None\<close> when it falls through to the
  commands of the manager. \<open>CMD_SUSFS_RUN_UMOUNT_FOR_CURRENT_MNT_NS\<close> has no \<open>return\<close>, and falls
  through.\<close>

definition susfs_entry_commands ::
  "prctl_env \<Rightarrow> u64 \<Rightarrow> u64 \<Rightarrow> u64 \<Rightarrow> ksu_state \<Rightarrow> ksu_state option" where
  "susfs_entry_commands pe arg2 arg3 arg5 s =
     (let e = pe_susfs pe in
      if arg2 = CMD_SUSFS_ADD_SUS_PATH then
        Some (susfs_call pe 264 arg3 arg5 (susfs_add_sus_path e (pe_sus_path_at pe arg3)) s)
      else if arg2 = CMD_SUSFS_ADD_SUS_MOUNT then
        Some (susfs_call pe 264 arg3 arg5 (susfs_add_sus_mount e (pe_sus_mount_at pe arg3)) s)
      else if arg2 = CMD_SUSFS_ADD_SUS_KSTAT then
        Some (susfs_call pe 368 arg3 arg5 (susfs_add_sus_kstat e (pe_sus_kstat_at pe arg3)) s)
      else if arg2 = CMD_SUSFS_UPDATE_SUS_KSTAT then
        Some (susfs_call pe 368 arg3 arg5 (susfs_update_sus_kstat e (pe_sus_kstat_at pe arg3)) s)
      else if arg2 = CMD_SUSFS_ADD_SUS_KSTAT_STATICALLY then
        Some (susfs_call pe 368 arg3 arg5 (susfs_add_sus_kstat e (pe_sus_kstat_at pe arg3)) s)
      else if arg2 = CMD_SUSFS_ADD_TRY_UMOUNT then
        Some (susfs_call pe 260 arg3 arg5 (susfs_add_try_umount e (pe_try_umount_at pe arg3)) s)
      else if arg2 = CMD_SUSFS_SET_UNAME then
        Some (susfs_call pe 130 arg3 arg5 (susfs_set_uname (pe_uts pe) (pe_uname_at pe arg3)) s)
      else None)"

definition susfs_setting_commands ::
  "prctl_env \<Rightarrow> u64 \<Rightarrow> u64 \<Rightarrow> u64 \<Rightarrow> ksu_state \<Rightarrow> ksu_state option" where
  "susfs_setting_commands pe arg2 arg3 arg5 s =
     (let e = pe_susfs pe in
      if arg2 = CMD_SUSFS_ENABLE_LOG then Some (cmd_susfs_enable_log pe arg3 arg5 s)
      else if arg2 = CMD_SUSFS_SET_CMDLINE_OR_BOOTCONFIG then
        Some (susfs_call pe SUSFS_FAKE_CMDLINE_OR_BOOTCONFIG_SIZE arg3 arg5
          (susfs_set_cmdline_or_bootconfig (se_alloc e) (pe_string_at pe arg3)) s)
      else if arg2 = CMD_SUSFS_ADD_OPEN_REDIRECT then
        Some (susfs_call pe 520 arg3 arg5 (susfs_add_open_redirect e (pe_open_redirect_at pe arg3)) s)
      else if arg2 = CMD_SUSFS_SHOW_VERSION then
        Some (susfs_show pe 7 (UString ''v1.5.5'') arg3 arg5 s)
      else if arg2 = CMD_SUSFS_SHOW_ENABLED_FEATURES then
        Some (susfs_show pe 8 (UFeatures (enabled_features (pe_kconfig pe))) arg3 arg5 s)
      else if arg2 = CMD_SUSFS_SHOW_VARIANT then
        Some (susfs_show pe 8 (UString ''NON-GKI'') arg3 arg5 s)
      else None)"

definition susfs_commands ::
  "prctl_env \<Rightarrow> u64 \<Rightarrow> u64 \<Rightarrow> u64 \<Rightarrow> ksu_state \<Rightarrow> ksu_state option" where
  "susfs_commands pe arg2 arg3 arg5 s =
     (case susfs_entry_commands pe arg2 arg3 arg5 s of
        Some s1 \<Rightarrow> Some s1 | None \<Rightarrow> susfs_setting_commands pe arg2 arg3 arg5 s)"

subsection \<open>Commands of the manager\<close>

definition cmd_get_app_profile :: "prctl_env \<Rightarrow> uaddr \<Rightarrow> uaddr \<Rightarrow> ksu_state \<Rightarrow> ksu_state" where
  "cmd_get_app_profile pe arg3 result s =
     (case pe_app_profile_at pe arg3 of
        None \<Rightarrow> s
      | Some profile \<Rightarrow>
          let (success, profile') = ksu_get_app_profile profile (ks_allow s) in
          if success then
            let (fail, s1) = copy_to_user pe arg3 (UProfile profile') s
            in if fail then s1 else reply pe result s1
          else s)"

definition cmd_set_app_profile :: "prctl_env \<Rightarrow> uaddr \<Rightarrow> uaddr \<Rightarrow> ksu_state \<Rightarrow> ksu_state" where
  "cmd_set_app_profile pe arg3 result s =
     (case pe_app_profile_at pe arg3 of
        None \<Rightarrow> s
      | Some profile \<Rightarrow>
          let (ok, al) = ksu_set_app_profile (pe_set pe) profile True (ks_allow s);
              s1 = s\<lparr>ks_allow := al\<rparr>
          in if ok then reply pe result s1 else s1)"

definition cmd_is_su_enabled :: "prctl_env \<Rightarrow> uaddr \<Rightarrow> uaddr \<Rightarrow> ksu_state \<Rightarrow> ksu_state" where
  "cmd_is_su_enabled pe arg3 result s =
     (let (fail, s1) = copy_to_user pe arg3 (UBool (ks_su_compat_enabled s)) s
      in if fail then s1 else reply pe result s1)"

definition cmd_enable_su :: "prctl_env \<Rightarrow> u64 \<Rightarrow> uaddr \<Rightarrow> ksu_state \<Rightarrow> ksu_state" where
  "cmd_enable_su pe arg3 result s =
     (let enabled = (arg3 \<noteq> 0) in
      if enabled = ks_su_compat_enabled s then reply pe result s
      else let s1 = add_event (if enabled then EvSucompatInit else EvSucompatExit) s
           in reply pe result (s1\<lparr>ks_su_compat_enabled := enabled\<rparr>))"

definition manager_commands :: "prctl_env \<Rightarrow> u64 \<Rightarrow> u64 \<Rightarrow> uaddr \<Rightarrow> ksu_state \<Rightarrow> ksu_state" where
  "manager_commands pe arg2 arg3 result s =
     (if arg2 = CMD_GET_APP_PROFILE then cmd_get_app_profile pe arg3 result s
      else if arg2 = CMD_SET_APP_PROFILE then cmd_set_app_profile pe arg3 result s
      else if arg2 = CMD_IS_SU_ENABLED then cmd_is_su_enabled pe arg3 result s
      else if arg2 = CMD_ENABLE_SU then cmd_enable_su pe arg3 result s
      else s)"

subsection \<open>The dispatcher\<close>

text \<open>The C function always returns 0; the model is the state it leaves.\<close>

definition ksu_handle_prctl ::
  "prctl_env \<Rightarrow> u32 \<Rightarrow> u64 \<Rightarrow> u64 \<Rightarrow> u64 \<Rightarrow> u64 \<Rightarrow> ksu_state \<Rightarrow> ksu_state option" where
  "ksu_handle_prctl pe option arg2 arg3 arg4 arg5 s0 =
     (if option \<noteq> KERNEL_SU_OPTION then Some s0
      else let current_uid_val = current_uid s0; s = adopt_manager s0;
               from_root = (current_uid s = 0);
               from_manager = ksu_is_manager (ks_manager s) (current_uid s) in
        if \<not> from_root \<and> \<not> from_manager then Some s
        else if arg2 = CMD_BECOME_MANAGER then Some (cmd_become_manager pe from_manager arg5 s)
        else if arg2 = CMD_GRANT_ROOT then cmd_grant_root pe arg5 s
        else if arg2 = CMD_GET_VERSION then Some (cmd_get_version pe arg3 arg4 s)
        else if arg2 = CMD_GET_MANAGER_UID then Some (cmd_get_manager_uid pe arg3 arg5 s)
        else if arg2 = CMD_HOOK_MODE then Some (cmd_hook_mode pe arg3 s)
        else if arg2 = CMD_REPORT_EVENT then Some (cmd_report_event pe from_root arg3 s)
        else if arg2 = CMD_SET_SEPOLICY then Some (cmd_set_sepolicy pe from_root arg3 arg4 arg5 s)
        else if arg2 = CMD_CHECK_SAFEMODE then Some (cmd_check_safemode pe arg5 s)
        else if arg2 = CMD_GET_ALLOW_LIST \<or> arg2 = CMD_GET_DENY_LIST then
          cmd_get_list pe (arg2 = CMD_GET_ALLOW_LIST) arg3 arg4 arg5 s
        else if arg2 = CMD_UID_GRANTED_ROOT \<or> arg2 = CMD_UID_SHOULD_UMOUNT then
          Some (cmd_uid_query pe arg2 arg3 arg4 arg5 s)
        else let s1 = (if current_uid_val = 0 \<and> arg2 = CMD_SUSFS_RUN_UMOUNT_FOR_CURRENT_MNT_NS
                       then add_event EvRunTryUmount s else s) in
          (case if current_uid_val = 0 then susfs_commands pe arg2 arg3 arg5 s1 else None of
             Some s2 \<Rightarrow> Some s2
           | None \<Rightarrow>
               Some (if \<not> from_manager then s1 else manager_commands pe arg2 arg3 arg5 s1)))"

definition ksu_task_prctl ::
  "prctl_env \<Rightarrow> u32 \<Rightarrow> u64 \<Rightarrow> u64 \<Rightarrow> u64 \<Rightarrow> u64 \<Rightarrow> ksu_state \<Rightarrow> (int \<times> ksu_state) option" where
  "ksu_task_prctl pe option arg2 arg3 arg4 arg5 s =
     map_option (\<lambda>s'. (- ENOSYS, s')) (ksu_handle_prctl pe option arg2 arg3 arg4 arg5 s)"

end
