(* ===== verification/Core_Props.thy ===== *)
theory Core_Props
  imports Core_Prctl
begin

text \<open>
  The properties of the \<open>prctl\<close> dispatcher: who passes the gate, how a manager is adopted,
  which callers can change which part of the driver, and the bound of the list commands.
\<close>

named_theorems prctl_frame \<open>fields a prctl helper leaves alone\<close>

lemma copy_to_user_frame [prctl_frame]:
  "ks_allow (snd (copy_to_user pe a d s)) = ks_allow s"
  "ks_manager (snd (copy_to_user pe a d s)) = ks_manager s"
  "ks_task (snd (copy_to_user pe a d s)) = ks_task s"
  "ks_susfs (snd (copy_to_user pe a d s)) = ks_susfs s"
  "ks_su_compat_enabled (snd (copy_to_user pe a d s)) = ks_su_compat_enabled s"
  by (simp_all add: copy_to_user_def)

lemma copy_to_user_pair:
  assumes "copy_to_user pe a d s = (f, s')"
  shows "ks_allow s' = ks_allow s" "ks_manager s' = ks_manager s" "ks_task s' = ks_task s"
    "ks_susfs s' = ks_susfs s" "ks_su_compat_enabled s' = ks_su_compat_enabled s"
  using copy_to_user_frame [of pe a d s] assms by simp_all

lemma reply_frame [prctl_frame]:
  "ks_allow (reply pe r s) = ks_allow s" "ks_manager (reply pe r s) = ks_manager s"
  "ks_task (reply pe r s) = ks_task s" "ks_susfs (reply pe r s) = ks_susfs s"
  "ks_su_compat_enabled (reply pe r s) = ks_su_compat_enabled s"
  by (simp_all add: reply_def prctl_frame)

lemma add_event_frame [prctl_frame]:
  "ks_allow (add_event ev s) = ks_allow s" "ks_manager (add_event ev s) = ks_manager s"
  "ks_task (add_event ev s) = ks_task s" "ks_susfs (add_event ev s) = ks_susfs s"
  "ks_su_compat_enabled (add_event ev s) = ks_su_compat_enabled s"
  by (simp_all add: add_event_def)

lemma adopt_manager_frame [prctl_frame]:
  "ks_allow (adopt_manager s) = ks_allow s" "ks_task (adopt_manager s) = ks_task s"
  "ks_susfs (adopt_manager s) = ks_susfs s"
  "ks_su_compat_enabled (adopt_manager s) = ks_su_compat_enabled s"
  "current_uid (adopt_manager s) = current_uid s"
  by (simp_all add: adopt_manager_def Let_def current_uid_def)

text \<open>What a group of commands may change.\<close>

definition same_core :: "ksu_state \<Rightarrow> ksu_state \<Rightarrow> bool" where
  "same_core s s' \<longleftrightarrow> ks_allow s' = ks_allow s \<and> ks_manager s' = ks_manager s \<and>
     ks_task s' = ks_task s \<and> ks_susfs s' = ks_susfs s \<and>
     ks_su_compat_enabled s' = ks_su_compat_enabled s"

lemma same_core_refl [simp]: "same_core s s"
  by (simp add: same_core_def)

lemma same_core_trans: "same_core s s1 \<Longrightarrow> same_core s1 s2 \<Longrightarrow> same_core s s2"
  by (simp add: same_core_def)

lemma same_core_writes:
  "same_core s (snd (copy_to_user pe a d s))" "same_core s (reply pe r s)" "same_core s (add_event ev s)"
  "copy_to_user pe a d s = (f, s') \<Longrightarrow> same_core s s'"
  by (simp_all add: same_core_def prctl_frame copy_to_user_pair)

lemma same_core_after:
  "same_core s s1 \<Longrightarrow> same_core s (snd (copy_to_user pe a d s1))" "same_core s s1 \<Longrightarrow> same_core s (reply pe r s1)"
  "same_core s s1 \<Longrightarrow> same_core s (add_event ev s1)"
  using same_core_trans same_core_writes by blast+

lemma report_event_frame: "same_core s (cmd_report_event pe fr a3 s)"
proof -
  have u: "same_core s (s\<lparr>ks_switches := w\<rparr>)" "same_core s (s\<lparr>ks_switches := w, ks_post_fs_data_lock := b\<rparr>)"
    "same_core s (s\<lparr>ks_boot_complete_lock := b\<rparr>)" "same_core s (s\<lparr>ks_module_mounted := b\<rparr>)" for w b
    by (simp_all add: same_core_def)
  show ?thesis by (simp add: cmd_report_event_def Let_def u same_core_after)
qed

lemma query_commands_frame:
  "same_core s (cmd_become_manager pe fm r s)" "same_core s (cmd_get_version pe a3 a4 s)"
  "same_core s (cmd_get_manager_uid pe a3 r s)" "same_core s (cmd_hook_mode pe a3 s)"
  "same_core s (cmd_report_event pe fr a3 s)" "same_core s (cmd_set_sepolicy pe fr a3 a4 r s)"
  "same_core s (cmd_check_safemode pe r s)" "same_core s (cmd_uid_query pe a2 a3 a4 r s)"
  by (simp_all add: cmd_become_manager_def cmd_get_version_def cmd_get_manager_uid_def cmd_hook_mode_def
      report_event_frame cmd_set_sepolicy_def cmd_check_safemode_def same_core_writes same_core_after Let_def)
    (auto simp: cmd_uid_query_def Let_def same_core_writes same_core_after split: prod.split)

lemma cmd_get_list_frame: "cmd_get_list pe al a3 a4 r s = Some s' \<Longrightarrow> same_core s s'"
  by (auto simp: same_core_def cmd_get_list_def ksu_get_allow_list_def Let_def prctl_frame
      copy_to_user_pair split: prod.splits if_splits)

lemma cmd_get_list_None:
  "cmd_get_list pe al a3 a4 r s = None \<longleftrightarrow>
     length (filter (\<lambda>p. ap_allow_su p = al) (al_list (ks_allow s))) > 128"
proof -
  have "length (get_allow_list_loop al ps) = length (filter (\<lambda>p. ap_allow_su p = al) ps)" for ps
    by (induction ps) auto
  then show ?thesis
    by (simp add: cmd_get_list_def ksu_get_allow_list_def Let_def split: prod.splits)
qed

lemma cmd_grant_root_frame:
  assumes "cmd_grant_root pe r s = Some s'"
  shows "ks_allow s' = ks_allow s \<and> ks_manager s' = ks_manager s \<and> ks_susfs s' = ks_susfs s \<and>
    ks_su_compat_enabled s' = ks_su_compat_enabled s \<and>
    (ks_task s' \<noteq> ks_task s \<longrightarrow>
      is_allow_su (current_is_ksu_domain pe s) (ks_manager s) (ks_allow s) (current_uid s))"
  using assms by (auto simp: cmd_grant_root_def prctl_frame split: if_splits option.splits)

definition same_but_susfs :: "ksu_state \<Rightarrow> ksu_state \<Rightarrow> bool" where
  "same_but_susfs s s' \<longleftrightarrow> ks_allow s' = ks_allow s \<and> ks_manager s' = ks_manager s \<and>
     ks_task s' = ks_task s \<and> ks_su_compat_enabled s' = ks_su_compat_enabled s"

lemma susfs_helpers_frame:
  "same_but_susfs s (susfs_call pe n a3 a5 f s)" "same_but_susfs s (susfs_show pe n d a3 a5 s)"
  "same_but_susfs s (cmd_susfs_enable_log pe a3 a5 s)"
  by (simp_all add: same_but_susfs_def susfs_call_def susfs_show_def cmd_susfs_enable_log_def
      prctl_frame copy_to_user_pair split: prod.splits)

lemma susfs_entry_frame: "susfs_entry_commands pe a2 a3 a5 s = Some s' \<Longrightarrow> same_but_susfs s s'"
  unfolding susfs_entry_commands_def Let_def
  by (simp only: split: if_split_asm)
     (simp_all only: option.simps, (hypsubst, rule susfs_helpers_frame)+)

lemma susfs_setting_frame: "susfs_setting_commands pe a2 a3 a5 s = Some s' \<Longrightarrow> same_but_susfs s s'"
  unfolding susfs_setting_commands_def Let_def
  by (simp only: split: if_split_asm)
     (simp_all only: option.simps, (hypsubst, rule susfs_helpers_frame)+)

lemma susfs_commands_frame: "susfs_commands pe a2 a3 a5 s = Some s' \<Longrightarrow> same_but_susfs s s'"
  by (auto simp: susfs_commands_def split: option.splits dest: susfs_entry_frame susfs_setting_frame)

definition same_but_switch :: "ksu_state \<Rightarrow> ksu_state \<Rightarrow> bool" where
  "same_but_switch s s' \<longleftrightarrow> ks_manager s' = ks_manager s \<and> ks_task s' = ks_task s \<and> ks_susfs s' = ks_susfs s"

lemma manager_helpers_frame:
  "same_but_switch s (cmd_get_app_profile pe a3 r s)" "same_but_switch s (cmd_set_app_profile pe a3 r s)"
  "same_but_switch s (cmd_is_su_enabled pe a3 r s)" "same_but_switch s (cmd_enable_su pe a3 r s)"
  "same_but_switch s s"
  "ks_allow (cmd_get_app_profile pe a3 r s) = ks_allow s"
  "ks_allow (cmd_is_su_enabled pe a3 r s) = ks_allow s" "ks_allow (cmd_enable_su pe a3 r s) = ks_allow s"
  by (simp_all add: same_but_switch_def cmd_get_app_profile_def cmd_set_app_profile_def
      cmd_is_su_enabled_def cmd_enable_su_def Let_def prctl_frame copy_to_user_pair
      split: option.splits prod.splits)

lemma manager_commands_frame:
  "same_but_switch s (manager_commands pe a2 a3 r s)"
  "a2 \<noteq> CMD_SET_APP_PROFILE \<Longrightarrow> ks_allow (manager_commands pe a2 a3 r s) = ks_allow s"
  unfolding manager_commands_def by (simp_all add: manager_helpers_frame)

subsection \<open>The cases of the dispatcher\<close>

definition passes_gate :: "ksu_state \<Rightarrow> bool" where
  "passes_gate s \<longleftrightarrow> current_uid s = 0 \<or> ks_manager s = current_uid s"

lemma prctl_cases:
  assumes "ksu_handle_prctl pe opt a2 a3 a4 a5 s0 = Some s'"
  defines "s \<equiv> adopt_manager s0"
  obtains (ignored) "s' = s0"
  | (refused) "s' = s" "\<not> passes_gate s"
  | (query) "same_core s s'" "passes_gate s"
  | (grant) "a2 = CMD_GRANT_ROOT" "cmd_grant_root pe a5 s = Some s'" "passes_gate s"
  | (susfs) s1 where "current_uid s = 0" "same_core s s1" "same_but_susfs s1 s'"
  | (manager) s1 where "ks_manager s = current_uid s" "same_core s s1"
      "s' = manager_commands pe a2 a3 a5 s1"
proof (cases "opt = KERNEL_SU_OPTION \<and> passes_gate s \<and> a2 \<noteq> CMD_GRANT_ROOT")
  case False
  with assms show ?thesis
    by (auto simp: ksu_handle_prctl_def Let_def passes_gate_def ksu_is_manager_def split: if_splits
        intro: ignored refused grant)
next
  case True
  have cu: "current_uid s0 = current_uid s" by (simp add: s_def prctl_frame)
  let ?s1 = "if current_uid s = 0 \<and> a2 = CMD_SUSFS_RUN_UMOUNT_FOR_CURRENT_MNT_NS
    then add_event EvRunTryUmount s else s"
  let ?sus = "if current_uid s = 0 then susfs_commands pe a2 a3 a5 ?s1 else None"
  have s1: "same_core s ?s1" by (simp add: same_core_def prctl_frame)
  have "same_core s s' \<or> ?sus = Some s' \<or>
      ?sus = None \<and> s' = (if ks_manager s \<noteq> current_uid s then ?s1 else manager_commands pe a2 a3 a5 ?s1)"
    using assms(1) True unfolding ksu_handle_prctl_def Let_def s_def [symmetric] cu
    by (simp only: passes_gate_def ksu_is_manager_def simp_thms if_False if_True split: if_split_asm option.splits)
      (auto simp only: option.simps simp_thms query_commands_frame dest: cmd_get_list_frame)
  then consider (a) "same_core s s'" | (b) "?sus = Some s'"
    | (c) "s' = (if ks_manager s \<noteq> current_uid s then ?s1 else manager_commands pe a2 a3 a5 ?s1)"
    by blast
  then show ?thesis
  proof cases
    case a
    with True show ?thesis by (intro query) simp_all
  next
    case b
    then have "current_uid s = 0" "susfs_commands pe a2 a3 a5 ?s1 = Some s'"
      by (metis option.distinct(1))+
    with s1 show ?thesis by (intro susfs) (auto dest: susfs_commands_frame)
  next
    case c
    show ?thesis
    proof (cases "ks_manager s = current_uid s")
      case mgr: True
      with c s1 show ?thesis by (intro manager) simp_all
    next
      case False
      with c s1 True show ?thesis by (intro query) simp_all
    qed
  qed
qed

lemma prctl_by_manager:
  assumes "current_uid s = ks_manager s"
  shows "ksu_handle_prctl pe KERNEL_SU_OPTION CMD_SET_APP_PROFILE a b r s =
      Some (cmd_set_app_profile pe a r s)"
    and "ksu_handle_prctl pe KERNEL_SU_OPTION CMD_UID_GRANTED_ROOT a b r s =
      Some (cmd_uid_query pe CMD_UID_GRANTED_ROOT a b r s)"
proof -
  have ad: "adopt_manager s = s" using assms by (simp add: adopt_manager_def Let_def kdefs)
  show "ksu_handle_prctl pe KERNEL_SU_OPTION CMD_UID_GRANTED_ROOT a b r s =
      Some (cmd_uid_query pe CMD_UID_GRANTED_ROOT a b r s)"
    using assms by (simp add: ksu_handle_prctl_def ad ksu_is_manager_def)
  show "ksu_handle_prctl pe KERNEL_SU_OPTION CMD_SET_APP_PROFILE a b r s =
      Some (cmd_set_app_profile pe a r s)"
    using assms
    by (simp add: ksu_handle_prctl_def ad ksu_is_manager_def susfs_commands_def susfs_entry_commands_def
        susfs_setting_commands_def manager_commands_def)
qed

subsection \<open>A state for the witnesses\<close>

definition ex_switches :: susfs_switches where
  "ex_switches = \<lparr>sw_umount_zygote_system = False, sw_auto_add_sus_bind_mount = True,
     sw_auto_add_sus_ksu_default_mount = True, sw_auto_add_try_umount_for_bind_mount = True\<rparr>"

definition ex_ksu :: "uid_t \<Rightarrow> uid_t \<Rightarrow> allow_state \<Rightarrow> ksu_state" where
  "ex_ksu manager uid al = \<lparr>ks_allow = al, ks_manager = manager,
     ks_task = ex_task\<lparr>tk_cred := (tk_cred ex_task)\<lparr>cr_uid := uid\<rparr>\<rparr>, ks_susfs = susfs_static,
     ks_switches = ex_switches, ks_module_mounted = False, ks_su_compat_enabled = True,
     ks_post_fs_data_lock = False, ks_boot_complete_lock = False, ks_writes = [], ks_events = []\<rparr>"

definition ex_kconfig :: susfs_kconfig where
  "ex_kconfig = \<lparr>cfg_sus_path = True, cfg_sus_mount = True, cfg_auto_add_sus_ksu_default_mount = True,
     cfg_auto_add_sus_bind_mount = True, cfg_sus_kstat = True, cfg_sus_overlayfs = False,
     cfg_try_umount = True, cfg_auto_add_try_umount_for_bind_mount = True, cfg_spoof_uname = True,
     cfg_enable_log = True, cfg_hide_ksu_susfs_symbols = True, cfg_spoof_cmdline_or_bootconfig = True,
     cfg_open_redirect = True, cfg_sus_su = False, cfg_has_magic_mount = True, cfg_sus_maps = False\<rparr>"

definition ex_prctl :: "app_profile option \<Rightarrow> prctl_env" where
  "ex_prctl p = \<lparr>pe_writable = \<lambda>a. True, pe_access_ok = \<lambda>a n. True, pe_app_profile_at = \<lambda>a. p,
     pe_sus_path_at = \<lambda>a. Some ex_sus_path, pe_sus_mount_at = \<lambda>a. None, pe_sus_kstat_at = \<lambda>a. None,
     pe_try_umount_at = \<lambda>a. None, pe_uname_at = \<lambda>a. None, pe_open_redirect_at = \<lambda>a. None,
     pe_string_at = \<lambda>a. user_fault, pe_cred = ex_cred_env, pe_selinux = ex_selinux_env,
     pe_set = ex_env, pe_susfs = ex_susfs_env, pe_uts = ex_uts ''a'' ''b'', pe_safe_mode = False,
     pe_handle_sepolicy = \<lambda>a b. 0, pe_version = 12000, pe_kconfig = ex_kconfig\<rparr>"

lemma ex_ksu_sel [simp]:
  "current_uid (ex_ksu m u al) = u" "ks_manager (ex_ksu m u al) = m" "ks_allow (ex_ksu m u al) = al"
  "ks_writes (ex_ksu m u al) = []"
  by (simp_all add: ex_ksu_def current_uid_def)

subsection \<open>Properties\<close>

text \<open>The gate: a caller that is neither root, nor the manager, nor the manager's app in
  another user profile changes nothing and gets no reply, whatever the command and its
  arguments.\<close>

theorem prctl_refuses_others:
  assumes "current_uid s \<noteq> 0" and "current_uid s \<noteq> ks_manager s"
    and "current_uid s mod 100000 \<noteq> ks_manager s"
  shows "ksu_handle_prctl pe opt a2 a3 a4 a5 s = Some s"
  using assms by (simp add: ksu_handle_prctl_def adopt_manager_def Let_def kdefs)

theorem prctl_refuses_others_witness:
  "ksu_handle_prctl (ex_prctl None) KERNEL_SU_OPTION CMD_SET_APP_PROFILE 8 8 8 (ex_ksu 10050 10123 ex_init) =
     Some (ex_ksu 10050 10123 ex_init)"
  using prctl_refuses_others [of "ex_ksu 10050 10123 ex_init"] by simp

text \<open>The manager changes only to the same app in another user profile: after any \<open>prctl\<close> the
  manager uid is the old one or the caller's, and in the second case the caller's uid modulo
  100000 is the old manager uid. So without a crowned manager nobody becomes manager this way, and
  a manager uid of a secondary user is never replaced.\<close>

theorem prctl_manager_adoption:
  assumes "ksu_handle_prctl pe opt a2 a3 a4 a5 s = Some s'" and "current_uid s \<noteq> KSU_INVALID_UID"
  shows "(ks_manager s' = ks_manager s \<or>
      ks_manager s' = current_uid s \<and> current_uid s mod 100000 = ks_manager s) \<and>
    (ks_manager s = KSU_INVALID_UID \<or> 100000 \<le> ks_manager s \<longrightarrow> ks_manager s' = ks_manager s)"
proof -
  let ?s = "adopt_manager s"
  have a: "ks_manager ?s = ks_manager s \<or>
      ks_manager ?s = current_uid s \<and> current_uid s mod 100000 = ks_manager s"
    by (auto simp: adopt_manager_def Let_def kdefs)
  have "current_uid s mod 100000 < 100000" by (simp add: word_mod_less_divisor)
  then have "ks_manager s = KSU_INVALID_UID \<or> 100000 \<le> ks_manager s \<Longrightarrow> current_uid s mod 100000 \<noteq> ks_manager s"
    by (auto simp: not_less)
  then have b: "ks_manager s = KSU_INVALID_UID \<or> 100000 \<le> ks_manager s \<Longrightarrow> ks_manager ?s = ks_manager s"
    using a by blast
  from assms(1) have "ks_manager s' = ks_manager s \<or> ks_manager s' = ks_manager ?s"
  proof (cases rule: prctl_cases)
    case (manager s1)
    then show ?thesis
      using manager_commands_frame(1) [of s1 pe a2 a3 a5] by (simp add: same_core_def same_but_switch_def)
  qed (auto simp: same_core_def same_but_susfs_def dest: cmd_grant_root_frame)
  with a b show ?thesis by auto
qed

theorem prctl_manager_adoption_witness:
  "\<exists>s'. ksu_handle_prctl (ex_prctl None) KERNEL_SU_OPTION CMD_BECOME_MANAGER 0 0 8
      (ex_ksu 10050 1010050 ex_init) = Some s' \<and> ks_manager s' = 1010050 \<and>
    1010050 mod 100000 = (10050 :: uid_t)"
proof -
  let ?s = "ex_ksu 10050 1010050 ex_init"
  have "adopt_manager ?s = ex_ksu 1010050 1010050 ex_init"
    by (simp add: adopt_manager_def kdefs) (simp add: ex_ksu_def)
  then obtain s' where p: "ksu_handle_prctl (ex_prctl None) KERNEL_SU_OPTION CMD_BECOME_MANAGER 0 0 8 ?s = Some s'"
    and "s' = reply (ex_prctl None) 8 (ex_ksu 1010050 1010050 ex_init)"
    by (simp add: ksu_handle_prctl_def cmd_become_manager_def kdefs)
  then have "ks_manager s' \<noteq> ks_manager ?s" by (simp add: prctl_frame)
  with prctl_manager_adoption [OF p] p show ?thesis by auto
qed

text \<open>C4. Who may change what: over any \<open>prctl\<close>, the allowlist changes only for the manager and
  \<open>CMD_SET_APP_PROFILE\<close>, the SUSFS state only for root, the su switch only for the manager, and
  the caller's credentials only by \<open>CMD_GRANT_ROOT\<close>, for the manager or for root in the KernelSU
  domain: in this build no other allowed app gets root through \<open>prctl\<close>.\<close>

theorem prctl_privileges:
  assumes "ksu_handle_prctl pe opt a2 a3 a4 a5 s = Some s'"
  shows "(ks_allow s' \<noteq> ks_allow s \<longrightarrow> ks_manager s' = current_uid s \<and> a2 = CMD_SET_APP_PROFILE) \<and>
    (ks_susfs s' \<noteq> ks_susfs s \<longrightarrow> current_uid s = 0) \<and>
    (ks_su_compat_enabled s' \<noteq> ks_su_compat_enabled s \<longrightarrow> ks_manager s' = current_uid s) \<and>
    (ks_task s' \<noteq> ks_task s \<longrightarrow> a2 = CMD_GRANT_ROOT \<and>
      (ks_manager s' = current_uid s \<or> current_uid s = 0 \<and> current_is_ksu_domain pe s))"
  using assms
proof (cases rule: prctl_cases)
  case grant
  have d: "current_is_ksu_domain pe (adopt_manager s) = current_is_ksu_domain pe s"
    by (simp add: current_is_ksu_domain_def prctl_frame)
  from cmd_grant_root_frame [OF grant(2)] grant show ?thesis
    by (auto simp: prctl_frame passes_gate_def is_allow_su_def ksu_is_manager_def ksu_is_allow_uid_def d
        split: if_splits)
next
  case (susfs s1)
  then show ?thesis by (simp add: same_core_def same_but_susfs_def prctl_frame)
next
  case (manager s1)
  then have m: "same_but_switch s1 s'" "a2 \<noteq> CMD_SET_APP_PROFILE \<Longrightarrow> ks_allow s' = ks_allow s1"
    using manager_commands_frame [where s = s1 and pe = pe and ?a2.0 = a2 and ?a3.0 = a3 and r = a5] by simp_all
  with manager show ?thesis
    by (auto simp: same_core_def same_but_switch_def prctl_frame)
qed (simp_all add: same_core_def prctl_frame)

theorem prctl_privileges_witness:
  "\<exists>s'. ksu_handle_prctl (ex_prctl (Some (ex_profile 10123 True))) KERNEL_SU_OPTION CMD_SET_APP_PROFILE 8 0 8
      (ex_ksu 10050 10050 ex_init) = Some s' \<and> ks_allow s' \<noteq> ex_init \<and>
    ks_task s' = ks_task (ex_ksu 10050 10050 ex_init)"
proof -
  let ?s = "ex_ksu 10050 10050 ex_init" and ?pe = "ex_prctl (Some (ex_profile 10123 True))"
  have ad: "adopt_manager ?s = ?s" by (simp add: adopt_manager_def kdefs)
  obtain s' where p: "ksu_handle_prctl ?pe KERNEL_SU_OPTION CMD_SET_APP_PROFILE 8 0 8 ?s = Some s'"
    and s': "s' = cmd_set_app_profile ?pe 8 8 ?s"
    by (simp add: ksu_handle_prctl_def ad kdefs manager_commands_def)
  have "al_list (ks_allow s') \<noteq> al_list ex_init"
  proof -
    obtain r al where k: "ksu_set_app_profile ex_env (ex_profile 10123 True) True ex_init = (r, al)" by fastforce
    have "r" using ex_set_True [of 10123 True True] k by simp
    then have "al_list al = [ex_profile 10123 True]"
      using set_app_profile_list [of ex_env "ex_profile 10123 True" True ex_init al] k
      by (simp add: placed_def override_profile_def)
    then show ?thesis
      by (simp add: s' cmd_set_app_profile_def ex_prctl_def k prctl_frame Let_def)
  qed
  with prctl_privileges [OF p] p show ?thesis by auto
qed

text \<open>The list commands overrun the 128-entry stack array exactly when more than 128
  profiles match: for a caller that passes the gate, \<open>CMD_GET_ALLOW_LIST\<close> (and likewise
  \<open>CMD_GET_DENY_LIST\<close>) goes out of bounds if and only if the allowlist holds more than 128
  matching profiles.\<close>

theorem prctl_list_overrun:
  assumes "current_uid s = 0 \<or> current_uid s = ks_manager s" and "a2 = (if allow then CMD_GET_ALLOW_LIST else CMD_GET_DENY_LIST)"
  shows "ksu_handle_prctl pe KERNEL_SU_OPTION a2 a3 a4 a5 s = None \<longleftrightarrow>
    128 < length (filter (\<lambda>p. ap_allow_su p = allow) (al_list (ks_allow s)))"
proof -
  have g: "current_uid (adopt_manager s) = 0 \<or> ks_manager (adopt_manager s) = current_uid (adopt_manager s)"
    using assms(1) by (auto simp: prctl_frame adopt_manager_def Let_def kdefs)
  have "ksu_handle_prctl pe KERNEL_SU_OPTION a2 a3 a4 a5 s = cmd_get_list pe allow a3 a4 a5 (adopt_manager s)"
    using g assms(2) by (cases allow) (auto simp: ksu_handle_prctl_def Let_def ksu_is_manager_def)
  then show ?thesis by (simp add: cmd_get_list_None prctl_frame)
qed

theorem prctl_list_overrun_witness:
  "ksu_handle_prctl (ex_prctl None) KERNEL_SU_OPTION CMD_GET_ALLOW_LIST 8 8 8
     (ex_ksu 10050 10050 (ex_init\<lparr>al_list := replicate 129 (ex_profile 10123 True)\<rparr>)) = None"
  using prctl_list_overrun [of "ex_ksu 10050 10050 (ex_init\<lparr>al_list := replicate 129 (ex_profile 10123 True)\<rparr>)"
      CMD_GET_ALLOW_LIST True "ex_prctl None" 8 8 8]
  by simp

end
