(* ===== verification/Compat.thy ===== *)
theory Compat
  imports Kprelude
begin

text \<open>
  \<^verbatim>\<open>kernel_compat.c\<close> as the 4.19 build compiles it: the bounded copies of user strings and the
  switch to Android's mount namespace around \<open>filp_open\<close>. \<open>um_strncpy\<close> is the kernel's
  \<open>strncpy_from_user\<close>: with page faults disabled or not, the result and the bytes written, in front of
  what the buffer held.
\<close>

subsection \<open>User strings\<close>

abbreviation EFAULT :: int where "EFAULT \<equiv> 14"

record user_mem =
  um_strncpy :: "bool \<Rightarrow> u64 \<Rightarrow> nat \<Rightarrow> int \<times> cbuf"
  um_access_ok :: "u64 \<Rightarrow> nat \<Rightarrow> bool"

definition strncpy_from_user :: "user_mem \<Rightarrow> bool \<Rightarrow> cbuf \<Rightarrow> u64 \<Rightarrow> nat \<Rightarrow> int \<times> cbuf" where
  "strncpy_from_user um nofault dst addr n =
     (let (ret, bs) = um_strncpy um nofault addr n in (ret, bs @ drop (length bs) dst))"

definition ksu_strncpy_from_user_nofault :: "user_mem \<Rightarrow> cbuf \<Rightarrow> u64 \<Rightarrow> int \<Rightarrow> int \<times> cbuf" where
  "ksu_strncpy_from_user_nofault um dst unsafe_addr n =
     (if n \<le> 0 then (0, dst)
      else let (ret, dst) = strncpy_from_user um True dst unsafe_addr (nat n) in
        if ret \<ge> n then (n, dst[nat (n - 1) := NUL])
        else if ret > 0 then (ret + 1, dst)
        else (ret, dst))"

definition ksu_access_ok :: "user_mem \<Rightarrow> u64 \<Rightarrow> nat \<Rightarrow> bool" where
  "ksu_access_ok um addr n = um_access_ok um addr n"

definition ksu_strncpy_from_user_retry :: "user_mem \<Rightarrow> cbuf \<Rightarrow> u64 \<Rightarrow> int \<Rightarrow> int \<times> cbuf" where
  "ksu_strncpy_from_user_retry um dst unsafe_addr n =
     (let (ret, dst) = ksu_strncpy_from_user_nofault um dst unsafe_addr n in
      if ret \<ge> 0 then (ret, dst)
      else if \<not> ksu_access_ok um unsafe_addr (nat n) then (- EFAULT, dst)
      else strncpy_from_user um False dst unsafe_addr (nat n))"

subsection \<open>Opening files in Android's mount namespace\<close>

text \<open>\<open>'ns\<close> and \<open>'fs\<close> are \<open>nsproxy\<close> and \<open>fs_struct\<close> pointers, \<open>None\<close> for NULL.\<close>

record ('ns, 'fs) ns_fs =
  nf_ns :: "'ns option"
  nf_fs :: "'fs option"

record ('ns, 'fs) compat_state =
  cs_current :: "('ns, 'fs) ns_fs"
  android_context_saved_checked :: bool
  android_context_saved_enabled :: bool
  android_context_saved :: "('ns, 'fs) ns_fs"

definition ksu_save_ns_fs :: "('ns, 'fs) compat_state \<Rightarrow> ('ns, 'fs) ns_fs" where
  "ksu_save_ns_fs s = cs_current s"

definition ksu_load_ns_fs :: "('ns, 'fs) ns_fs \<Rightarrow> ('ns, 'fs) compat_state \<Rightarrow> ('ns, 'fs) compat_state" where
  "ksu_load_ns_fs saved s = s\<lparr>cs_current := saved\<rparr>"

definition ksu_android_ns_fs_check :: "('ns \<Rightarrow> 'mnt) \<Rightarrow> 'mnt \<Rightarrow> ('ns, 'fs) compat_state \<Rightarrow> ('ns, 'fs) compat_state" where
  "ksu_android_ns_fs_check mnt_ns init_mnt_ns s =
     (if android_context_saved_checked s then s
      else let s = s\<lparr>android_context_saved_checked := True\<rparr> in
        case (nf_ns (cs_current s), nf_fs (cs_current s)) of
          (Some ns, Some fs) \<Rightarrow>
            if mnt_ns ns \<noteq> init_mnt_ns
            then s\<lparr>android_context_saved_enabled := True, android_context_saved := ksu_save_ns_fs s\<rparr>
            else s
        | _ \<Rightarrow> s)"

text \<open>\<open>filp_open\<close> is a parameter of the task's namespaces and the name; the result with the state.\<close>

definition ksu_filp_open_compat ::
  "(('ns, 'fs) ns_fs \<Rightarrow> 'a \<Rightarrow> 'f) \<Rightarrow> 'a \<Rightarrow> ('ns, 'fs) compat_state \<Rightarrow> 'f \<times> ('ns, 'fs) compat_state" where
  "ksu_filp_open_compat filp_open args s =
     (if android_context_saved_enabled s then
        let saved = ksu_save_ns_fs s;
            s1 = ksu_load_ns_fs (android_context_saved s) s;
            fp = filp_open (cs_current s1) args
        in (fp, ksu_load_ns_fs saved s1)
      else (filp_open (cs_current s) args, s))"

subsection \<open>Properties\<close>

text \<open>What the kernel documents of \<open>strncpy_from_user\<close>: an error with anything written up to the
  bound, or the length of a string that is stored with its terminator, or the bound itself with that
  many characters and no terminator.\<close>

definition user_string :: "user_mem \<Rightarrow> bool" where
  "user_string um \<longleftrightarrow> (\<forall>nofault addr n. case um_strncpy um nofault addr n of (ret, bs) \<Rightarrow>
     length bs \<le> n \<and>
     (ret < 0 \<or> (\<exists>s. NUL \<notin> set s \<and> ret = int (length s) \<and>
        (length s < n \<and> bs = s @ [NUL] \<or> length s = n \<and> bs = s))))"

lemma user_stringD:
  assumes "user_string um" "um_strncpy um nf addr n = (ret, bs)"
  shows "length bs \<le> n"
    "ret < 0 \<or> (\<exists>s. NUL \<notin> set s \<and> ret = int (length s) \<and>
       (length s < n \<and> bs = s @ [NUL] \<or> length s = n \<and> bs = s))"
proof -
  have "case um_strncpy um nf addr n of (ret, bs) \<Rightarrow>
     length bs \<le> n \<and>
     (ret < 0 \<or> (\<exists>s. NUL \<notin> set s \<and> ret = int (length s) \<and>
        (length s < n \<and> bs = s @ [NUL] \<or> length s = n \<and> bs = s)))"
    using assms(1) unfolding user_string_def by (elim allE)
  then show "length bs \<le> n" "ret < 0 \<or> (\<exists>s. NUL \<notin> set s \<and> ret = int (length s) \<and>
       (length s < n \<and> bs = s @ [NUL] \<or> length s = n \<and> bs = s))"
    unfolding assms(2) prod.case by blast+
qed

lemma user_string_cases:
  assumes "user_string um" "strncpy_from_user um nf dst addr n = (ret, dst')"
  obtains "ret < 0" | s where "NUL \<notin> set s" "ret = int (length s)" "length s < n" "dst' = s @ [NUL] @ drop (Suc (length s)) dst"
  | s where "NUL \<notin> set s" "ret = int n" "length s = n" "dst' = s @ drop n dst"
proof -
  obtain bs where bs: "um_strncpy um nf addr n = (ret, bs)" "dst' = bs @ drop (length bs) dst"
    using assms(2) by (auto simp: strncpy_from_user_def split: prod.splits)
  from user_stringD(2) [OF assms(1) bs(1)] consider "ret < 0"
    | s where "NUL \<notin> set s" "ret = int (length s)" "length s < n" "bs = s @ [NUL]"
    | s where "NUL \<notin> set s" "ret = int (length s)" "length s = n" "bs = s" by blast
  then show ?thesis
  proof cases
    case (2 s)
    then show ?thesis using bs(2) by (intro that(2)) simp_all
  next
    case (3 s)
    then show ?thesis using bs(2) by (intro that(3)) simp_all
  qed (rule that(1))
qed

text \<open>The string \<open>s\<close> lies at \<open>addr\<close>, and the copy (with page faults disabled or not) gets at it.\<close>

definition user_text :: "user_mem \<Rightarrow> bool \<Rightarrow> u64 \<Rightarrow> string \<Rightarrow> bool" where
  "user_text um nofault addr s \<longleftrightarrow> NUL \<notin> set s \<and>
     (\<forall>n. um_strncpy um nofault addr n = (if length s < n then (int (length s), s @ [NUL]) else (int n, take n s)))"

lemma fault_keeps_length:
  assumes "user_string um" "0 < n" "nat n = length dst" "ksu_strncpy_from_user_nofault um dst addr n = (r, d)"
  shows "length d = length dst"
proof -
  note user_stringD(1) [OF assms(1), of True addr "nat n"]
  then show ?thesis
    using assms(2-4)
    by (auto simp: ksu_strncpy_from_user_nofault_def strncpy_from_user_def split: prod.splits if_splits)
qed

lemma nofault_text:
  assumes "user_text um True addr s" "0 < n" "nat n = length dst"
  shows "\<exists>dst'. ksu_strncpy_from_user_nofault um dst addr n =
      (if s = [] then 0 else int (min (length s) (nat n - 1)) + 1, dst') \<and>
    length dst' = length dst \<and> NUL \<in> set dst' \<and> cstr dst' = take (nat n - 1) s"
proof (cases "length s < nat n")
  case True
  then have "um_strncpy um True addr (nat n) = (int (length s), s @ [NUL])" "NUL \<notin> set s" "int (length s) < n"
    using assms(1) by (auto simp: user_text_def)
  then show ?thesis
    using assms(2,3) True
    by (auto simp: ksu_strncpy_from_user_nofault_def strncpy_from_user_def cstr_append_NUL)
next
  case False
  then have u: "um_strncpy um True addr (nat n) = (n, take (nat n) s)" "NUL \<notin> set s"
    using assms(1,2) by (auto simp: user_text_def)
  obtain m where m: "nat n = Suc m" using assms(2) by (cases "nat n") auto
  then have m2: "n = int (Suc m)" using assms(2) by linarith
  have "(take (Suc m) s)[m := NUL] = take m s @ [NUL]"
    using False unfolding m by (simp add: take_Suc_conv_app_nth list_update_append)
  moreover have "NUL \<notin> set (take m s)" using u(2) by (auto dest: in_set_takeD)
  ultimately show ?thesis
    using u assms(3) False m m2
    by (auto simp: ksu_strncpy_from_user_nofault_def strncpy_from_user_def cstr_append_NUL list_update_append)
qed

text \<open>C36. The copy with faults disabled leaves a terminated string whenever it returns a positive
  count, and the count includes the terminator; where the user's string can be read, the buffer then holds
  that string, cut to the bound less one, and the count is that of its characters and the terminator (0
  for the empty string). The retrying copy does not keep this: when the fast copy faults and the slow
  one finds the string, the buffer holds its characters up to the bound, the count leaves the
  terminator out, and the buffer holds a terminator exactly when the string is shorter than the bound,
  so that otherwise the callers' \<open>strcmp\<close> and \<open>strchr\<close> read on behind it.\<close>
theorem user_copy_terminated:
  assumes "user_string um" "0 < n" "nat n = length dst"
  shows "(\<forall>ret dst'. ksu_strncpy_from_user_nofault um dst addr n = (ret, dst') \<and> 0 < ret \<longrightarrow>
      ret \<le> n \<and> length dst' = length dst \<and> NUL \<in> set dst' \<and> ret = int (c_strlen dst') + 1) \<and>
    (\<forall>s. user_text um True addr s \<longrightarrow>
      (\<exists>dst'. ksu_strncpy_from_user_nofault um dst addr n =
          (if s = [] then 0 else int (min (length s) (nat n - 1)) + 1, dst') \<and>
        ksu_strncpy_from_user_retry um dst addr n = ksu_strncpy_from_user_nofault um dst addr n \<and>
        length dst' = length dst \<and> NUL \<in> set dst' \<and> cstr dst' = take (nat n - 1) s)) \<and>
    (\<forall>s. fst (ksu_strncpy_from_user_nofault um dst addr n) < 0 \<and> ksu_access_ok um addr (nat n) \<and>
        user_text um False addr s \<longrightarrow>
      (\<exists>dst'. ksu_strncpy_from_user_retry um dst addr n = (int (min (length s) (nat n)), dst') \<and>
        length dst' = length dst \<and> take (min (length s) (nat n)) dst' = take (nat n) s \<and>
        (NUL \<in> set dst' \<longleftrightarrow> length s < nat n)))"
proof (intro conjI allI impI)
  fix ret dst'
  assume a: "ksu_strncpy_from_user_nofault um dst addr n = (ret, dst') \<and> 0 < ret"
  obtain r d where r: "strncpy_from_user um True dst addr (nat n) = (r, d)" by fastforce
  have "ret \<le> n \<and> length dst' = length dst \<and> NUL \<in> set dst' \<and> ret = int (c_strlen dst') + 1"
    using assms(1) r
  proof (cases rule: user_string_cases)
    case 1
    then show ?thesis using a r assms(2) by (simp add: ksu_strncpy_from_user_nofault_def)
  next
    case (2 s)
    then show ?thesis using a r assms(2,3)
      by (auto simp: ksu_strncpy_from_user_nofault_def c_strlen_def cstr_append_NUL split: if_splits)
  next
    case (3 s)
    then have "ret = n \<and> dst' = (s @ drop (nat n) dst)[nat (n - 1) := NUL]"
      using a r assms(2) by (auto simp: ksu_strncpy_from_user_nofault_def)
    moreover obtain s0 c where "s = s0 @ [c]" "length s0 = nat (n - 1)"
      using 3(3) assms(2) by (cases s rule: rev_cases) auto
    ultimately show ?thesis using 3 assms(2,3) by (auto simp: c_strlen_def cstr_append_NUL list_update_append)
  qed
  then show "ret \<le> n" "length dst' = length dst" "NUL \<in> set dst'" "ret = int (c_strlen dst') + 1" by blast+
next
  fix s
  assume t: "user_text um True addr s"
  show "\<exists>dst'. ksu_strncpy_from_user_nofault um dst addr n =
          (if s = [] then 0 else int (min (length s) (nat n - 1)) + 1, dst') \<and>
        ksu_strncpy_from_user_retry um dst addr n = ksu_strncpy_from_user_nofault um dst addr n \<and>
        length dst' = length dst \<and> NUL \<in> set dst' \<and> cstr dst' = take (nat n - 1) s"
    using nofault_text [OF t assms(2,3)] by (auto simp: ksu_strncpy_from_user_retry_def)
next
  fix s
  assume a: "fst (ksu_strncpy_from_user_nofault um dst addr n) < 0 \<and> ksu_access_ok um addr (nat n) \<and>
      user_text um False addr s"
  obtain r d where f: "ksu_strncpy_from_user_nofault um dst addr n = (r, d)" by fastforce
  have d: "length d = nat n" using fault_keeps_length [OF assms f] assms(3) by simp
  have "ksu_strncpy_from_user_retry um dst addr n = strncpy_from_user um False d addr (nat n)"
    using a f by (simp add: ksu_strncpy_from_user_retry_def)
  moreover have "NUL \<notin> set s" "NUL \<notin> set (take (nat n) s)" using a by (auto simp: user_text_def dest: in_set_takeD)
  moreover have "um_strncpy um False addr (nat n) =
      (if length s < nat n then (int (length s), s @ [NUL]) else (int (nat n), take (nat n) s))"
    using a by (simp add: user_text_def)
  ultimately show "\<exists>dst'. ksu_strncpy_from_user_retry um dst addr n = (int (min (length s) (nat n)), dst') \<and>
        length dst' = length dst \<and> take (min (length s) (nat n)) dst' = take (nat n) s \<and>
        (NUL \<in> set dst' \<longleftrightarrow> length s < nat n)"
    using d assms(3) by (auto simp: strncpy_from_user_def)
qed

text \<open>A reader that faults in the fast copy and then finds a string as long as the buffer.\<close>

definition ex_user_mem :: user_mem where
  "ex_user_mem = \<lparr>um_strncpy = (\<lambda>nofault addr n. if nofault \<and> addr = 0 then (- EFAULT, [])
     else if 40 < n then (40, replicate 40 CHR ''a'' @ [NUL]) else (int n, replicate n CHR ''a'')), um_access_ok = (\<lambda>addr n. True)\<rparr>"

lemma ex_user_string: "user_string ex_user_mem"
proof -
  have "\<exists>s. NUL \<notin> set s \<and> int n = int (length s) \<and>
        (length s < n \<and> replicate n CHR ''a'' = s @ [NUL] \<or> length s = n \<and> replicate n CHR ''a'' = s)" for n
    by (intro exI [of _ "replicate n CHR ''a''"]) simp
  moreover have "\<exists>s. NUL \<notin> set s \<and> (40 :: int) = int (length s) \<and>
        (length s < n \<and> replicate 40 CHR ''a'' @ [NUL] = s @ [NUL] \<or> length s = n \<and> replicate 40 CHR ''a'' @ [NUL] = s)"
    if "40 < n" for n
    using that by (intro exI [of _ "replicate 40 CHR ''a''"]) simp
  ultimately show ?thesis by (simp add: user_string_def ex_user_mem_def)
qed

lemma user_copy_terminated_witness:
  "fst (ksu_strncpy_from_user_retry ex_user_mem (replicate 16 NUL) 0 16) = 16 \<and>
   NUL \<notin> set (snd (ksu_strncpy_from_user_retry ex_user_mem (replicate 16 NUL) 0 16)) \<and>
   cstr (snd (ksu_strncpy_from_user_nofault ex_user_mem (replicate 16 NUL) 1 16)) = replicate 15 CHR ''a''"
proof -
  have t: "user_text ex_user_mem False 0 (replicate 40 CHR ''a'')" "user_text ex_user_mem True 1 (replicate 40 CHR ''a'')"
    by (simp_all add: user_text_def ex_user_mem_def min_def)
  have "fst (ksu_strncpy_from_user_nofault ex_user_mem (replicate 16 NUL) 0 16) < 0"
    "ksu_access_ok ex_user_mem 0 16"
    by (simp_all add: ksu_strncpy_from_user_nofault_def strncpy_from_user_def ex_user_mem_def ksu_access_ok_def)
  then show ?thesis
    using user_copy_terminated [OF ex_user_string, of 16 "replicate 16 NUL" 0]
      user_copy_terminated [OF ex_user_string, of 16 "replicate 16 NUL" 1] t
    by (auto simp: prod_eq_iff)
qed

text \<open>Opening a file leaves the task's namespaces as they were, and once Android's context has been
  saved every file is opened in it, whatever namespace the caller is in.\<close>
lemma filp_open_keeps_namespace:
  shows "cs_current (snd (ksu_filp_open_compat filp_open args s)) = cs_current s \<and>
    fst (ksu_filp_open_compat filp_open args s) =
      filp_open (if android_context_saved_enabled s then android_context_saved s else cs_current s) args \<and>
    android_context_saved_enabled (snd (ksu_filp_open_compat filp_open args s)) = android_context_saved_enabled s"
  by (simp add: ksu_filp_open_compat_def ksu_load_ns_fs_def ksu_save_ns_fs_def Let_def)

end
