(* ===== verification/Sucompat.thy ===== *)
theory Sucompat
  imports Compat Core_Cred "HOL-Library.Sublist"
begin

text \<open>
  \<^verbatim>\<open>sucompat.c\<close>: the hooks that let an allowed app run \<^verbatim>\<open>su\<close>. \<open>access\<close> and \<open>stat\<close> of
  /system/bin/su are answered for the shell; executing it runs ksud with the app's root profile. A
  user pointer is an address, 0 for NULL; what is written below the user's stack pointer is logged.
\<close>

subsection \<open>State\<close>

definition SU_PATH :: string where "SU_PATH = ''/system/bin/su''"
definition SH_PATH :: string where "SH_PATH = ''/system/bin/sh''"
definition KSUD_PATH :: string where "KSUD_PATH = ''/data/adb/ksud''"

record sucompat_env =
  su_um :: user_mem
  su_stack_pointer :: uaddr
  su_writable :: "uaddr \<Rightarrow> nat \<Rightarrow> bool"
  su_cred :: cred_env
  su_selinux :: selinux_env
  su_is_ksu_domain :: bool
  su_manager :: uid_t
  su_allow :: allow_state

record sucompat =
  ksu_sucompat_non_kp :: bool
  su_task :: task
  su_user_writes :: "(uaddr \<times> cbuf) list"

definition su_uid :: "sucompat \<Rightarrow> uid_t" where
  "su_uid st = cr_uid (tk_cred (su_task st))"

definition su_allowed :: "sucompat_env \<Rightarrow> sucompat \<Rightarrow> bool" where
  "su_allowed e st = ksu_is_allow_uid (su_is_ksu_domain e) (su_manager e) (su_allow e) (su_uid st)"

definition ksu_sucompat_init :: "sucompat \<Rightarrow> sucompat" where
  "ksu_sucompat_init st = st\<lparr>ksu_sucompat_non_kp := True\<rparr>"

definition ksu_sucompat_exit :: "sucompat \<Rightarrow> sucompat" where
  "ksu_sucompat_exit st = st\<lparr>ksu_sucompat_non_kp := False\<rparr>"

subsection \<open>Strings below the user's stack pointer\<close>

definition userspace_stack_buffer :: "sucompat_env \<Rightarrow> cbuf \<Rightarrow> sucompat \<Rightarrow> uaddr \<times> sucompat" where
  "userspace_stack_buffer e d st =
     (let p = su_stack_pointer e - word_of_nat (length d) in
      if \<not> su_writable e p (length d) then (0, st)
      else (p, st\<lparr>su_user_writes := su_user_writes st @ [(p, d)]\<rparr>))"

definition sh_user_path :: "sucompat_env \<Rightarrow> sucompat \<Rightarrow> uaddr \<times> sucompat" where
  "sh_user_path e st = userspace_stack_buffer e (SH_PATH @ [NUL]) st"

definition ksud_user_path :: "sucompat_env \<Rightarrow> sucompat \<Rightarrow> uaddr \<times> sucompat" where
  "ksud_user_path e st = userspace_stack_buffer e (KSUD_PATH @ [NUL]) st"

subsection \<open>The hooks\<close>

definition memcmp_eq :: "cbuf \<Rightarrow> cbuf \<Rightarrow> nat \<Rightarrow> bool" where
  "memcmp_eq a b n \<longleftrightarrow> take n a = take n b"

definition ksu_handle_faccessat :: "sucompat_env \<Rightarrow> uaddr \<Rightarrow> sucompat \<Rightarrow> uaddr \<times> sucompat" where
  "ksu_handle_faccessat e filename_user st =
     (if \<not> ksu_sucompat_non_kp st then (filename_user, st)
      else if \<not> su_allowed e st then (filename_user, st)
      else let (_, path) = ksu_strncpy_from_user_nofault (su_um e) (replicate 16 NUL) filename_user 16 in
        if memcmp_eq path (SU_PATH @ [NUL]) 15 then sh_user_path e st else (filename_user, st))"

text \<open>\<open>None\<close> is a NULL \<open>filename_user\<close>.\<close>

definition ksu_handle_stat :: "sucompat_env \<Rightarrow> uaddr option \<Rightarrow> sucompat \<Rightarrow> uaddr option \<times> sucompat" where
  "ksu_handle_stat e filename_user st =
     (if \<not> ksu_sucompat_non_kp st then (filename_user, st)
      else if \<not> su_allowed e st then (filename_user, st)
      else case filename_user of
        None \<Rightarrow> (None, st)
      | Some addr \<Rightarrow>
          let (_, path) = ksu_strncpy_from_user_nofault (su_um e) (replicate 16 NUL) addr 16 in
          if memcmp_eq path (SU_PATH @ [NUL]) 15
          then (let (p, st') = sh_user_path e st in (Some p, st')) else (Some addr, st))"

text \<open>What \<open>*filename_ptr\<close> is: the pointer NULL, an \<open>ERR_PTR\<close>, or a name in its buffer. The result
  \<open>None\<close> is the access out of bounds of \<open>setup_groups\<close>.\<close>

datatype filename_arg = FNull | FErr | FName cbuf

definition escape :: "sucompat_env \<Rightarrow> sucompat \<Rightarrow> sucompat option" where
  "escape e st =
     map_option (\<lambda>t. st\<lparr>su_task := t\<rparr>) (ksu_escape_to_root (su_cred e) (su_selinux e) (su_allow e) (su_task st))"

definition ksu_handle_execveat_sucompat ::
  "sucompat_env \<Rightarrow> filename_arg \<Rightarrow> sucompat \<Rightarrow> (filename_arg \<times> sucompat) option" where
  "ksu_handle_execveat_sucompat e filename_ptr st =
     (if \<not> ksu_sucompat_non_kp st then Some (filename_ptr, st)
      else case filename_ptr of
        FNull \<Rightarrow> Some (FNull, st)
      | FErr \<Rightarrow> Some (FErr, st)
      | FName name \<Rightarrow>
          if \<not> memcmp_eq name (SU_PATH @ [NUL]) 15 \<and>
             (let n = c_strlen name in n < 3 \<or> \<not> memcmp_eq (drop (n - 3) name) (''/su'' @ [NUL]) 4)
          then Some (FName name, st)
          else if \<not> su_allowed e st then Some (FName name, st)
          else map_option (Pair (FName (KSUD_PATH @ [NUL] @ drop 15 name))) (escape e st))"

definition ksu_handle_execve_sucompat ::
  "sucompat_env \<Rightarrow> uaddr option \<Rightarrow> sucompat \<Rightarrow> (uaddr option \<times> sucompat) option" where
  "ksu_handle_execve_sucompat e filename_user st =
     (if \<not> ksu_sucompat_non_kp st then Some (filename_user, st)
      else case filename_user of
        None \<Rightarrow> Some (None, st)
      | Some addr \<Rightarrow>
          let (_, path) = ksu_strncpy_from_user_retry (su_um e) (replicate 16 NUL) addr 16 in
          if \<not> memcmp_eq path (SU_PATH @ [NUL]) 15 then Some (Some addr, st)
          else if \<not> su_allowed e st then Some (Some addr, st)
          else let (p, st') = ksud_user_path e st in map_option (Pair (Some p)) (escape e st'))"

text \<open>The sid of the inode's security blob (\<open>None\<close> if it has none), with \<open>current->mm\<close>.\<close>

definition ksu_handle_devpts :: "sucompat_env \<Rightarrow> u32 \<Rightarrow> bool \<Rightarrow> u32 option \<Rightarrow> sucompat \<Rightarrow> u32 option" where
  "ksu_handle_devpts e ksu_devpts_sid has_mm sec st =
     (if \<not> ksu_sucompat_non_kp st then sec
      else if \<not> has_mm then sec
      else let uid = su_uid st in
        if uid mod 100000 < 10000 then sec
        else if \<not> ksu_is_allow_uid (su_is_ksu_domain e) (su_manager e) (su_allow e) uid then sec
        else if ksu_devpts_sid \<noteq> 0 then map_option (\<lambda>_. ksu_devpts_sid) sec
        else sec)"

subsection \<open>Properties\<close>

lemma cstr_split:
  assumes "NUL \<in> set b"
  obtains t where "b = cstr b @ NUL # t"
proof -
  let ?d = "dropWhile (\<lambda>c. c \<noteq> NUL) b"
  have ne: "?d \<noteq> []" using assms by (auto simp: dropWhile_eq_Nil_conv)
  then have "?d = NUL # tl ?d" using hd_dropWhile [OF ne] by (cases ?d) auto
  then have "b = cstr b @ NUL # tl ?d" unfolding cstr_def by (metis takeWhile_dropWhile_id)
  then show ?thesis by (rule that)
qed

lemma memcmp_cstr:
  assumes "NUL \<notin> set s" "NUL \<in> set b"
  shows "memcmp_eq b (s @ [NUL]) (length s + 1) \<longleftrightarrow> cstr b = s"
proof
  assume "memcmp_eq b (s @ [NUL]) (length s + 1)"
  then have "take (length s + 1) b = s @ [NUL]" by (simp add: memcmp_eq_def)
  then have "b = (s @ [NUL]) @ drop (length s + 1) b" by (metis append_take_drop_id)
  then show "cstr b = s" using assms(1) by (metis append.assoc append_Cons append_Nil cstr_append_NUL)
next
  assume c: "cstr b = s"
  obtain t where "b = cstr b @ NUL # t" using assms(2) by (rule cstr_split)
  then have "b = s @ NUL # t" using c by simp
  then show "memcmp_eq b (s @ [NUL]) (length s + 1)" by (simp add: memcmp_eq_def)
qed

lemma su_consts: "NUL \<notin> set SU_PATH" "length SU_PATH = 14" "suffix ''/su'' SU_PATH" "NUL \<notin> set KSUD_PATH" "length KSUD_PATH = 14"
  "NUL \<notin> set SH_PATH"
  by (simp_all add: SU_PATH_def KSUD_PATH_def SH_PATH_def suffix_def)

lemma memcmp_su: "NUL \<in> set b \<Longrightarrow> memcmp_eq b (SU_PATH @ [NUL]) 15 \<longleftrightarrow> cstr b = SU_PATH"
  using memcmp_cstr [OF su_consts(1), of b] su_consts(2) by simp

lemma memcmp_tail:
  assumes "NUL \<in> set b" "3 \<le> c_strlen b"
  shows "memcmp_eq (drop (c_strlen b - 3) b) (''/su'' @ [NUL]) 4 \<longleftrightarrow> suffix ''/su'' (cstr b)"
proof -
  let ?n = "c_strlen b - 3"
  have "NUL \<notin> set (take ?n b)"
  proof -
    obtain t where "b = cstr b @ NUL # t" using assms(1) by (rule cstr_split)
    then have "take ?n b = take ?n (cstr b)" by (metis c_strlen_def diff_le_self take_append take_eq_Nil append_Nil2 diff_is_0_eq)
    then show ?thesis by simp
  qed
  then have "NUL \<in> set (drop ?n b)" using assms(1) by (metis append_take_drop_id Un_iff set_append)
  then have "memcmp_eq (drop ?n b) (''/su'' @ [NUL]) 4 \<longleftrightarrow> cstr (drop ?n b) = ''/su''"
    using memcmp_cstr [of "''/su''" "drop ?n b"] by (simp add: eval_nat_numeral)
  also have "cstr (drop ?n b) = drop ?n (cstr b)" by (rule cstr_drop) (simp add: c_strlen_def)
  also have "drop ?n (cstr b) = ''/su'' \<longleftrightarrow> suffix ''/su'' (cstr b)"
    using assms(2) by (auto simp: c_strlen_def suffix_def) (metis append_take_drop_id)
  finally show ?thesis .
qed

text \<open>What both comparisons of the execve hook recognise together.\<close>

lemma su_name_recognised:
  assumes "NUL \<in> set name"
  shows "\<not> memcmp_eq name (SU_PATH @ [NUL]) 15 \<and>
      (let n = c_strlen name in n < 3 \<or> \<not> memcmp_eq (drop (n - 3) name) (''/su'' @ [NUL]) 4) \<longleftrightarrow>
    \<not> suffix ''/su'' (cstr name)"
proof (cases "c_strlen name < 3")
  case True
  then have "\<not> suffix ''/su'' (cstr name)" by (auto simp: suffix_def c_strlen_def)
  moreover have "cstr name \<noteq> SU_PATH" using True su_consts(2) by (auto simp: c_strlen_def)
  ultimately show ?thesis using True memcmp_su [OF assms] by simp
next
  case False
  then show ?thesis using memcmp_su [OF assms] memcmp_tail [OF assms] su_consts(3) by (auto simp: Let_def not_less)
qed

lemma execve_by_name:
  assumes "NUL \<in> set name"
  shows "ksu_handle_execveat_sucompat e (FName name) st =
    (if ksu_sucompat_non_kp st \<and> suffix ''/su'' (cstr name) \<and> su_allowed e st
     then map_option (Pair (FName (KSUD_PATH @ [NUL] @ drop 15 name))) (escape e st)
     else Some (FName name, st))"
  unfolding ksu_handle_execveat_sucompat_def filename_arg.case su_name_recognised [OF assms] by simp

text \<open>C13. Executing a file runs ksud with the caller's root profile exactly when the hooks are on, the
  caller is allowed root and the path ends in \<^verbatim>\<open>/su\<close>, whatever directory it names: the name becomes
  that of ksud, padded as the buffer was, and the task's credentials those of
  \<open>ksu_escape_to_root\<close>; otherwise name and credentials stay as they are.\<close>
theorem execve_su_runs_ksud:
  assumes "NUL \<in> set name"
  shows "ksu_handle_execveat_sucompat e (FName name) st =
    (if ksu_sucompat_non_kp st \<and> su_allowed e st \<and> suffix ''/su'' (cstr name)
     then map_option (\<lambda>t. (FName (KSUD_PATH @ [NUL] @ drop 15 name), st\<lparr>su_task := t\<rparr>))
       (ksu_escape_to_root (su_cred e) (su_selinux e) (su_allow e) (su_task st))
     else Some (FName name, st))"
  by (simp add: execve_by_name [OF assms] escape_def option.map_comp comp_def)

text \<open>\<open>access\<close> and \<open>stat\<close> treat a path in the same way and never touch credentials: for an allowed
  caller /system/bin/su, and only that string, is replaced.\<close>

definition user_path :: "user_mem \<Rightarrow> uaddr \<Rightarrow> string \<Rightarrow> bool" where
  "user_path um addr s \<longleftrightarrow> NUL \<notin> set s \<and>
     (\<forall>nf n. um_strncpy um nf addr n = (if length s < n then (int (length s), s @ [NUL]) else (int n, take n s)))"

lemma path_copied:
  assumes "user_path um addr s"
  shows "\<exists>r b. ksu_strncpy_from_user_nofault um (replicate 16 NUL) addr 16 = (r, b) \<and> 0 \<le> r \<and> NUL \<in> set b \<and>
    cstr b = take 15 s"
proof (cases "length s < 16")
  case True
  then have "take 15 s = s" "NUL \<notin> set s" using assms by (auto simp: user_path_def)
  then show ?thesis
    using assms True
    by (auto simp: user_path_def ksu_strncpy_from_user_nofault_def strncpy_from_user_def cstr_append_NUL)
next
  case False
  have n: "NUL \<notin> set (take 15 s)" using assms by (auto simp: user_path_def dest: in_set_takeD)
  have "take 16 s = take 15 s @ [s ! 15]" using False take_Suc_conv_app_nth [of 15 s] by simp
  then have "(take 16 s)[15 := NUL] = take 15 s @ [NUL]" using False by (simp add: list_update_append)
  then show ?thesis
    using assms False n
    by (auto simp: user_path_def ksu_strncpy_from_user_nofault_def strncpy_from_user_def cstr_append_NUL)
qed

text \<open>For a caller allowed root with the hooks on, \<open>access\<close> and \<open>stat\<close> of exactly /system/bin/su are
  redirected to a copy of /system/bin/sh written below the user's stack pointer (or to NULL if that
  memory cannot be written); every other path, and every path of other callers, passes through. Both
  hooks decide alike and leave the task alone.\<close>
theorem access_and_stat_show_sh:
  assumes "user_path (su_um e) addr s"
  defines "p \<equiv> su_stack_pointer e - 15"
  shows "ksu_handle_faccessat e addr st =
      (if ksu_sucompat_non_kp st \<and> su_allowed e st \<and> s = SU_PATH
       then if su_writable e p 15 then (p, st\<lparr>su_user_writes := su_user_writes st @ [(p, SH_PATH @ [NUL])]\<rparr>) else (0, st)
       else (addr, st)) \<and>
    ksu_handle_stat e (Some addr) st =
      (Some (fst (ksu_handle_faccessat e addr st)), snd (ksu_handle_faccessat e addr st)) \<and>
    su_task (snd (ksu_handle_faccessat e addr st)) = su_task st"
proof -
  obtain r b where b: "ksu_strncpy_from_user_nofault (su_um e) (replicate 16 NUL) addr 16 = (r, b)" "NUL \<in> set b"
    "cstr b = take 15 s" using path_copied [OF assms(1)] by blast
  have "take 15 s = SU_PATH \<longleftrightarrow> s = SU_PATH"
    using su_consts(2) by (metis Suc_n_not_le_n eval_nat_numeral(3) length_take min_def take_all nle_le numeral_le_iff)
  then have "memcmp_eq b (SU_PATH @ [NUL]) 15 \<longleftrightarrow> s = SU_PATH" using memcmp_su [OF b(2)] b(3) by simp
  moreover have "sh_user_path e st =
      (if su_writable e p 15 then (p, st\<lparr>su_user_writes := su_user_writes st @ [(p, SH_PATH @ [NUL])]\<rparr>) else (0, st))" for st
  proof -
    have "length (SH_PATH @ [NUL]) = 15" by (simp add: SH_PATH_def)
    then show ?thesis unfolding sh_user_path_def userspace_stack_buffer_def Let_def p_def by (simp del: length_append)
  qed
  ultimately show ?thesis
    by (simp add: ksu_handle_faccessat_def ksu_handle_stat_def b(1))
qed


subsection \<open>Witnesses\<close>

definition ex_su_mem :: user_mem where
  "ex_su_mem = \<lparr>um_strncpy = (\<lambda>nf addr n. if length SU_PATH < n then (int (length SU_PATH), SU_PATH @ [NUL])
     else (int n, take n SU_PATH)), um_access_ok = \<lambda>addr n. True\<rparr>"

definition ex_su_env :: sucompat_env where
  "ex_su_env = \<lparr>su_um = ex_su_mem, su_stack_pointer = 4096, su_writable = \<lambda>p n. True, su_cred = ex_cred_env,
     su_selinux = ex_selinux_env, su_is_ksu_domain = False, su_manager = 10123,
     su_allow = static_allow_state\<lparr>al_default_root := ex_root 0\<rparr>\<rparr>"

definition ex_su :: sucompat where
  "ex_su = \<lparr>ksu_sucompat_non_kp = True, su_task = ex_task, su_user_writes = []\<rparr>"

lemma ex_su_allowed: "su_allowed ex_su_env ex_su" "ksu_sucompat_non_kp ex_su"
  by (simp_all add: su_allowed_def ex_su_env_def ex_su_def su_uid_def ex_task_def ksu_is_allow_uid_def
      forbid_system_uid_def kdefs)

lemma ex_su_escapes:
  "\<exists>t. ksu_escape_to_root (su_cred ex_su_env) (su_selinux ex_su_env) (su_allow ex_su_env) (su_task ex_su) = Some t"
  by (simp add: ksu_escape_to_root_def ex_su_env_def ex_su_def ex_cred_env_def ex_task_def ex_root_get
      setup_groups_def ex_root_ok Let_def)

theorem execve_su_runs_ksud_witness:
  "\<exists>t. ksu_handle_execveat_sucompat ex_su_env (FName (''/sbin/su'' @ [NUL])) ex_su =
     Some (FName (KSUD_PATH @ [NUL]), ex_su\<lparr>su_task := t\<rparr>)"
proof -
  have "NUL \<in> set (''/sbin/su'' @ [NUL])" "suffix ''/su'' (cstr (''/sbin/su'' @ [NUL]))"
    by (simp_all add: cstr_append_NUL suffix_def)
  then show ?thesis
    using execve_su_runs_ksud [of "''/sbin/su'' @ [NUL]" ex_su_env ex_su] ex_su_allowed ex_su_escapes by auto
qed

theorem access_and_stat_show_sh_witness:
  "fst (ksu_handle_faccessat ex_su_env 512 ex_su) = 4081 \<and>
   su_user_writes (snd (ksu_handle_stat ex_su_env (Some 512) ex_su)) = [(4081, ''/system/bin/sh'' @ [NUL])]"
proof -
  have u: "user_path (su_um ex_su_env) 512 SU_PATH"
    by (simp add: user_path_def ex_su_env_def ex_su_mem_def su_consts(1))
  have w: "su_writable ex_su_env p n" "su_stack_pointer ex_su_env = 4096" for p n by (simp_all add: ex_su_env_def)
  show ?thesis
    using access_and_stat_show_sh [OF u, of ex_su] ex_su_allowed
    by (simp add: w SH_PATH_def) (simp add: ex_su_def)
qed

end
