(* ===== verification/Ksud.thy ===== *)
theory Ksud
  imports Sucompat Allowlist
begin

text \<open>
  \<^verbatim>\<open>ksud.c\<close>: the hooks of the boot. The execve hook recognises init's second stage, when the driver's
  SELinux rules are loaded, and the first app process, when /data is there and the allowlist is read;
  the read hook puts the driver's init script in front of atrace.rc; the input hook counts presses of
  the volume-down key, three of which are the safe mode. At the end, the execve entry of \<^verbatim>\<open>ksu.c\<close>.
\<close>

subsection \<open>State\<close>

definition crlf :: string where "crlf = [CHR 0x0A]"

definition KERNEL_SU_RC :: string where
  "KERNEL_SU_RC = crlf @
     ''on post-fs-data'' @ crlf @
     ''    start logd'' @ crlf @
     ''    exec u:r:su:s0 root -- '' @ KSUD_PATH @ '' post-fs-data'' @ crlf @ crlf @
     ''on nonencrypted'' @ crlf @
     ''    exec u:r:su:s0 root -- '' @ KSUD_PATH @ '' services'' @ crlf @ crlf @
     ''on property:vold.decrypt=trigger_restart_framework'' @ crlf @
     ''    exec u:r:su:s0 root -- '' @ KSUD_PATH @ '' services'' @ crlf @ crlf @
     ''on property:sys.boot_completed=1'' @ crlf @
     ''    exec u:r:su:s0 root -- '' @ KSUD_PATH @ '' boot-completed'' @ crlf @ crlf @ crlf"

text \<open>A read operation of a \<open>file_operations\<close> table is the file system's or the driver's proxy.\<close>

datatype read_op = Fs_op | Ksu_proxy

record file_ops =
  fo_read :: "read_op option"
  fo_read_iter :: "read_op option"

text \<open>\<open>kd_rules_applied\<close> counts the calls of \<open>ksu_apply_kernelsu_rules\<close>; the allowlist and the saved
  namespaces are the states of \<^verbatim>\<open>allowlist.c\<close> and \<^verbatim>\<open>kernel_compat.c\<close>; \<open>kd_writes\<close> logs what is written
  to user memory.\<close>

record ('ns, 'fs) ksud_state =
  ksu_vfs_read_hook :: bool
  ksu_execveat_hook :: bool
  ksu_input_hook :: bool
  ksu_devpts_sid :: u32
  ksu_is_compat :: bool
  post_fs_data_done :: bool
  first_app_process :: bool
  init_second_stage_executed :: bool
  orig_read :: "read_op option"
  orig_read_iter :: "read_op option"
  fops_proxy :: file_ops
  read_count_append :: int
  rc_inserted :: bool
  volumedown_pressed_count :: u32
  safe_mode :: bool
  kd_rules_applied :: nat
  kd_allow :: allow_state
  kd_compat :: "('ns, 'fs) compat_state"
  kd_writes :: "(uaddr \<times> cbuf) list"

text \<open>What the kernel supplies: \<open>get_user\<close> of a native or compat pointer (\<open>None\<close> for a fault), a fatal
  signal after the i-th argument, the previous contents of the stack buffers, the mount namespace of
  an \<open>nsproxy\<close>, and the number of bytes \<open>copy_to_user\<close> leaves uncopied.\<close>

record 'ns ksud_env =
  ke_um :: user_mem
  ke_get_native :: "uaddr \<Rightarrow> u64 option"
  ke_get_compat :: "uaddr \<Rightarrow> u32 option"
  ke_fatal :: "nat \<Rightarrow> bool"
  ke_arg_junk :: cbuf
  ke_env_junk :: "nat \<Rightarrow> cbuf"
  ke_mnt_ns :: "'ns \<Rightarrow> nat"
  ke_init_mnt_ns :: nat
  ke_selinux :: selinux_env
  ke_copy_left :: "uaddr \<Rightarrow> nat \<Rightarrow> nat"

definition stop_vfs_read_hook :: "('ns, 'fs) ksud_state \<Rightarrow> ('ns, 'fs) ksud_state" where
  "stop_vfs_read_hook st = st\<lparr>ksu_vfs_read_hook := False\<rparr>"

definition stop_execve_hook :: "('ns, 'fs) ksud_state \<Rightarrow> ('ns, 'fs) ksud_state" where
  "stop_execve_hook st = st\<lparr>ksu_execveat_hook := False\<rparr>"

definition stop_input_hook :: "('ns, 'fs) ksud_state \<Rightarrow> ('ns, 'fs) ksud_state" where
  "stop_input_hook st = (if \<not> ksu_input_hook st then st else st\<lparr>ksu_input_hook := False\<rparr>)"

definition ksu_on_post_fs_data :: "'ns ksud_env \<Rightarrow> ('ns, 'fs) ksud_state \<Rightarrow> ('ns, 'fs) ksud_state" where
  "ksu_on_post_fs_data e st =
     (if post_fs_data_done st then st
      else let st = st\<lparr>post_fs_data_done := True\<rparr>;
          st = st\<lparr>kd_allow := snd (ksu_load_allow_list (kd_allow st))\<rparr>;
          st = stop_input_hook st
        in st\<lparr>ksu_devpts_sid := ksu_get_devpts_sid (ke_selinux e)\<rparr>)"

subsection \<open>Program arguments\<close>

definition MAX_ARG_STRINGS :: nat where "MAX_ARG_STRINGS = 2147483647"
abbreviation E2BIG :: int where "E2BIG \<equiv> 7"
abbreviation ERESTARTNOHAND :: int where "ERESTARTNOHAND \<equiv> 514"

record user_arg_ptr =
  ua_is_compat :: bool
  ua_ptr :: uaddr

definition IS_ERR :: "u64 \<Rightarrow> bool" where
  "IS_ERR p \<longleftrightarrow> - 4095 \<le> p"

definition get_user_arg_ptr ::
  "'ns ksud_env \<Rightarrow> user_arg_ptr \<Rightarrow> nat \<Rightarrow> ('ns, 'fs) ksud_state \<Rightarrow> u64 \<times> ('ns, 'fs) ksud_state" where
  "get_user_arg_ptr e argv nr st =
     (if ua_is_compat argv
      then (case ke_get_compat e (ua_ptr argv + 4 * word_of_nat nr) of
          None \<Rightarrow> (word_of_int (- EFAULT), st)
        | Some p \<Rightarrow> (ucast p, st\<lparr>ksu_is_compat := True\<rparr>))
      else (case ke_get_native e (ua_ptr argv + 8 * word_of_nat nr) of
          None \<Rightarrow> (word_of_int (- EFAULT), st)
        | Some p \<Rightarrow> (p, st)))"

function count_loop :: "'ns ksud_env \<Rightarrow> user_arg_ptr \<Rightarrow> nat \<Rightarrow> nat \<Rightarrow> ('ns, 'fs) ksud_state \<Rightarrow>
    int \<times> ('ns, 'fs) ksud_state" where
  "count_loop e argv mx i st =
     (let (p, st) = get_user_arg_ptr e argv i st in
      if p = 0 then (int i, st)
      else if IS_ERR p then (- EFAULT, st)
      else if mx \<le> i then (- E2BIG, st)
      else if ke_fatal e i then (- ERESTARTNOHAND, st)
      else count_loop e argv mx (Suc i) st)"
  by pat_completeness auto
termination by (relation "measure (\<lambda>(_, _, mx, i, _). mx - i)") auto

declare count_loop.simps [simp del]

definition count_args :: "'ns ksud_env \<Rightarrow> user_arg_ptr \<Rightarrow> nat \<Rightarrow> ('ns, 'fs) ksud_state \<Rightarrow>
    int \<times> ('ns, 'fs) ksud_state" where
  "count_args e argv mx st = (if ua_ptr argv \<noteq> 0 then count_loop e argv mx 0 st else (0, st))"

subsection \<open>The execve hook\<close>

definition second_stage :: "'ns ksud_env \<Rightarrow> ('ns, 'fs) ksud_state \<Rightarrow> ('ns, 'fs) ksud_state" where
  "second_stage e st =
     (let st = st\<lparr>kd_rules_applied := Suc (kd_rules_applied st)\<rparr>;
          st = st\<lparr>init_second_stage_executed := True\<rparr>
      in st\<lparr>kd_compat := ksu_android_ns_fs_check (ke_mnt_ns e) (ke_init_mnt_ns e) (kd_compat st)\<rparr>)"

text \<open>The 16 bytes of \<open>first_arg\<close> are longer than both strings it is compared with, so that \<open>strcmp\<close>
  stops inside it even where it is not terminated.\<close>

definition init_first_arg :: "'ns ksud_env \<Rightarrow> user_arg_ptr \<Rightarrow> string \<Rightarrow> ('ns, 'fs) ksud_state \<Rightarrow>
    ('ns, 'fs) ksud_state" where
  "init_first_arg e argv s st =
     (let (p, st) = get_user_arg_ptr e argv 1 st in
      if p \<noteq> 0 \<and> \<not> IS_ERR p
      then (let (_, first_arg) = ksu_strncpy_from_user_retry (ke_um e) (ke_arg_junk e) p 16 in
        if strcmp_eq first_arg s then second_stage e st else st)
      else st)"

text \<open>A \<open>strcmp\<close> with a literal; \<open>None\<close> if it reads beyond the buffer.\<close>

definition strcmp_buf :: "cbuf \<Rightarrow> string \<Rightarrow> bool option" where
  "strcmp_buf b s =
     (if NUL \<in> set b then Some (cstr b = s) else if prefix b s then None else Some False)"

definition env_matches :: "cbuf \<Rightarrow> bool option" where
  "env_matches env =
     (if CHR ''='' \<notin> set (cstr env) then (if NUL \<in> set env then Some False else None)
      else let env_name = takeWhile (\<lambda>c. c \<noteq> CHR ''='') env;
          env_value = drop (Suc (length env_name)) env in
        if env_name \<noteq> ''INIT_SECOND_STAGE'' then Some False
        else case strcmp_buf env_value ''1'' of
          None \<Rightarrow> None
        | Some True \<Rightarrow> Some True
        | Some False \<Rightarrow> strcmp_buf env_value ''true'')"

fun env_loop :: "'ns ksud_env \<Rightarrow> user_arg_ptr \<Rightarrow> nat list \<Rightarrow> ('ns, 'fs) ksud_state \<Rightarrow>
    ('ns, 'fs) ksud_state option" where
  "env_loop e envp [] st = Some st"
| "env_loop e envp (n # ns) st =
     (let (p, st) = get_user_arg_ptr e envp n st in
      if p = 0 \<or> IS_ERR p then env_loop e envp ns st
      else let (r, env) = ksu_strncpy_from_user_retry (ke_um e) (ke_env_junk e n) p 256 in
        if r < 0 then env_loop e envp ns st
        else case env_matches env of
          None \<Rightarrow> None
        | Some m \<Rightarrow> env_loop e envp ns (if m then second_stage e st else st))"

definition exec_system_init :: "'ns ksud_env \<Rightarrow> user_arg_ptr \<Rightarrow> ('ns, 'fs) ksud_state \<Rightarrow> ('ns, 'fs) ksud_state" where
  "exec_system_init e argv st =
     (let (argc, st) = count_args e argv MAX_ARG_STRINGS st in
      if 1 < argc \<and> \<not> init_second_stage_executed st then init_first_arg e argv ''second_stage'' st
      else st)"

definition exec_old_init :: "'ns ksud_env \<Rightarrow> user_arg_ptr \<Rightarrow> user_arg_ptr option \<Rightarrow> ('ns, 'fs) ksud_state \<Rightarrow>
    ('ns, 'fs) ksud_state option" where
  "exec_old_init e argv envp st =
     (let (argc, st) = count_args e argv MAX_ARG_STRINGS st in
      if 1 < argc \<and> \<not> init_second_stage_executed st
      then Some (init_first_arg e argv ''--second-stage'' st)
      else if argc = 1 \<and> \<not> init_second_stage_executed st
      then (case envp of
          None \<Rightarrow> Some st
        | Some envp \<Rightarrow>
            let (envc, st) = count_args e envp MAX_ARG_STRINGS st in
            if 0 < envc then env_loop e envp [1..<Suc (nat envc)] st else Some st)
      else Some st)"

definition exec_app_process :: "'ns ksud_env \<Rightarrow> cbuf \<Rightarrow> ('ns, 'fs) ksud_state \<Rightarrow> ('ns, 'fs) ksud_state" where
  "exec_app_process e name st =
     (if first_app_process st \<and> memcmp_eq name ''/system/bin/app_process'' 23
      then stop_execve_hook (ksu_on_post_fs_data e (st\<lparr>first_app_process := False\<rparr>))
      else st)"

text \<open>\<open>None\<close> for \<open>argv\<close> and \<open>envp\<close> is NULL; the result \<open>None\<close> is the read beyond \<open>env\<close>.\<close>

definition ksu_handle_execveat_ksud :: "'ns ksud_env \<Rightarrow> filename_arg \<Rightarrow> user_arg_ptr option \<Rightarrow>
    user_arg_ptr option \<Rightarrow> ('ns, 'fs) ksud_state \<Rightarrow> ('ns, 'fs) ksud_state option" where
  "ksu_handle_execveat_ksud e filename_ptr argv envp st =
     (if \<not> ksu_execveat_hook st then Some st
      else case filename_ptr of
        FNull \<Rightarrow> Some st
      | FErr \<Rightarrow> Some st
      | FName name \<Rightarrow> map_option (exec_app_process e name)
          (case argv of
            None \<Rightarrow> Some st
          | Some argv \<Rightarrow>
              if memcmp_eq name ''/system/bin/init'' 16 then Some (exec_system_init e argv st)
              else if memcmp_eq name ''/init'' 5 then exec_old_init e argv envp st
              else Some st))"

definition ksu_handle_execve_ksud :: "'ns ksud_env \<Rightarrow> uaddr \<Rightarrow> uaddr \<Rightarrow> ('ns, 'fs) ksud_state \<Rightarrow>
    ('ns, 'fs) ksud_state option" where
  "ksu_handle_execve_ksud e filename_user argv st =
     (if \<not> ksu_execveat_hook st then Some st
      else if filename_user = 0 then Some st
      else let (_, path) = ksu_strncpy_from_user_nofault (ke_um e) (replicate 32 NUL) filename_user 32 in
        ksu_handle_execveat_ksud e (FName path) (Some \<lparr>ua_is_compat = False, ua_ptr = argv\<rparr>) None st)"

subsection \<open>The read hook\<close>

text \<open>A file: the mode of its inode, its name, what \<open>d_path\<close> gives (\<open>None\<close> for an error), and its
  table of operations.\<close>

record kfile =
  kf_isreg :: bool
  kf_name :: string
  kf_d_path :: "string option"
  kf_f_op :: file_ops

definition read_proxy :: "('ns, 'fs) ksud_state \<Rightarrow> nat \<Rightarrow> int \<Rightarrow> int" where
  "read_proxy st f_pos ret = (let first_read = (f_pos = 0) in if first_read then ret + read_count_append st else ret)"

definition read_iter_proxy :: "('ns, 'fs) ksud_state \<Rightarrow> nat \<Rightarrow> int \<Rightarrow> int" where
  "read_iter_proxy st ki_pos ret =
     (let first_read = (ki_pos = 0) in if first_read then ret + read_count_append st else ret)"

definition install_proxy :: "kfile \<Rightarrow> ('ns, 'fs) ksud_state \<Rightarrow> kfile \<times> ('ns, 'fs) ksud_state" where
  "install_proxy fl st =
     (let st = st\<lparr>fops_proxy := kf_f_op fl\<rparr>;
          st = st\<lparr>orig_read := fo_read (kf_f_op fl)\<rparr>;
          st = (if orig_read st \<noteq> None then st\<lparr>fops_proxy := (fops_proxy st)\<lparr>fo_read := Some Ksu_proxy\<rparr>\<rparr> else st);
          st = st\<lparr>orig_read_iter := fo_read_iter (kf_f_op fl)\<rparr>;
          st = (if orig_read_iter st \<noteq> None
            then st\<lparr>fops_proxy := (fops_proxy st)\<lparr>fo_read_iter := Some Ksu_proxy\<rparr>\<rparr> else st)
      in (fl\<lparr>kf_f_op := fops_proxy st\<rparr>, st\<lparr>read_count_append := int (length KERNEL_SU_RC)\<rparr>))"

text \<open>The user's buffer is its address and count; a file \<open>None\<close> is an \<open>ERR_PTR\<close>.\<close>

definition ksu_handle_vfs_read :: "'ns ksud_env \<Rightarrow> cbuf \<Rightarrow> kfile option \<Rightarrow> uaddr \<times> u64 \<Rightarrow>
    ('ns, 'fs) ksud_state \<Rightarrow> kfile option \<times> (uaddr \<times> u64) \<times> ('ns, 'fs) ksud_state" where
  "ksu_handle_vfs_read e comm file_ptr bc st =
     (if \<not> ksu_vfs_read_hook st then (file_ptr, bc, st)
      else if \<not> strcmp_eq comm ''init'' then (file_ptr, bc, st)
      else case file_ptr of
        None \<Rightarrow> (file_ptr, bc, st)
      | Some fl \<Rightarrow>
          if \<not> kf_isreg fl then (file_ptr, bc, st)
          else if kf_name fl \<noteq> ''atrace.rc'' then (file_ptr, bc, st)
          else if kf_d_path fl \<noteq> Some ''/system/etc/init/atrace.rc'' then (file_ptr, bc, st)
          else if rc_inserted st then (file_ptr, bc, stop_vfs_read_hook st)
          else let st = st\<lparr>rc_inserted := True\<rparr>;
              (buf, cnt) = bc;
              rc_count = length KERNEL_SU_RC
            in if unat cnt < rc_count then (file_ptr, bc, st)
              else let left = ke_copy_left e buf rc_count;
                  st = st\<lparr>kd_writes := kd_writes st @ [(buf, take (rc_count - left) KERNEL_SU_RC)]\<rparr>
                in if left \<noteq> 0 then (file_ptr, bc, st)
                  else let (fl, st) = install_proxy fl st
                    in (Some fl, (buf + word_of_nat rc_count, cnt - word_of_nat rc_count), st))"

text \<open>\<open>fget\<close> gives NULL, or a file (or \<open>ERR_PTR\<close>, which it never does).\<close>

definition ksu_handle_sys_read :: "'ns ksud_env \<Rightarrow> cbuf \<Rightarrow> kfile option \<Rightarrow> uaddr \<times> u64 \<Rightarrow>
    ('ns, 'fs) ksud_state \<Rightarrow> kfile option \<times> (uaddr \<times> u64) \<times> ('ns, 'fs) ksud_state" where
  "ksu_handle_sys_read e comm fget bc st =
     (case fget of None \<Rightarrow> (None, bc, st) | Some fl \<Rightarrow> ksu_handle_vfs_read e comm (Some fl) bc st)"

subsection \<open>The volume-down key\<close>

definition EV_KEY :: u32 where "EV_KEY = 1"
definition KEY_VOLUMEDOWN :: u32 where "KEY_VOLUMEDOWN = 114"

definition is_volumedown_enough :: "u32 \<Rightarrow> bool" where
  "is_volumedown_enough n \<longleftrightarrow> 3 \<le> n"

definition ksu_handle_input_handle_event :: "u32 \<Rightarrow> u32 \<Rightarrow> 32 word \<Rightarrow> ('ns, 'fs) ksud_state \<Rightarrow> ('ns, 'fs) ksud_state" where
  "ksu_handle_input_handle_event ty code val st =
     (if \<not> ksu_input_hook st then st
      else if ty = EV_KEY \<and> code = KEY_VOLUMEDOWN
      then (if val \<noteq> 0
        then (let st = st\<lparr>volumedown_pressed_count := volumedown_pressed_count st + 1\<rparr>
          in if is_volumedown_enough (volumedown_pressed_count st) then stop_input_hook st else st)
        else st)
      else st)"

definition ksu_is_safe_mode :: "('ns, 'fs) ksud_state \<Rightarrow> bool \<times> ('ns, 'fs) ksud_state" where
  "ksu_is_safe_mode st =
     (if safe_mode st then (True, st)
      else let st = stop_input_hook st in
        if is_volumedown_enough (volumedown_pressed_count st) then (True, st\<lparr>safe_mode := True\<rparr>)
        else (False, st))"

text \<open>The static initialisers, with the allowlist and the namespaces as they are at boot.\<close>

definition ksud_boot :: "allow_state \<Rightarrow> ('ns, 'fs) compat_state \<Rightarrow> ('ns, 'fs) ksud_state" where
  "ksud_boot al cs = \<lparr>ksu_vfs_read_hook = True, ksu_execveat_hook = True, ksu_input_hook = True,
     ksu_devpts_sid = 0, ksu_is_compat = False, post_fs_data_done = False, first_app_process = True,
     init_second_stage_executed = False, orig_read = None, orig_read_iter = None,
     fops_proxy = \<lparr>fo_read = None, fo_read_iter = None\<rparr>, read_count_append = 0, rc_inserted = False,
     volumedown_pressed_count = 0, safe_mode = False, kd_rules_applied = 0, kd_allow = al, kd_compat = cs,
     kd_writes = []\<rparr>"

subsection \<open>The combined execve entry\<close>

text \<open>\<^verbatim>\<open>ksu.c\<close>: the entry of the patched \<open>do_execve\<close>.\<close>

definition ksu_handle_execveat :: "'ns ksud_env \<Rightarrow> sucompat_env \<Rightarrow> filename_arg \<Rightarrow> user_arg_ptr option \<Rightarrow>
    user_arg_ptr option \<Rightarrow> ('ns, 'fs) ksud_state \<times> sucompat \<Rightarrow>
    (filename_arg \<times> ('ns, 'fs) ksud_state \<times> sucompat) option" where
  "ksu_handle_execveat e se filename_ptr argv envp = (\<lambda>(kd, su).
     case ksu_handle_execveat_ksud e filename_ptr argv envp kd of
       None \<Rightarrow> None
     | Some kd \<Rightarrow> map_option (\<lambda>(f, su). (f, kd, su)) (ksu_handle_execveat_sucompat se filename_ptr su))"

end
