(* ===== verification/Runs.thy ===== *)
theory Runs
  imports Kprelude "HOL-Library.Sublist"
begin

text \<open>
  Sequences of steps that may fail: the calls made to a component, the edits made to a policy. The
  locales say what a single step promises and hold what then follows for a whole sequence; the
  components interpret them on their own operations.
\<close>

subsection \<open>Fallible folds\<close>

text \<open>\<open>None\<close> is an access through a NULL pointer or out of bounds.\<close>

fun fold_opt :: "('a \<Rightarrow> 's \<Rightarrow> 's option) \<Rightarrow> 'a list \<Rightarrow> 's \<Rightarrow> 's option" where
  "fold_opt f [] s = Some s"
| "fold_opt f (x # xs) s = (case f x s of None \<Rightarrow> None | Some s \<Rightarrow> fold_opt f xs s)"

lemma fold_opt_Cons_Some:
  assumes "fold_opt f (x # xs) s = Some s'"
  obtains s1 where "f x s = Some s1" "fold_opt f xs s1 = Some s'"
  using assms by (auto split: option.splits)

lemma fold_opt_append:
  "fold_opt f (xs @ ys) s = (case fold_opt f xs s of None \<Rightarrow> None | Some s \<Rightarrow> fold_opt f ys s)"
  by (induction xs arbitrary: s) (auto split: option.split)

lemma fold_opt_snoc: "fold_opt f (xs @ [x]) s = (case fold_opt f xs s of None \<Rightarrow> None | Some s1 \<Rightarrow> f x s1)"
  by (auto simp: fold_opt_append split: option.splits)

text \<open>The last step at which a predicate that holds at the end came to hold.\<close>

lemma last_change:
  assumes "fold_opt f cs s0 = Some s" "\<not> P s0" "P s"
  shows "\<exists>pre c post s1 s2. cs = pre @ c # post \<and> fold_opt f pre s0 = Some s1 \<and> \<not> P s1 \<and> f c s1 = Some s2 \<and> P s2 \<and>
    (\<forall>mid s3. prefix mid post \<and> fold_opt f (pre @ c # mid) s0 = Some s3 \<longrightarrow> P s3)"
  using assms(1,3)
proof (induction cs arbitrary: s rule: rev_induct)
  case Nil
  then show ?case using assms(2) by simp
next
  case (snoc x cs)
  obtain s1 where s1: "fold_opt f cs s0 = Some s1" "f x s1 = Some s"
    using snoc.prems(1) by (auto simp: fold_opt_snoc split: option.splits)
  show ?case
  proof (cases "P s1")
    case True
    then obtain pre c post t1 t2 where p: "cs = pre @ c # post" "fold_opt f pre s0 = Some t1" "\<not> P t1"
      "f c t1 = Some t2" "P t2" "\<forall>mid s3. prefix mid post \<and> fold_opt f (pre @ c # mid) s0 = Some s3 \<longrightarrow> P s3"
      using snoc.IH [OF s1(1)] by blast
    have "P s3" if "prefix mid (post @ [x])" "fold_opt f (pre @ c # mid) s0 = Some s3" for mid s3
    proof (cases "mid = post @ [x]")
      case True
      then have "fold_opt f (cs @ [x]) s0 = Some s3" using that(2) p(1) by simp
      then show ?thesis using snoc.prems by simp
    next
      case False
      then have "prefix mid post" using that(1) by (simp add: prefix_snoc)
      then show ?thesis using p(6) that(2) by blast
    qed
    then show ?thesis using p(1-5) by (intro exI [of _ pre] exI [of _ c] exI [of _ "post @ [x]"]) auto
  next
    case False
    then show ?thesis using s1 snoc.prems
      by (intro exI [of _ cs] exI [of _ x] exI [of _ "[]"] exI [of _ s1] exI [of _ s])
        (auto simp: fold_opt_snoc)
  qed
qed

subsection \<open>What steps promise\<close>

text \<open>Admissible steps keep an invariant.\<close>

locale invariant_steps =
  fixes step :: "'x \<Rightarrow> 's \<Rightarrow> 's option"
    and ok :: "'x \<Rightarrow> bool"
    and inv :: "'s \<Rightarrow> bool"
  assumes step_inv: "step x s = Some s' \<Longrightarrow> ok x \<Longrightarrow> inv s \<Longrightarrow> inv s'"
begin

lemma run_inv: "fold_opt step xs s = Some s' \<Longrightarrow> \<forall>x \<in> set xs. ok x \<Longrightarrow> inv s \<Longrightarrow> inv s'"
  by (induction xs arbitrary: s) (auto split: option.splits dest: step_inv)

text \<open>The state in which a predicate came to hold satisfies the invariant.\<close>

lemma run_change:
  assumes "fold_opt step cs s0 = Some s" "\<forall>c \<in> set cs. ok c" "inv s0" "\<not> P s0" "P s"
  shows "\<exists>pre c post s1 s2. cs = pre @ c # post \<and> fold_opt step pre s0 = Some s1 \<and> inv s1 \<and> ok c \<and> \<not> P s1 \<and>
    step c s1 = Some s2 \<and> P s2 \<and>
    (\<forall>mid s3. prefix mid post \<and> fold_opt step (pre @ c # mid) s0 = Some s3 \<longrightarrow> P s3)"
proof -
  obtain pre c post s1 s2 where p: "cs = pre @ c # post" "fold_opt step pre s0 = Some s1" "\<not> P s1" "step c s1 = Some s2"
    "P s2" "\<forall>mid s3. prefix mid post \<and> fold_opt step (pre @ c # mid) s0 = Some s3 \<longrightarrow> P s3"
    using last_change [OF assms(1,4,5)] by blast
  have "inv s1" using run_inv [OF p(2)] p(1) assms(2,3) by simp
  then show ?thesis using p assms(2)
    by (intro exI [of _ pre] exI [of _ c] exI [of _ post] exI [of _ s1] exI [of _ s2]) simp
qed

end

text \<open>Steps that also stay in a relation to where they started.\<close>

locale related_steps = invariant_steps +
  fixes rel :: "'b \<Rightarrow> 'b \<Rightarrow> bool"
  assumes step_rel: "step x s = Some s' \<Longrightarrow> ok x \<Longrightarrow> inv s \<Longrightarrow> rel s s'"
    and rel_refl: "inv s \<Longrightarrow> rel s s"
    and rel_trans: "rel s s1 \<Longrightarrow> rel s1 s2 \<Longrightarrow> rel s s2"
begin

lemma run_rel: "fold_opt step xs s = Some s' \<Longrightarrow> \<forall>x \<in> set xs. ok x \<Longrightarrow> inv s \<Longrightarrow> rel s s'"
proof (induction xs arbitrary: s)
  case (Cons x xs)
  obtain s1 where s1: "step x s = Some s1" "fold_opt step xs s1 = Some s'"
    using Cons.prems(1) by (rule fold_opt_Cons_Some)
  have "ok x" using Cons.prems(2) by simp
  then show ?case
    using rel_trans [OF step_rel [OF s1(1)]] Cons.IH [OF s1(2)] step_inv [OF s1(1)] Cons.prems by simp
qed (simp add: rel_refl)

end

text \<open>Steps that always return.\<close>

locale total_steps = invariant_steps +
  assumes step_total: "ok x \<Longrightarrow> inv s \<Longrightarrow> step x s \<noteq> None"
begin

lemma run_total:
  assumes "\<forall>x \<in> set xs. ok x" "inv s"
  obtains s' where "fold_opt step xs s = Some s'" "inv s'"
proof -
  have "fold_opt step xs s \<noteq> None"
    using assms
  proof (induction xs arbitrary: s)
    case (Cons x xs)
    then obtain s1 where "step x s = Some s1" using step_total [of x s] by fastforce
    then show ?case using Cons step_inv by simp
  qed simp
  then show ?thesis using that run_inv assms by blast
qed

end

text \<open>Steps that refine those of an abstract component.\<close>

locale refined_steps = invariant_steps +
  fixes step_abs :: "'b \<Rightarrow> 'c \<Rightarrow> 'c option"
    and abs :: "'a \<Rightarrow> 'c"
  assumes step_refines: "ok x \<Longrightarrow> inv s \<Longrightarrow> map_option abs (step x s) = step_abs x (abs s)"
begin

lemma run_refines:
  "\<forall>x \<in> set xs. ok x \<Longrightarrow> inv s \<Longrightarrow> map_option abs (fold_opt step xs s) = fold_opt step_abs xs (abs s)"
proof (induction xs arbitrary: s)
  case (Cons x xs)
  have r: "map_option abs (step x s) = step_abs x (abs s)" using step_refines Cons.prems by simp
  show ?case
  proof (cases "step x s")
    case None
    then show ?thesis using r by simp
  next
    case (Some s1)
    then show ?thesis using r [symmetric] Cons.IH [of s1] Cons.prems step_inv [OF Some] by simp
  qed
qed simp

end

end
