(* ===== verification/Policydb.thy ===== *)
theory Policydb
  imports Runs
begin

text \<open>
  The parts of the kernel's SELinux policy database that \<^verbatim>\<open>sepolicy.c\<close> reads and edits, on Linux 4.19.
  Symbol tables and the access vector table are the lists of their entries in the order of their hash
  chains; where the kernel puts a new entry, and whether its allocations succeed, are parameters. A bit
  map is the set of its bits, a flexible array the list of its elements.
\<close>

subsection \<open>Lists\<close>

fun map_opt :: "('a \<Rightarrow> 'b option) \<Rightarrow> 'a list \<Rightarrow> 'b list option" where
  "map_opt f [] = Some []"
| "map_opt f (x # xs) =
     (case f x of None \<Rightarrow> None | Some y \<Rightarrow> (case map_opt f xs of None \<Rightarrow> None | Some ys \<Rightarrow> Some (y # ys)))"

fun find_index :: "('a \<Rightarrow> bool) \<Rightarrow> 'a list \<Rightarrow> nat option" where
  "find_index P [] = None"
| "find_index P (x # xs) = (if P x then Some 0 else map_option Suc (find_index P xs))"

lemma find_index_None: "find_index P xs = None \<longleftrightarrow> (\<forall>x \<in> set xs. \<not> P x)"
  by (induction xs) auto

lemma find_index_Some:
  "find_index P xs = Some i \<Longrightarrow> i < length xs \<and> P (xs ! i) \<and> (\<forall>j < i. \<not> P (xs ! j))"
  by (induction xs arbitrary: i) (auto split: if_splits simp: nth_Cons' less_Suc_eq_0_disj)

subsection \<open>Access vectors\<close>

definition AVTAB_ALLOWED :: u16 where "AVTAB_ALLOWED = 1"
definition AVTAB_AUDITALLOW :: u16 where "AVTAB_AUDITALLOW = 2"
definition AVTAB_AUDITDENY :: u16 where "AVTAB_AUDITDENY = 4"
definition AVTAB_TRANSITION :: u16 where "AVTAB_TRANSITION = 16"
definition AVTAB_MEMBER :: u16 where "AVTAB_MEMBER = 32"
definition AVTAB_CHANGE :: u16 where "AVTAB_CHANGE = 64"
definition AVTAB_XPERMS_ALLOWED :: u16 where "AVTAB_XPERMS_ALLOWED = 256"
definition AVTAB_XPERMS_AUDITALLOW :: u16 where "AVTAB_XPERMS_AUDITALLOW = 512"
definition AVTAB_XPERMS_DONTAUDIT :: u16 where "AVTAB_XPERMS_DONTAUDIT = 1024"
definition AVTAB_XPERMS :: u16 where "AVTAB_XPERMS = 1792"
definition AVTAB_XPERMS_IOCTLFUNCTION :: u8 where "AVTAB_XPERMS_IOCTLFUNCTION = 1"
definition AVTAB_XPERMS_IOCTLDRIVER :: u8 where "AVTAB_XPERMS_IOCTLDRIVER = 2"

lemmas avtab_flags = AVTAB_ALLOWED_def AVTAB_AUDITALLOW_def AVTAB_AUDITDENY_def AVTAB_TRANSITION_def
  AVTAB_MEMBER_def AVTAB_CHANGE_def AVTAB_XPERMS_ALLOWED_def AVTAB_XPERMS_AUDITALLOW_def
  AVTAB_XPERMS_DONTAUDIT_def AVTAB_XPERMS_def

record avtab_key =
  source_type :: u16
  target_type :: u16
  target_class :: u16
  k_specified :: u16

record avtab_extended_perms =
  xp_specified :: u8
  xp_driver :: u8
  xp_perms :: "u32 list"

datatype avtab_datum = Av_data u32 | Av_xperms avtab_extended_perms

type_synonym avtab = "(avtab_key \<times> avtab_datum) list"

text \<open>Nodes of access vectors and type rules hold data; the other case does not occur for their keys.\<close>

primrec av_data :: "avtab_datum \<Rightarrow> u32" where
  "av_data (Av_data d) = d"
| "av_data (Av_xperms x) = 0"

definition avtab_match :: "avtab_key \<Rightarrow> avtab_key \<Rightarrow> bool" where
  "avtab_match key k \<longleftrightarrow> source_type key = source_type k \<and> target_type key = target_type k \<and>
     target_class key = target_class k \<and> k_specified key AND k_specified k \<noteq> 0"

definition avtab_search_node :: "avtab \<Rightarrow> avtab_key \<Rightarrow> nat option" where
  "avtab_search_node t key = find_index (\<lambda>(k, d). avtab_match key k) t"

subsection \<open>Types, classes, constraints\<close>

record type_datum =
  td_value :: u32
  td_primary :: bool
  td_attribute :: bool

definition CEXPR_NAMES :: u32 where "CEXPR_NAMES = 5"

record constraint_expr =
  ce_expr_type :: u32
  ce_type_names :: "nat set option"
  ce_names :: "nat set"

record class_datum =
  cd_value :: u32
  cd_permissions :: "(string \<times> u32) list"
  cd_comdatum :: "(string \<times> u32) list option"
  cd_constraints :: "constraint_expr list list"

record filename_trans_key =
  ft_stype :: u32
  ft_ttype :: u32
  ft_tclass :: u16
  ft_name :: string

record policydb =
  p_types :: "(string \<times> type_datum) list"
  p_types_nprim :: u32
  p_classes :: "(string \<times> class_datum) list"
  te_avtab :: avtab
  db_len :: u64
  filename_trans :: "(filename_trans_key \<times> u32) list"
  filename_trans_ttypes :: "nat set"
  type_attr_map_array :: "nat set list"
  type_val_to_struct_array :: "type_datum option list"
  sym_val_to_name_types :: "string option list"
  role_types :: "nat set list"
  permissive_map :: "nat set"
  policyvers :: nat

definition symtab_search :: "(string \<times> 'd) list \<Rightarrow> string \<Rightarrow> 'd option" where
  "symtab_search tab name = map_of tab name"

text \<open>Positions of new entries, results of allocations, uninitialised variables and \<open>sscanf\<close>.\<close>

record policy_env =
  po_av_place :: "avtab \<Rightarrow> avtab_key \<Rightarrow> nat"
  po_av_alloc :: "avtab \<Rightarrow> bool"
  po_ebitmap_alloc :: "nat \<Rightarrow> bool"
  po_type_place :: nat
  po_type_alloc :: bool
  po_key_dup :: bool
  po_sym_insert :: bool
  po_attr_map_alloc :: bool
  po_val_to_struct_alloc :: bool
  po_val_to_name_alloc :: bool
  po_attr_map_prealloc :: bool
  po_val_to_struct_prealloc :: bool
  po_val_to_name_prealloc :: bool
  po_trans_alloc :: bool
  po_trans_key_alloc :: bool
  po_trans_name_dup :: bool
  po_trans_insert :: bool
  po_stype_junk :: u32
  po_low_junk :: u16
  po_high_junk :: u16
  po_sscanf_hx :: "string \<Rightarrow> u16 option"
  po_sscanf_hx_hx :: "string \<Rightarrow> u16 option \<times> u16 option"

text \<open>\<open>avtab_insert_nonunique\<close>: the new node's index, or nothing if it cannot be allocated.\<close>

definition avtab_insert_nonunique :: "policy_env \<Rightarrow> avtab \<Rightarrow> avtab_key \<Rightarrow> avtab_datum \<Rightarrow> nat option \<times> avtab" where
  "avtab_insert_nonunique e t key d =
     (if \<not> po_av_alloc e t then (None, t)
      else let i = min (po_av_place e t key) (length t) in (Some i, take i t @ (key, d) # drop i t))"

text \<open>\<open>ebitmap_set_bit\<close>: whether it returns 0; clearing a bit needs no memory.\<close>

definition ebitmap_set_bit :: "policy_env \<Rightarrow> nat set \<Rightarrow> nat \<Rightarrow> bool \<Rightarrow> bool \<times> nat set" where
  "ebitmap_set_bit e m b v =
     (if \<not> v then (True, m - {b})
      else if b \<in> m \<or> po_ebitmap_alloc e b then (True, insert b m) else (False, m))"

end
