(* ===== verification/Sepolicy.thy ===== *)
theory Sepolicy
  imports Policydb
begin

text \<open>
  \<^verbatim>\<open>sepolicy.c\<close>: the edits of the policy database. A name NULL, which stands for all types or classes, is
  \<open>None\<close>; a result \<open>None\<close> is an access through the NULL pointer of a failed allocation.
\<close>

subsection \<open>Access vector rules\<close>

definition strip_av :: "u16 \<Rightarrow> bool \<Rightarrow> bool" where
  "strip_av effect invert \<longleftrightarrow> (effect = AVTAB_AUDITDENY) = (\<not> invert)"

definition xperm_match :: "avtab_key \<Rightarrow> avtab_extended_perms \<Rightarrow> avtab_key \<times> avtab_datum \<Rightarrow> bool" where
  "xperm_match key xperms = (\<lambda>(k, d). avtab_match key k \<and>
     (case d of Av_data _ \<Rightarrow> False
      | Av_xperms x \<Rightarrow> xp_specified x = xp_specified xperms \<and> xp_driver x = xp_driver xperms))"

definition get_avtab_node :: "policy_env \<Rightarrow> avtab_key \<Rightarrow> avtab_extended_perms option \<Rightarrow> policydb \<Rightarrow>
    nat option \<times> policydb" where
  "get_avtab_node e key xperms db =
     (let has_xperms = (k_specified key AND AVTAB_XPERMS \<noteq> 0);
          node = (case xperms of
              Some x \<Rightarrow> if has_xperms then find_index (xperm_match key x) (te_avtab db)
                else avtab_search_node (te_avtab db) key
            | None \<Rightarrow> avtab_search_node (te_avtab db) key);
          data = (if k_specified key = AVTAB_AUDITDENY then NOT 0 else 0)
      in case node of
          Some i \<Rightarrow> (Some i, db)
        | None \<Rightarrow>
            let avdatum = (case xperms of
                  Some x \<Rightarrow> if has_xperms then Av_xperms x else Av_data data
                | None \<Rightarrow> Av_data data);
                (node, tab) = avtab_insert_nonunique e (te_avtab db) key avdatum;
                grow_size = 8 + 8 + (if has_xperms then 1 + 1 + 4 * 8 else 0)
            in (node, db\<lparr>te_avtab := tab, db_len := db_len db + grow_size\<rparr>))"

definition rule_key :: "type_datum \<Rightarrow> type_datum \<Rightarrow> class_datum \<Rightarrow> u16 \<Rightarrow> avtab_key" where
  "rule_key src tgt cls effect =
     \<lparr>source_type = ucast (td_value src), target_type = ucast (td_value tgt),
      target_class = ucast (cd_value cls), k_specified = effect\<rparr>"

definition set_node_data :: "nat \<Rightarrow> (u32 \<Rightarrow> u32) \<Rightarrow> policydb \<Rightarrow> policydb" where
  "set_node_data i f db =
     db\<lparr>te_avtab := (te_avtab db)[i := (fst (te_avtab db ! i), Av_data (f (av_data (snd (te_avtab db ! i)))))]\<rparr>"

text \<open>The bits of a permission; no permission stands for all of them.\<close>

definition av_update :: "u32 option \<Rightarrow> bool \<Rightarrow> u32 \<Rightarrow> u32" where
  "av_update perm invert data =
     (if invert then (case perm of Some p \<Rightarrow> data AND NOT (push_bit (unat (p - 1)) 1) | None \<Rightarrow> 0)
      else (case perm of Some p \<Rightarrow> data OR push_bit (unat (p - 1)) 1 | None \<Rightarrow> NOT 0))"

definition add_rule_leaf :: "policy_env \<Rightarrow> type_datum \<Rightarrow> type_datum \<Rightarrow> u32 option \<Rightarrow> u16 \<Rightarrow> bool \<Rightarrow>
    class_datum \<Rightarrow> policydb \<Rightarrow> policydb option" where
  "add_rule_leaf e src tgt perm effect invert cls db =
     (case get_avtab_node e (rule_key src tgt cls effect) None db of
        (None, _) \<Rightarrow> None
      | (Some i, db) \<Rightarrow> Some (set_node_data i (av_update perm invert) db))"

definition add_rule_tgt :: "policy_env \<Rightarrow> type_datum \<Rightarrow> class_datum option \<Rightarrow> u32 option \<Rightarrow> u16 \<Rightarrow> bool \<Rightarrow>
    type_datum \<Rightarrow> policydb \<Rightarrow> policydb option" where
  "add_rule_tgt e src cls perm effect invert tgt db =
     (case cls of
        None \<Rightarrow> fold_opt (\<lambda>(_, cls). add_rule_leaf e src tgt perm effect invert cls) (p_classes db) db
      | Some cls \<Rightarrow> add_rule_leaf e src tgt perm effect invert cls db)"

text \<open>A wildcard for a type goes through all types, or through the attributes only.\<close>

definition wildcard_types :: "u16 \<Rightarrow> bool \<Rightarrow> policydb \<Rightarrow> type_datum list" where
  "wildcard_types effect invert db =
     (if strip_av effect invert then map snd (p_types db)
      else filter td_attribute (map snd (p_types db)))"

definition add_rule_src :: "policy_env \<Rightarrow> type_datum option \<Rightarrow> class_datum option \<Rightarrow> u32 option \<Rightarrow> u16 \<Rightarrow> bool \<Rightarrow>
    type_datum \<Rightarrow> policydb \<Rightarrow> policydb option" where
  "add_rule_src e tgt cls perm effect invert src db =
     (case tgt of
        None \<Rightarrow> fold_opt (add_rule_tgt e src cls perm effect invert) (wildcard_types effect invert db) db
      | Some tgt \<Rightarrow> add_rule_tgt e src cls perm effect invert tgt db)"

definition add_rule_raw :: "policy_env \<Rightarrow> type_datum option \<Rightarrow> type_datum option \<Rightarrow> class_datum option \<Rightarrow>
    u32 option \<Rightarrow> u16 \<Rightarrow> bool \<Rightarrow> policydb \<Rightarrow> policydb option" where
  "add_rule_raw e src tgt cls perm effect invert db =
     (case src of
        None \<Rightarrow> fold_opt (add_rule_src e tgt cls perm effect invert) (wildcard_types effect invert db) db
      | Some src \<Rightarrow> add_rule_src e tgt cls perm effect invert src db)"

text \<open>A name that is given must be found: \<open>None\<close> if it is not, \<open>Some None\<close> for a wildcard.\<close>

definition optional_symbol :: "(string \<times> 'd) list \<Rightarrow> string option \<Rightarrow> 'd option option" where
  "optional_symbol tab name =
     (case name of None \<Rightarrow> Some None | Some n \<Rightarrow> map_option Some (symtab_search tab n))"

definition find_perm :: "class_datum option \<Rightarrow> string option \<Rightarrow> u32 option option" where
  "find_perm cls p =
     (case p of
        None \<Rightarrow> Some None
      | Some p \<Rightarrow> (case cls of
          None \<Rightarrow> None
        | Some cls \<Rightarrow> (case symtab_search (cd_permissions cls) p of
            Some v \<Rightarrow> Some (Some v)
          | None \<Rightarrow> (case cd_comdatum cls of
              None \<Rightarrow> None
            | Some com \<Rightarrow> map_option Some (symtab_search com p)))))"

definition add_rule :: "policy_env \<Rightarrow> string option \<Rightarrow> string option \<Rightarrow> string option \<Rightarrow> string option \<Rightarrow>
    u16 \<Rightarrow> bool \<Rightarrow> policydb \<Rightarrow> (bool \<times> policydb) option" where
  "add_rule e s t c p effect invert db =
     (case optional_symbol (p_types db) s of
        None \<Rightarrow> Some (False, db)
      | Some src \<Rightarrow> (case optional_symbol (p_types db) t of
          None \<Rightarrow> Some (False, db)
        | Some tgt \<Rightarrow> (case optional_symbol (p_classes db) c of
            None \<Rightarrow> Some (False, db)
          | Some cls \<Rightarrow> (case find_perm cls p of
              None \<Rightarrow> Some (False, db)
            | Some perm \<Rightarrow> map_option (Pair True) (add_rule_raw e src tgt cls perm effect invert db)))))"

subsection \<open>Extended permissions\<close>

definition ioctl_driver :: "u16 \<Rightarrow> u8" where "ioctl_driver x = ucast (drop_bit 8 x AND 0xFF)"
definition ioctl_func :: "u16 \<Rightarrow> u8" where "ioctl_func x = ucast (x AND 0xFF)"

definition xperm_set :: "nat \<Rightarrow> u32 list \<Rightarrow> u32 list" where
  "xperm_set x p = p[x div 32 := p ! (x div 32) OR push_bit (x mod 32) 1]"

definition xperm_clear :: "nat \<Rightarrow> u32 list \<Rightarrow> u32 list" where
  "xperm_clear x p = p[x div 32 := p ! (x div 32) AND NOT (push_bit (x mod 32) 1)]"

definition xperm_range :: "bool \<Rightarrow> u8 \<Rightarrow> u8 \<Rightarrow> u32 list" where
  "xperm_range invert lo hi =
     fold (\<lambda>i. if invert then xperm_clear i else xperm_set i) [unat lo..<Suc (unat hi)] (replicate 8 0)"

definition make_xperms :: "u16 \<Rightarrow> u16 \<Rightarrow> bool \<Rightarrow> avtab_extended_perms" where
  "make_xperms low high invert =
     (if ioctl_driver low \<noteq> ioctl_driver high
      then \<lparr>xp_specified = AVTAB_XPERMS_IOCTLDRIVER, xp_driver = 0,
        xp_perms = xperm_range invert (ioctl_driver low) (ioctl_driver high)\<rparr>
      else \<lparr>xp_specified = AVTAB_XPERMS_IOCTLFUNCTION, xp_driver = ioctl_driver low,
        xp_perms = xperm_range invert (ioctl_func low) (ioctl_func high)\<rparr>)"

text \<open>A node that is found is left as it is: its permissions are never NULL.\<close>

definition add_xperm_leaf :: "policy_env \<Rightarrow> type_datum \<Rightarrow> type_datum \<Rightarrow> u16 \<Rightarrow> u16 \<Rightarrow> u16 \<Rightarrow> bool \<Rightarrow>
    class_datum \<Rightarrow> policydb \<Rightarrow> policydb" where
  "add_xperm_leaf e src tgt low high effect invert cls db =
     snd (get_avtab_node e (rule_key src tgt cls effect) (Some (make_xperms low high invert)) db)"

definition add_xperm_tgt :: "policy_env \<Rightarrow> type_datum \<Rightarrow> class_datum option \<Rightarrow> u16 \<Rightarrow> u16 \<Rightarrow> u16 \<Rightarrow> bool \<Rightarrow>
    type_datum \<Rightarrow> policydb \<Rightarrow> policydb" where
  "add_xperm_tgt e src cls low high effect invert tgt db =
     (case cls of
        None \<Rightarrow> fold (\<lambda>(_, cls). add_xperm_leaf e src tgt low high effect invert cls) (p_classes db) db
      | Some cls \<Rightarrow> add_xperm_leaf e src tgt low high effect invert cls db)"

definition add_xperm_src :: "policy_env \<Rightarrow> type_datum option \<Rightarrow> class_datum option \<Rightarrow> u16 \<Rightarrow> u16 \<Rightarrow> u16 \<Rightarrow> bool \<Rightarrow>
    type_datum \<Rightarrow> policydb \<Rightarrow> policydb" where
  "add_xperm_src e tgt cls low high effect invert src db =
     (case tgt of
        None \<Rightarrow> fold (add_xperm_tgt e src cls low high effect invert)
          (filter td_attribute (map snd (p_types db))) db
      | Some tgt \<Rightarrow> add_xperm_tgt e src cls low high effect invert tgt db)"

definition add_xperm_rule_raw :: "policy_env \<Rightarrow> type_datum option \<Rightarrow> type_datum option \<Rightarrow> class_datum option \<Rightarrow>
    u16 \<Rightarrow> u16 \<Rightarrow> u16 \<Rightarrow> bool \<Rightarrow> policydb \<Rightarrow> policydb" where
  "add_xperm_rule_raw e src tgt cls low high effect invert db =
     (case src of
        None \<Rightarrow> fold (add_xperm_src e tgt cls low high effect invert)
          (filter td_attribute (map snd (p_types db))) db
      | Some src \<Rightarrow> add_xperm_src e tgt cls low high effect invert src db)"

text \<open>What \<open>sscanf\<close> does not assign stays uninitialised.\<close>

definition xperm_bounds :: "policy_env \<Rightarrow> string option \<Rightarrow> u16 \<times> u16" where
  "xperm_bounds e perm_range =
     (let or_else = (\<lambda>v d. case v of None \<Rightarrow> d | Some x \<Rightarrow> x) in
      case perm_range of
        None \<Rightarrow> (0, 0xFFFF)
      | Some r \<Rightarrow>
          if CHR ''-'' \<in> set r
          then (let (l, h) = po_sscanf_hx_hx e r in (or_else l (po_low_junk e), or_else h (po_high_junk e)))
          else (let low = or_else (po_sscanf_hx e r) (po_low_junk e) in (low, low)))"

definition add_xperm_rule :: "policy_env \<Rightarrow> string option \<Rightarrow> string option \<Rightarrow> string option \<Rightarrow> string option \<Rightarrow>
    u16 \<Rightarrow> bool \<Rightarrow> policydb \<Rightarrow> bool \<times> policydb" where
  "add_xperm_rule e s t c perm_range effect invert db =
     (case optional_symbol (p_types db) s of
        None \<Rightarrow> (False, db)
      | Some src \<Rightarrow> (case optional_symbol (p_types db) t of
          None \<Rightarrow> (False, db)
        | Some tgt \<Rightarrow> (case optional_symbol (p_classes db) c of
            None \<Rightarrow> (False, db)
          | Some cls \<Rightarrow>
              let (low, high) = xperm_bounds e perm_range
              in (True, add_xperm_rule_raw e src tgt cls low high effect invert db))))"

subsection \<open>Type rules\<close>

text \<open>Four names that must all be found.\<close>

definition rule_symbols :: "policydb \<Rightarrow> string \<Rightarrow> string \<Rightarrow> string \<Rightarrow> string \<Rightarrow>
    (type_datum \<times> type_datum \<times> class_datum \<times> type_datum) option" where
  "rule_symbols db s t c d =
     (case symtab_search (p_types db) s of
        None \<Rightarrow> None
      | Some src \<Rightarrow> (case symtab_search (p_types db) t of
          None \<Rightarrow> None
        | Some tgt \<Rightarrow> (case symtab_search (p_classes db) c of
            None \<Rightarrow> None
          | Some cls \<Rightarrow> (case symtab_search (p_types db) d of
              None \<Rightarrow> None
            | Some dt \<Rightarrow> Some (src, tgt, cls, dt)))))"

definition add_type_rule :: "policy_env \<Rightarrow> string \<Rightarrow> string \<Rightarrow> string \<Rightarrow> string \<Rightarrow> u16 \<Rightarrow> policydb \<Rightarrow>
    (bool \<times> policydb) option" where
  "add_type_rule e s t c d effect db =
     (case rule_symbols db s t c d of
        None \<Rightarrow> Some (False, db)
      | Some (src, tgt, cls, dt) \<Rightarrow>
          (case get_avtab_node e (rule_key src tgt cls effect) None db of
            (None, _) \<Rightarrow> None
          | (Some i, db) \<Rightarrow> Some (True, set_node_data i (\<lambda>_. td_value dt) db)))"

text \<open>The 4.19 branch. The key's source type is never assigned (\<open>po_stype_junk\<close>); a name that cannot be
  copied is NULL when the table hashes it.\<close>

definition add_filename_trans :: "policy_env \<Rightarrow> string \<Rightarrow> string \<Rightarrow> string \<Rightarrow> string \<Rightarrow> string \<Rightarrow> policydb \<Rightarrow>
    (bool \<times> policydb) option" where
  "add_filename_trans e s t c d obj db =
     (case rule_symbols db s t c d of
        None \<Rightarrow> Some (False, db)
      | Some (src, tgt, cls, dt) \<Rightarrow>
          let key = \<lparr>ft_stype = po_stype_junk e, ft_ttype = td_value tgt, ft_tclass = ucast (cd_value cls), ft_name = obj\<rparr>;
              mark = (\<lambda>db. let (ok, m) = ebitmap_set_bit e (filename_trans_ttypes db) (unat (td_value src - 1)) True
                in (ok, db\<lparr>filename_trans_ttypes := m\<rparr>))
          in (case map_of (filename_trans db) key of
            Some _ \<Rightarrow> Some (mark db)
          | None \<Rightarrow>
              if \<not> po_trans_alloc e then Some (False, db)
              else if \<not> po_trans_key_alloc e then Some (False, db)
              else if \<not> po_trans_name_dup e then None
              else Some (mark (if po_trans_insert e
                then db\<lparr>filename_trans := (key, td_value dt) # filename_trans db\<rparr> else db))))"

definition add_genfscon :: "policydb \<Rightarrow> string \<Rightarrow> string \<Rightarrow> string \<Rightarrow> bool \<times> policydb" where
  "add_genfscon db fs_name path ctx = (False, db)"

subsection \<open>Types and attributes\<close>

text \<open>The 4.19 branch: new arrays with one more element replace the old ones.\<close>

definition resize_array :: "'a \<Rightarrow> nat \<Rightarrow> 'a list \<Rightarrow> 'a list" where
  "resize_array z n xs = take n xs @ replicate (n - length xs) z"

definition publish_type :: "policy_env \<Rightarrow> string \<Rightarrow> type_datum \<Rightarrow> policydb \<Rightarrow> policydb" where
  "publish_type e key ty db =
     (let n = unat (p_types_nprim db); i = unat (td_value ty - 1);
          db = db\<lparr>type_attr_map_array := (resize_array {} n (type_attr_map_array db))[i := snd (ebitmap_set_bit e {} i True)]\<rparr>;
          db = db\<lparr>type_val_to_struct_array := (resize_array None n (type_val_to_struct_array db))[i := Some ty]\<rparr>;
          db = db\<lparr>sym_val_to_name_types := (resize_array None n (sym_val_to_name_types db))[i := Some key]\<rparr>
      in db\<lparr>role_types := map (\<lambda>m. snd (ebitmap_set_bit e m i True)) (role_types db)\<rparr>)"

text \<open>The allocations of the three new arrays.\<close>

definition new_type_arrays :: "policy_env \<Rightarrow> bool" where
  "new_type_arrays e \<longleftrightarrow> po_attr_map_alloc e \<and> po_val_to_struct_alloc e \<and> po_val_to_name_alloc e \<and>
     po_attr_map_prealloc e \<and> po_val_to_struct_prealloc e \<and> po_val_to_name_prealloc e"

definition add_type :: "policy_env \<Rightarrow> string \<Rightarrow> bool \<Rightarrow> policydb \<Rightarrow> bool \<times> policydb" where
  "add_type e type_name attr db =
     (case symtab_search (p_types db) type_name of
        Some _ \<Rightarrow> (True, db)
      | None \<Rightarrow>
          let val = p_types_nprim db + 1;
              db = db\<lparr>p_types_nprim := val\<rparr>;
              ty = \<lparr>td_value = val, td_primary = True, td_attribute = attr\<rparr>
          in if \<not> po_type_alloc e then (False, db)
          else if \<not> po_key_dup e then (False, db)
          else if \<not> po_sym_insert e then (False, db)
          else let db = db\<lparr>p_types := take (po_type_place e) (p_types db) @ (type_name, ty) # drop (po_type_place e) (p_types db)\<rparr>
          in if \<not> new_type_arrays e then (False, db)
          else (True, publish_type e type_name ty db))"

definition set_type_state :: "policy_env \<Rightarrow> string option \<Rightarrow> bool \<Rightarrow> policydb \<Rightarrow> bool \<times> policydb" where
  "set_type_state e type_name permissive db =
     (case type_name of
        None \<Rightarrow> (True, db\<lparr>permissive_map := fold (\<lambda>(_, ty) m. snd (ebitmap_set_bit e m (unat (td_value ty)) permissive))
            (p_types db) (permissive_map db)\<rparr>)
      | Some n \<Rightarrow> (case symtab_search (p_types db) n of
          None \<Rightarrow> (False, db)
        | Some ty \<Rightarrow>
            let (ok, m) = ebitmap_set_bit e (permissive_map db) (unat (td_value ty)) permissive
            in (ok, db\<lparr>permissive_map := m\<rparr>)))"

definition add_constraint_name :: "policy_env \<Rightarrow> type_datum \<Rightarrow> type_datum \<Rightarrow> constraint_expr \<Rightarrow> constraint_expr option" where
  "add_constraint_name e ty attr x =
     (if ce_expr_type x \<noteq> CEXPR_NAMES then Some x
      else case ce_type_names x of
        None \<Rightarrow> None
      | Some names \<Rightarrow>
          Some (if unat (td_value attr - 1) \<in> names
            then x\<lparr>ce_names := snd (ebitmap_set_bit e (ce_names x) (unat (td_value ty - 1)) True)\<rparr> else x))"

definition add_typeattribute_raw :: "policy_env \<Rightarrow> type_datum \<Rightarrow> type_datum \<Rightarrow> policydb \<Rightarrow> policydb option" where
  "add_typeattribute_raw e ty attr db =
     (let i = unat (td_value ty - 1) in
      if length (type_attr_map_array db) \<le> i then None
      else let sattr = snd (ebitmap_set_bit e (type_attr_map_array db ! i) (unat (td_value attr - 1)) True);
          db = db\<lparr>type_attr_map_array := (type_attr_map_array db)[i := sattr]\<rparr>
        in map_option (\<lambda>cls. db\<lparr>p_classes := cls\<rparr>)
          (map_opt (\<lambda>(n, cls). map_option (\<lambda>cs. (n, cls\<lparr>cd_constraints := cs\<rparr>))
             (map_opt (map_opt (add_constraint_name e ty attr)) (cd_constraints cls))) (p_classes db)))"

definition add_typeattribute :: "policy_env \<Rightarrow> string \<Rightarrow> string \<Rightarrow> policydb \<Rightarrow> (bool \<times> policydb) option" where
  "add_typeattribute e ty attr db =
     (case symtab_search (p_types db) ty of
        None \<Rightarrow> Some (False, db)
      | Some type_d \<Rightarrow>
          if td_attribute type_d then Some (False, db)
          else (case symtab_search (p_types db) attr of
            None \<Rightarrow> Some (False, db)
          | Some attr_d \<Rightarrow>
              if \<not> td_attribute attr_d then Some (False, db)
              else map_option (Pair True) (add_typeattribute_raw e type_d attr_d db)))"

subsection \<open>The interface\<close>

definition ksu_type :: "policy_env \<Rightarrow> string \<Rightarrow> string \<Rightarrow> policydb \<Rightarrow> (bool \<times> policydb) option" where
  "ksu_type e name attr db =
     (let (ok, db) = add_type e name False db in if ok then add_typeattribute e name attr db else Some (False, db))"

definition ksu_attribute :: "policy_env \<Rightarrow> string \<Rightarrow> policydb \<Rightarrow> bool \<times> policydb" where
  "ksu_attribute e name db = add_type e name True db"

definition ksu_permissive :: "policy_env \<Rightarrow> string option \<Rightarrow> policydb \<Rightarrow> bool \<times> policydb" where
  "ksu_permissive e ty db = set_type_state e ty True db"

definition ksu_enforce :: "policy_env \<Rightarrow> string option \<Rightarrow> policydb \<Rightarrow> bool \<times> policydb" where
  "ksu_enforce e ty db = set_type_state e ty False db"

definition ksu_typeattribute :: "policy_env \<Rightarrow> string \<Rightarrow> string \<Rightarrow> policydb \<Rightarrow> (bool \<times> policydb) option" where
  "ksu_typeattribute e ty attr db = add_typeattribute e ty attr db"

definition ksu_exists :: "policydb \<Rightarrow> string \<Rightarrow> bool" where
  "ksu_exists db ty \<longleftrightarrow> symtab_search (p_types db) ty \<noteq> None"

type_synonym av_rule = "string option \<Rightarrow> string option \<Rightarrow> string option \<Rightarrow> string option \<Rightarrow> policydb \<Rightarrow>
  (bool \<times> policydb) option"

definition ksu_allow :: "policy_env \<Rightarrow> av_rule" where
  "ksu_allow e src tgt cls perm db = add_rule e src tgt cls perm AVTAB_ALLOWED False db"

definition ksu_deny :: "policy_env \<Rightarrow> av_rule" where
  "ksu_deny e src tgt cls perm db = add_rule e src tgt cls perm AVTAB_ALLOWED True db"

definition ksu_auditallow :: "policy_env \<Rightarrow> av_rule" where
  "ksu_auditallow e src tgt cls perm db = add_rule e src tgt cls perm AVTAB_AUDITALLOW False db"

definition ksu_dontaudit :: "policy_env \<Rightarrow> av_rule" where
  "ksu_dontaudit e src tgt cls perm db = add_rule e src tgt cls perm AVTAB_AUDITDENY True db"

type_synonym xperm_rule = "string option \<Rightarrow> string option \<Rightarrow> string option \<Rightarrow> string option \<Rightarrow> policydb \<Rightarrow>
  bool \<times> policydb"

definition ksu_allowxperm :: "policy_env \<Rightarrow> xperm_rule" where
  "ksu_allowxperm e src tgt cls rng db = add_xperm_rule e src tgt cls rng AVTAB_XPERMS_ALLOWED False db"

definition ksu_auditallowxperm :: "policy_env \<Rightarrow> xperm_rule" where
  "ksu_auditallowxperm e src tgt cls rng db = add_xperm_rule e src tgt cls rng AVTAB_XPERMS_AUDITALLOW False db"

definition ksu_dontauditxperm :: "policy_env \<Rightarrow> xperm_rule" where
  "ksu_dontauditxperm e src tgt cls rng db = add_xperm_rule e src tgt cls rng AVTAB_XPERMS_DONTAUDIT False db"

definition ksu_type_transition :: "policy_env \<Rightarrow> string \<Rightarrow> string \<Rightarrow> string \<Rightarrow> string \<Rightarrow> string option \<Rightarrow> policydb \<Rightarrow>
    (bool \<times> policydb) option" where
  "ksu_type_transition e src tgt cls def obj db =
     (case obj of
        Some name \<Rightarrow> add_filename_trans e src tgt cls def name db
      | None \<Rightarrow> add_type_rule e src tgt cls def AVTAB_TRANSITION db)"

definition ksu_type_change :: "policy_env \<Rightarrow> string \<Rightarrow> string \<Rightarrow> string \<Rightarrow> string \<Rightarrow> policydb \<Rightarrow> (bool \<times> policydb) option" where
  "ksu_type_change e src tgt cls def db = add_type_rule e src tgt cls def AVTAB_CHANGE db"

definition ksu_type_member :: "policy_env \<Rightarrow> string \<Rightarrow> string \<Rightarrow> string \<Rightarrow> string \<Rightarrow> policydb \<Rightarrow> (bool \<times> policydb) option" where
  "ksu_type_member e src tgt cls def db = add_type_rule e src tgt cls def AVTAB_MEMBER db"

definition ksu_genfscon :: "string \<Rightarrow> string \<Rightarrow> string \<Rightarrow> policydb \<Rightarrow> bool \<times> policydb" where
  "ksu_genfscon fs_name path ctx db = add_genfscon db fs_name path ctx"

end
