(* ===== verification/Rules.thy ===== *)
theory Rules
  imports Sepolicy Selinux Compat
begin

text \<open>
  \<^verbatim>\<open>selinux/rules.c\<close>: the rules the driver adds to the policy when init's second stage starts, and the
  decoding of the rule requests that the manager's daemon sends.
\<close>

subsection \<open>The driver's rules\<close>

definition SU_DOMAIN :: string where "SU_DOMAIN = ''su''"
definition KERNEL_SU_FILE :: string where "KERNEL_SU_FILE = ''ksu_file''"
definition POLICYDB_VERSION_XPERMS_IOCTL :: nat where "POLICYDB_VERSION_XPERMS_IOCTL = 30"

abbreviation ANY :: "string option" where "ANY \<equiv> None"

text \<open>The results of the single edits are ignored.\<close>

definition apply_allow :: "policy_env \<Rightarrow> string option \<times> string option \<times> string option \<times> string option \<Rightarrow>
    policydb \<Rightarrow> policydb option" where
  "apply_allow e = (\<lambda>(s, t, c, p) db. map_option snd (ksu_allow e s t c p db))"

definition apply_typeattribute :: "policy_env \<Rightarrow> string \<Rightarrow> string \<Rightarrow> policydb \<Rightarrow> policydb option" where
  "apply_typeattribute e ty attr db = map_option snd (ksu_typeattribute e ty attr db)"

definition su_domain_rules :: "policy_env \<Rightarrow> (policydb \<Rightarrow> policydb option) list" where
  "su_domain_rules e =
    [\<lambda>db. Some (snd (ksu_permissive e (Some SU_DOMAIN) db)),
     apply_typeattribute e SU_DOMAIN ''mlstrustedsubject'',
     apply_typeattribute e SU_DOMAIN ''netdomain'',
     apply_typeattribute e SU_DOMAIN ''bluetoothdomain'',
     \<lambda>db. map_option snd (ksu_type e KERNEL_SU_FILE ''file_type'' db),
     apply_typeattribute e KERNEL_SU_FILE ''mlstrustedobject'',
     apply_allow e (ANY, Some KERNEL_SU_FILE, ANY, ANY),
     apply_allow e (Some SU_DOMAIN, ANY, ANY, ANY)]"

definition xperm_rules :: "policy_env \<Rightarrow> policydb \<Rightarrow> policydb" where
  "xperm_rules e db =
     (if POLICYDB_VERSION_XPERMS_IOCTL \<le> policyvers db
      then fold (\<lambda>c db. snd (ksu_allowxperm e (Some SU_DOMAIN) ANY (Some c) ANY db))
        [''blk_file'', ''fifo_file'', ''chr_file'', ''file''] db
      else db)"

definition allow_rules :: "(string option \<times> string option \<times> string option \<times> string option) list" where
  "allow_rules =
    (let su = Some SU_DOMAIN; kernel = Some ''kernel''; init = Some ''init'';
         dir = Some ''dir''; fil = Some ''file''; fifo = Some ''fifo_file'' in
    [(kernel, Some ''adb_data_file'', dir, ANY),
     (kernel, Some ''adb_data_file'', fil, ANY),
     (kernel, Some ''apk_data_file'', fil, Some ''open''),
     (kernel, Some ''apk_data_file'', dir, Some ''open''),
     (kernel, Some ''apk_data_file'', dir, Some ''read''),
     (kernel, Some ''apk_data_file'', dir, Some ''search''),
     (kernel, Some ''shell_data_file'', fil, ANY),
     (kernel, kernel, Some ''capability'', Some ''dac_override''),
     (kernel, Some ''packages_list_file'', fil, ANY),
     (kernel, Some ''packages_list_file'', dir, ANY),
     (kernel, Some ''system_data_file'', fil, ANY),
     (kernel, Some ''system_data_file'', dir, ANY),
     (init, Some ''adb_data_file'', fil, ANY),
     (init, Some ''adb_data_file'', dir, ANY),
     (init, su, ANY, ANY),
     (Some ''zygote'', Some ''adb_data_file'', dir, Some ''search''),
     (Some ''servicemanager'', su, dir, Some ''search''),
     (Some ''servicemanager'', su, dir, Some ''read''),
     (Some ''servicemanager'', su, fil, Some ''open''),
     (Some ''servicemanager'', su, fil, Some ''read''),
     (Some ''servicemanager'', su, Some ''process'', Some ''getattr''),
     (ANY, su, Some ''process'', Some ''sigchld''),
     (Some ''logd'', su, dir, Some ''search''),
     (Some ''logd'', su, fil, Some ''read''),
     (Some ''logd'', su, fil, Some ''open''),
     (Some ''logd'', su, fil, Some ''getattr''),
     (ANY, su, Some ''fd'', Some ''use''),
     (ANY, su, fifo, Some ''write''),
     (ANY, su, fifo, Some ''read''),
     (ANY, su, fifo, Some ''open''),
     (ANY, su, fifo, Some ''getattr''),
     (Some ''hwservicemanager'', su, dir, Some ''search''),
     (Some ''hwservicemanager'', su, fil, Some ''read''),
     (Some ''hwservicemanager'', su, fil, Some ''open''),
     (Some ''hwservicemanager'', su, Some ''process'', Some ''getattr''),
     (kernel, ANY, fil, Some ''read''),
     (kernel, ANY, fil, Some ''write''),
     (ANY, su, Some ''binder'', ANY),
     (Some ''system_server'', su, Some ''process'', Some ''getpgid''),
     (Some ''system_server'', su, Some ''process'', Some ''sigkill''),
     (Some ''zygote'', Some ''labeledfs'', Some ''filesystem'', Some ''unmount'')])"

definition kernelsu_rules :: "policy_env \<Rightarrow> (policydb \<Rightarrow> policydb option) list" where
  "kernelsu_rules e = su_domain_rules e @ [\<lambda>db. Some (xperm_rules e db)] @ map (apply_allow e) allow_rules"

text \<open>The policy, the security identifiers that SUSFS remembers, and how often the access vector cache was
  reset.\<close>

record rules_state =
  rs_db :: policydb
  rs_sids :: selinux_globals
  rs_avc_resets :: nat

definition ksu_apply_kernelsu_rules :: "policy_env \<Rightarrow> selinux_env \<Rightarrow> rules_state \<Rightarrow> rules_state option" where
  "ksu_apply_kernelsu_rules e se st =
     (case fold_opt (\<lambda>rule db. rule db) (kernelsu_rules e) (rs_db st) of
        None \<Rightarrow> None
      | Some db \<Rightarrow> Some (st\<lparr>rs_db := db,
          rs_sids := susfs_set_zygote_sid se (susfs_set_ksu_sid se (susfs_set_init_sid se (rs_sids st)))\<rparr>))"

subsection \<open>Rule requests\<close>

definition MAX_SEPOL_LEN :: nat where "MAX_SEPOL_LEN = 128"

definition CMD_NORMAL_PERM :: u32 where "CMD_NORMAL_PERM = 1"
definition CMD_XPERM :: u32 where "CMD_XPERM = 2"
definition CMD_TYPE_STATE :: u32 where "CMD_TYPE_STATE = 3"
definition CMD_TYPE :: u32 where "CMD_TYPE = 4"
definition CMD_TYPE_ATTR :: u32 where "CMD_TYPE_ATTR = 5"
definition CMD_ATTR :: u32 where "CMD_ATTR = 6"
definition CMD_TYPE_TRANSITION :: u32 where "CMD_TYPE_TRANSITION = 7"
definition CMD_TYPE_CHANGE :: u32 where "CMD_TYPE_CHANGE = 8"
definition CMD_GENFSCON :: u32 where "CMD_GENFSCON = 9"

lemmas sepol_cmds = CMD_NORMAL_PERM_def CMD_XPERM_def CMD_TYPE_STATE_def CMD_TYPE_def CMD_TYPE_ATTR_def
  CMD_ATTR_def CMD_TYPE_TRANSITION_def CMD_TYPE_CHANGE_def CMD_GENFSCON_def

record sepol_data =
  sd_cmd :: u32
  sd_subcmd :: u32
  sepol1 :: u64
  sepol2 :: u64
  sepol3 :: u64
  sepol4 :: u64
  sepol5 :: u64
  sepol6 :: u64
  sepol7 :: u64

record sepol_compat_data =
  cd_cmd :: u32
  cd_subcmd :: u32
  compat_sepol1 :: u32
  compat_sepol2 :: u32
  compat_sepol3 :: u32
  compat_sepol4 :: u32
  compat_sepol5 :: u32
  compat_sepol6 :: u32
  compat_sepol7 :: u32

text \<open>User memory, the request as \<open>copy_from_user\<close> finds it in either layout, and, for each buffer of a
  handler, what it held before and what lies behind it on the stack.\<close>

record request_env =
  re_um :: user_mem
  re_data :: "uaddr \<Rightarrow> sepol_data option"
  re_compat_data :: "uaddr \<Rightarrow> sepol_compat_data option"
  re_stack :: "nat \<Rightarrow> cbuf"
  re_behind :: "nat \<Rightarrow> cbuf"

text \<open>The string that the policy code reads from the i-th buffer; an unterminated buffer is read on into
  what lies behind it.\<close>

definition copy_name :: "request_env \<Rightarrow> nat \<Rightarrow> uaddr \<Rightarrow> string option" where
  "copy_name r i addr =
     (let (ret, buf) = strncpy_from_user (re_um r) False (re_stack r i) addr MAX_SEPOL_LEN in
      if ret < 0 then None else Some (cstr (buf @ re_behind r i)))"

definition get_object :: "request_env \<Rightarrow> nat \<Rightarrow> uaddr \<Rightarrow> string option option" where
  "get_object r i user_object =
     (if user_object = 0 then Some ANY else map_option Some (copy_name r i user_object))"

definition sepol_ret :: "bool \<times> policydb \<Rightarrow> int \<times> policydb" where
  "sepol_ret = (\<lambda>(success, db). (if success then 0 else - 1, db))"

definition handle_normal_perm :: "request_env \<Rightarrow> policy_env \<Rightarrow> sepol_data \<Rightarrow> policydb \<Rightarrow> (int \<times> policydb) option" where
  "handle_normal_perm r e d db =
     (case get_object r 0 (sepol1 d) of
        None \<Rightarrow> Some (- 1, db)
      | Some s \<Rightarrow> (case get_object r 1 (sepol2 d) of
          None \<Rightarrow> Some (- 1, db)
        | Some t \<Rightarrow> (case get_object r 2 (sepol3 d) of
            None \<Rightarrow> Some (- 1, db)
          | Some c \<Rightarrow> (case get_object r 3 (sepol4 d) of
              None \<Rightarrow> Some (- 1, db)
            | Some p \<Rightarrow> map_option sepol_ret
                (if sd_subcmd d = 1 then ksu_allow e s t c p db
                 else if sd_subcmd d = 2 then ksu_deny e s t c p db
                 else if sd_subcmd d = 3 then ksu_auditallow e s t c p db
                 else if sd_subcmd d = 4 then ksu_dontaudit e s t c p db
                 else Some (False, db))))))"

definition handle_xperm :: "request_env \<Rightarrow> policy_env \<Rightarrow> sepol_data \<Rightarrow> policydb \<Rightarrow> int \<times> policydb" where
  "handle_xperm r e d db =
     (case get_object r 0 (sepol1 d) of
        None \<Rightarrow> (- 1, db)
      | Some s \<Rightarrow> (case get_object r 1 (sepol2 d) of
          None \<Rightarrow> (- 1, db)
        | Some t \<Rightarrow> (case get_object r 2 (sepol3 d) of
            None \<Rightarrow> (- 1, db)
          | Some c \<Rightarrow> (case copy_name r 3 (sepol4 d) of
              None \<Rightarrow> (- 1, db)
            | Some operation \<Rightarrow> (case copy_name r 4 (sepol5 d) of
                None \<Rightarrow> (- 1, db)
              | Some perm_set \<Rightarrow> sepol_ret
                  (if sd_subcmd d = 1 then ksu_allowxperm e s t c (Some perm_set) db
                   else if sd_subcmd d = 2 then ksu_auditallowxperm e s t c (Some perm_set) db
                   else if sd_subcmd d = 3 then ksu_dontauditxperm e s t c (Some perm_set) db
                   else (False, db)))))))"

definition handle_type_state :: "request_env \<Rightarrow> policy_env \<Rightarrow> sepol_data \<Rightarrow> policydb \<Rightarrow> int \<times> policydb" where
  "handle_type_state r e d db =
     (case copy_name r 0 (sepol1 d) of
        None \<Rightarrow> (- 1, db)
      | Some src \<Rightarrow> sepol_ret
          (if sd_subcmd d = 1 then ksu_permissive e (Some src) db
           else if sd_subcmd d = 2 then ksu_enforce e (Some src) db
           else (False, db)))"

definition handle_type :: "request_env \<Rightarrow> policy_env \<Rightarrow> sepol_data \<Rightarrow> policydb \<Rightarrow> (int \<times> policydb) option" where
  "handle_type r e d db =
     (case copy_name r 0 (sepol1 d) of
        None \<Rightarrow> Some (- 1, db)
      | Some ty \<Rightarrow> (case copy_name r 1 (sepol2 d) of
          None \<Rightarrow> Some (- 1, db)
        | Some attr \<Rightarrow> map_option sepol_ret
            (if sd_cmd d = CMD_TYPE then ksu_type e ty attr db else ksu_typeattribute e ty attr db)))"

definition handle_attr :: "request_env \<Rightarrow> policy_env \<Rightarrow> sepol_data \<Rightarrow> policydb \<Rightarrow> int \<times> policydb" where
  "handle_attr r e d db =
     (case copy_name r 0 (sepol1 d) of
        None \<Rightarrow> (- 1, db)
      | Some attr \<Rightarrow> sepol_ret (ksu_attribute e attr db))"

text \<open>The four names of a type rule.\<close>

definition copy_type_rule :: "request_env \<Rightarrow> sepol_data \<Rightarrow> (string \<times> string \<times> string \<times> string) option" where
  "copy_type_rule r d =
     (case copy_name r 0 (sepol1 d) of
        None \<Rightarrow> None
      | Some src \<Rightarrow> (case copy_name r 1 (sepol2 d) of
          None \<Rightarrow> None
        | Some tgt \<Rightarrow> (case copy_name r 2 (sepol3 d) of
            None \<Rightarrow> None
          | Some cls \<Rightarrow> (case copy_name r 3 (sepol4 d) of
              None \<Rightarrow> None
            | Some default_type \<Rightarrow> Some (src, tgt, cls, default_type)))))"

definition handle_type_transition :: "request_env \<Rightarrow> policy_env \<Rightarrow> sepol_data \<Rightarrow> policydb \<Rightarrow> (int \<times> policydb) option" where
  "handle_type_transition r e d db =
     (case copy_type_rule r d of
        None \<Rightarrow> Some (- 1, db)
      | Some (src, tgt, cls, default_type) \<Rightarrow>
          (case (if sepol5 d = 0 then Some None else map_option Some (copy_name r 4 (sepol5 d))) of
            None \<Rightarrow> Some (- 1, db)
          | Some real_object \<Rightarrow>
              map_option sepol_ret (ksu_type_transition e src tgt cls default_type real_object db)))"

definition handle_type_change :: "request_env \<Rightarrow> policy_env \<Rightarrow> sepol_data \<Rightarrow> policydb \<Rightarrow> (int \<times> policydb) option" where
  "handle_type_change r e d db =
     (case copy_type_rule r d of
        None \<Rightarrow> Some (- 1, db)
      | Some (src, tgt, cls, default_type) \<Rightarrow> map_option sepol_ret
          (if sd_subcmd d = 1 then ksu_type_change e src tgt cls default_type db
           else if sd_subcmd d = 2 then ksu_type_member e src tgt cls default_type db
           else Some (False, db)))"

definition handle_genfscon :: "request_env \<Rightarrow> sepol_data \<Rightarrow> policydb \<Rightarrow> int \<times> policydb" where
  "handle_genfscon r d db =
     (case copy_name r 0 (sepol1 d) of
        None \<Rightarrow> (- 1, db)
      | Some name \<Rightarrow> (case copy_name r 1 (sepol2 d) of
          None \<Rightarrow> (- 1, db)
        | Some path \<Rightarrow> (case copy_name r 2 (sepol3 d) of
            None \<Rightarrow> (- 1, db)
          | Some ctx \<Rightarrow> sepol_ret (ksu_genfscon name path ctx db))))"

definition sepol_command :: "request_env \<Rightarrow> policy_env \<Rightarrow> sepol_data \<Rightarrow> policydb \<Rightarrow> (int \<times> policydb) option" where
  "sepol_command r e d db =
     (if sd_cmd d = CMD_NORMAL_PERM then handle_normal_perm r e d db
      else if sd_cmd d = CMD_XPERM then Some (handle_xperm r e d db)
      else if sd_cmd d = CMD_TYPE_STATE then Some (handle_type_state r e d db)
      else if sd_cmd d = CMD_TYPE \<or> sd_cmd d = CMD_TYPE_ATTR then handle_type r e d db
      else if sd_cmd d = CMD_ATTR then Some (handle_attr r e d db)
      else if sd_cmd d = CMD_TYPE_TRANSITION then handle_type_transition r e d db
      else if sd_cmd d = CMD_TYPE_CHANGE then handle_type_change r e d db
      else if sd_cmd d = CMD_GENFSCON then Some (handle_genfscon r d db)
      else Some (- 1, db))"

text \<open>The request in the layout of the global \<open>ksu_is_compat\<close>; 32-bit pointers are extended with zeros.\<close>

definition widen_request :: "sepol_compat_data \<Rightarrow> sepol_data" where
  "widen_request c = \<lparr>sd_cmd = cd_cmd c, sd_subcmd = cd_subcmd c, sepol1 = ucast (compat_sepol1 c),
     sepol2 = ucast (compat_sepol2 c), sepol3 = ucast (compat_sepol3 c), sepol4 = ucast (compat_sepol4 c),
     sepol5 = ucast (compat_sepol5 c), sepol6 = ucast (compat_sepol6 c), sepol7 = ucast (compat_sepol7 c)\<rparr>"

definition reset_avc_cache :: "rules_state \<Rightarrow> rules_state" where
  "reset_avc_cache st = st\<lparr>rs_avc_resets := Suc (rs_avc_resets st)\<rparr>"

definition ksu_handle_sepolicy :: "request_env \<Rightarrow> policy_env \<Rightarrow> bool \<Rightarrow> uaddr \<Rightarrow> rules_state \<Rightarrow>
    (int \<times> rules_state) option" where
  "ksu_handle_sepolicy r e is_compat arg4 st =
     (if arg4 = 0 then Some (- 1, st)
      else case (if is_compat then map_option widen_request (re_compat_data r arg4) else re_data r arg4) of
        None \<Rightarrow> Some (- 1, st)
      | Some d \<Rightarrow> (case sepol_command r e d (rs_db st) of
          None \<Rightarrow> None
        | Some (ret, db) \<Rightarrow> Some (ret, reset_avc_cache (st\<lparr>rs_db := db\<rparr>))))"

end
