(* ===== verification/Allowlist_Store.thy ===== *)
theory Allowlist_Store
  imports Allowlist_Props Profile_Bytes
begin

text \<open>
  The save and load work items of \<^verbatim>\<open>allowlist.c\<close>. The kernel's file functions are
  parameters: \<open>kwrite file off bs\<close> is what \<open>kernel_write\<close> returns and leaves in the file,
  \<open>kread off n\<close> the bytes \<open>kernel_read\<close> delivers (\<open>None\<close> for an error). Both advance the
  position by what they return, as documented. The load loop ends only when a read
  delivers nothing, so it is a partial function.
\<close>

subsection \<open>Saving\<close>

definition FILE_MAGIC :: u32 where "FILE_MAGIC = 0x7f4b5355"
definition FILE_FORMAT_VERSION :: u32 where "FILE_FORMAT_VERSION = 3"

type_synonym file_write = "u8 list \<Rightarrow> nat \<Rightarrow> u8 list \<Rightarrow> int \<times> u8 list"
type_synonym file_read = "nat \<Rightarrow> nat \<Rightarrow> u8 list option"

definition advance :: "nat \<Rightarrow> int \<Rightarrow> nat" where
  "advance off ret = (if ret > 0 then off + nat ret else off)"

fun save_loop ::
  "file_write \<Rightarrow> (app_profile \<Rightarrow> nat \<Rightarrow> u8) \<Rightarrow> app_profile list \<Rightarrow> nat \<Rightarrow> u8 list \<Rightarrow> u8 list" where
  "save_loop kwrite pad [] off file = file"
| "save_loop kwrite pad (p # ps) off file =
     (let (ret, file') = kwrite file off (app_profile_bytes (pad p) p)
      in save_loop kwrite pad ps (advance off ret) file')"

text \<open>The file's content afterwards; \<open>O_TRUNC\<close> starts it empty.\<close>

definition do_save_allow_list ::
  "bool \<Rightarrow> file_write \<Rightarrow> (app_profile \<Rightarrow> nat \<Rightarrow> u8) \<Rightarrow> allow_state \<Rightarrow> u8 list \<Rightarrow> u8 list" where
  "do_save_allow_list opened kwrite pad st file =
     (if \<not> opened then file
      else let (ret1, f1) = kwrite [] 0 (le_bytes 4 FILE_MAGIC) in
        if ret1 \<noteq> 4 then f1
        else let off1 = advance 0 ret1; (ret2, f2) = kwrite f1 off1 (le_bytes 4 FILE_FORMAT_VERSION) in
          if ret2 \<noteq> 4 then f2
          else save_loop kwrite pad (al_list st) (advance off1 ret2) f2)"

subsection \<open>Loading\<close>

text \<open>\<open>junk k\<close> is what the stack slot of \<open>profile\<close> held before the \<open>k\<close>-th read; a read
  shorter than the struct leaves its tail in place.\<close>

partial_function (option) load_loop ::
  "file_read \<Rightarrow> (nat \<Rightarrow> u8 list) \<Rightarrow> (nat \<Rightarrow> set_env) \<Rightarrow> nat \<Rightarrow> nat \<Rightarrow> allow_state \<Rightarrow> allow_state option" where
  "load_loop kread junk env k off st =
     (case kread off sizeof_app_profile of
        None \<Rightarrow> Some st
      | Some bs \<Rightarrow>
          if bs = [] then Some st
          else load_loop kread junk env (Suc k) (off + length bs)
            (snd (ksu_set_app_profile (env k)
              (app_profile_of (bs @ drop (length bs) (junk k))) False st)))"

definition do_load_allow_list ::
  "bool \<Rightarrow> file_read \<Rightarrow> (nat \<Rightarrow> u8 list) \<Rightarrow> (nat \<Rightarrow> set_env) \<Rightarrow> allow_state \<Rightarrow> allow_state option" where
  "do_load_allow_list opened kread junk env st =
     (if \<not> opened then Some st
      else case kread 0 4 of
        None \<Rightarrow> Some st
      | Some m \<Rightarrow>
          if length m \<noteq> 4 \<or> (of_le m :: u32) \<noteq> FILE_MAGIC then Some st
          else (case kread 4 4 of
            None \<Rightarrow> Some st
          | Some v \<Rightarrow> if length v \<noteq> 4 then Some st else load_loop kread junk env 0 8 st))"

text \<open>Unloading: a last save, then the list is freed; the file and the state.\<close>

definition ksu_allowlist_exit ::
  "bool \<Rightarrow> file_write \<Rightarrow> (app_profile \<Rightarrow> nat \<Rightarrow> u8) \<Rightarrow> allow_state \<Rightarrow> u8 list \<Rightarrow>
     u8 list \<times> allow_state" where
  "ksu_allowlist_exit opened kwrite pad st file =
     (do_save_allow_list opened kwrite pad st file, st\<lparr>al_list := []\<rparr>)"

subsection \<open>A regular file\<close>

definition regular_write :: file_write where
  "regular_write file off bs = (int (length bs), take off file @ bs @ drop (off + length bs) file)"

definition regular_read :: "u8 list \<Rightarrow> file_read" where
  "regular_read file off n = Some (sub off n file)"

definition saved :: "(app_profile \<Rightarrow> nat \<Rightarrow> u8) \<Rightarrow> app_profile list \<Rightarrow> u8 list" where
  "saved pad ps = le_bytes 4 FILE_MAGIC @ le_bytes 4 FILE_FORMAT_VERSION @
     concat (map (\<lambda>p. app_profile_bytes (pad p) p) ps)"

lemma save_loop_regular:
  "off = length f \<Longrightarrow> save_loop regular_write pad ps off f =
     f @ concat (map (\<lambda>p. app_profile_bytes (pad p) p) ps)"
proof (induction ps arbitrary: off f)
  case (Cons p ps)
  let ?b = "app_profile_bytes (pad p) p"
  have "save_loop regular_write pad (p # ps) off f =
      save_loop regular_write pad ps (length (f @ ?b)) (f @ ?b)"
    using Cons.prems by (simp add: regular_write_def Let_def advance_def)
  then show ?case using Cons.IH [OF refl, of "f @ ?b"] by simp
qed simp

lemma do_save_regular: "do_save_allow_list True regular_write pad st file = saved pad (al_list st)"
  using save_loop_regular [of 8 "le_bytes 4 FILE_MAGIC @ le_bytes 4 FILE_FORMAT_VERSION" pad "al_list st"]
  by (simp add: do_save_allow_list_def regular_write_def Let_def advance_def saved_def)

text \<open>Loading what was saved applies \<open>ksu_set_app_profile\<close> to every profile in order.\<close>

fun set_profiles :: "(nat \<Rightarrow> set_env) \<Rightarrow> nat \<Rightarrow> app_profile list \<Rightarrow> allow_state \<Rightarrow> allow_state" where
  "set_profiles env k [] st = st"
| "set_profiles env k (p # ps) st =
     set_profiles env (Suc k) ps (snd (ksu_set_app_profile (env k) p False st))"

lemma load_loop_regular:
  assumes "\<forall>p \<in> set ps. wf_profile p"
  shows "drop off file = concat (map (\<lambda>p. app_profile_bytes (pad p) p) ps) \<Longrightarrow>
    \<forall>k. length (junk k) = sizeof_app_profile \<Longrightarrow>
    load_loop (regular_read file) junk env k off st = Some (set_profiles env k ps st)"
  using assms
proof (induction ps arbitrary: off k st)
  case Nil
  then show ?case
    by (subst load_loop.simps) (simp add: regular_read_def sub_def)
next
  case (Cons p ps)
  let ?b = "app_profile_bytes (pad p) p"
  have l: "length ?b = sizeof_app_profile"
    using Cons.prems by (intro length_app_profile_bytes) simp
  have r: "regular_read file off sizeof_app_profile = Some ?b"
    using Cons.prems(1) l by (simp add: regular_read_def sub_def)
  have nz: "?b \<noteq> []" using l by (auto simp: sizeof_app_profile_def)
  have d: "drop (off + length ?b) file = concat (map (\<lambda>p. app_profile_bytes (pad p) p) ps)"
    using arg_cong [OF Cons.prems(1), of "drop (length ?b)"] by (simp add: add.commute)
  have p: "app_profile_of (?b @ drop (length ?b) (junk k)) = p"
    using Cons.prems l by (simp add: app_profile_roundtrip)
  show ?case
    using Cons.IH [OF d, of "Suc k"] Cons.prems(2,3) nz p
    by (subst load_loop.simps) (simp add: r)
qed

lemma do_load_saved:
  assumes "\<forall>p \<in> set ps. wf_profile p" and "\<forall>k. length (junk k) = sizeof_app_profile"
  shows "do_load_allow_list True (regular_read (saved pad ps)) junk env st =
    Some (set_profiles env 0 ps st)"
proof -
  have "load_loop (regular_read (saved pad ps)) junk env 0 8 st = Some (set_profiles env 0 ps st)"
    by (rule load_loop_regular [OF assms(1)]) (simp_all add: saved_def assms(2))
  moreover have "regular_read (saved pad ps) 0 4 = Some (le_bytes 4 FILE_MAGIC)"
    "regular_read (saved pad ps) 4 4 = Some (le_bytes 4 FILE_FORMAT_VERSION)"
    by (simp_all add: regular_read_def saved_def sub_def)
  ultimately show ?thesis
    by (simp add: do_load_allow_list_def of_le_bytes)
qed

subsection \<open>Rebuilding the tables\<close>

definition uses_slot :: "app_profile \<Rightarrow> bool" where
  "uses_slot p \<longleftrightarrow> ap_allow_su p \<and> \<not> low_uid (ap_current_uid p)"

definition grant_of :: "app_profile \<Rightarrow> uid_t \<times> bool" where
  "grant_of p = (ap_current_uid p, ap_allow_su p)"

lemma record_grant_ptr:
  assumes "allow_wf st" and "tmp_ok (se_tmp_arr e)" and "record_grant e p st = Some st'"
  shows "al_ptr st' \<le> al_ptr st + (if uses_slot p then 1 else 0)"
proof -
  from assms(2) obtain a where a: "se_tmp_arr e = Some a" "length a = ALLOW_ARR_SIZE" by (rule tmp_okE)
  have "al_ptr (remove_uid_from_arr (Some a) u st) \<le> al_ptr st" for u
  proof (cases "al_ptr st = 0")
    case False
    have "length (filter (\<lambda>x. x \<noteq> u) (take (al_ptr st) (al_arr st))) \<le> al_ptr st"
      using length_filter_le [of "\<lambda>x. x \<noteq> u" "take (al_ptr st) (al_arr st)"] by simp
    with False show ?thesis by (simp add: remove_uid_from_arr_eq [OF assms(1) a(2)])
  qed (simp add: remove_uid_from_arr_def)
  then show ?thesis
    using assms(3) a(1) by (auto simp: record_grant_def Let_def arr_push_def uses_slot_def split: if_splits)
qed

text \<open>The default profiles: those with the keys \<open>#\<close> (root) and \<open>$\<close> (others) are cached beside the list.\<close>

definition next_root :: "app_profile \<Rightarrow> root_profile \<Rightarrow> root_profile" where
  "next_root p d = (if cstr (ap_key p) = ''#'' then rp_profile (ap_config p) else d)"

definition next_non_root :: "app_profile \<Rightarrow> non_root_profile \<Rightarrow> non_root_profile" where
  "next_non_root p d = (if cstr (ap_key p) = ''$'' then nrp_profile (ap_config p) else d)"

definition defaults_cached :: "u64 \<Rightarrow> allow_state \<Rightarrow> bool" where
  "defaults_cached full_cap st \<longleftrightarrow>
     (let init = ksu_allowlist_init full_cap static_allow_state; ps = set (al_list st) in
      (\<forall>p \<in> ps. cstr (ap_key p) = ''#'' \<longrightarrow> al_default_root st = rp_profile (ap_config p)) \<and>
      ((\<forall>p \<in> ps. cstr (ap_key p) \<noteq> ''#'') \<longrightarrow> al_default_root st = al_default_root init) \<and>
      (\<forall>p \<in> ps. cstr (ap_key p) = ''$'' \<longrightarrow> al_default_non_root st = nrp_profile (ap_config p)) \<and>
      ((\<forall>p \<in> ps. cstr (ap_key p) \<noteq> ''$'') \<longrightarrow> al_default_non_root st = al_default_non_root init))"

lemma cache_defaults_next:
  "al_default_root (cache_defaults p st) = next_root p (al_default_root st)"
  "al_default_non_root (cache_defaults p st) = next_non_root p (al_default_non_root st)"
  by (simp_all add: cache_defaults_def next_root_def next_non_root_def strcmp_eq_def Let_def)

lemma set_app_profile_defaults:
  assumes "ksu_set_app_profile e p persist st = (True, st')"
  shows "al_default_root st' = next_root p (al_default_root st)"
    "al_default_non_root st' = next_non_root p (al_default_non_root st)"
  using assms
  by (auto elim!: set_app_profile_True dest!: record_grant_frame simp: cache_defaults_next allow_frame persistent_frame)

lemma last_default:
  fixes f :: "'a \<Rightarrow> 'b \<Rightarrow> 'b"
  assumes "\<And>p d. f p d = (if Q p then g p else d)"
  shows "(\<exists>p \<in> set ps. Q p \<and> fold f ps d = g p) \<or> (\<forall>p \<in> set ps. \<not> Q p) \<and> fold f ps d = d"
  by (induction ps arbitrary: d) (auto simp: assms)

lemma placed_other_ids: "q \<in> set ps \<Longrightarrow> profile_id q \<noteq> profile_id p \<Longrightarrow> q \<in> set (placed p ps)"
  by (auto simp: placed_def override_profile_alt split: option.splits dest!: update_first_split)

lemma placed_same_id:
  assumes "distinct (map profile_id ps)" "q \<in> set (placed p ps)" "profile_id q = profile_id p"
  shows "q = p"
  using placed_distinct [OF assms(1), of p] placed_mem [of p ps] assms(2,3) by (metis distinct_map inj_on_eq_iff)

lemma default_step:
  assumes "p \<in> A'" "\<And>q. q \<in> A' \<Longrightarrow> q \<noteq> p \<Longrightarrow> q \<in> A"
    "\<And>q. Q p \<Longrightarrow> q \<in> A' \<Longrightarrow> Q q \<Longrightarrow> q = p" "\<And>q. \<not> Q p \<Longrightarrow> q \<in> A \<Longrightarrow> Q q \<Longrightarrow> q \<in> A'"
    "(\<forall>q \<in> A. Q q \<longrightarrow> x = g q) \<and> ((\<forall>q \<in> A. \<not> Q q) \<longrightarrow> x = d)"
  shows "(\<forall>q \<in> A'. Q q \<longrightarrow> (if Q p then g p else x) = g q) \<and>
    ((\<forall>q \<in> A'. \<not> Q q) \<longrightarrow> (if Q p then g p else x) = d)"
proof (cases "Q p")
  case True
  have "g p = g q" if "q \<in> A'" "Q q" for q using assms(3) [OF True that] by simp
  moreover have "\<not> (\<forall>q \<in> A'. \<not> Q q)" using True assms(1) by blast
  ultimately show ?thesis unfolding if_P [OF True] by blast
next
  case False
  then have "q \<in> A" if "q \<in> A'" "Q q" for q using assms(2) that by blast
  moreover have "\<forall>q \<in> A. \<not> Q q" if "\<forall>q \<in> A'. \<not> Q q" using assms(4) [OF False] that by blast
  ultimately show ?thesis using False assms(5) by simp
qed

text \<open>The cached default profiles are those of the list from the start, and stay so with every profile
  set, as long as no two users have a default profile of the same kind.\<close>

lemma defaults_cached_init: "defaults_cached full_cap (ksu_allowlist_init full_cap static_allow_state)"
  by (simp add: defaults_cached_def Let_def allow_init_tables)

lemma defaults_stay_cached:
  assumes "ksu_set_app_profile e p persist st = (True, st')" "defaults_cached full_cap st"
    and d: "distinct (map profile_id (al_list st))"
    and u: "\<forall>q \<in> set (al_list st). cstr (ap_key q) = cstr (ap_key p) \<and> cstr (ap_key p) \<in> {''#'', ''$''} \<longrightarrow>
      ap_current_uid q = ap_current_uid p"
  shows "defaults_cached full_cap st'"
proof -
  note l = set_app_profile_list [OF assms(1)] and n = set_app_profile_defaults [OF assms(1)]
  have same: "q = p" if "cstr (ap_key p) = k" "q \<in> set (al_list st')" "cstr (ap_key q) = k" "k \<in> {''#'', ''$''}" for q k
  proof (rule placed_same_id [OF d])
    show "q \<in> set (placed p (al_list st))" using that(2) l by simp
    then show "profile_id q = profile_id p"
      using placed_subset [of p "al_list st"] u that(1,3,4) by (auto simp: profile_id_def)
  qed
  have old: "q \<in> set (al_list st)" if "q \<in> set (al_list st')" "q \<noteq> p" for q
    using that placed_subset [of p "al_list st"] by (auto simp: l)
  have new: "q \<in> set (al_list st')" if "cstr (ap_key p) \<noteq> k" "q \<in> set (al_list st)" "cstr (ap_key q) = k" for q k
    using that placed_other_ids [of q "al_list st" p] by (auto simp: l profile_id_def)
  have p: "p \<in> set (al_list st')" by (simp add: l placed_mem)
  note c = assms(2) [unfolded defaults_cached_def Let_def]
  have r: "(\<forall>q \<in> set (al_list st). cstr (ap_key q) = ''#'' \<longrightarrow> al_default_root st = rp_profile (ap_config q)) \<and>
      ((\<forall>q \<in> set (al_list st). cstr (ap_key q) \<noteq> ''#'') \<longrightarrow>
        al_default_root st = al_default_root (ksu_allowlist_init full_cap static_allow_state))"
    and nr: "(\<forall>q \<in> set (al_list st). cstr (ap_key q) = ''$'' \<longrightarrow> al_default_non_root st = nrp_profile (ap_config q)) \<and>
      ((\<forall>q \<in> set (al_list st). cstr (ap_key q) \<noteq> ''$'') \<longrightarrow>
        al_default_non_root st = al_default_non_root (ksu_allowlist_init full_cap static_allow_state))"
    using c by blast+
  have "(\<forall>q \<in> set (al_list st'). cstr (ap_key q) = ''#'' \<longrightarrow> al_default_root st' = rp_profile (ap_config q)) \<and>
      ((\<forall>q \<in> set (al_list st'). cstr (ap_key q) \<noteq> ''#'') \<longrightarrow>
        al_default_root st' = al_default_root (ksu_allowlist_init full_cap static_allow_state))"
    unfolding n next_root_def by (rule default_step [OF p old same new r]) blast+
  moreover have "(\<forall>q \<in> set (al_list st'). cstr (ap_key q) = ''$'' \<longrightarrow> al_default_non_root st' = nrp_profile (ap_config q)) \<and>
      ((\<forall>q \<in> set (al_list st'). cstr (ap_key q) \<noteq> ''$'') \<longrightarrow>
        al_default_non_root st' = al_default_non_root (ksu_allowlist_init full_cap static_allow_state))"
    unfolding n next_non_root_def by (rule default_step [OF p old same new nr]) blast+
  ultimately show ?thesis unfolding defaults_cached_def Let_def by blast
qed

lemma set_fresh_profile:
  assumes wf: "allow_wf st" and e: "tmp_ok (se_tmp_arr e)" "se_node_alloc e"
    and v: "profile_valid (Some p)" and fresh: "profile_id p \<notin> profile_id ` set (al_list st)"
    and room: "uses_slot p \<longrightarrow> al_ptr st < ALLOW_ARR_SIZE"
  obtains st' where "ksu_set_app_profile e p False st = (True, st')" "al_list st' = al_list st @ [p]"
    "al_ptr st' \<le> al_ptr st + (if uses_slot p then 1 else 0)" "allow_wf st'"
    "\<And>u. granted st' u \<longleftrightarrow> (if u = ap_current_uid p then ap_allow_su p else granted st u)"
    "al_default_root st' = next_root p (al_default_root st)"
    "al_default_non_root st' = next_non_root p (al_default_non_root st)"
proof -
  have o: "override_profile p (al_list st) = None"
    unfolding override_profile_alt update_first_None_iff using fresh by (metis image_eqI)
  let ?st = "st\<lparr>al_list := al_list st @ [p]\<rparr>"
  obtain st1 where r: "record_grant e p ?st = Some st1"
    using room record_grant_None [of e p ?st] by (auto simp: uses_slot_def)
  let ?st' = "cache_defaults p st1"
  have s: "ksu_set_app_profile e p False st = (True, ?st')"
    using o v e(2) r by (simp add: ksu_set_app_profile_def set_app_profile_out_def Let_def)
  have "al_ptr ?st' \<le> al_ptr st + (if uses_slot p then 1 else 0)"
    using record_grant_ptr [OF _ e(1) r] wf by (simp add: allow_frame)
  moreover have "al_list ?st' = al_list st @ [p]"
    using set_app_profile_list [OF s] o by (simp add: placed_def)
  ultimately show ?thesis
    using that [OF s] set_app_profile_grants [OF wf e(1) s] set_app_profile_defaults [OF s] by simp
qed

lemma set_profiles_spec:
  assumes env: "\<And>k. tmp_ok (se_tmp_arr (env k)) \<and> se_node_alloc (env k)"
  shows "allow_wf st \<Longrightarrow> \<forall>p \<in> set ps. profile_valid (Some p) \<Longrightarrow>
    distinct (map profile_id (al_list st @ ps)) \<Longrightarrow>
    al_ptr st + length (filter uses_slot ps) \<le> ALLOW_ARR_SIZE \<Longrightarrow>
    al_list (set_profiles env k ps st) = al_list st @ ps \<and>
    (\<forall>u. granted (set_profiles env k ps st) u \<longleftrightarrow>
      (case map_of (rev (map grant_of ps)) u of None \<Rightarrow> granted st u | Some a \<Rightarrow> a)) \<and>
    al_default_root (set_profiles env k ps st) = fold next_root ps (al_default_root st) \<and>
    al_default_non_root (set_profiles env k ps st) = fold next_non_root ps (al_default_non_root st)"
proof (induction ps arbitrary: k st)
  case (Cons p ps)
  obtain st1 where s: "ksu_set_app_profile (env k) p False st = (True, st1)"
    "al_list st1 = al_list st @ [p]" "al_ptr st1 \<le> al_ptr st + (if uses_slot p then 1 else 0)"
    "allow_wf st1"
    "\<And>u. granted st1 u \<longleftrightarrow> (if u = ap_current_uid p then ap_allow_su p else granted st u)"
    "al_default_root st1 = next_root p (al_default_root st)"
    "al_default_non_root st1 = next_non_root p (al_default_non_root st)"
    by (rule set_fresh_profile [of st "env k" p]) (use Cons.prems env in auto)
  have "al_ptr st1 + length (filter uses_slot ps) \<le> ALLOW_ARR_SIZE"
    using s(3) Cons.prems(4) by (cases "uses_slot p") simp_all
  with Cons.IH [OF s(4), of "Suc k"] Cons.prems(2,3) s(2)
  have "al_list (set_profiles env (Suc k) ps st1) = al_list st1 @ ps \<and>
    (\<forall>u. granted (set_profiles env (Suc k) ps st1) u \<longleftrightarrow>
      (case map_of (rev (map grant_of ps)) u of None \<Rightarrow> granted st1 u | Some a \<Rightarrow> a)) \<and>
    al_default_root (set_profiles env (Suc k) ps st1) = fold next_root ps (al_default_root st1) \<and>
    al_default_non_root (set_profiles env (Suc k) ps st1) = fold next_non_root ps (al_default_non_root st1)"
    by simp
  then show ?case
    using s by (auto simp: grant_of_def [of p] map_add_def split: option.splits)
qed simp

lemma map_of_rev_grants:
  assumes "distinct (map ap_current_uid ps)"
  shows "map_of (rev (map grant_of ps)) u = Some a \<longleftrightarrow>
    (\<exists>p \<in> set ps. ap_current_uid p = u \<and> ap_allow_su p = a)"
proof -
  have "distinct (map fst (rev (map grant_of ps)))"
    using assms by (simp add: rev_map [symmetric] grant_of_def comp_def)
  then show ?thesis by (auto simp: map_of_eq_Some_iff grant_of_def)
qed

subsection \<open>Properties\<close>

text \<open>C20. A reboot loses nothing, provided that every stored profile is valid, no two profiles share a
  uid, every root profile is in effect (its uid granted), the uids beyond the bitmap fit the array and
  memory is not short: then saving the allowlist to a regular file and loading it into a freshly
  initialised driver ends (the read loop terminates) and gives back the same profiles in the same order,
  the same answer for every uid, and, where the cached default profiles were those of the list (as they
  are from the start and stay while there is one default profile of a kind), the same default
  profiles.\<close>

theorem save_load_roundtrip:
  assumes "allow_inv st" and "\<forall>p \<in> set (al_list st). wf_profile p \<and> profile_valid (Some p)"
    and "distinct (map ap_current_uid (al_list st))"
    and "\<forall>p \<in> set (al_list st). ap_allow_su p \<longrightarrow> granted st (ap_current_uid p)"
    and "length (filter uses_slot (al_list st)) \<le> ALLOW_ARR_SIZE"
    and "\<And>k. tmp_ok (se_tmp_arr (env k)) \<and> se_node_alloc (env k)"
    and "\<forall>k. length (junk k) = sizeof_app_profile"
  shows "\<exists>st'. do_load_allow_list True
        (regular_read (do_save_allow_list True regular_write pad st old_file)) junk env
        (ksu_allowlist_init full_cap static_allow_state) = Some st' \<and>
      al_list st' = al_list st \<and> granted st' = granted st \<and>
      (defaults_cached full_cap st \<longrightarrow>
        al_default_root st' = al_default_root st \<and> al_default_non_root st' = al_default_non_root st)"
proof -
  let ?init = "ksu_allowlist_init full_cap static_allow_state"
  let ?st' = "set_profiles env 0 (al_list st) ?init"
  have inv: "allow_wf ?init" "al_list ?init = []" "al_ptr ?init = 0" "\<And>u. \<not> granted ?init u"
    using allow_init_inv [of full_cap]
    by (auto simp: allow_inv_def allow_sound_def allow_init_tables)
  have load: "do_load_allow_list True
      (regular_read (do_save_allow_list True regular_write pad st old_file)) junk env ?init = Some ?st'"
    unfolding do_save_regular using assms(2,7) by (intro do_load_saved) auto
  have spec: "al_list ?st' = al_list st"
    "\<And>u. granted ?st' u \<longleftrightarrow> (case map_of (rev (map grant_of (al_list st))) u of None \<Rightarrow> False | Some a \<Rightarrow> a)"
    "al_default_root ?st' = fold next_root (al_list st) (al_default_root ?init)"
    "al_default_non_root ?st' = fold next_non_root (al_list st) (al_default_non_root ?init)"
    using set_profiles_spec [OF assms(6), where st = ?init and ps = "al_list st" and k = 0] inv assms(1,2,5)
    by (auto simp: allow_inv_def split: option.splits)
  have "granted ?st' u = granted st u" for u
  proof -
    have "granted st u \<longleftrightarrow> (\<exists>p \<in> set (al_list st). ap_current_uid p = u \<and> ap_allow_su p)"
      using assms(1,4) by (auto simp: allow_inv_def allow_sound_def)
    then show ?thesis
      using spec(2) [of u] map_of_rev_grants [OF assms(3), of u] by (auto split: option.splits)
  qed
  moreover have "al_default_root ?st' = al_default_root st \<and> al_default_non_root ?st' = al_default_non_root st"
    if "defaults_cached full_cap st"
    using that last_default [of next_root, OF next_root_def, of "al_list st" "al_default_root ?init"]
      last_default [of next_non_root, OF next_non_root_def, of "al_list st" "al_default_non_root ?init"]
    unfolding defaults_cached_def Let_def spec(3,4) by metis
  ultimately show ?thesis using load spec(1) by blast
qed

definition ex_stored :: "string \<Rightarrow> uid_t \<Rightarrow> bool \<Rightarrow> app_profile" where
  "ex_stored key uid allow = \<lparr>ap_version = 2, ap_key = c_strcpy (replicate 256 NUL) key,
     ap_current_uid = uid, ap_allow_su = allow,
     ap_config = ex_config\<lparr>rp_profile := zero_root_profile
       \<lparr>rp_selinux_domain := c_strcpy (replicate 64 NUL) ''u:r:su:s0''\<rparr>\<rparr>\<rparr>"

lemma ex_stored_sel [simp]:
  "ap_current_uid (ex_stored k u a) = u" "ap_allow_su (ex_stored k u a) = a"
  by (simp_all add: ex_stored_def)

lemma ex_stored_ok [simp]:
  "profile_valid (Some (ex_stored k u a))"
  "length (cstr k) < 256 \<Longrightarrow> wf_profile (ex_stored k u a)"
  by (simp_all add: ex_stored_def profile_valid_def ex_config_def zero_root_profile_def c_strlen_def
      c_strcpy_def wf_profile_def wf_root_profile_def)

lemma ex_stored_id: "profile_id (ex_stored k u a) = (u, cstr k)"
  by (simp add: ex_stored_def profile_id_def c_strcpy_def cstr_append_NUL)

lemma ex_init_defaults:
  "al_default_non_root ex_init = al_default_non_root (ksu_allowlist_init full_cap static_allow_state)"
  by (simp add: ex_init_def ksu_allowlist_init_def init_default_profiles_def)

theorem save_load_roundtrip_witness:
  "\<exists>st'. do_load_allow_list True
      (regular_read (do_save_allow_list True regular_write (\<lambda>p i. 170)
        (snd (ksu_set_app_profile ex_env (ex_stored ''#'' 1010123 True) False ex_init)) []))
      (\<lambda>k. replicate sizeof_app_profile 85) (\<lambda>k. ex_env)
      (ksu_allowlist_init 0 static_allow_state) = Some st' \<and>
    al_list st' = [ex_stored ''#'' 1010123 True] \<and> granted st' 1010123 \<and>
    al_default_root st' = rp_profile (ap_config (ex_stored ''#'' 1010123 True))"
proof -
  let ?p = "ex_stored ''#'' 1010123 True"
  have key: "cstr (ap_key ?p) = ''#''" by (simp add: ex_stored_def c_strcpy_def cstr_append_NUL)
  obtain st where s: "ksu_set_app_profile ex_env ?p False ex_init = (True, st)" "al_list st = [?p]"
    "\<And>u. granted st u \<longleftrightarrow> (if u = 1010123 then True else granted ex_init u)"
    "al_default_root st = rp_profile (ap_config ?p)" "al_default_non_root st = al_default_non_root ex_init"
    by (rule set_fresh_profile [of ex_init ex_env ?p])
      (simp_all add: ALLOW_ARR_SIZE_def PAGE_SIZE_def next_root_def next_non_root_def key)
  have "allow_inv st" by (rule set_app_profile_inv [OF ex_init_inv(1) ex_env_ok(1) s(1)])
  moreover have "defaults_cached 0 st"
    using s(5) by (simp add: defaults_cached_def Let_def s(2,4) key ex_init_defaults)
  ultimately obtain st' where "do_load_allow_list True
      (regular_read (do_save_allow_list True regular_write (\<lambda>p i. 170) st []))
      (\<lambda>k. replicate sizeof_app_profile 85) (\<lambda>k. ex_env)
      (ksu_allowlist_init 0 static_allow_state) = Some st'" "al_list st' = [?p]" "granted st' = granted st"
      "al_default_root st' = al_default_root st"
    using save_load_roundtrip [of st "\<lambda>k. ex_env" "\<lambda>k. replicate sizeof_app_profile 85" "\<lambda>p i. 170" "[]" 0]
    by (auto simp: s(2,3) ALLOW_ARR_SIZE_def PAGE_SIZE_def uses_slot_def low_uid_numeral)
  then show ?thesis by (simp add: s)
qed

text \<open>Where two packages share a uid, a denial does not survive a reboot. With the first
  package's profile set, the second's granting root, and then the first's set again to deny it,
  the uid is denied; after saving and loading, the later profile of the list is applied last and
  the uid has root again.\<close>

theorem shared_uid_denial_undone_by_reload:
  fixes full_cap :: u64
  assumes "wf_profile a" and "wf_profile b" and "profile_valid (Some a)" and "profile_valid (Some b)"
    and "ap_current_uid a = uid" and "ap_current_uid b = uid" and "profile_id a \<noteq> profile_id b"
    and "\<not> ap_allow_su a" and "ap_allow_su b"
    and "\<And>k. tmp_ok (se_tmp_arr (env k)) \<and> se_node_alloc (env k)"
    and "\<forall>k. length (junk k) = sizeof_app_profile"
  defines "init \<equiv> ksu_allowlist_init full_cap static_allow_state"
  defines "st \<equiv> set_profiles env 0 [a, b, a] init"
  shows "\<not> granted st uid \<and>
    (\<exists>st'. do_load_allow_list True
        (regular_read (do_save_allow_list True regular_write pad st old_file)) junk env init = Some st' \<and>
      al_list st' = al_list st \<and> granted st' uid)"
proof -
  have inv: "allow_inv init" "allow_wf init" "al_list init = []" "al_ptr init = 0"
    using allow_init_inv by (simp_all add: init_def allow_inv_def allow_init_tables)
  obtain st1 where s1: "ksu_set_app_profile (env 0) a False init = (True, st1)" "al_list st1 = [a]" "allow_wf st1"
    "al_ptr st1 \<le> 0"
    by (rule set_fresh_profile [of init "env 0" a]) (use inv assms in \<open>auto simp: uses_slot_def\<close>)
  obtain st2 where s2: "ksu_set_app_profile (env 1) b False st1 = (True, st2)" "al_list st2 = [a, b]" "allow_wf st2"
    "granted st2 uid"
    by (rule set_fresh_profile [of st1 "env 1" b])
       (use s1 assms in \<open>auto simp: ALLOW_ARR_SIZE_def PAGE_SIZE_def\<close>)
  obtain r st3 where s3: "ksu_set_app_profile (env 2) a False st2 = (r, st3)" by fastforce
  have o: "override_profile a [a, b] = Some [a, b]" by (simp add: override_profile_def)
  have r: "r"
    using s3 by (cases rule: set_app_profile_cases)
      (use assms o s2 in \<open>auto simp: placed_def record_grant_None\<close>)
  then have s3': "ksu_set_app_profile (env 2) a False st2 = (True, st3)" using s3 by simp
  have st: "st = st3"
    using s1(1) s2(1) s3 by (simp add: st_def numeral_2_eq_2)
  have l: "al_list st3 = [a, b]" using set_app_profile_list [OF s3'] s2(2) o by (simp add: placed_def)
  have "\<not> granted st3 uid"
    using set_app_profile_grants(1) [OF s2(3) _ s3', of uid] assms(5,8,10) by simp
  moreover have "do_load_allow_list True
      (regular_read (do_save_allow_list True regular_write pad st old_file)) junk env init =
        Some st2"
    unfolding do_save_regular st l using assms(1,2,11) s1(1) s2(1) by (subst do_load_saved) auto
  ultimately show ?thesis using s2(2,4) st l by simp
qed

theorem shared_uid_denial_undone_by_reload_witness:
  "\<exists>st'. do_load_allow_list True
      (regular_read (do_save_allow_list True regular_write (\<lambda>p i. 0)
        (set_profiles (\<lambda>k. ex_env) 0
          [ex_stored ''a'' 10123 False, ex_stored ''b'' 10123 True, ex_stored ''a'' 10123 False]
          (ksu_allowlist_init 0 static_allow_state)) []))
      (\<lambda>k. replicate sizeof_app_profile 0) (\<lambda>k. ex_env)
      (ksu_allowlist_init 0 static_allow_state) = Some st' \<and> granted st' 10123"
  using shared_uid_denial_undone_by_reload [of "ex_stored ''a'' 10123 False" "ex_stored ''b'' 10123 True"
      10123 "\<lambda>k. ex_env" "\<lambda>k. replicate sizeof_app_profile 0" 0 "\<lambda>p i. 0" "[]"]
  by (simp add: ex_stored_id) blast

end
