(* ===== verification/Driver.thy ===== *)
theory Driver
  imports Core_Props Throne Ksud Rules Allowlist_Store
begin

text \<open>
  The driver as a whole: the state of all components, which share the allowlist, the manager's uid and
  the current task, and one operation per way into the driver. Those are the LSM hooks that
  \<^verbatim>\<open>core_hook.c\<close> registers, the calls that \<^verbatim>\<open>patches/ksu_susfs_hooks.patch\<close> puts into exec and read, the
  input hook, and the work items of the queue of \<^verbatim>\<open>ksu.c\<close>. An exec goes through several hooks, chosen
  and composed as the patch does. A run is a sequence of such calls by any tasks with any arguments, from
  the state that \<open>ksu_kernelsu_init\<close> leaves.
\<close>

subsection \<open>State\<close>

text \<open>The copies of shared variables in \<open>kd_allow\<close>, \<open>th_manager_uid\<close> and \<open>su_task\<close> are set on entry to
  the component and read back when it returns.\<close>

record ('ns, 'fs) driver =
  dv_core :: ksu_state
  dv_boot :: "('ns, 'fs) ksud_state"
  dv_throne :: throne
  dv_su :: sucompat
  dv_rules :: rules_state

abbreviation dv_allow :: "('ns, 'fs, 'x) driver_scheme \<Rightarrow> allow_state" where
  "dv_allow d \<equiv> ks_allow (dv_core d)"

abbreviation dv_task :: "('ns, 'fs, 'x) driver_scheme \<Rightarrow> task" where
  "dv_task d \<equiv> ks_task (dv_core d)"

text \<open>What the kernel, the user's memory and the file systems supply during one call. \<open>de_getname\<close> is the
  kernel's copy of the file name at a user address, given what was written below the stack pointer.\<close>

record 'ns driver_env =
  de_prctl :: prctl_env
  de_ksud :: "'ns ksud_env"
  de_su :: sucompat_env
  de_policy :: policy_env
  de_request :: request_env
  de_throne :: throne_env
  de_scan :: scan_env
  de_tmps :: "nat \<Rightarrow> u32 list option"
  de_getname :: "uaddr \<Rightarrow> (uaddr \<times> cbuf) list \<Rightarrow> filename_arg"

definition boot_view :: "('ns, 'fs) driver \<Rightarrow> ('ns, 'fs) ksud_state" where
  "boot_view d = (dv_boot d)\<lparr>kd_allow := dv_allow d\<rparr>"

definition put_boot :: "('ns, 'fs) ksud_state \<Rightarrow> ('ns, 'fs) driver \<Rightarrow> ('ns, 'fs) driver" where
  "put_boot k d = d\<lparr>dv_boot := k, dv_core := (dv_core d)\<lparr>ks_allow := kd_allow k\<rparr>\<rparr>"

definition su_view :: "('ns, 'fs) driver \<Rightarrow> sucompat" where
  "su_view d = (dv_su d)\<lparr>su_task := dv_task d\<rparr>"

definition put_su :: "sucompat \<Rightarrow> ('ns, 'fs) driver \<Rightarrow> ('ns, 'fs) driver" where
  "put_su su d = d\<lparr>dv_su := su, dv_core := (dv_core d)\<lparr>ks_task := su_task su\<rparr>\<rparr>"

definition throne_view :: "('ns, 'fs) driver \<Rightarrow> throne \<times> allow_state" where
  "throne_view d = ((dv_throne d)\<lparr>th_manager_uid := ks_manager (dv_core d)\<rparr>, dv_allow d)"

definition put_throne :: "throne \<times> allow_state \<Rightarrow> ('ns, 'fs) driver \<Rightarrow> ('ns, 'fs) driver" where
  "put_throne ta d = d\<lparr>dv_throne := fst ta,
     dv_core := (dv_core d)\<lparr>ks_manager := th_manager_uid (fst ta), ks_allow := snd ta\<rparr>\<rparr>"

subsection \<open>Entry points\<close>

definition sepolicy_request :: "'ns driver_env \<Rightarrow> uaddr \<Rightarrow> ('ns, 'fs) driver \<Rightarrow> (int \<times> rules_state) option" where
  "sepolicy_request e arg4 d =
     ksu_handle_sepolicy (de_request e) (de_policy e) (ksu_is_compat (dv_boot d)) arg4 (dv_rules d)"

text \<open>What \<open>ksu_handle_prctl\<close> gets from the other components; neither answer depends on anything it
  changes before.\<close>

definition prctl_view :: "'ns driver_env \<Rightarrow> ('ns, 'fs) driver \<Rightarrow> prctl_env" where
  "prctl_view e d = (de_prctl e)\<lparr>pe_safe_mode := fst (ksu_is_safe_mode (dv_boot d)),
     pe_handle_sepolicy := (\<lambda>arg3 arg4. case sepolicy_request e arg4 d of None \<Rightarrow> - 1 | Some (ret, _) \<Rightarrow> ret)\<rparr>"

definition run_event :: "'ns driver_env \<Rightarrow> event \<Rightarrow> ('ns, 'fs) driver \<Rightarrow> ('ns, 'fs) driver option" where
  "run_event e ev d = (case ev of
     EvPostFsData \<Rightarrow> Some (put_boot (ksu_on_post_fs_data (de_ksud e) (boot_view d)) d)
   | EvNukeExt4 \<Rightarrow> Some d
   | EvSucompatInit \<Rightarrow> Some (put_su (ksu_sucompat_init (su_view d)) d)
   | EvSucompatExit \<Rightarrow> Some (put_su (ksu_sucompat_exit (su_view d)) d)
   | EvRunTryUmount \<Rightarrow> Some d
   | EvSepolicy arg4 \<Rightarrow> map_option (\<lambda>(_, r). d\<lparr>dv_rules := r\<rparr>) (sepolicy_request e arg4 d)
   | EvSafeMode \<Rightarrow> Some (put_boot (snd (ksu_is_safe_mode (boot_view d))) d))"

definition new_events :: "ksu_state \<Rightarrow> ksu_state \<Rightarrow> event list" where
  "new_events s s' = drop (length (ks_events s)) (ks_events s')"

definition call_prctl :: "'ns driver_env \<Rightarrow> u32 \<Rightarrow> u64 \<Rightarrow> u64 \<Rightarrow> u64 \<Rightarrow> u64 \<Rightarrow> ('ns, 'fs) driver \<Rightarrow>
    ('ns, 'fs) driver option" where
  "call_prctl e opt arg2 arg3 arg4 arg5 d =
     (case ksu_task_prctl (prctl_view e d) opt arg2 arg3 arg4 arg5 (dv_core d) of
        None \<Rightarrow> None
      | Some (_, s) \<Rightarrow> fold_opt (run_event e) (new_events (dv_core d) s) (d\<lparr>dv_core := s\<rparr>))"

text \<open>The execve hook of \<^verbatim>\<open>ksud.c\<close> counts its calls of \<open>ksu_apply_kernelsu_rules\<close>, which share no
  state with it; they are carried out here.\<close>

fun apply_rules :: "'ns driver_env \<Rightarrow> nat \<Rightarrow> rules_state \<Rightarrow> rules_state option" where
  "apply_rules e 0 r = Some r"
| "apply_rules e (Suc n) r =
     (case ksu_apply_kernelsu_rules (de_policy e) (ke_selinux (de_ksud e)) r of
        None \<Rightarrow> None
      | Some r \<Rightarrow> apply_rules e n r)"

definition sucompat_view :: "'ns driver_env \<Rightarrow> ('ns, 'fs) driver \<Rightarrow> sucompat_env" where
  "sucompat_view e d = (de_su e)\<lparr>su_allow := dv_allow d, su_manager := ks_manager (dv_core d),
     su_is_ksu_domain := current_is_ksu_domain (de_prctl e) (dv_core d)\<rparr>"

definition call_execveat :: "'ns driver_env \<Rightarrow> filename_arg \<Rightarrow> user_arg_ptr option \<Rightarrow> user_arg_ptr option \<Rightarrow>
    ('ns, 'fs) driver \<Rightarrow> (filename_arg \<times> ('ns, 'fs) driver) option" where
  "call_execveat e filename argv envp d =
     (case ksu_handle_execveat (de_ksud e) (sucompat_view e d) filename argv envp (boot_view d, su_view d) of
        None \<Rightarrow> None
      | Some (f, kd, su) \<Rightarrow>
          map_option (\<lambda>r. (f, (put_su su (put_boot kd d))\<lparr>dv_rules := r\<rparr>))
            (apply_rules e (kd_rules_applied kd - kd_rules_applied (dv_boot d)) (dv_rules d)))"

text \<open>The other hooks of exec, with their effect on the driver.\<close>

definition call_execveat_sucompat :: "'ns driver_env \<Rightarrow> filename_arg \<Rightarrow> ('ns, 'fs) driver \<Rightarrow>
    (filename_arg \<times> ('ns, 'fs) driver) option" where
  "call_execveat_sucompat e filename d =
     map_option (\<lambda>(f, su). (f, put_su su d)) (ksu_handle_execveat_sucompat (sucompat_view e d) filename (su_view d))"

definition call_execve_sucompat :: "'ns driver_env \<Rightarrow> uaddr \<Rightarrow> ('ns, 'fs) driver \<Rightarrow>
    (uaddr \<times> ('ns, 'fs) driver) option" where
  "call_execve_sucompat e filename_user d =
     map_option (\<lambda>(p, su). (case p of None \<Rightarrow> filename_user | Some p \<Rightarrow> p, put_su su d))
       (ksu_handle_execve_sucompat (sucompat_view e d) (Some filename_user) (su_view d))"

definition call_execve_ksud :: "'ns driver_env \<Rightarrow> uaddr \<Rightarrow> uaddr \<Rightarrow> ('ns, 'fs) driver \<Rightarrow>
    ('ns, 'fs) driver option" where
  "call_execve_ksud e filename_user argv d =
     (case ksu_handle_execve_ksud (de_ksud e) filename_user argv (boot_view d) of
        None \<Rightarrow> None
      | Some kd \<Rightarrow>
          map_option (\<lambda>r. (put_boot kd d)\<lparr>dv_rules := r\<rparr>)
            (apply_rules e (kd_rules_applied kd - kd_rules_applied (dv_boot d)) (dv_rules d)))"

subsection \<open>The patched exec\<close>

text \<open>The hook functions that the patch calls, as a parameter of its code.\<close>

record ('ns, 'fs) exec_hooks =
  eh_execveat :: "'ns driver_env \<Rightarrow> filename_arg \<Rightarrow> user_arg_ptr option \<Rightarrow> user_arg_ptr option \<Rightarrow>
    ('ns, 'fs) driver \<Rightarrow> (filename_arg \<times> ('ns, 'fs) driver) option"
  eh_execveat_sucompat :: "'ns driver_env \<Rightarrow> filename_arg \<Rightarrow> ('ns, 'fs) driver \<Rightarrow> (filename_arg \<times> ('ns, 'fs) driver) option"
  eh_execve_ksud :: "'ns driver_env \<Rightarrow> uaddr \<Rightarrow> uaddr \<Rightarrow> ('ns, 'fs) driver \<Rightarrow> ('ns, 'fs) driver option"
  eh_execve_sucompat :: "'ns driver_env \<Rightarrow> uaddr \<Rightarrow> ('ns, 'fs) driver \<Rightarrow> (uaddr \<times> ('ns, 'fs) driver) option"

definition driver_hooks :: "('ns, 'fs) exec_hooks" where
  "driver_hooks = \<lparr>eh_execveat = call_execveat, eh_execveat_sucompat = call_execveat_sucompat,
     eh_execve_ksud = call_execve_ksud, eh_execve_sucompat = call_execve_sucompat\<rparr>"

lemma driver_hooks_simps [simp]:
  "eh_execveat driver_hooks = call_execveat" "eh_execveat_sucompat driver_hooks = call_execveat_sucompat"
  "eh_execve_ksud driver_hooks = call_execve_ksud" "eh_execve_sucompat driver_hooks = call_execve_sucompat"
  by (simp_all add: driver_hooks_def)

abbreviation execveat_hook_on :: "('ns, 'fs) driver \<Rightarrow> bool" where
  "execveat_hook_on d \<equiv> ksu_execveat_hook (dv_boot d)"

text \<open>The patched functions of \<^verbatim>\<open>fs/exec.c\<close>, up to the call of \<open>__do_execve_file\<close>: the result is the file name
  it gets, and the driver with the task it runs for. \<open>None\<close> is an invalid access of a hook.\<close>

definition do_execveat_common :: "('ns, 'fs) exec_hooks \<Rightarrow> 'ns driver_env \<Rightarrow> filename_arg \<Rightarrow> user_arg_ptr \<Rightarrow> user_arg_ptr \<Rightarrow>
    ('ns, 'fs) driver \<Rightarrow> (filename_arg \<times> ('ns, 'fs) driver) option" where
  "do_execveat_common h e filename argv envp d =
     (if execveat_hook_on d then eh_execveat h e filename (Some argv) (Some envp) d
      else eh_execveat_sucompat h e filename d)"

definition do_execve :: "('ns, 'fs) exec_hooks \<Rightarrow> 'ns driver_env \<Rightarrow> filename_arg \<Rightarrow> uaddr \<Rightarrow> uaddr \<Rightarrow>
    ('ns, 'fs) driver \<Rightarrow> (filename_arg \<times> ('ns, 'fs) driver) option" where
  "do_execve h e filename argv envp d =
     (let argv = \<lparr>ua_is_compat = False, ua_ptr = argv\<rparr>; envp = \<lparr>ua_is_compat = False, ua_ptr = envp\<rparr> in
      case (if execveat_hook_on d then eh_execveat h e filename (Some argv) (Some envp) d
            else eh_execveat_sucompat h e filename d) of
        None \<Rightarrow> None
      | Some (filename, d) \<Rightarrow> do_execveat_common h e filename argv envp d)"

definition compat_do_execve :: "('ns, 'fs) exec_hooks \<Rightarrow> 'ns driver_env \<Rightarrow> filename_arg \<Rightarrow> uaddr \<Rightarrow> uaddr \<Rightarrow>
    ('ns, 'fs) driver \<Rightarrow> (filename_arg \<times> ('ns, 'fs) driver) option" where
  "compat_do_execve h e filename argv envp d =
     (let argv = \<lparr>ua_is_compat = True, ua_ptr = argv\<rparr>; envp = \<lparr>ua_is_compat = True, ua_ptr = envp\<rparr> in
      case (if \<not> execveat_hook_on d then eh_execveat_sucompat h e filename d else Some (filename, d)) of
        None \<Rightarrow> None
      | Some (filename, d) \<Rightarrow> do_execveat_common h e filename argv envp d)"

definition sys_execve :: "('ns, 'fs) exec_hooks \<Rightarrow> 'ns driver_env \<Rightarrow> uaddr \<Rightarrow> uaddr \<Rightarrow> uaddr \<Rightarrow>
    ('ns, 'fs) driver \<Rightarrow> (filename_arg \<times> ('ns, 'fs) driver) option" where
  "sys_execve h e filename argv envp d =
     (case (if execveat_hook_on d then map_option (Pair filename) (eh_execve_ksud h e filename argv d)
            else eh_execve_sucompat h e filename d) of
        None \<Rightarrow> None
      | Some (filename, d) \<Rightarrow> do_execve h e (de_getname e filename (su_user_writes (dv_su d))) argv envp d)"

definition compat_sys_execve :: "('ns, 'fs) exec_hooks \<Rightarrow> 'ns driver_env \<Rightarrow> uaddr \<Rightarrow> uaddr \<Rightarrow> uaddr \<Rightarrow>
    ('ns, 'fs) driver \<Rightarrow> (filename_arg \<times> ('ns, 'fs) driver) option" where
  "compat_sys_execve h e filename argv envp d =
     (case (if \<not> execveat_hook_on d then eh_execve_sucompat h e filename d else Some (filename, d)) of
        None \<Rightarrow> None
      | Some (filename, d) \<Rightarrow> compat_do_execve h e (de_getname e filename (su_user_writes (dv_su d))) argv envp d)"

text \<open>The ways into them: the system calls \<open>execve\<close> of 64-bit and of 32-bit tasks, an exec of the kernel's
  own (\<open>do_execve\<close>), and \<open>execveat\<close> of either kind of task.\<close>

datatype exec_call =
    Sys_execve uaddr uaddr uaddr
  | Compat_sys_execve uaddr uaddr uaddr
  | Kernel_execve filename_arg uaddr uaddr
  | Sys_execveat filename_arg user_arg_ptr user_arg_ptr

fun exec_kernel :: "('ns, 'fs) exec_hooks \<Rightarrow> 'ns driver_env \<Rightarrow> exec_call \<Rightarrow> ('ns, 'fs) driver \<Rightarrow>
    (filename_arg \<times> ('ns, 'fs) driver) option" where
  "exec_kernel h e (Sys_execve filename argv envp) d = sys_execve h e filename argv envp d"
| "exec_kernel h e (Compat_sys_execve filename argv envp) d = compat_sys_execve h e filename argv envp d"
| "exec_kernel h e (Kernel_execve filename argv envp) d = do_execve h e filename argv envp d"
| "exec_kernel h e (Sys_execveat filename argv envp) d = do_execveat_common h e filename argv envp d"

subsection \<open>Other entry points\<close>

definition call_read :: "'ns driver_env \<Rightarrow> cbuf \<Rightarrow> kfile option \<Rightarrow> uaddr \<times> u64 \<Rightarrow> ('ns, 'fs) driver \<Rightarrow>
    ('ns, 'fs) driver" where
  "call_read e comm fget bc d = put_boot (snd (snd (ksu_handle_sys_read (de_ksud e) comm fget bc (boot_view d)))) d"

definition call_input :: "u32 \<Rightarrow> u32 \<Rightarrow> 32 word \<Rightarrow> ('ns, 'fs) driver \<Rightarrow> ('ns, 'fs) driver" where
  "call_input ty code val d = put_boot (ksu_handle_input_handle_event ty code val (boot_view d)) d"

text \<open>\<open>ksu_inode_rename\<close>: \<open>ksu_handle_rename\<close> calls \<open>ksu_track_throne\<close> where it returns \<open>True\<close> here.\<close>

definition call_rename :: "'ns driver_env \<Rightarrow> bool \<Rightarrow> cbuf option \<Rightarrow> cbuf option \<Rightarrow> int + cbuf \<Rightarrow>
    ('ns, 'fs) driver \<Rightarrow> ('ns, 'fs) driver option" where
  "call_rename e has_mm old_dentry new_dentry path d =
     (if ksu_handle_rename has_mm (current_uid (dv_core d)) old_dentry new_dentry path
      then map_option (\<lambda>ta. put_throne ta d)
        (ksu_track_throne (de_throne e) (de_scan e) (de_tmps e) (throne_view d))
      else Some d)"

text \<open>\<open>ksu_inode_permission\<close>, which relabels devpts inodes, and \<open>ksu_task_fix_setuid\<close>; neither changes
  the driver's state. \<open>magic\<close> is that of the inode's superblock, if it has one.\<close>

definition DEVPTS_SUPER_MAGIC :: u64 where "DEVPTS_SUPER_MAGIC = 0x1cd1"

definition ksu_inode_permission :: "'ns driver_env \<Rightarrow> bool \<Rightarrow> u64 option \<Rightarrow> u32 option \<Rightarrow> ('ns, 'fs) driver \<Rightarrow>
    int \<times> u32 option" where
  "ksu_inode_permission e has_mm magic sec d =
     (0, if magic = Some DEVPTS_SUPER_MAGIC
         then ksu_handle_devpts (sucompat_view e d) (ksu_devpts_sid (dv_boot d)) has_mm sec (su_view d) else sec)"

definition ksu_task_fix_setuid :: "'ns driver_env \<Rightarrow> 'm mnt_env \<Rightarrow> (uid_t \<times> task_security option) option \<Rightarrow>
    (uid_t \<times> task_security option) option \<Rightarrow> u64 \<Rightarrow> 'm mnt_state \<Rightarrow> ('ns, 'fs) driver \<Rightarrow> u64 \<times> 'm mnt_state" where
  "ksu_task_fix_setuid e me new old task_state m d =
     ksu_handle_setuid me (ks_susfs (dv_core d)) (dv_allow d)
       \<lparr>si_module_mounted = ks_module_mounted (dv_core d), si_zygote_sid = susfs_zygote_sid (rs_sids (dv_rules d)),
        si_umount_zygote_system = sw_umount_zygote_system (ks_switches (dv_core d)),
        si_is_ksu_domain = current_is_ksu_domain (de_prctl e) (dv_core d), si_manager_uid = ks_manager (dv_core d),
        si_new = new, si_old = old\<rparr> task_state m"

text \<open>The work items; the queue holds each at most once.\<close>

definition set_allow :: "allow_state \<Rightarrow> ('ns, 'fs) driver \<Rightarrow> ('ns, 'fs) driver" where
  "set_allow al d = d\<lparr>dv_core := (dv_core d)\<lparr>ks_allow := al\<rparr>\<rparr>"

definition run_load_work :: "bool \<Rightarrow> file_read \<Rightarrow> (nat \<Rightarrow> u8 list) \<Rightarrow> (nat \<Rightarrow> set_env) \<Rightarrow> ('ns, 'fs) driver \<Rightarrow>
    ('ns, 'fs) driver option" where
  "run_load_work opened kread junk env d =
     (if al_load_pending (dv_allow d)
      then map_option (\<lambda>al. set_allow al d)
        (do_load_allow_list opened kread junk env ((dv_allow d)\<lparr>al_load_pending := False\<rparr>))
      else Some d)"

definition run_save_work :: "('ns, 'fs) driver \<Rightarrow> ('ns, 'fs) driver" where
  "run_save_work d = set_allow ((dv_allow d)\<lparr>al_save_pending := False\<rparr>) d"

subsection \<open>Runs\<close>

datatype 'ns call =
    Prctl task "'ns driver_env" u32 u64 u64 u64 u64
  | Exec task "'ns driver_env" exec_call
  | Read task "'ns driver_env" cbuf "kfile option" "uaddr \<times> u64"
  | Input u32 u32 "32 word"
  | Rename task "'ns driver_env" bool "cbuf option" "cbuf option" "int + cbuf"
  | Load_work bool file_read "nat \<Rightarrow> u8 list" "nat \<Rightarrow> set_env"
  | Save_work

definition by_task :: "task \<Rightarrow> ('ns, 'fs) driver \<Rightarrow> ('ns, 'fs) driver" where
  "by_task t d = d\<lparr>dv_core := (dv_core d)\<lparr>ks_task := t\<rparr>\<rparr>"

fun do_call :: "'ns call \<Rightarrow> ('ns, 'fs) driver \<Rightarrow> ('ns, 'fs) driver option" where
  "do_call (Prctl t e opt a2 a3 a4 a5) d = call_prctl e opt a2 a3 a4 a5 (by_task t d)"
| "do_call (Exec t e x) d = map_option snd (exec_kernel driver_hooks e x (by_task t d))"
| "do_call (Read t e comm fl bc) d = Some (call_read e comm fl bc (by_task t d))"
| "do_call (Input ty code val) d = Some (call_input ty code val d)"
| "do_call (Rename t e has_mm old new path) d = call_rename e has_mm old new path (by_task t d)"
| "do_call (Load_work opened kread junk env) d = run_load_work opened kread junk env d"
| "do_call Save_work d = Some (run_save_work d)"

definition switches_static :: susfs_switches where
  "switches_static = \<lparr>sw_umount_zygote_system = False, sw_auto_add_sus_bind_mount = True,
     sw_auto_add_sus_ksu_default_mount = True, sw_auto_add_try_umount_for_bind_mount = True\<rparr>"

definition throne_static :: throne where
  "throne_static = \<lparr>th_manager_uid = KSU_INVALID_UID, locked_manager_uid = KSU_INVALID_UID,
     apk_path_hash_list = [], pkg_lock = 0, scan_lock = 0\<rparr>"

text \<open>\<open>ksu_kernelsu_init\<close>: the static data, with the allowlist initialised; the task is the init process,
  the policy and the namespaces are the kernel's.\<close>

definition ksu_kernelsu_init :: "u64 \<Rightarrow> task \<Rightarrow> ('ns, 'fs) compat_state \<Rightarrow> rules_state \<Rightarrow>
    ('ns, 'fs) driver" where
  "ksu_kernelsu_init full_cap t cs r =
     (let al = ksu_allowlist_init full_cap static_allow_state in
      \<lparr>dv_core = \<lparr>ks_allow = al, ks_manager = KSU_INVALID_UID, ks_task = t, ks_susfs = susfs_init susfs_static,
         ks_switches = switches_static, ks_module_mounted = False, ks_su_compat_enabled = True, ks_post_fs_data_lock = False,
         ks_boot_complete_lock = False, ks_writes = [], ks_events = []\<rparr>,
       dv_boot = ksud_boot al cs, dv_throne = throne_static,
       dv_su = \<lparr>ksu_sucompat_non_kp = True, su_task = t, su_user_writes = []\<rparr>, dv_rules = r\<rparr>)"

definition driver_run :: "'ns call list \<Rightarrow> ('ns, 'fs) driver \<Rightarrow> ('ns, 'fs) driver option" where
  "driver_run cs d = fold_opt do_call cs d"

text \<open>\<open>ksu_kernelsu_exit\<close>: the content of the allowlist file afterwards, with the state.\<close>

definition ksu_kernelsu_exit :: "bool \<Rightarrow> file_write \<Rightarrow> (app_profile \<Rightarrow> nat \<Rightarrow> u8) \<Rightarrow> u8 list \<Rightarrow> ('ns, 'fs) driver \<Rightarrow>
    u8 list \<times> ('ns, 'fs) driver" where
  "ksu_kernelsu_exit opened kwrite pad allowlist d =
     (let (allowlist, al) = ksu_allowlist_exit opened kwrite pad (dv_allow d) allowlist in (allowlist, set_allow al d))"

end
