(* ===== verification/Ksud_Props.thy ===== *)
theory Ksud_Props
  imports Ksud
begin

text \<open>
  Properties of the boot hooks: what decides the safe mode over any sequence of hook calls, how the
  second stage of init is recognised, and what init reads from atrace.rc.
\<close>

subsection \<open>What argument reading leaves alone\<close>

text \<open>Reading arguments and the second stage change none of the allowlist, the hook switches, the boot phases and
  of the read proxy.\<close>

definition boot_part where
  "boot_part st = (ksu_vfs_read_hook st, ksu_execveat_hook st, ksu_input_hook st, post_fs_data_done st,
     first_app_process st, rc_inserted st, volumedown_pressed_count st, safe_mode st, kd_allow st)"

lemma boot_part_get_user_arg_ptr:
  "get_user_arg_ptr e argv n st = (p, st') \<Longrightarrow> boot_part st' = boot_part st"
  by (auto simp: get_user_arg_ptr_def boot_part_def split: if_splits option.splits)

lemma boot_part_count_loop:
  "count_loop e argv mx i st = (r, st') \<Longrightarrow> boot_part st' = boot_part st"
proof (induction e argv mx i st rule: count_loop.induct)
  case (1 e argv mx i st)
  obtain p st1 where g: "get_user_arg_ptr e argv i st = (p, st1)" by fastforce
  have b: "boot_part st1 = boot_part st" by (rule boot_part_get_user_arg_ptr [OF g])
  note IH = "1.IH" [OF g [symmetric] refl]
  from "1.prems" show ?case
    unfolding count_loop.simps [of e argv mx i st] g Let_def prod.case
    using b IH by (auto split: if_splits)
qed

lemma boot_part_count_args:
  "count_args e argv mx st = (r, st') \<Longrightarrow> boot_part st' = boot_part st"
  by (auto simp: count_args_def split: if_splits dest: boot_part_count_loop)

lemma boot_part_second_stage: "boot_part (second_stage e st) = boot_part st"
  by (simp add: second_stage_def boot_part_def)

lemma boot_part_init_first_arg: "boot_part (init_first_arg e argv s st) = boot_part st"
  by (auto simp: init_first_arg_def boot_part_second_stage split: prod.splits dest: boot_part_get_user_arg_ptr)

lemma boot_part_env_loop: "env_loop e envp ns st = Some st' \<Longrightarrow> boot_part st' = boot_part st"
proof (induction ns arbitrary: st)
  case (Cons n ns)
  obtain p st1 where g: "get_user_arg_ptr e envp n st = (p, st1)" by fastforce
  have b: "boot_part st1 = boot_part st" by (rule boot_part_get_user_arg_ptr [OF g])
  from Cons.prems show ?case
    using b by (auto simp: g boot_part_second_stage dest!: Cons.IH split: if_splits prod.splits option.splits)
qed simp

lemma boot_part_exec_system_init: "boot_part (exec_system_init e argv st) = boot_part st"
  by (auto simp: exec_system_init_def boot_part_init_first_arg split: prod.splits dest: boot_part_count_args)

lemma boot_part_exec_old_init:
  assumes "exec_old_init e argv envp st = Some st'"
  shows "boot_part st' = boot_part st"
proof -
  obtain argc st1 where c: "count_args e argv MAX_ARG_STRINGS st = (argc, st1)" by fastforce
  note b = boot_part_count_args [OF c]
  have r: "boot_part st' = boot_part st1"
    using assms unfolding exec_old_init_def c Let_def prod.case
    by (auto simp: boot_part_init_first_arg simp del: upt_Suc split: if_splits option.splits prod.splits
        dest!: boot_part_count_args boot_part_env_loop)
  then show ?thesis using b by simp
qed

text \<open>What the execve hook does to the phases: the first app process is the only event.\<close>

definition is_app_process :: "filename_arg \<Rightarrow> bool" where
  "is_app_process f \<longleftrightarrow> (case f of FName name \<Rightarrow> memcmp_eq name ''/system/bin/app_process'' 23 | _ \<Rightarrow> False)"

lemma execveat_ksud_phases:
  assumes "ksu_handle_execveat_ksud e f argv envp st = Some st'"
  shows "\<exists>st1. boot_part st1 = boot_part st \<and>
    st' = (if ksu_execveat_hook st \<and> first_app_process st \<and> is_app_process f
      then stop_execve_hook (ksu_on_post_fs_data e (st1\<lparr>first_app_process := False\<rparr>)) else st1)"
proof (cases "ksu_execveat_hook st \<and> (\<exists>name. f = FName name)")
  case True
  then obtain name where f: "f = FName name" "ksu_execveat_hook st" by blast
  obtain st1 where st1: "st' = exec_app_process e name st1" "boot_part st1 = boot_part st"
    using assms f
    by (auto simp: ksu_handle_execveat_ksud_def boot_part_exec_system_init
        split: option.splits if_splits dest: boot_part_exec_old_init)
  then have "first_app_process st1 = first_app_process st" by (simp add: boot_part_def)
  then show ?thesis
    using st1 f by (intro exI [of _ st1]) (auto simp: exec_app_process_def is_app_process_def)
next
  case False
  then have "st' = st" using assms by (auto simp: ksu_handle_execveat_ksud_def split: filename_arg.splits)
  then show ?thesis using False by (intro exI [of _ st]) (auto simp: is_app_process_def split: filename_arg.splits)
qed

subsection \<open>Safe mode\<close>

text \<open>Any calls of the hooks, in any order.\<close>

datatype ksud_op =
    Op_input u32 u32 "32 word"
  | Op_safe_mode
  | Op_post_fs_data
  | Op_exec filename_arg "user_arg_ptr option" "user_arg_ptr option"
  | Op_execve uaddr uaddr
  | Op_read cbuf "kfile option" "uaddr \<times> u64"

fun ksud_call :: "'ns ksud_env \<Rightarrow> ksud_op \<Rightarrow> ('ns, 'fs) ksud_state \<Rightarrow> ('ns, 'fs) ksud_state option" where
  "ksud_call e (Op_input ty code val) st = Some (ksu_handle_input_handle_event ty code val st)"
| "ksud_call e Op_safe_mode st = Some (snd (ksu_is_safe_mode st))"
| "ksud_call e Op_post_fs_data st = Some (ksu_on_post_fs_data e st)"
| "ksud_call e (Op_exec f argv envp) st = ksu_handle_execveat_ksud e f argv envp st"
| "ksud_call e (Op_execve f argv) st = ksu_handle_execve_ksud e f argv st"
| "ksud_call e (Op_read comm fl bc) st = Some (snd (snd (ksu_handle_sys_read e comm fl bc st)))"

fun ksud_run :: "'ns ksud_env \<Rightarrow> ksud_op list \<Rightarrow> ('ns, 'fs) ksud_state \<Rightarrow> ('ns, 'fs) ksud_state option" where
  "ksud_run e [] st = Some st"
| "ksud_run e (op # ops) st = (case ksud_call e op st of None \<Rightarrow> None | Some st' \<Rightarrow> ksud_run e ops st')"

text \<open>The name an execve call sees, and the operations after which no key is counted any more.\<close>

definition execve_name :: "'ns ksud_env \<Rightarrow> uaddr \<Rightarrow> filename_arg" where
  "execve_name e f =
     (if f = 0 then FNull else FName (snd (ksu_strncpy_from_user_nofault (ke_um e) (replicate 32 NUL) f 32)))"

fun ends_counting :: "'ns ksud_env \<Rightarrow> ksud_op \<Rightarrow> bool" where
  "ends_counting e Op_safe_mode = True"
| "ends_counting e Op_post_fs_data = True"
| "ends_counting e (Op_exec f argv envp) = is_app_process f"
| "ends_counting e (Op_execve f argv) = is_app_process (execve_name e f)"
| "ends_counting e op = False"

fun is_press :: "ksud_op \<Rightarrow> bool" where
  "is_press (Op_input ty code val) \<longleftrightarrow> ty = EV_KEY \<and> code = KEY_VOLUMEDOWN \<and> val \<noteq> 0"
| "is_press op \<longleftrightarrow> False"

text \<open>The state while keys are counted, and after that.\<close>

definition counting :: "nat \<Rightarrow> ('ns, 'fs) ksud_state \<Rightarrow> bool" where
  "counting n st \<longleftrightarrow> volumedown_pressed_count st = word_of_nat (min 3 n) \<and> \<not> safe_mode st \<and>
     (ksu_input_hook st \<longleftrightarrow> n < 3) \<and> \<not> post_fs_data_done st \<and> first_app_process st \<and> ksu_execveat_hook st"

definition counted :: "nat \<Rightarrow> ('ns, 'fs) ksud_state \<Rightarrow> bool" where
  "counted n st \<longleftrightarrow> volumedown_pressed_count st = word_of_nat (min 3 n) \<and> (safe_mode st \<longrightarrow> 3 \<le> n) \<and>
     \<not> ksu_input_hook st"

lemma ksud_boot_counting: "counting 0 (ksud_boot al cs)"
  by (simp add: counting_def ksud_boot_def)

lemma counting_boot_part: "boot_part st' = boot_part st \<Longrightarrow> counting n st' = counting n st"
  and counted_boot_part: "boot_part st' = boot_part st \<Longrightarrow> counted n st' = counted n st"
  by (simp_all add: counting_def counted_def boot_part_def)

lemma three_enough: "is_volumedown_enough (word_of_nat (min 3 n)) \<longleftrightarrow> 3 \<le> n"
proof -
  have "n = 0 \<or> n = 1 \<or> n = 2 \<or> 3 \<le> n" by arith
  then show ?thesis by (elim disjE) (simp_all add: is_volumedown_enough_def word_le_nat_alt)
qed

lemma counting_input:
  assumes "counting n st"
  shows "counting (if is_press (Op_input ty code val) then Suc n else n) (ksu_handle_input_handle_event ty code val st)"
proof (cases "is_press (Op_input ty code val) \<and> n < 3")
  case True
  then have "(word_of_nat (min 3 n) :: u32) + 1 = word_of_nat (min 3 (Suc n))" by simp
  moreover have "is_volumedown_enough (word_of_nat (min 3 (Suc n))) \<longleftrightarrow> 3 \<le> Suc n" by (rule three_enough)
  ultimately show ?thesis
    using True assms
    by (auto simp: counting_def ksu_handle_input_handle_event_def stop_input_hook_def Let_def add.commute)
next
  case False
  then show ?thesis using assms
    by (auto simp: counting_def ksu_handle_input_handle_event_def min_def)
qed

lemma counted_input: "counted n st \<Longrightarrow> counted n (ksu_handle_input_handle_event ty code val st)"
  by (simp add: counted_def ksu_handle_input_handle_event_def)

lemma counting_counted: "counting n st \<Longrightarrow> counted n (stop_input_hook st)"
  by (auto simp: counting_def counted_def stop_input_hook_def)

lemma safe_mode_counted:
  assumes "counting n st \<or> counted n st"
  shows "fst (ksu_is_safe_mode st) \<longleftrightarrow> 3 \<le> n" "counted n (snd (ksu_is_safe_mode st))"
  using assms three_enough [of n]
  by (auto simp: counting_def counted_def ksu_is_safe_mode_def stop_input_hook_def Let_def)

lemma post_fs_data_counted: "counting n st \<or> counted n st \<Longrightarrow> counted n (ksu_on_post_fs_data e st)"
  by (auto simp: counting_def counted_def ksu_on_post_fs_data_def stop_input_hook_def Let_def)

lemma exec_counted:
  assumes "ksu_handle_execveat_ksud e f argv envp st = Some st'"
  shows "counting n st \<Longrightarrow> if is_app_process f then counted n st' else counting n st'"
    "counted n st \<Longrightarrow> counted n st'"
proof -
  obtain st1 where b: "boot_part st1 = boot_part st"
    and st': "st' = (if ksu_execveat_hook st \<and> first_app_process st \<and> is_app_process f
      then stop_execve_hook (ksu_on_post_fs_data e (st1\<lparr>first_app_process := False\<rparr>)) else st1)"
    using execveat_ksud_phases [OF assms] by blast
  have s: "counted n (stop_execve_hook s) = counted n s" for s :: "('a, 'b) ksud_state"
    by (simp add: counted_def stop_execve_hook_def)
  have p: "counted n (ksu_on_post_fs_data e (st1\<lparr>first_app_process := False\<rparr>))" if "counting n st1 \<or> counted n st1"
    using that by (auto simp: counting_def counted_def ksu_on_post_fs_data_def stop_input_hook_def Let_def)
  show "if is_app_process f then counted n st' else counting n st'" if "counting n st"
  proof -
    have c: "counting n st1" using that b counting_boot_part by blast
    have "ksu_execveat_hook st \<and> first_app_process st" using that by (simp add: counting_def)
    then show ?thesis using c p s st' by simp
  qed
  show "counted n st'" if "counted n st"
  proof -
    have "counted n st1" using that b counted_boot_part by blast
    then show ?thesis using p s st' by simp
  qed
qed

lemma execve_is_execveat:
  "ksu_handle_execve_ksud e f argv st =
     ksu_handle_execveat_ksud e (execve_name e f) (Some \<lparr>ua_is_compat = False, ua_ptr = argv\<rparr>) None st"
  by (simp add: ksu_handle_execve_ksud_def execve_name_def ksu_handle_execveat_ksud_def split: prod.splits)

lemma read_counted:
  shows "counting n (snd (snd (ksu_handle_sys_read e comm fl bc st))) = counting n st"
    "counted n (snd (snd (ksu_handle_sys_read e comm fl bc st))) = counted n st"
  by (simp_all add: ksu_handle_sys_read_def ksu_handle_vfs_read_def install_proxy_def stop_vfs_read_hook_def
      Let_def counting_def counted_def split: option.splits prod.splits)

lemma run_counted:
  assumes "counted n st" "ksud_run e ops st = Some st'"
  shows "counted n st'"
  using assms
proof (induction ops arbitrary: st)
  case (Cons op ops)
  obtain st1 where st1: "ksud_call e op st = Some st1" "ksud_run e ops st1 = Some st'"
    using Cons.prems(2) by (auto split: option.splits)
  have "counted n st1"
    using Cons.prems(1) st1(1)
    by (cases op) (auto simp: counted_input safe_mode_counted post_fs_data_counted read_counted
        execve_is_execveat dest: exec_counted(2))
  then show ?case using st1(2) by (rule Cons.IH)
qed simp

lemma run_counting:
  assumes "counting n st" "ksud_run e ops st = Some st'"
  shows "counting (n + length (filter is_press (takeWhile (\<lambda>op. \<not> ends_counting e op) ops))) st' \<or>
    counted (n + length (filter is_press (takeWhile (\<lambda>op. \<not> ends_counting e op) ops))) st'"
  using assms
proof (induction ops arbitrary: n st)
  case (Cons op ops)
  obtain st1 where st1: "ksud_call e op st = Some st1" "ksud_run e ops st1 = Some st'"
    using Cons.prems(2) by (auto split: option.splits)
  have "if ends_counting e op then counted n st1 else counting (if is_press op then Suc n else n) st1"
  proof (cases op)
    case (Op_input ty code val)
    then show ?thesis using st1(1) counting_input [OF Cons.prems(1), of ty code val] by simp
  qed (use Cons.prems(1) st1(1) in \<open>auto simp: safe_mode_counted post_fs_data_counted read_counted
        execve_is_execveat dest: exec_counted(1)\<close>)
  then show ?case
    using Cons.IH [OF _ st1(2), of "if is_press op then Suc n else n"] run_counted [OF _ st1(2), of n]
    by (auto split: if_splits)
qed simp

text \<open>C12. Whatever the boot does, and in whatever order (key events, questions, post-fs-data, execs,
  reads), the answer to "is this safe mode" is whether the volume-down key was pressed three times
  before the first question, post-fs-data event or exec of an app process. The press counter never
  exceeds three, so it cannot wrap.\<close>
theorem safe_mode_decided_by_presses:
  assumes "ksud_run e ops (ksud_boot al cs) = Some st"
  shows "(fst (ksu_is_safe_mode st) \<longleftrightarrow> 3 \<le> length (filter is_press (takeWhile (\<lambda>op. \<not> ends_counting e op) ops))) \<and>
    volumedown_pressed_count st \<le> 3"
proof -
  let ?n = "length (filter is_press (takeWhile (\<lambda>op. \<not> ends_counting e op) ops))"
  have c: "counting ?n st \<or> counted ?n st" using run_counting [OF ksud_boot_counting assms] by simp
  then have "volumedown_pressed_count st = word_of_nat (min 3 ?n)" by (auto simp: counting_def counted_def)
  moreover have "?n = 0 \<or> ?n = 1 \<or> ?n = 2 \<or> min 3 ?n = 3" by arith
  ultimately have "volumedown_pressed_count st \<le> 3" by (elim disjE) simp_all
  then show ?thesis using safe_mode_counted(1) [OF c] by blast
qed


subsection \<open>Recognising the second stage of init\<close>

text \<open>A null-terminated array of user pointers at \<open>a\<close>. Reading a compat array leaves a mark.\<close>

definition arg_array :: "'ns ksud_env \<Rightarrow> user_arg_ptr \<Rightarrow> u64 list \<Rightarrow> bool" where
  "arg_array e a ps \<longleftrightarrow> ua_ptr a \<noteq> 0 \<and> (\<forall>p \<in> set ps. p \<noteq> 0 \<and> \<not> IS_ERR p) \<and>
     (\<forall>i \<le> length ps. (if ua_is_compat a then map_option ucast (ke_get_compat e (ua_ptr a + 4 * word_of_nat i))
       else ke_get_native e (ua_ptr a + 8 * word_of_nat i)) = Some ((ps @ [0]) ! i))"

definition touch :: "user_arg_ptr \<Rightarrow> ('ns, 'fs) ksud_state \<Rightarrow> ('ns, 'fs) ksud_state" where
  "touch a st = (if ua_is_compat a then st\<lparr>ksu_is_compat := True\<rparr> else st)"

lemma touch_simps [simp]:
  "touch a (touch a st) = touch a st" "ksu_execveat_hook (touch a st) = ksu_execveat_hook st"
  "init_second_stage_executed (touch a st) = init_second_stage_executed st"
  "kd_rules_applied (touch a st) = kd_rules_applied st" "first_app_process (touch a st) = first_app_process st"
  by (simp_all add: touch_def)

lemma get_arg:
  assumes "arg_array e a ps" "i \<le> length ps"
  shows "get_user_arg_ptr e a i st = ((ps @ [0]) ! i, touch a st)"
proof -
  have "(if ua_is_compat a then map_option ucast (ke_get_compat e (ua_ptr a + 4 * word_of_nat i))
       else ke_get_native e (ua_ptr a + 8 * word_of_nat i)) = Some ((ps @ [0]) ! i)"
    using assms by (simp add: arg_array_def)
  then show ?thesis by (auto simp: get_user_arg_ptr_def touch_def split: if_splits)
qed

lemma arg_array_nth: "arg_array e a ps \<Longrightarrow> i < length ps \<Longrightarrow> ps ! i \<noteq> 0 \<and> \<not> IS_ERR (ps ! i)"
  by (simp add: arg_array_def)

lemma count_array_from:
  assumes "arg_array e a ps" "length ps \<le> mx" "\<And>i. \<not> ke_fatal e i" "i \<le> length ps"
  shows "count_loop e a mx i st = (int (length ps), touch a st)"
  using assms(4)
proof (induction "length ps - i" arbitrary: i st)
  case 0
  then have "i = length ps" by simp
  then show ?case
    unfolding count_loop.simps [of e a mx i st] get_arg [OF assms(1) \<open>i \<le> length ps\<close>] by (simp add: nth_append)
next
  case (Suc k)
  then have i: "i < length ps" by linarith
  then have "count_loop e a mx (Suc i) (touch a st) = (int (length ps), touch a (touch a st))"
    using Suc.hyps by (intro Suc.hyps(1)) auto
  moreover have "(ps @ [0]) ! i = ps ! i" using i by (simp add: nth_append)
  ultimately show ?case
    unfolding count_loop.simps [of e a mx i st] get_arg [OF assms(1) \<open>i \<le> length ps\<close>]
    using arg_array_nth [OF assms(1) i] assms(2,3) i by simp
qed

lemma count_array:
  assumes "arg_array e a ps" "length ps \<le> mx" "\<And>i. \<not> ke_fatal e i"
  shows "count_args e a mx st = (int (length ps), touch a st)"
proof -
  have "ua_ptr a \<noteq> 0" using assms(1) by (simp add: arg_array_def)
  then show ?thesis using count_array_from [OF assms, of 0] by (simp add: count_args_def)
qed

lemma retry_path:
  assumes "user_path um p s" "0 < n" "length dst = nat n"
  shows "\<exists>r b. ksu_strncpy_from_user_retry um dst p n = (r, b) \<and> 0 \<le> r \<and> NUL \<in> set b \<and>
    cstr b = take (nat n - 1) s \<and> (int (length s) < n \<longrightarrow> (\<exists>t. b = s @ NUL # t))"
proof (cases "int (length s) < n")
  case True
  then have "take (nat n - 1) s = s" "NUL \<notin> set s" "length s < nat n" using assms by (auto simp: user_path_def)
  then show ?thesis
    using assms True
    by (auto simp: user_path_def ksu_strncpy_from_user_retry_def ksu_strncpy_from_user_nofault_def
        strncpy_from_user_def cstr_append_NUL)
next
  case False
  have n: "NUL \<notin> set (take (nat n - 1) s)" using assms(1) by (auto simp: user_path_def dest: in_set_takeD)
  obtain m where m: "nat n = Suc m" using assms(2) by (cases "nat n") auto
  then have "m < length s" "n = int (Suc m)" using False assms(2) by auto
  moreover from this have "(take (Suc m) s)[m := NUL] = take m s @ [NUL]"
    by (simp add: take_Suc_conv_app_nth list_update_append)
  ultimately show ?thesis
    using assms False n m
    by (auto simp: user_path_def ksu_strncpy_from_user_retry_def ksu_strncpy_from_user_nofault_def
        strncpy_from_user_def cstr_append_NUL)
qed

lemma first_arg_recognised:
  assumes "arg_array e a (p # q # ps)" "user_path (ke_um e) q s" "length (ke_arg_junk e) = 16"
    "NUL \<notin> set t" "length t < 15"
  shows "init_first_arg e a t st = (if s = t then second_stage e (touch a st) else touch a st)"
proof -
  have g: "get_user_arg_ptr e a 1 st = (q, touch a st)"
    using get_arg [OF assms(1), of 1] by simp
  have q: "q \<noteq> 0 \<and> \<not> IS_ERR q" using arg_array_nth [OF assms(1), of 1] by simp
  obtain r b where b: "ksu_strncpy_from_user_retry (ke_um e) (ke_arg_junk e) q 16 = (r, b)" "cstr b = take 15 s"
    using retry_path [OF assms(2), of 16 "ke_arg_junk e"] assms(3) by auto
  have "take 15 s = t \<longleftrightarrow> s = t" using assms(5) by (cases "length s \<le> 15") auto
  then have "strcmp_eq b t \<longleftrightarrow> s = t" using b(2) cstr_eq_self [OF assms(4)] by (simp add: strcmp_eq_def)
  then show ?thesis using g q b(1) by (simp add: init_first_arg_def del: One_nat_def)
qed

lemma memcmp_two_prefixes:
  assumes "memcmp_eq b s k" "memcmp_eq b t n" "k \<le> n"
  shows "take k s = take k t"
proof -
  have "take k s = take k (take n b)" using assms(1,3) by (simp add: memcmp_eq_def min_def)
  also have "\<dots> = take k (take n t)" using assms(2) by (simp add: memcmp_eq_def)
  finally show ?thesis using assms(3) by (simp add: min_def)
qed

lemma init_names:
  "memcmp_eq name ''/system/bin/init'' 16 \<Longrightarrow> \<not> memcmp_eq name ''/system/bin/app_process'' 23"
  "memcmp_eq name ''/init'' 5 \<Longrightarrow> \<not> memcmp_eq name ''/system/bin/app_process'' 23"
  "memcmp_eq name ''/init'' 5 \<Longrightarrow> \<not> memcmp_eq name ''/system/bin/init'' 16"
  using memcmp_two_prefixes [of name "''/system/bin/init''" 16 "''/system/bin/app_process''" 23]
    memcmp_two_prefixes [of name "''/init''" 5 "''/system/bin/app_process''" 23]
    memcmp_two_prefixes [of name "''/init''" 5 "''/system/bin/init''" 16]
  by auto

lemma exec_not_app_process:
  "\<not> memcmp_eq name ''/system/bin/app_process'' 23 \<Longrightarrow> exec_app_process e name st = st"
  by (simp add: exec_app_process_def)

lemma second_stage_exec:
  assumes "arg_array e a (p # q # ps)" "length ps + 2 \<le> MAX_ARG_STRINGS" "\<And>i. \<not> ke_fatal e i"
    and "user_path (ke_um e) q s" "length (ke_arg_junk e) = 16" "ksu_execveat_hook st"
    and "memcmp_eq name ''/system/bin/init'' 16 \<and> t = ''second_stage'' \<or>
      memcmp_eq name ''/init'' 5 \<and> t = ''--second-stage''"
  shows "ksu_handle_execveat_ksud e (FName name) (Some a) envp st =
    Some (if s = t \<and> \<not> init_second_stage_executed st then second_stage e (touch a st) else touch a st)"
proof -
  have c: "count_args e a MAX_ARG_STRINGS st = (int (length ps) + 2, touch a st)"
    using count_array [OF assms(1) _ assms(3), of MAX_ARG_STRINGS st] assms(2) by simp
  note f = first_arg_recognised [OF assms(1,4,5)]
  from assms(7) show ?thesis
  proof (elim disjE conjE)
    assume n: "memcmp_eq name ''/system/bin/init'' 16" "t = ''second_stage''"
    have "init_first_arg e a ''second_stage'' (touch a st) =
        (if s = t then second_stage e (touch a (touch a st)) else touch a (touch a st))"
      unfolding n(2) by (rule f) simp_all
    then show ?thesis using n init_names assms(6)
      by (simp add: ksu_handle_execveat_ksud_def exec_system_init_def c exec_not_app_process)
  next
    assume n: "memcmp_eq name ''/init'' 5" "t = ''--second-stage''"
    have "init_first_arg e a ''--second-stage'' (touch a st) =
        (if s = t then second_stage e (touch a (touch a st)) else touch a (touch a st))"
      unfolding n(2) by (rule f) simp_all
    then show ?thesis using n init_names assms(6)
      by (simp add: ksu_handle_execveat_ksud_def exec_old_init_def c exec_not_app_process)
  qed
qed

text \<open>Once the stage has been seen, no hook call applies the rules again.\<close>

definition stage_part where
  "stage_part st = (init_second_stage_executed st, kd_rules_applied st, kd_compat st)"

lemma stage_part_get_user_arg_ptr:
  "get_user_arg_ptr e argv n st = (p, st') \<Longrightarrow> stage_part st' = stage_part st"
  by (auto simp: get_user_arg_ptr_def stage_part_def split: if_splits option.splits)

lemma stage_part_count_loop:
  "count_loop e argv mx i st = (r, st') \<Longrightarrow> stage_part st' = stage_part st"
proof (induction e argv mx i st rule: count_loop.induct)
  case (1 e argv mx i st)
  obtain p st1 where g: "get_user_arg_ptr e argv i st = (p, st1)" by fastforce
  have b: "stage_part st1 = stage_part st" by (rule stage_part_get_user_arg_ptr [OF g])
  note IH = "1.IH" [OF g [symmetric] refl]
  from "1.prems" show ?case
    unfolding count_loop.simps [of e argv mx i st] g Let_def prod.case
    using b IH by (auto split: if_splits)
qed

lemma stage_part_count_args:
  "count_args e argv mx st = (r, st') \<Longrightarrow> stage_part st' = stage_part st"
  by (auto simp: count_args_def split: if_splits dest: stage_part_count_loop)

lemma stage_part_app_process: "stage_part (exec_app_process e name st) = stage_part st"
  by (auto simp: exec_app_process_def stop_execve_hook_def ksu_on_post_fs_data_def stop_input_hook_def
      stage_part_def Let_def)

lemma stage_part_exec:
  assumes "init_second_stage_executed st"
  shows "\<exists>st'. ksu_handle_execveat_ksud e f argv envp st = Some st' \<and> stage_part st' = stage_part st"
proof -
  have inner: "\<exists>st'. (case argv of None \<Rightarrow> Some st
      | Some argv \<Rightarrow>
          if memcmp_eq name ''/system/bin/init'' 16 then Some (exec_system_init e argv st)
          else if memcmp_eq name ''/init'' 5 then exec_old_init e argv envp st
          else Some st) = Some st' \<and> stage_part st' = stage_part st" for name
  proof (cases argv)
    case (Some a)
    obtain argc st1 where c: "count_args e a MAX_ARG_STRINGS st = (argc, st1)" by fastforce
    note p = stage_part_count_args [OF c]
    then have "init_second_stage_executed st1" using assms by (simp add: stage_part_def)
    then show ?thesis using p by (simp add: Some exec_system_init_def exec_old_init_def c)
  qed simp
  have "\<exists>st'. ksu_handle_execveat_ksud e (FName name) argv envp st = Some st' \<and> stage_part st' = stage_part st" for name
  proof (cases "ksu_execveat_hook st")
    case True
    from inner [of name] obtain st1 where st1: "(case argv of None \<Rightarrow> Some st
      | Some argv \<Rightarrow>
          if memcmp_eq name ''/system/bin/init'' 16 then Some (exec_system_init e argv st)
          else if memcmp_eq name ''/init'' 5 then exec_old_init e argv envp st
          else Some st) = Some st1" "stage_part st1 = stage_part st" by blast
    have "ksu_handle_execveat_ksud e (FName name) argv envp st = Some (exec_app_process e name st1)"
      using True by (simp add: ksu_handle_execveat_ksud_def st1(1))
    then show ?thesis using st1(2) stage_part_app_process [of e name st1] by auto
  next
    case False
    then show ?thesis by (simp add: ksu_handle_execveat_ksud_def)
  qed
  then show ?thesis by (cases f) (auto simp: ksu_handle_execveat_ksud_def)
qed

lemma stage_part_read:
  assumes "ksu_handle_vfs_read e comm fl bc st = (fl', bc', st')"
  shows "stage_part st' = stage_part st"
  using assms
  by (auto simp: ksu_handle_vfs_read_def install_proxy_def stop_vfs_read_hook_def stage_part_def Let_def
      split: if_splits option.splits prod.splits)

lemma stage_part_call:
  assumes "init_second_stage_executed st"
  shows "\<exists>st'. ksud_call e op st = Some st' \<and> stage_part st' = stage_part st"
proof (cases op)
  case (Op_read comm fl bc)
  then show ?thesis
    using stage_part_read [of e comm _ bc st]
    by (cases fl) (auto simp: ksu_handle_sys_read_def split: prod.splits, metis prod_cases3 snd_conv)
next
  case (Op_execve f argv)
  then show ?thesis using stage_part_exec [OF assms] by (simp add: ksu_handle_execve_ksud_def split: prod.split)
next
  case (Op_exec f argv envp)
  then show ?thesis using stage_part_exec [OF assms] by simp
qed (auto simp: ksu_handle_input_handle_event_def stop_input_hook_def ksu_is_safe_mode_def
    ksu_on_post_fs_data_def stage_part_def Let_def)

lemma stage_part_run:
  "init_second_stage_executed st \<Longrightarrow> \<exists>st'. ksud_run e ops st = Some st' \<and> stage_part st' = stage_part st"
proof (induction ops arbitrary: st)
  case (Cons op ops)
  obtain st1 where st1: "ksud_call e op st = Some st1" "stage_part st1 = stage_part st"
    using stage_part_call [OF Cons.prems] by blast
  then have "init_second_stage_executed st1" using Cons.prems by (simp add: stage_part_def)
  then show ?case using Cons.IH [of st1] st1 by auto
qed simp

text \<open>C27. While the execve hook is on and the second stage has not been seen, executing
  /system/bin/init with \<open>second_stage\<close> as its first argument, or /init with \<open>--second-stage\<close>, applies
  the driver's SELinux rules once more, checks the mount namespace and records that the stage has been
  seen; with any other first argument, or once the stage has been seen, nothing happens. All else stays
  but for the mark that a 32-bit argument array leaves; native and 32-bit arrays count alike. Once the
  stage has been seen no sequence of hook calls whatever, further calls for init included, applies
  the rules or checks the namespace again.\<close>
theorem second_stage_recognised:
  fixes st :: "('ns, 'fs) ksud_state"
  assumes "arg_array e a (p # q # ps)" "length ps + 2 \<le> MAX_ARG_STRINGS" "\<And>i. \<not> ke_fatal e i"
    and "user_path (ke_um e) q s" "length (ke_arg_junk e) = 16" "ksu_execveat_hook st"
    and "memcmp_eq name ''/system/bin/init'' 16 \<and> t = ''second_stage'' \<or>
      memcmp_eq name ''/init'' 5 \<and> t = ''--second-stage''"
  shows "\<exists>st'. ksu_handle_execveat_ksud e (FName name) (Some a) envp st = Some st' \<and>
    st' = (if s = t \<and> \<not> init_second_stage_executed st
      then st\<lparr>ksu_is_compat := ksu_is_compat st \<or> ua_is_compat a,
        kd_rules_applied := kd_rules_applied st + 1, init_second_stage_executed := True,
        kd_compat := ksu_android_ns_fs_check (ke_mnt_ns e) (ke_init_mnt_ns e) (kd_compat st)\<rparr>
      else st\<lparr>ksu_is_compat := ksu_is_compat st \<or> ua_is_compat a\<rparr>) \<and>
    (init_second_stage_executed st' \<longrightarrow> (\<forall>(e' :: 'ns ksud_env) ops. \<exists>st2. ksud_run e' ops st' = Some st2 \<and>
       init_second_stage_executed st2 \<and> kd_rules_applied st2 = kd_rules_applied st' \<and>
       kd_compat st2 = kd_compat st'))"
proof -
  let ?s = "if s = t \<and> \<not> init_second_stage_executed st then second_stage e (touch a st) else touch a st"
  have t: "touch a st = st\<lparr>ksu_is_compat := ksu_is_compat st \<or> ua_is_compat a\<rparr>" by (simp add: touch_def)
  have s: "?s = (if s = t \<and> \<not> init_second_stage_executed st
      then st\<lparr>ksu_is_compat := ksu_is_compat st \<or> ua_is_compat a,
        kd_rules_applied := kd_rules_applied st + 1, init_second_stage_executed := True,
        kd_compat := ksu_android_ns_fs_check (ke_mnt_ns e) (ke_init_mnt_ns e) (kd_compat st)\<rparr>
      else st\<lparr>ksu_is_compat := ksu_is_compat st \<or> ua_is_compat a\<rparr>)"
    by (simp add: second_stage_def t)
  have "\<exists>st2. ksud_run e' ops ?s = Some st2 \<and> init_second_stage_executed st2 \<and>
      kd_rules_applied st2 = kd_rules_applied ?s \<and> kd_compat st2 = kd_compat ?s"
    if "init_second_stage_executed ?s" for e' :: "'ns ksud_env" and ops
    using stage_part_run [OF that, of e' ops] that unfolding stage_part_def by auto
  then show ?thesis using second_stage_exec [OF assms, of envp] s by blast
qed

text \<open>Android 8 and 9 announce the second stage in the environment.\<close>

definition env_second_stage :: "string \<Rightarrow> bool" where
  "env_second_stage s \<longleftrightarrow> s = ''INIT_SECOND_STAGE=1'' \<or> s = ''INIT_SECOND_STAGE=true''"

lemma env_matches_string:
  assumes "NUL \<notin> set s"
  shows "env_matches (s @ NUL # t) = Some (env_second_stage s)"
proof (cases "CHR ''='' \<in> set s")
  case False
  then have "\<not> env_second_stage s" by (auto simp: env_second_stage_def)
  then show ?thesis using assms False by (simp add: env_matches_def cstr_append_NUL)
next
  case True
  then obtain n v where s: "s = n @ CHR ''='' # v" "CHR ''='' \<notin> set n" by (meson split_list_first)
  have tw: "takeWhile (\<lambda>c. c \<noteq> CHR ''='') (m @ CHR ''='' # w) = m" if "CHR ''='' \<notin> set m" for m w
    using that by (induction m) auto
  have n: "takeWhile (\<lambda>c. c \<noteq> CHR ''='') (s @ NUL # t) = n" using tw [OF s(2), of "v @ NUL # t"] s(1) by simp
  have d: "drop (Suc (length n)) (s @ NUL # t) = v @ NUL # t" using s by simp
  have v: "cstr (v @ NUL # t) = v" using assms s by (intro cstr_append_NUL) auto
  have e: "env_second_stage s \<longleftrightarrow> n = ''INIT_SECOND_STAGE'' \<and> (v = ''1'' \<or> v = ''true'')"
  proof -
    have "n @ CHR ''='' # v = m @ CHR ''='' # w \<longleftrightarrow> n = m \<and> v = w" if "CHR ''='' \<notin> set m" for m w
    proof
      assume a: "n @ CHR ''='' # v = m @ CHR ''='' # w"
      then show "n = m \<and> v = w" using tw [OF s(2), of v] tw [OF that, of w] by simp
    qed simp
    from this [of "''INIT_SECOND_STAGE''" "''1''"] this [of "''INIT_SECOND_STAGE''" "''true''"]
    show ?thesis by (auto simp: env_second_stage_def s(1))
  qed
  have "CHR ''='' \<in> set (cstr (s @ NUL # t))" using True assms by (simp add: cstr_append_NUL)
  then show ?thesis
    unfolding env_matches_def n Let_def d e by (auto simp: strcmp_buf_def v split: bool.split)
qed

lemma env_entry_read:
  assumes "user_path um p s" "length s < 256" "length dst = 256"
  shows "\<exists>r b. ksu_strncpy_from_user_retry um dst p 256 = (r, b) \<and> 0 \<le> r \<and>
    env_matches b = Some (env_second_stage s)"
proof -
  obtain r b t where "ksu_strncpy_from_user_retry um dst p 256 = (r, b)" "0 \<le> r" "b = s @ NUL # t"
    using retry_path [OF assms(1), of 256 dst] assms(2,3) by auto
  moreover have "NUL \<notin> set s" using assms(1) by (simp add: user_path_def)
  ultimately show ?thesis using env_matches_string by blast
qed

definition env_array :: "'ns ksud_env \<Rightarrow> user_arg_ptr \<Rightarrow> u64 list \<Rightarrow> string list \<Rightarrow> bool" where
  "env_array e v ps ss \<longleftrightarrow> arg_array e v ps \<and>
     list_all2 (\<lambda>p s. user_path (ke_um e) p s \<and> length s < 256) ps ss \<and> (\<forall>i. length (ke_env_junk e i) = 256)"

lemma env_step:
  assumes "env_array e v ps ss" "i < length ps"
  shows "env_loop e v (i # ns) st =
    env_loop e v ns (if env_second_stage (ss ! i) then second_stage e (touch v st) else touch v st)"
proof -
  have a: "arg_array e v ps" "user_path (ke_um e) (ps ! i) (ss ! i)" "length (ss ! i) < 256"
    "length (ke_env_junk e i) = 256"
    using assms by (auto simp: env_array_def list_all2_conv_all_nth)
  obtain r b where r: "ksu_strncpy_from_user_retry (ke_um e) (ke_env_junk e i) (ps ! i) 256 = (r, b)" "0 \<le> r"
    "env_matches b = Some (env_second_stage (ss ! i))" using env_entry_read [OF a(2-4)] by blast
  have "get_user_arg_ptr e v i st = (ps ! i, touch v st)"
    using get_arg [OF a(1), of i st] assms(2) by (simp add: nth_append)
  then show ?thesis using arg_array_nth [OF a(1) assms(2)] r by simp
qed

lemma env_loop_counts:
  assumes "env_array e v ps ss" "0 < i" "i \<le> length ps"
  shows "\<exists>st'. env_loop e v [i..<Suc (length ps)] st = Some st' \<and>
    kd_rules_applied st' = kd_rules_applied st + length (filter env_second_stage (drop i ss)) \<and>
    init_second_stage_executed st' = (init_second_stage_executed st \<or> (\<exists>s \<in> set (drop i ss). env_second_stage s))"
  using assms(2,3)
proof (induction "length ps - i" arbitrary: i st)
  case 0
  then have i: "i = length ps" by simp
  have l: "length ps = length ss" using assms(1) by (auto simp: env_array_def dest: list_all2_lengthD)
  have a: "arg_array e v ps" using assms(1) by (simp add: env_array_def)
  have g: "get_user_arg_ptr e v i st = (0, touch v st)" using get_arg [OF a, of i st] i by simp
  have "[i..<Suc (length ps)] = [i]" using i by simp
  then show ?case by (simp add: g) (simp add: i l)
next
  case (Suc k)
  then have i: "i < length ps" by linarith
  have l: "length ps = length ss" using assms(1) by (auto simp: env_array_def dest: list_all2_lengthD)
  have u: "[i..<Suc (length ps)] = i # [Suc i..<Suc (length ps)]" using i by (simp add: upt_rec)
  let ?st = "if env_second_stage (ss ! i) then second_stage e (touch v st) else touch v st"
  obtain st' where "env_loop e v [Suc i..<Suc (length ps)] ?st = Some st'"
    "kd_rules_applied st' = kd_rules_applied ?st + length (filter env_second_stage (drop (Suc i) ss))"
    "init_second_stage_executed st' = (init_second_stage_executed ?st \<or> (\<exists>s \<in> set (drop (Suc i) ss). env_second_stage s))"
  proof -
    have "k = length ps - Suc i" "0 < Suc i" "Suc i \<le> length ps" using Suc.hyps(2) i by auto
    from Suc.hyps(1) [OF this, of ?st] that show ?thesis by blast
  qed
  moreover have "drop i ss = ss ! i # drop (Suc i) ss" using i l by (simp add: Cons_nth_drop_Suc)
  ultimately show ?case unfolding u env_step [OF assms(1) i] by (auto simp: second_stage_def)
qed

text \<open>Executing /init with no argument but its name applies the rules once for every
  \<open>INIT_SECOND_STAGE=1\<close> or \<open>=true\<close> in the environment, of which the first entry is never looked at: the
  loop starts at one.\<close>
theorem old_init_skips_first_env:
  assumes "arg_array e a [p]" "env_array e v ps ss" "length ps \<le> MAX_ARG_STRINGS" "\<And>i. \<not> ke_fatal e i"
    and "ksu_execveat_hook st" "memcmp_eq name ''/init'' 5" "\<not> init_second_stage_executed st"
  shows "\<exists>st'. ksu_handle_execveat_ksud e (FName name) (Some a) (Some v) st = Some st' \<and>
    kd_rules_applied st' = kd_rules_applied st + length (filter env_second_stage (tl ss)) \<and>
    init_second_stage_executed st' = (\<exists>s \<in> set (tl ss). env_second_stage s)"
proof -
  have c: "count_args e a MAX_ARG_STRINGS st = (1, touch a st)"
    using count_array [OF assms(1) _ assms(4), of MAX_ARG_STRINGS st] by (simp add: MAX_ARG_STRINGS_def)
  have av: "arg_array e v ps" using assms(2) by (simp add: env_array_def)
  have cv: "count_args e v MAX_ARG_STRINGS (touch a st) = (int (length ps), touch v (touch a st))"
    by (rule count_array [OF av assms(3,4)])
  have l: "length ps = length ss" using assms(2) by (auto simp: env_array_def dest: list_all2_lengthD)
  show ?thesis
  proof (cases ps)
    case Nil
    then show ?thesis using l assms(5-7) init_names(2,3) [OF assms(6)]
      by (simp add: ksu_handle_execveat_ksud_def exec_old_init_def c cv exec_not_app_process)
  next
    case (Cons q qs)
    then obtain st' where "env_loop e v [1..<Suc (length ps)] (touch v (touch a st)) = Some st'"
      "kd_rules_applied st' = kd_rules_applied st + length (filter env_second_stage (drop 1 ss))"
      "init_second_stage_executed st' = (\<exists>s \<in> set (drop 1 ss). env_second_stage s)"
      using env_loop_counts [OF assms(2), of 1 "touch v (touch a st)"] assms(7) by auto
    moreover have "nat (int (length ps)) = length ps" "drop 1 ss = tl ss" "0 < int (length ps)"
      using Cons by (simp_all add: drop_Suc)
    ultimately show ?thesis using assms(5-7) init_names(2,3) [OF assms(6)]
      by (simp add: ksu_handle_execveat_ksud_def exec_old_init_def c cv exec_not_app_process del: upt_Suc One_nat_def)
  qed
qed

end
