(* ===== verification/Driver_Props.thy ===== *)
theory Driver_Props
  imports Driver Ksud_Props Throne_Props
begin

text \<open>
  Properties of runs of the whole driver: who the manager is, where grants come from, who gets
  the credentials of a root profile, and that the two copies of the su switch agree.
\<close>

subsection \<open>Through the hooks of an exec\<close>

text \<open>What every hook of an exec keeps, the whole exec keeps.\<close>

locale exec_relation =
  fixes h :: "('ns, 'fs) exec_hooks"
    and rel :: "'ns driver_env \<Rightarrow> ('ns, 'fs) driver \<Rightarrow> ('ns, 'fs) driver \<Rightarrow> bool"
  assumes execveat: "eh_execveat h e f argv envp d = Some (f', d') \<Longrightarrow> rel e d d'"
    and execveat_sucompat: "eh_execveat_sucompat h e f d = Some (f', d') \<Longrightarrow> rel e d d'"
    and execve_ksud: "eh_execve_ksud h e a argv0 d = Some d' \<Longrightarrow> rel e d d'"
    and execve_sucompat: "eh_execve_sucompat h e a d = Some (a', d') \<Longrightarrow> rel e d d'"
    and refl: "rel e d d"
    and trans: "rel e d d1 \<Longrightarrow> rel e d1 d' \<Longrightarrow> rel e d d'"
begin

lemma common_rel: "do_execveat_common h e f argv envp d = Some (f', d') \<Longrightarrow> rel e d d'"
  by (auto simp: do_execveat_common_def dest: execveat execveat_sucompat split: if_splits)

lemma execve_rel: "do_execve h e f a v d = Some (f', d') \<Longrightarrow> rel e d d'"
  by (auto simp: do_execve_def Let_def split: option.splits if_splits
      dest!: execveat execveat_sucompat common_rel intro: trans)

lemma compat_execve_rel: "compat_do_execve h e f a v d = Some (f', d') \<Longrightarrow> rel e d d'"
  by (auto simp: compat_do_execve_def Let_def split: option.splits if_splits
      dest!: execveat_sucompat common_rel intro: trans)

lemma sys_execve_rel: "sys_execve h e p a v d = Some (f', d') \<Longrightarrow> rel e d d'"
  by (auto simp: sys_execve_def split: option.splits if_splits
      dest!: execve_ksud execve_sucompat execve_rel intro: trans)

lemma compat_sys_execve_rel: "compat_sys_execve h e p a v d = Some (f', d') \<Longrightarrow> rel e d d'"
  by (auto simp: compat_sys_execve_def split: option.splits if_splits
      dest!: execve_sucompat compat_execve_rel intro: trans)

lemma exec_rel: "exec_kernel h e x d = Some (f', d') \<Longrightarrow> rel e d d'"
  by (cases x) (auto dest: common_rel execve_rel sys_execve_rel compat_sys_execve_rel)

end

subsection \<open>Grants between the calls\<close>

text \<open>Two states of the allowlist that differ in the pending work at most.\<close>

definition same_grants :: "allow_state \<Rightarrow> allow_state \<Rightarrow> bool" where
  "same_grants al al' \<longleftrightarrow> al_list al' = al_list al \<and> (\<forall>u. granted al' u = granted al u) \<and> allow_wf al' = allow_wf al"

lemma same_grants_refl [simp, intro]: "same_grants al al"
  by (simp add: same_grants_def)

lemma same_grants_trans [trans]: "same_grants a b \<Longrightarrow> same_grants b c \<Longrightarrow> same_grants a c"
  by (simp add: same_grants_def)

lemma same_grants_pending [simp]:
  "same_grants al (al\<lparr>al_load_pending := b\<rparr>)" "same_grants al (al\<lparr>al_save_pending := b\<rparr>)"
  "same_grants al (snd (ksu_load_allow_list al))"
  by (simp_all add: same_grants_def granted_def arr_mem_def allow_wf_def ksu_load_allow_list_def)

lemma post_fs_data_grants: "same_grants (kd_allow st) (kd_allow (ksu_on_post_fs_data e st))"
  by (simp add: ksu_on_post_fs_data_def stop_input_hook_def Let_def)

lemma safe_mode_grants: "kd_allow (snd (ksu_is_safe_mode st)) = kd_allow st"
  by (simp add: ksu_is_safe_mode_def stop_input_hook_def Let_def)

lemma execveat_ksud_grants:
  assumes "ksu_handle_execveat_ksud e f argv envp st = Some st'"
  shows "same_grants (kd_allow st) (kd_allow st')"
proof -
  obtain st1 where b: "boot_part st1 = boot_part st"
    and st': "st' = (if ksu_execveat_hook st \<and> first_app_process st \<and> is_app_process f
      then stop_execve_hook (ksu_on_post_fs_data e (st1\<lparr>first_app_process := False\<rparr>)) else st1)"
    using execveat_ksud_phases [OF assms] by blast
  have "kd_allow st1 = kd_allow st" using b by (simp add: boot_part_def)
  then show ?thesis
    using st' post_fs_data_grants [of "st1\<lparr>first_app_process := False\<rparr>" e] by (simp add: stop_execve_hook_def)
qed

lemma sys_read_grants: "kd_allow (snd (snd (ksu_handle_sys_read e comm fl bc st))) = kd_allow st"
  by (simp add: ksu_handle_sys_read_def ksu_handle_vfs_read_def install_proxy_def stop_vfs_read_hook_def
      Let_def split: option.splits prod.splits)

lemma input_grants: "kd_allow (ksu_handle_input_handle_event ty code val st) = kd_allow st"
  by (simp add: ksu_handle_input_handle_event_def stop_input_hook_def Let_def)

subsection \<open>The events of a command\<close>

text \<open>The su switch after some events, and a step of \<open>prctl\<close> whose events lead to its switch.\<close>

fun su_after :: "event list \<Rightarrow> bool \<Rightarrow> bool" where
  "su_after [] b = b"
| "su_after (ev # evs) b = su_after evs (case ev of EvSucompatInit \<Rightarrow> True | EvSucompatExit \<Rightarrow> False | _ \<Rightarrow> b)"

definition tracked :: "ksu_state \<Rightarrow> ksu_state \<Rightarrow> bool" where
  "tracked s s' \<longleftrightarrow> (\<exists>evs. ks_events s' = ks_events s @ evs \<and>
     su_after evs (ks_su_compat_enabled s) = ks_su_compat_enabled s')"

lemma su_after_append: "su_after (a @ b) x = su_after b (su_after a x)"
  by (induction a arbitrary: x) auto

lemma trackedI: "ks_events s' = ks_events s @ evs \<Longrightarrow> su_after evs (ks_su_compat_enabled s) = ks_su_compat_enabled s' \<Longrightarrow> tracked s s'"
  by (auto simp: tracked_def)

lemma tracked_same: "ks_events s' = ks_events s \<Longrightarrow> ks_su_compat_enabled s' = ks_su_compat_enabled s \<Longrightarrow> tracked s s'"
  by (rule trackedI [of _ _ "[]"]) simp_all

lemma tracked_trans: "tracked s s1 \<Longrightarrow> tracked s1 s2 \<Longrightarrow> tracked s s2"
  by (auto simp: tracked_def su_after_append intro!: trackedI [unfolded tracked_def])

lemma tracked_new: "tracked s s' \<Longrightarrow> su_after (new_events s s') (ks_su_compat_enabled s) = ks_su_compat_enabled s'"
  by (auto simp: tracked_def new_events_def)

lemma tracked_copy: "copy_to_user pe a d s = (f, s') \<Longrightarrow> tracked s s'" "tracked s (snd (copy_to_user pe a d s))"
  by (auto simp: copy_to_user_def tracked_def split: if_splits intro!: exI [of _ "[]"])

lemma tracked_reply: "tracked s (reply pe r s)"
  by (simp add: reply_def tracked_copy)

lemma tracked_after_copy: "tracked s s1 \<Longrightarrow> tracked s (snd (copy_to_user pe a d s1))" "tracked s s1 \<Longrightarrow> tracked s (reply pe r s1)"
  using tracked_trans tracked_copy(2) tracked_reply by blast+

lemma tracked_refl [simp]: "tracked s s"
  by (rule tracked_same) simp_all

lemma tracked_event: "ev \<notin> {EvSucompatInit, EvSucompatExit} \<Longrightarrow> tracked s (add_event ev s)"
  by (rule trackedI [of _ _ "[ev]"]) (auto simp: add_event_def split: event.splits)

lemma tracked_fields [simp]:
  "tracked s (s\<lparr>ks_allow := a\<rparr>) = True" "tracked s (s\<lparr>ks_task := t\<rparr>) = True" "tracked s (s\<lparr>ks_susfs := u\<rparr>) = True"
  "tracked s (s\<lparr>ks_manager := m\<rparr>) = True"
  by (simp_all add: tracked_same)

lemma tracked_query:
  "tracked s (cmd_become_manager pe fm r s)" "tracked s (cmd_get_version pe a3 a4 s)"
  "tracked s (cmd_get_manager_uid pe a3 r s)" "tracked s (cmd_hook_mode pe a3 s)"
  "tracked s (cmd_set_sepolicy pe fr a3 a4 r s)" "tracked s (cmd_check_safemode pe r s)"
  "tracked s (cmd_uid_query pe a2 a3 a4 r s)"
  by (auto simp: cmd_become_manager_def cmd_get_version_def cmd_get_manager_uid_def cmd_hook_mode_def
      cmd_set_sepolicy_def cmd_check_safemode_def cmd_uid_query_def Let_def tracked_event
      split: prod.splits intro!: tracked_after_copy intro: tracked_copy)

lemma tracked_report: "tracked s (cmd_report_event pe fr a3 s)"
proof -
  have e: "tracked s s1 \<Longrightarrow> ev \<notin> {EvSucompatInit, EvSucompatExit} \<Longrightarrow> tracked s (add_event ev s1)" for s1 ev
    using tracked_trans tracked_event by blast
  show ?thesis
    by (auto simp: cmd_report_event_def Let_def tracked_same intro!: e)
qed

lemma tracked_get_list: "cmd_get_list pe al a3 a4 r s = Some s' \<Longrightarrow> tracked s s'"
  by (auto simp: cmd_get_list_def Let_def split: prod.splits if_splits
      intro!: tracked_after_copy dest: tracked_copy(1) intro: tracked_trans tracked_copy)

lemma tracked_grant: "cmd_grant_root pe r s = Some s' \<Longrightarrow> tracked s s'"
  by (auto simp: cmd_grant_root_def split: if_splits option.splits intro!: tracked_after_copy)

lemma tracked_susfs_helpers:
  "tracked s (susfs_call pe n a3 a5 f s)" "tracked s (susfs_show pe n d a3 a5 s)" "tracked s (cmd_susfs_enable_log pe a3 a5 s)"
  by (auto simp: susfs_call_def susfs_show_def cmd_susfs_enable_log_def split: prod.splits
      intro!: tracked_after_copy intro: tracked_copy)

lemma tracked_susfs: "susfs_commands pe a2 a3 a5 s = Some s' \<Longrightarrow> tracked s s'"
proof -
  have a: "susfs_entry_commands pe a2 a3 a5 s = Some s' \<Longrightarrow> tracked s s'"
    unfolding susfs_entry_commands_def Let_def
    by (simp only: split: if_split_asm)
       (simp_all only: option.simps, (hypsubst, rule tracked_susfs_helpers)+)
  have b: "susfs_setting_commands pe a2 a3 a5 s = Some s' \<Longrightarrow> tracked s s'"
    unfolding susfs_setting_commands_def Let_def
    by (simp only: split: if_split_asm)
       (simp_all only: option.simps, (hypsubst, rule tracked_susfs_helpers)+)
  show "susfs_commands pe a2 a3 a5 s = Some s' \<Longrightarrow> tracked s s'"
    using a b by (auto simp: susfs_commands_def split: option.splits)
qed

lemma tracked_manager: "tracked s (manager_commands pe a2 a3 r s)"
proof -
  have sw: "tracked s (cmd_enable_su pe a3 r s)"
    by (auto simp: cmd_enable_su_def Let_def add_event_def intro!: tracked_after_copy
        intro: trackedI [of _ _ "[EvSucompatInit]"] trackedI [of _ _ "[EvSucompatExit]"])
  moreover have "tracked s (cmd_get_app_profile pe a3 r s)" "tracked s (cmd_set_app_profile pe a3 r s)"
    "tracked s (cmd_is_su_enabled pe a3 r s)"
    by (auto simp: cmd_get_app_profile_def cmd_set_app_profile_def cmd_is_su_enabled_def Let_def
        split: option.splits prod.splits intro!: tracked_after_copy intro: tracked_copy)
  ultimately show ?thesis by (simp add: manager_commands_def)
qed

lemma tracked_adopt: "tracked s (adopt_manager s)"
  by (rule tracked_same) (simp_all add: adopt_manager_def Let_def)

lemma prctl_tracked:
  assumes "ksu_handle_prctl pe opt a2 a3 a4 a5 s0 = Some s'"
  shows "tracked s0 s'"
proof -
  define s where "s = adopt_manager s0"
  have ev: "tracked s (add_event EvRunTryUmount s)" by (simp add: tracked_event)
  have sus: "susfs_commands pe a b c (add_event EvRunTryUmount s) = Some s' \<Longrightarrow> tracked s s'"
    and man: "tracked s (manager_commands pe a b c (add_event EvRunTryUmount s))" for a b c
    using tracked_trans [OF ev] tracked_susfs tracked_manager by blast+
  have "s' = s0 \<or> tracked s s'"
    using assms unfolding ksu_handle_prctl_def Let_def s_def [symmetric]
    by (simp only: split: if_split_asm option.splits)
      (auto simp only: option.simps simp_thms if_True if_False tracked_query tracked_report tracked_refl
        tracked_manager man ev dest: tracked_get_list tracked_grant tracked_susfs sus)
  then show ?thesis using tracked_trans [OF tracked_adopt] unfolding s_def by auto
qed

lemma prctl_sets_profile:
  assumes p: "ksu_handle_prctl pe opt a2 a3 a4 a5 s = Some s'"
    and "ks_allow s' \<noteq> ks_allow s"
  obtains profile where "pe_app_profile_at pe a3 = Some profile" "a2 = CMD_SET_APP_PROFILE"
    "ks_manager (adopt_manager s) = current_uid s"
    "ks_allow s' = snd (ksu_set_app_profile (pe_set pe) profile True (ks_allow s))"
  using p
proof (cases rule: prctl_cases)
  case (manager s1)
  have al: "ks_allow s1 = ks_allow s" using manager(2) by (simp add: same_core_def prctl_frame)
  have cmd: "a2 = CMD_SET_APP_PROFILE"
    using manager_commands_frame(2) [of a2 pe a3 a5 s1] assms(2) manager(3) al by auto
  then have "s' = cmd_set_app_profile pe a3 a5 s1" using manager(3) by (simp add: manager_commands_def)
  then obtain profile where "pe_app_profile_at pe a3 = Some profile"
    "ks_allow s' = snd (ksu_set_app_profile (pe_set pe) profile True (ks_allow s))"
    using assms(2) al by (auto simp: cmd_set_app_profile_def Let_def prctl_frame split: option.splits prod.splits)
  then show ?thesis using that cmd manager(1) by (simp add: prctl_frame)
next
  case grant
  then show ?thesis using assms(2) cmd_grant_root_frame by (metis adopt_manager_frame(1))
next
  case (susfs s1)
  then show ?thesis using assms(2) by (simp add: same_core_def same_but_susfs_def prctl_frame)
qed (use assms(2) in \<open>simp_all add: same_core_def prctl_frame\<close>)

text \<open>What the events change: the allowlist keeps its grants, and the switch follows.\<close>

lemma run_event_frame:
  assumes "run_event e ev d = Some d'"
  shows "same_grants (dv_allow d) (dv_allow d') \<and> ks_manager (dv_core d') = ks_manager (dv_core d) \<and>
    dv_task d' = dv_task d \<and> ks_su_compat_enabled (dv_core d') = ks_su_compat_enabled (dv_core d) \<and>
    locked_manager_uid (dv_throne d') = locked_manager_uid (dv_throne d) \<and>
    ksu_sucompat_non_kp (dv_su d') = su_after [ev] (ksu_sucompat_non_kp (dv_su d))"
  using assms post_fs_data_grants [of "boot_view d" "de_ksud e"] safe_mode_grants [of "boot_view d"]
  by (auto simp: run_event_def put_boot_def put_su_def su_view_def boot_view_def ksu_sucompat_init_def
      ksu_sucompat_exit_def split: event.splits)

lemma run_events_frame:
  assumes "fold_opt (run_event e) evs d = Some d'"
  shows "same_grants (dv_allow d) (dv_allow d') \<and> ks_manager (dv_core d') = ks_manager (dv_core d) \<and>
    dv_task d' = dv_task d \<and> ks_su_compat_enabled (dv_core d') = ks_su_compat_enabled (dv_core d) \<and>
    locked_manager_uid (dv_throne d') = locked_manager_uid (dv_throne d) \<and>
    ksu_sucompat_non_kp (dv_su d') = su_after evs (ksu_sucompat_non_kp (dv_su d))"
  using assms
proof (induction evs arbitrary: d)
  case (Cons ev evs)
  obtain d1 where d1: "run_event e ev d = Some d1" "fold_opt (run_event e) evs d1 = Some d'"
    using Cons.prems by (auto split: option.splits)
  show ?case
    using run_event_frame [OF d1(1)] Cons.IH [OF d1(2)] same_grants_trans
    by (auto split: event.splits)
qed simp


subsection \<open>Grants\<close>

lemma set_profile_grants:
  assumes "allow_wf st" "tmp_ok (se_tmp_arr e)"
  shows "allow_wf (snd (ksu_set_app_profile e p b st))"
    "granted (snd (ksu_set_app_profile e p b st)) u \<Longrightarrow> granted st u \<or> ap_current_uid p = u \<and> ap_allow_su p"
proof -
  obtain r st' where s: "ksu_set_app_profile e p b st = (r, st')" by fastforce
  have "allow_wf st' \<and> (granted st' u \<longrightarrow> granted st u \<or> ap_current_uid p = u \<and> ap_allow_su p)"
  proof (cases r)
    case True
    then have t: "ksu_set_app_profile e p b st = (True, st')" using s by simp
    show ?thesis using set_app_profile_grants [OF assms t] by auto
  next
    case False
    from s show ?thesis
      by (rule set_app_profile_cases) (use assms(1) False in \<open>auto simp: allow_frame\<close>)
  qed
  then show "allow_wf (snd (ksu_set_app_profile e p b st))"
    "granted (snd (ksu_set_app_profile e p b st)) u \<Longrightarrow> granted st u \<or> ap_current_uid p = u \<and> ap_allow_su p"
    using s by auto
qed

text \<open>A profile that the load takes from the file, after what the stack slot held.\<close>

definition profile_read :: "file_read \<Rightarrow> (nat \<Rightarrow> u8 list) \<Rightarrow> app_profile \<Rightarrow> bool" where
  "profile_read kread junk p \<longleftrightarrow> (\<exists>k off bs. kread off sizeof_app_profile = Some bs \<and> bs \<noteq> [] \<and>
     p = app_profile_of (bs @ drop (length bs) (junk k)))"

lemma load_loop_grants:
  assumes "load_loop kread junk env k off st = Some st'" "\<And>k. tmp_ok (se_tmp_arr (env k))" "allow_wf st"
  shows "allow_wf st' \<and>
    (granted st' u \<longrightarrow> granted st u \<or> (\<exists>p. profile_read kread junk p \<and> ap_current_uid p = u \<and> ap_allow_su p))"
proof -
  have "(\<forall>k. tmp_ok (se_tmp_arr (env k))) \<longrightarrow> allow_wf st \<longrightarrow> allow_wf st' \<and>
    (granted st' u \<longrightarrow> granted st u \<or> (\<exists>p. profile_read kread junk p \<and> ap_current_uid p = u \<and> ap_allow_su p))"
  proof (rule load_loop.raw_induct [OF _ assms(1)], intro impI, goal_cases)
    case (1 loop kread junk env k off st st')
    show ?case
    proof (cases "kread off sizeof_app_profile")
      case (Some bs)
      let ?p = "app_profile_of (bs @ drop (length bs) (junk k))"
      let ?st = "snd (ksu_set_app_profile (env k) ?p False st)"
      show ?thesis
      proof (cases "bs = []")
        case False
        then have l: "loop kread junk env (Suc k) (off + length bs) ?st = Some st'" using 1(2) Some by simp
        have s: "allow_wf ?st" "granted ?st u \<Longrightarrow> granted st u \<or> ap_current_uid ?p = u \<and> ap_allow_su ?p"
          using set_profile_grants [of st "env k" ?p False] 1(3,4) by blast+
        have "profile_read kread junk ?p" using Some False by (auto simp: profile_read_def)
        then show ?thesis using 1(1) [OF l] 1(3) s by blast
      qed (use 1 Some in auto)
    qed (use 1 in auto)
  qed
  then show ?thesis using assms(2,3) by blast
qed

lemma do_load_grants:
  assumes "do_load_allow_list opened kread junk env st = Some st'" "\<And>k. tmp_ok (se_tmp_arr (env k))" "allow_wf st"
  shows "allow_wf st' \<and>
    (granted st' u \<longrightarrow> granted st u \<or> (\<exists>p. profile_read kread junk p \<and> ap_current_uid p = u \<and> ap_allow_su p))"
proof (cases "st' = st")
  case True
  then show ?thesis using assms(3) by simp
next
  case False
  then have "load_loop kread junk env 0 8 st = Some st'"
    using assms(1) by (auto simp: do_load_allow_list_def split: if_splits option.splits)
  then show ?thesis using assms(2,3) by (rule load_loop_grants)
qed

subsection \<open>Single calls\<close>

text \<open>The scratch allocations of \<open>remove_uid_from_arr\<close> succeed, see \<open>revoke_without_memory\<close>.\<close>

fun memory_ok :: "'ns call \<Rightarrow> bool" where
  "memory_ok (Prctl t e opt a2 a3 a4 a5) \<longleftrightarrow> tmp_ok (se_tmp_arr (pe_set (de_prctl e)))"
| "memory_ok (Rename t e has_mm old new path) \<longleftrightarrow> (\<forall>k. tmp_ok (de_tmps e k))"
| "memory_ok (Load_work opened kread junk env) \<longleftrightarrow> (\<forall>k. tmp_ok (se_tmp_arr (env k)))"
| "memory_ok c \<longleftrightarrow> True"

text \<open>A call that makes root of a uid: the manager's app sets an allowing profile, or the load reads one.\<close>

abbreviation task_uid :: "task \<Rightarrow> uid_t" where
  "task_uid t \<equiv> cr_uid (tk_cred t)"

definition manager_app :: "('ns, 'fs) driver \<Rightarrow> uid_t \<Rightarrow> bool" where
  "manager_app d u \<longleftrightarrow> ks_manager (dv_core d) = u \<or> ks_manager (dv_core d) = u mod 100000"

fun gives_root :: "'ns call \<Rightarrow> ('ns, 'fs) driver \<Rightarrow> uid_t \<Rightarrow> bool" where
  "gives_root (Prctl t e opt a2 a3 a4 a5) d u \<longleftrightarrow> manager_app d (task_uid t) \<and> a2 = CMD_SET_APP_PROFILE \<and>
     (\<exists>p. pe_app_profile_at (de_prctl e) a3 = Some p \<and> ap_current_uid p = u \<and> ap_allow_su p)"
| "gives_root (Load_work opened kread junk env) d u \<longleftrightarrow> al_load_pending (dv_allow d) \<and>
     (\<exists>p. profile_read kread junk p \<and> ap_current_uid p = u \<and> ap_allow_su p)"
| "gives_root c d u \<longleftrightarrow> False"

lemma by_task_simps [simp]:
  "dv_allow (by_task t d) = dv_allow d" "dv_task (by_task t d) = t" "ks_manager (dv_core (by_task t d)) = ks_manager (dv_core d)"
  "ks_su_compat_enabled (dv_core (by_task t d)) = ks_su_compat_enabled (dv_core d)" "dv_su (by_task t d) = dv_su d"
  "dv_throne (by_task t d) = dv_throne d" "current_uid (dv_core (by_task t d)) = task_uid t"
  by (simp_all add: by_task_def current_uid_def)

lemma prctl_view_simps [simp]:
  "pe_app_profile_at (prctl_view e d) = pe_app_profile_at (de_prctl e)" "pe_set (prctl_view e d) = pe_set (de_prctl e)"
  "pe_selinux (prctl_view e d) = pe_selinux (de_prctl e)"
  "current_is_ksu_domain (prctl_view e d) = current_is_ksu_domain (de_prctl e)"
  by (simp_all add: prctl_view_def current_is_ksu_domain_def fun_eq_iff cong: option.case_cong)

lemma adopted_manager: "ks_manager (adopt_manager (dv_core d)) = current_uid (dv_core d) \<Longrightarrow> manager_app d (current_uid (dv_core d))"
  by (auto simp: adopt_manager_def manager_app_def Let_def kdefs split: if_splits)

lemma call_prctl_core:
  assumes "call_prctl e opt a2 a3 a4 a5 d = Some d'"
  obtains s where "ksu_handle_prctl (prctl_view e d) opt a2 a3 a4 a5 (dv_core d) = Some s"
    "same_grants (ks_allow s) (dv_allow d')" "ks_manager (dv_core d') = ks_manager s" "dv_task d' = ks_task s"
    "ks_su_compat_enabled (dv_core d') = ks_su_compat_enabled s" "locked_manager_uid (dv_throne d') = locked_manager_uid (dv_throne d)"
    "ksu_sucompat_non_kp (dv_su d') = su_after (new_events (dv_core d) s) (ksu_sucompat_non_kp (dv_su d))"
proof -
  obtain s where s: "ksu_handle_prctl (prctl_view e d) opt a2 a3 a4 a5 (dv_core d) = Some s"
    "fold_opt (run_event e) (new_events (dv_core d) s) (d\<lparr>dv_core := s\<rparr>) = Some d'"
    using assms by (auto simp: call_prctl_def ksu_task_prctl_def split: option.splits)
  show ?thesis using that [OF s(1)] run_events_frame [OF s(2)] by simp
qed


definition allowed_root :: "('ns, 'fs) driver \<Rightarrow> bool \<Rightarrow> uid_t \<Rightarrow> bool" where
  "allowed_root d ksu_dom u \<longleftrightarrow> u = 0 \<and> ksu_dom \<or> manager_app d u \<or> granted (dv_allow d) u"

lemma allow_uid_allowed_root:
  "ksu_is_allow_uid ksu_dom (ks_manager (dv_core d)) (dv_allow d) u \<Longrightarrow> allowed_root d ksu_dom u"
  by (auto simp: ksu_is_allow_uid_def allowed_root_def manager_app_def kdefs split: if_splits)

lemma execveat_sucompat_frame:
  assumes "ksu_handle_execveat_sucompat se f st = Some (f', st')"
  shows "ksu_sucompat_non_kp st' = ksu_sucompat_non_kp st \<and>
    (su_task st' \<noteq> su_task st \<longrightarrow> ksu_sucompat_non_kp st \<and> su_allowed se st)"
  using assms by (auto simp: ksu_handle_execveat_sucompat_def escape_def split: if_splits filename_arg.splits)

lemma execve_sucompat_frame:
  assumes "ksu_handle_execve_sucompat se a st = Some (a', st')"
  shows "ksu_sucompat_non_kp st' = ksu_sucompat_non_kp st \<and>
    (su_task st' \<noteq> su_task st \<longrightarrow> ksu_sucompat_non_kp st \<and> su_allowed se st)"
  using assms
  by (auto simp: ksu_handle_execve_sucompat_def escape_def ksud_user_path_def userspace_stack_buffer_def Let_def
      split: if_splits option.splits prod.splits)

lemma execve_ksud_grants:
  "ksu_handle_execve_ksud e f argv st = Some st' \<Longrightarrow> same_grants (kd_allow st) (kd_allow st')"
  by (auto simp: ksu_handle_execve_ksud_def split: if_splits prod.splits dest: execveat_ksud_grants)

lemma su_view_allowed:
  "su_allowed (sucompat_view e d) (su_view d) = ksu_is_allow_uid
      (current_is_ksu_domain (de_prctl e) (dv_core d)) (ks_manager (dv_core d)) (dv_allow d) (task_uid (dv_task d))"
  by (simp add: su_allowed_def sucompat_view_def su_uid_def su_view_def)

text \<open>What an exec may do: new credentials only with the hooks on, for a task that is allowed root.\<close>

definition exec_frame :: "'ns driver_env \<Rightarrow> ('ns, 'fs) driver \<Rightarrow> ('ns, 'fs) driver \<Rightarrow> bool" where
  "exec_frame e d d' \<longleftrightarrow> same_grants (dv_allow d) (dv_allow d') \<and> ks_manager (dv_core d') = ks_manager (dv_core d) \<and>
     ks_su_compat_enabled (dv_core d') = ks_su_compat_enabled (dv_core d) \<and>
     ksu_sucompat_non_kp (dv_su d') = ksu_sucompat_non_kp (dv_su d) \<and> dv_throne d' = dv_throne d \<and>
     (dv_task d' \<noteq> dv_task d \<longrightarrow> ksu_sucompat_non_kp (dv_su d) \<and>
       allowed_root d (current_is_ksu_domain (de_prctl e) (dv_core d)) (task_uid (dv_task d)))"

lemma exec_frame_refl: "exec_frame e d d"
  by (simp add: exec_frame_def)

lemma exec_frame_trans:
  assumes "exec_frame e d d1" "exec_frame e d1 d'"
  shows "exec_frame e d d'"
proof -
  have g: "granted (dv_allow d1) u = granted (dv_allow d) u" "ks_manager (dv_core d1) = ks_manager (dv_core d)" for u
    using assms(1) by (simp_all add: exec_frame_def same_grants_def)
  have k: "current_is_ksu_domain (de_prctl e) (dv_core d1) = current_is_ksu_domain (de_prctl e) (dv_core d)"
    if "dv_task d1 = dv_task d" using that by (simp add: current_is_ksu_domain_def)
  have a: "allowed_root d1 b u = allowed_root d b u" for b u by (simp add: allowed_root_def manager_app_def g)
  show ?thesis
    using assms k by (cases "dv_task d1 = dv_task d") (auto simp: exec_frame_def a intro: same_grants_trans)
qed

lemma put_su_frame:
  assumes "ksu_sucompat_non_kp su = ksu_sucompat_non_kp (dv_su d)"
    and "su_task su \<noteq> dv_task d \<Longrightarrow> ksu_sucompat_non_kp (dv_su d) \<and> su_allowed (sucompat_view e d) (su_view d)"
  shows "exec_frame e d (put_su su d)"
  using assms allow_uid_allowed_root unfolding su_view_allowed by (auto simp: exec_frame_def put_su_def)

lemma put_boot_frame:
  assumes "same_grants (dv_allow d) (kd_allow k)"
  shows "exec_frame e d ((put_boot k d)\<lparr>dv_rules := r\<rparr>)"
  using assms by (simp add: exec_frame_def put_boot_def)

lemma call_execveat_frame:
  assumes "call_execveat e f argv envp d = Some (f', d')"
  shows "exec_frame e d d'"
proof -
  obtain kd su r where h: "ksu_handle_execveat_ksud (de_ksud e) f argv envp (boot_view d) = Some kd"
    "ksu_handle_execveat_sucompat (sucompat_view e d) f (su_view d) = Some (f', su)"
    and d': "d' = (put_su su (put_boot kd d))\<lparr>dv_rules := r\<rparr>"
    using assms by (auto simp: call_execveat_def ksu_handle_execveat_def split: option.splits)
  have "same_grants (dv_allow d) (kd_allow kd)" using execveat_ksud_grants [OF h(1)] by (simp add: boot_view_def)
  moreover have "exec_frame e d (put_su su d)"
    by (rule put_su_frame) (use execveat_sucompat_frame [OF h(2)] in \<open>auto simp: su_view_def\<close>)
  ultimately show ?thesis by (simp add: d' exec_frame_def put_su_def put_boot_def)
qed

lemma call_execveat_sucompat_frame:
  assumes "call_execveat_sucompat e f d = Some (f', d')"
  shows "exec_frame e d d'"
proof -
  obtain su where h: "ksu_handle_execveat_sucompat (sucompat_view e d) f (su_view d) = Some (f', su)" "d' = put_su su d"
    using assms by (auto simp: call_execveat_sucompat_def)
  show ?thesis
    unfolding h(2) by (rule put_su_frame) (use execveat_sucompat_frame [OF h(1)] in \<open>auto simp: su_view_def\<close>)
qed

lemma call_execve_sucompat_frame:
  assumes "call_execve_sucompat e a d = Some (a', d')"
  shows "exec_frame e d d'"
proof -
  obtain p su where h: "ksu_handle_execve_sucompat (sucompat_view e d) (Some a) (su_view d) = Some (p, su)" "d' = put_su su d"
    using assms by (auto simp: call_execve_sucompat_def)
  show ?thesis
    unfolding h(2) by (rule put_su_frame) (use execve_sucompat_frame [OF h(1)] in \<open>auto simp: su_view_def\<close>)
qed

lemma call_execve_ksud_frame:
  assumes "call_execve_ksud e a argv d = Some d'"
  shows "exec_frame e d d'"
proof -
  obtain kd r where h: "ksu_handle_execve_ksud (de_ksud e) a argv (boot_view d) = Some kd" "d' = (put_boot kd d)\<lparr>dv_rules := r\<rparr>"
    using assms by (auto simp: call_execve_ksud_def split: option.splits)
  have "same_grants (dv_allow d) (kd_allow kd)" using execve_ksud_grants [OF h(1)] by (simp add: boot_view_def)
  then show ?thesis unfolding h(2) by (rule put_boot_frame)
qed

interpretation execs: exec_relation driver_hooks exec_frame
  by unfold_locales
    (auto simp: driver_hooks_def exec_frame_refl call_execveat_frame call_execveat_sucompat_frame call_execve_sucompat_frame
      call_execve_ksud_frame intro: exec_frame_trans)

lemma exec_kernel_frame:
  assumes "exec_kernel driver_hooks e x d = Some (f', d')"
  shows "same_grants (dv_allow d) (dv_allow d')" "ks_manager (dv_core d') = ks_manager (dv_core d)"
    "ks_su_compat_enabled (dv_core d') = ks_su_compat_enabled (dv_core d)"
    "ksu_sucompat_non_kp (dv_su d') = ksu_sucompat_non_kp (dv_su d)" "dv_throne d' = dv_throne d"
    "dv_task d' \<noteq> dv_task d \<Longrightarrow> ksu_sucompat_non_kp (dv_su d) \<and>
      allowed_root d (current_is_ksu_domain (de_prctl e) (dv_core d)) (task_uid (dv_task d))"
  using execs.exec_rel [OF assms] by (simp_all add: exec_frame_def)

lemma call_prctl_grants:
  assumes "call_prctl e opt a2 a3 a4 a5 d = Some d'" "tmp_ok (se_tmp_arr (pe_set (de_prctl e)))" "allow_wf (dv_allow d)"
  shows "allow_wf (dv_allow d')"
    "granted (dv_allow d') u \<Longrightarrow> granted (dv_allow d) u \<or> (manager_app d (current_uid (dv_core d)) \<and> a2 = CMD_SET_APP_PROFILE \<and>
      (\<exists>p. pe_app_profile_at (de_prctl e) a3 = Some p \<and> ap_current_uid p = u \<and> ap_allow_su p))"
proof -
  obtain s where s: "ksu_handle_prctl (prctl_view e d) opt a2 a3 a4 a5 (dv_core d) = Some s"
    "same_grants (ks_allow s) (dv_allow d')"
    using call_prctl_core [OF assms(1)] by metis
  have g: "allow_wf (ks_allow s) \<and> (granted (ks_allow s) u \<longrightarrow> granted (dv_allow d) u \<or>
      (manager_app d (current_uid (dv_core d)) \<and> a2 = CMD_SET_APP_PROFILE \<and>
      (\<exists>p. pe_app_profile_at (de_prctl e) a3 = Some p \<and> ap_current_uid p = u \<and> ap_allow_su p)))"
  proof (cases "ks_allow s = dv_allow d")
    case False
    with s(1) obtain p where p: "pe_app_profile_at (prctl_view e d) a3 = Some p" "a2 = CMD_SET_APP_PROFILE"
      "ks_manager (adopt_manager (dv_core d)) = current_uid (dv_core d)"
      "ks_allow s = snd (ksu_set_app_profile (pe_set (prctl_view e d)) p True (dv_allow d))"
      by (rule prctl_sets_profile)
    then show ?thesis
      using set_profile_grants [OF assms(3,2), of p True] adopted_manager [OF p(3)] by auto
  qed (use assms(3) in simp)
  show "allow_wf (dv_allow d')" using g s(2) by (simp add: same_grants_def)
  show "granted (dv_allow d') u \<Longrightarrow> granted (dv_allow d) u \<or> (manager_app d (current_uid (dv_core d)) \<and> a2 = CMD_SET_APP_PROFILE \<and>
      (\<exists>p. pe_app_profile_at (de_prctl e) a3 = Some p \<and> ap_current_uid p = u \<and> ap_allow_su p))"
    using g s(2) by (simp add: same_grants_def)
qed

lemma call_rename_cases:
  assumes "call_rename e has_mm old new path d = Some d'"
  obtains (idle) "d' = d"
  | (scan) ta where "ksu_track_throne (de_throne e) (de_scan e) (de_tmps e) (throne_view d) = Some ta" "d' = put_throne ta d"
proof (cases "ksu_handle_rename has_mm (current_uid (dv_core d)) old new path")
  case True
  then obtain ta where "ksu_track_throne (de_throne e) (de_scan e) (de_tmps e) (throne_view d) = Some ta" "d' = put_throne ta d"
    using assms unfolding call_rename_def by (metis (no_types, lifting) map_option_eq_Some)
  then show ?thesis by (rule scan)
next
  case False
  then show ?thesis using assms by (intro idle) (simp add: call_rename_def)
qed

lemma track_throne_allow:
  assumes "ksu_track_throne e se tmps (th, al) = Some (th', al')"
  shows "al' = al \<or> (\<exists>uids. al' = ksu_prune_allowlist (is_uid_exist uids) tmps al)"
proof (cases "list_packages se th")
  case (Inl th1)
  then show ?thesis using assms by (simp add: ksu_track_throne_def)
next
  case (Inr x)
  obtain th1 uids where x: "x = (th1, uids)" by fastforce
  let ?s = "if manager_exists uids th1 then Some th1 else search_manager e ''/data/app'' 2 uids (unlock_manager th1)"
  have "(case ?s of None \<Rightarrow> None | Some th2 \<Rightarrow> Some (th2, ksu_prune_allowlist (is_uid_exist uids) tmps al)) = Some (th', al')"
    using assms unfolding ksu_track_throne_def Let_def fst_conv snd_conv Inr x sum.case prod.case .
  then have "al' = ksu_prune_allowlist (is_uid_exist uids) tmps al" by (cases ?s) simp_all
  then show ?thesis by blast
qed

lemma call_rename_grants:
  assumes "call_rename e has_mm old new path d = Some d'" "\<And>k. tmp_ok (de_tmps e k)" "allow_wf (dv_allow d)"
  shows "allow_wf (dv_allow d') \<and> (granted (dv_allow d') u \<longrightarrow> granted (dv_allow d) u)"
  using assms(1)
proof (cases rule: call_rename_cases)
  case (scan ta)
  obtain th al where ta: "ta = (th, al)" by fastforce
  have "ksu_track_throne (de_throne e) (de_scan e) (de_tmps e) (fst (throne_view d), dv_allow d) = Some (th, al)"
    using scan(1) ta by (simp add: throne_view_def)
  then have "al = dv_allow d \<or> (\<exists>uids. al = ksu_prune_allowlist (is_uid_exist uids) (de_tmps e) (dv_allow d))"
    by (rule track_throne_allow)
  then have "allow_wf al \<and> (granted al u \<longrightarrow> granted (dv_allow d) u)"
    using prune_spec(2,3) [of "de_tmps e" "dv_allow d", OF assms(2,3)] assms(3) by blast
  then show ?thesis using scan(2) ta by (simp add: put_throne_def)
qed (use assms(3) in simp)

lemma do_call_grants:
  assumes "do_call c d = Some d'" "memory_ok c" "allow_wf (dv_allow d)"
  shows "allow_wf (dv_allow d')" "granted (dv_allow d') u \<Longrightarrow> granted (dv_allow d) u \<or> gives_root c d u"
proof -
  have "allow_wf (dv_allow d') \<and> (granted (dv_allow d') u \<longrightarrow> granted (dv_allow d) u \<or> gives_root c d u)"
  proof (cases c)
    case (Prctl t e opt a2 a3 a4 a5)
    then have "call_prctl e opt a2 a3 a4 a5 (by_task t d) = Some d'" "tmp_ok (se_tmp_arr (pe_set (de_prctl e)))"
      using assms by simp_all
    note p = call_prctl_grants [OF this]
    have "manager_app (by_task t d) v = manager_app d v" for v by (simp add: manager_app_def)
    then show ?thesis using p(1) p(2) [of u] assms(3) Prctl by simp
  next
    case (Exec t e x)
    then obtain f' where "exec_kernel driver_hooks e x (by_task t d) = Some (f', d')" using assms(1) by auto
    then have "same_grants (dv_allow d) (dv_allow d')" using exec_kernel_frame(1) by fastforce
    then show ?thesis using assms(3) by (simp add: same_grants_def)
  next
    case (Read t e comm fl bc)
    then have "dv_allow d' = dv_allow d" using assms(1)
      by (auto simp: call_read_def put_boot_def sys_read_grants boot_view_def)
    then show ?thesis using assms(3) by simp
  next
    case (Input ty code val)
    then have "dv_allow d' = dv_allow d" using assms(1)
      by (auto simp: call_input_def put_boot_def input_grants boot_view_def)
    then show ?thesis using assms(3) by simp
  next
    case (Rename t e has_mm old new path)
    then have r: "call_rename e has_mm old new path (by_task t d) = Some d'" and k: "tmp_ok (de_tmps e k)" for k
      using assms(1,2) by simp_all
    then show ?thesis using call_rename_grants [OF r k] assms(3) by simp
  next
    case (Load_work opened kread junk env)
    let ?al = "(dv_allow d)\<lparr>al_load_pending := False\<rparr>"
    have same: "granted ?al v = granted (dv_allow d) v" "allow_wf ?al = allow_wf (dv_allow d)" for v
      using same_grants_pending(1) [of "dv_allow d" False] unfolding same_grants_def by blast+
    show ?thesis
    proof (cases "al_load_pending (dv_allow d)")
      case True
      then obtain al where al: "do_load_allow_list opened kread junk env ?al = Some al" "d' = set_allow al d"
        using assms(1) Load_work by (auto simp: run_load_work_def)
      have k: "tmp_ok (se_tmp_arr (env k))" for k using assms(2) Load_work by simp
      show ?thesis
        using do_load_grants [OF al(1) k, of u] assms(3) same True Load_work al(2) by (auto simp: set_allow_def)
    qed (use assms Load_work in \<open>simp add: run_load_work_def\<close>)
  next
    case Save_work
    then have "same_grants (dv_allow d) (dv_allow d')" using assms(1) by (auto simp: run_save_work_def set_allow_def)
    then show ?thesis using assms(3) by (simp add: same_grants_def)
  qed
  then show "allow_wf (dv_allow d')" "granted (dv_allow d') u \<Longrightarrow> granted (dv_allow d) u \<or> gives_root c d u" by auto
qed


subsection \<open>Manager, credentials and switch over a call\<close>

lemma call_prctl_manager:
  assumes "call_prctl e opt a2 a3 a4 a5 d = Some d'"
  shows "ks_manager (dv_core d') = ks_manager (dv_core d) \<or>
    ks_manager (dv_core d') = current_uid (dv_core d) \<and> current_uid (dv_core d) mod 100000 = ks_manager (dv_core d)"
proof -
  obtain s where s: "ksu_handle_prctl (prctl_view e d) opt a2 a3 a4 a5 (dv_core d) = Some s"
    "ks_manager (dv_core d') = ks_manager s"
    using call_prctl_core [OF assms] by metis
  have "ks_manager s = ks_manager (dv_core d) \<or> ks_manager s = ks_manager (adopt_manager (dv_core d))"
    using s(1)
  proof (cases rule: prctl_cases)
    case (manager s1)
    then show ?thesis
      using manager_commands_frame(1) [of s1 "prctl_view e d" a2 a3 a5] by (simp add: same_core_def same_but_switch_def)
  qed (auto simp: same_core_def same_but_susfs_def dest: cmd_grant_root_frame)
  then show ?thesis using s(2) by (auto simp: adopt_manager_def Let_def kdefs split: if_splits)
qed

lemma call_prctl_task:
  assumes "call_prctl e opt a2 a3 a4 a5 d = Some d'" "dv_task d' \<noteq> dv_task d"
  shows "a2 = CMD_GRANT_ROOT \<and> allowed_root d (current_is_ksu_domain (de_prctl e) (dv_core d)) (current_uid (dv_core d))"
proof -
  obtain s where s: "ksu_handle_prctl (prctl_view e d) opt a2 a3 a4 a5 (dv_core d) = Some s" "dv_task d' = ks_task s"
    using call_prctl_core [OF assms(1)] by metis
  let ?a = "adopt_manager (dv_core d)"
  have "a2 = CMD_GRANT_ROOT \<and> is_allow_su (current_is_ksu_domain (prctl_view e d) ?a) (ks_manager ?a) (ks_allow ?a) (current_uid ?a)"
    using s(1)
  proof (cases rule: prctl_cases)
    case grant
    then show ?thesis using assms(2) s(2) cmd_grant_root_frame [OF grant(2)] by (simp add: prctl_frame)
  next
    case (manager s1)
    then show ?thesis using assms(2) s(2) manager_commands_frame(1) [of s1 "prctl_view e d" a2 a3 a5]
      by (simp add: same_core_def same_but_switch_def prctl_frame)
  qed (use assms(2) s(2) in \<open>auto simp: same_core_def same_but_susfs_def prctl_frame\<close>)
  moreover have "current_is_ksu_domain pe ?a = current_is_ksu_domain pe (dv_core d)" for pe
    by (simp add: current_is_ksu_domain_def prctl_frame)
  ultimately show ?thesis
    using adopted_manager [of d]
    by (auto simp: is_allow_su_def ksu_is_manager_def ksu_is_allow_uid_def allowed_root_def prctl_frame kdefs split: if_splits)
qed

definition switches_agree :: "('ns, 'fs) driver \<Rightarrow> bool" where
  "switches_agree d \<longleftrightarrow> ksu_sucompat_non_kp (dv_su d) = ks_su_compat_enabled (dv_core d)"

lemma do_call_switches:
  assumes "do_call c d = Some d'" "switches_agree d"
  shows "switches_agree d'"
proof (cases c)
  case (Prctl t e opt a2 a3 a4 a5)
  then have p: "call_prctl e opt a2 a3 a4 a5 (by_task t d) = Some d'" using assms(1) by simp
  obtain s where s: "ksu_handle_prctl (prctl_view e (by_task t d)) opt a2 a3 a4 a5 (dv_core (by_task t d)) = Some s"
    "ks_su_compat_enabled (dv_core d') = ks_su_compat_enabled s"
    "ksu_sucompat_non_kp (dv_su d') = su_after (new_events (dv_core (by_task t d)) s) (ksu_sucompat_non_kp (dv_su (by_task t d)))"
    using call_prctl_core [OF p] by metis
  show ?thesis using tracked_new [OF prctl_tracked [OF s(1)]] s(2,3) assms(2) by (simp add: switches_agree_def)
next
  case (Exec t e x)
  then obtain f' where "exec_kernel driver_hooks e x (by_task t d) = Some (f', d')" using assms(1) by auto
  then show ?thesis using exec_kernel_frame(3,4) assms(2) by (fastforce simp: switches_agree_def)
next
  case (Rename t e has_mm old new path)
  then have "call_rename e has_mm old new path (by_task t d) = Some d'" using assms(1) by simp
  then show ?thesis
    by (cases rule: call_rename_cases) (use assms(2) in \<open>simp_all add: switches_agree_def put_throne_def\<close>)
qed (use assms in \<open>auto simp: switches_agree_def call_read_def call_input_def put_boot_def run_load_work_def
    run_save_work_def set_allow_def split: if_splits\<close>)

fun caller :: "'ns call \<Rightarrow> task option" where
  "caller (Prctl t e opt a2 a3 a4 a5) = Some t"
| "caller (Exec t e x) = Some t"
| "caller (Read t e comm fl bc) = Some t"
| "caller (Rename t e has_mm old new path) = Some t"
| "caller c = None"

text \<open>Whether a call asks for the credentials of a root profile, and the domain of its task.\<close>

fun asks_root :: "'ns call \<Rightarrow> bool" where
  "asks_root (Prctl t e opt a2 a3 a4 a5) \<longleftrightarrow> a2 = CMD_GRANT_ROOT"
| "asks_root (Exec t e x) \<longleftrightarrow> True"
| "asks_root c \<longleftrightarrow> False"

fun call_in_ksu_domain :: "'ns call \<Rightarrow> ('ns, 'fs) driver \<Rightarrow> bool" where
  "call_in_ksu_domain (Prctl t e opt a2 a3 a4 a5) d = current_is_ksu_domain (de_prctl e) (dv_core (by_task t d))"
| "call_in_ksu_domain (Exec t e x) d = current_is_ksu_domain (de_prctl e) (dv_core (by_task t d))"
| "call_in_ksu_domain c d = False"

lemma allowed_root_by_task [simp]: "allowed_root (by_task t d) ksu_dom u = allowed_root d ksu_dom u"
  by (simp add: allowed_root_def manager_app_def)

lemma do_call_task:
  assumes "do_call c d = Some d'" "caller c = Some t" "dv_task d' \<noteq> t"
  shows "asks_root c" "allowed_root d (call_in_ksu_domain c d) (task_uid t)"
    "(\<exists>e x. c = Exec t e x) \<Longrightarrow> ksu_sucompat_non_kp (dv_su d)"
proof -
  have "asks_root c \<and> allowed_root d (call_in_ksu_domain c d) (task_uid t) \<and>
    ((\<exists>e x. c = Exec t e x) \<longrightarrow> ksu_sucompat_non_kp (dv_su d))"
  proof (cases c)
    case (Prctl t0 e opt a2 a3 a4 a5)
    then have t: "t0 = t" using assms(2) by simp
    then have "call_prctl e opt a2 a3 a4 a5 (by_task t d) = Some d'" "dv_task d' \<noteq> dv_task (by_task t d)"
      using Prctl assms(1,3) by simp_all
    from call_prctl_task [OF this] show ?thesis using Prctl t by simp
  next
    case (Exec t0 e x)
    then have t: "t0 = t" using assms(2) by simp
    obtain f' where "exec_kernel driver_hooks e x (by_task t d) = Some (f', d')" using Exec t assms(1) by auto
    from exec_kernel_frame(6) [OF this] show ?thesis using Exec t assms(3) by simp
  next
    case (Read t0 e comm fl bc)
    then show ?thesis using assms by (auto simp: call_read_def put_boot_def)
  next
    case (Rename t0 e has_mm old new path)
    then have r: "call_rename e has_mm old new path (by_task t d) = Some d'" using assms(1,2) by simp
    then have "dv_task d' = t" by (cases rule: call_rename_cases) (simp_all add: put_throne_def)
    then show ?thesis using assms(3) by simp
  qed (use assms(2) in simp_all)
  then show "asks_root c" "allowed_root d (call_in_ksu_domain c d) (task_uid t)"
    "(\<exists>e x. c = Exec t e x) \<Longrightarrow> ksu_sucompat_non_kp (dv_su d)" by auto
qed

text \<open>The uids that a package scan may crown.\<close>

fun crowns :: "'ns call \<Rightarrow> ('ns, 'fs) driver \<Rightarrow> uid_t \<Rightarrow> bool" where
  "crowns (Rename t e has_mm old new path) d u \<longleftrightarrow>
     (\<exists>th uids. list_packages (de_scan e) (fst (throne_view d)) = Inr (th, uids) \<and> crownable (de_throne e) uids u)"
| "crowns c d u \<longleftrightarrow> False"

lemma do_call_manager:
  assumes "do_call c d = Some d'" "ks_manager (dv_core d') \<noteq> ks_manager (dv_core d)" "ks_manager (dv_core d') \<noteq> KSU_INVALID_UID"
  shows "crowns c d (ks_manager (dv_core d')) \<or> ks_manager (dv_core d') mod 100000 = ks_manager (dv_core d)"
proof (cases c)
  case (Prctl t e opt a2 a3 a4 a5)
  then show ?thesis using call_prctl_manager [of e opt a2 a3 a4 a5 "by_task t d" d'] assms by auto
next
  case (Exec t e x)
  then obtain f' where "exec_kernel driver_hooks e x (by_task t d) = Some (f', d')" using assms(1) by auto
  from exec_kernel_frame(2) [OF this] show ?thesis using assms(2) by simp
next
  case (Rename t e has_mm old new path)
  then have r: "call_rename e has_mm old new path (by_task t d) = Some d'" using assms(1) by simp
  then show ?thesis
  proof (cases rule: call_rename_cases)
    case (scan ta)
    obtain th al where ta: "ta = (th, al)" by fastforce
    let ?th = "fst (throne_view d)"
    have v: "throne_view (by_task t d) = (?th, dv_allow d)" "th_manager_uid ?th = ks_manager (dv_core d)"
      by (simp_all add: throne_view_def)
    have m: "th_manager_uid th = ks_manager (dv_core d')" using scan(2) ta by (simp add: put_throne_def)
    have "ksu_track_throne (de_throne e) (de_scan e) (de_tmps e) (?th, dv_allow d) = Some (th, al)"
      "th_manager_uid th \<noteq> th_manager_uid ?th" using scan(1) ta v m assms(2) by simp_all
    from manager_after_scan [OF this] show ?thesis using m assms(3) Rename by auto
  qed (use assms(2) in simp)
qed (use assms(1,2) in \<open>auto simp: call_read_def call_input_def put_boot_def run_load_work_def
    run_save_work_def set_allow_def split: if_splits\<close>)


subsection \<open>Runs\<close>

lemma init_state:
  "allow_wf (dv_allow (ksu_kernelsu_init cap t cs r))" "\<not> granted (dv_allow (ksu_kernelsu_init cap t cs r)) u"
  "switches_agree (ksu_kernelsu_init cap t cs r)" "ks_manager (dv_core (ksu_kernelsu_init cap t cs r)) = KSU_INVALID_UID"
  using allow_init_inv [of cap]
  by (auto simp: ksu_kernelsu_init_def Let_def switches_agree_def allow_inv_def allow_wf_def allow_init_tables
      granted_def arr_mem_def bitmap_test_zero)

interpretation tables: invariant_steps do_call memory_ok "\<lambda>d. allow_wf (dv_allow d)"
  by unfold_locales (rule do_call_grants(1))

interpretation switches: invariant_steps do_call "\<lambda>c. True" switches_agree
  by unfold_locales (rule do_call_switches)

lemma run_switches: "driver_run cs d0 = Some d \<Longrightarrow> switches_agree d0 \<Longrightarrow> switches_agree d"
  using switches.run_inv [of cs d0 d] by (simp add: driver_run_def)

text \<open>Every grant goes back to a call that gave it, and has been there ever since.\<close>

lemma grant_origin:
  assumes "driver_run cs d0 = Some d" "\<forall>c \<in> set cs. memory_ok c" "allow_wf (dv_allow d0)"
    "\<not> granted (dv_allow d0) u" "granted (dv_allow d) u"
  shows "\<exists>pre c post d1. cs = pre @ c # post \<and> driver_run pre d0 = Some d1 \<and> gives_root c d1 u \<and>
    (\<forall>mid d2. prefix mid post \<and> driver_run (pre @ c # mid) d0 = Some d2 \<longrightarrow> granted (dv_allow d2) u)"
proof -
  obtain pre c post d1 d2 where p: "cs = pre @ c # post" "fold_opt do_call pre d0 = Some d1" "allow_wf (dv_allow d1)" "memory_ok c"
    "\<not> granted (dv_allow d1) u" "do_call c d1 = Some d2" "granted (dv_allow d2) u"
    "\<forall>mid s3. prefix mid post \<and> fold_opt do_call (pre @ c # mid) d0 = Some s3 \<longrightarrow> granted (dv_allow s3) u"
    using tables.run_change [where P = "\<lambda>d. granted (dv_allow d) u", OF assms(1) [unfolded driver_run_def] assms(2-5)]
    by blast
  have "gives_root c d1 u" using do_call_grants(2) [OF p(6,4,3,7)] p(5) by simp
  then show ?thesis using p(1,2,8) unfolding driver_run_def by blast
qed

text \<open>Every manager goes back to a crowned uid, its own or that of the same app in the first user profile.\<close>

lemma mod_small_uid: "(u :: uid_t) < 100000 \<Longrightarrow> u mod 100000 = u"
  by (simp add: word_mod_def word_less_alt unat_mod word_less_nat_alt)

lemma mod_mod_uid: "(u :: uid_t) mod 100000 mod 100000 = u mod 100000"
  by (simp add: mod_small_uid word_mod_less_divisor)

lemma manager_origin:
  assumes "driver_run cs d0 = Some d" "ks_manager (dv_core d0) = KSU_INVALID_UID" "ks_manager (dv_core d) \<noteq> KSU_INVALID_UID"
  shows "\<exists>pre c post d1 w. cs = pre @ c # post \<and> driver_run pre d0 = Some d1 \<and> crowns c d1 w \<and>
    (ks_manager (dv_core d) = w \<or> ks_manager (dv_core d) mod 100000 = w)"
  using assms(1,3)
proof (induction cs arbitrary: d rule: rev_induct)
  case Nil
  then show ?case using assms(2) by (simp add: driver_run_def)
next
  case (snoc x cs)
  obtain d1 where d1: "driver_run cs d0 = Some d1" "do_call x d1 = Some d"
    using snoc.prems(1) by (auto simp: driver_run_def fold_opt_snoc split: option.splits)
  let ?m = "ks_manager (dv_core d)" and ?m1 = "ks_manager (dv_core d1)"
  consider (crowned) "crowns x d1 ?m" | (same) "?m = ?m1" | (adopted) "?m mod 100000 = ?m1"
    using do_call_manager [OF d1(2) _ snoc.prems(2)] by blast
  then show ?case
  proof cases
    case crowned
    then show ?thesis using d1(1) by blast
  next
    case same
    then show ?thesis using snoc.IH [OF d1(1)] snoc.prems(2) by (metis append_Cons append_assoc)
  next
    case adopted
    have lt: "?m1 < 100000" using adopted word_mod_less_divisor [of "100000 :: uid_t" ?m] by simp
    then have "?m1 \<noteq> KSU_INVALID_UID" by (auto simp: kdefs)
    then obtain pre c post d2 w where p: "cs = pre @ c # post" "driver_run pre d0 = Some d2" "crowns c d2 w"
      "?m1 = w \<or> ?m1 mod 100000 = w" using snoc.IH [OF d1(1)] by blast
    have "?m1 mod 100000 = ?m1" using lt by (rule mod_small_uid)
    then have "?m mod 100000 = w" using p(4) adopted by simp
    then show ?thesis using p(1-3) by (metis append_Cons append_assoc)
  qed
qed


end
