(* ===== verification/Ksud_Read.thy ===== *)
theory Ksud_Read
  imports Ksud_Props
begin

text \<open>
  What init reads from atrace.rc: the read hook composed with the file's read operation, over a whole
  sequence of read calls.
\<close>

subsection \<open>A sequence of read calls\<close>

text \<open>The file system's read at a position with a count gives its result and the bytes it writes. A
  read call runs the hook, then the operation its file has after that, on the buffer the hook left;
  the position advances by what the file system read. The second component logs the call's writes to
  user memory.\<close>

definition file_op_read :: "kfile \<Rightarrow> ('ns, 'fs) ksud_state \<Rightarrow> nat \<Rightarrow> int \<Rightarrow> int option" where
  "file_op_read fl st pos r =
     (case fo_read (kf_f_op fl) of
        Some Fs_op \<Rightarrow> Some r
      | Some Ksu_proxy \<Rightarrow> Some (read_proxy st pos r)
      | None \<Rightarrow> (case fo_read_iter (kf_f_op fl) of
          Some Fs_op \<Rightarrow> Some r
        | Some Ksu_proxy \<Rightarrow> Some (read_iter_proxy st pos r)
        | None \<Rightarrow> None))"

type_synonym ('ns, 'fs) reader = "kfile \<times> nat \<times> ('ns, 'fs) ksud_state"

definition sys_read :: "'ns ksud_env \<Rightarrow> cbuf \<Rightarrow> (nat \<Rightarrow> nat \<Rightarrow> int \<times> string) \<Rightarrow> uaddr \<times> u64 \<Rightarrow>
    ('ns, 'fs) reader \<Rightarrow> (int option \<times> (uaddr \<times> string) list) \<times> ('ns, 'fs) reader" where
  "sys_read e comm fs bc = (\<lambda>(fl, pos, st).
     case ksu_handle_sys_read e comm (Some fl) bc st of
       (fl', (buf, cnt), st') \<Rightarrow>
         let fl' = (case fl' of None \<Rightarrow> fl | Some f \<Rightarrow> f); (r, bs) = fs pos (unat cnt)
         in ((file_op_read fl' st' pos r, drop (length (kd_writes st)) (kd_writes st') @ [(buf, bs)]),
             (fl', pos + length bs, st')))"

fun read_all :: "'ns ksud_env \<Rightarrow> cbuf \<Rightarrow> (nat \<Rightarrow> nat \<Rightarrow> int \<times> string) \<Rightarrow> (uaddr \<times> u64) list \<Rightarrow>
    ('ns, 'fs) reader \<Rightarrow> (int option \<times> (uaddr \<times> string) list) list" where
  "read_all e comm fs [] rd = []"
| "read_all e comm fs (bc # bcs) rd = (let (out, rd) = sys_read e comm fs bc rd in out # read_all e comm fs bcs rd)"

definition bytes_of :: "(uaddr \<times> string) list \<Rightarrow> string" where
  "bytes_of w = concat (map snd w)"

text \<open>What a regular file's read does: any part of what follows the position, at most the count, and
  nothing only at the end or for a count of zero.\<close>

definition regular_file :: "string \<Rightarrow> (nat \<Rightarrow> nat \<Rightarrow> int \<times> string) \<Rightarrow> bool" where
  "regular_file data fs \<longleftrightarrow> (\<forall>pos n. \<exists>bs. fs pos n = (int (length bs), bs) \<and> length bs \<le> n \<and>
     bs = take (length bs) (drop pos data) \<and> (0 < n \<and> pos < length data \<longrightarrow> bs \<noteq> []))"

definition atrace_rc :: "kfile \<Rightarrow> bool" where
  "atrace_rc fl \<longleftrightarrow> kf_isreg fl \<and> kf_name fl = ''atrace.rc'' \<and> kf_d_path fl = Some ''/system/etc/init/atrace.rc'' \<and>
     fo_read (kf_f_op fl) \<noteq> Some Ksu_proxy \<and> fo_read_iter (kf_f_op fl) \<noteq> Some Ksu_proxy \<and>
     (fo_read (kf_f_op fl) \<noteq> None \<or> fo_read_iter (kf_f_op fl) \<noteq> None)"

text \<open>The file after the insertion, and the state.\<close>

definition proxied :: "kfile \<Rightarrow> bool" where
  "proxied fl \<longleftrightarrow> (case fo_read (kf_f_op fl) of Some f \<Rightarrow> f = Ksu_proxy
     | None \<Rightarrow> fo_read_iter (kf_f_op fl) = Some Ksu_proxy)"

definition inserted :: "('ns, 'fs) ksud_state \<Rightarrow> bool" where
  "inserted st \<longleftrightarrow> rc_inserted st \<and> read_count_append st = int (length KERNEL_SU_RC)"

lemma hook_after_insertion:
  assumes "inserted st"
  shows "\<exists>st'. ksu_handle_sys_read e comm (Some fl) bc st = (Some fl, bc, st') \<and> inserted st' \<and>
    kd_writes st' = kd_writes st"
  using assms
  by (simp add: ksu_handle_sys_read_def ksu_handle_vfs_read_def inserted_def stop_vfs_read_hook_def)

lemma hook_inserts:
  assumes "atrace_rc fl" "ksu_vfs_read_hook st" "\<not> rc_inserted st" "cstr comm = ''init''"
    and "length KERNEL_SU_RC \<le> unat n" "ke_copy_left e buf (length KERNEL_SU_RC) = 0"
  shows "\<exists>fl' st'. ksu_handle_sys_read e comm (Some fl) (buf, n) st =
      (Some fl', (buf + word_of_nat (length KERNEL_SU_RC), n - word_of_nat (length KERNEL_SU_RC)), st') \<and>
    proxied fl' \<and> inserted st' \<and> kd_writes st' = kd_writes st @ [(buf, KERNEL_SU_RC)]"
proof -
  have c: "strcmp_eq comm ''init''" using assms(4) by (simp add: strcmp_eq_def)
  obtain fl' st' where i: "install_proxy fl (st\<lparr>rc_inserted := True, kd_writes := kd_writes st @ [(buf, KERNEL_SU_RC)]\<rparr>) = (fl', st')"
    by fastforce
  then have "proxied fl' \<and> inserted st' \<and> kd_writes st' = kd_writes st @ [(buf, KERNEL_SU_RC)]"
    using assms(1)
    by (cases "fo_read (kf_f_op fl)"; cases "fo_read_iter (kf_f_op fl)")
      (auto simp: install_proxy_def Let_def proxied_def inserted_def atrace_rc_def)
  moreover have "ksu_handle_sys_read e comm (Some fl) (buf, n) st =
      (Some fl', (buf + word_of_nat (length KERNEL_SU_RC), n - word_of_nat (length KERNEL_SU_RC)), st')"
    using assms c i by (simp add: ksu_handle_sys_read_def ksu_handle_vfs_read_def atrace_rc_def Let_def del: length_append)
  ultimately show ?thesis by blast
qed

lemma proxy_result:
  assumes "proxied fl" "inserted st"
  shows "file_op_read fl st pos r = Some (if pos = 0 then r + int (length KERNEL_SU_RC) else r)"
  using assms by (auto simp: proxied_def inserted_def file_op_read_def read_proxy_def read_iter_proxy_def split: option.splits)

lemma read_after_insertion:
  assumes "proxied fl" "inserted st" "regular_file data fs"
  shows "\<exists>bs st'. sys_read e comm fs (buf, n) (fl, pos, st) =
      ((Some (int (length bs) + (if pos = 0 then int (length KERNEL_SU_RC) else 0)), [(buf, bs)]),
       (fl, pos + length bs, st')) \<and> inserted st' \<and>
    bs = take (length bs) (drop pos data) \<and> (0 < unat n \<and> pos < length data \<longrightarrow> bs \<noteq> [])"
proof -
  obtain st' where h: "ksu_handle_sys_read e comm (Some fl) (buf, n) st = (Some fl, (buf, n), st')" "inserted st'"
    "kd_writes st' = kd_writes st" using hook_after_insertion [OF assms(2)] by blast
  obtain bs where b: "fs pos (unat n) = (int (length bs), bs)" "bs = take (length bs) (drop pos data)"
    "0 < unat n \<and> pos < length data \<longrightarrow> bs \<noteq> []"
    using assms(3) unfolding regular_file_def by metis
  show ?thesis
    using h b proxy_result [OF assms(1) h(2)] by (intro exI [of _ bs] exI [of _ st']) (simp add: sys_read_def)
qed

lemma take_drop_join:
  assumes "bs = take (length bs) (drop pos data)" "pos + length bs \<le> k"
  shows "bs @ take (k - (pos + length bs)) (drop (pos + length bs) data) = take (k - pos) (drop pos data)"
proof -
  have k: "k - pos = length bs + (k - (pos + length bs))" using assms(2) by simp
  show ?thesis unfolding k take_add using assms(1) by (simp add: add.commute)
qed

text \<open>Reads behind the insertion give the file on from the position, and the last one tells its end.\<close>

lemma later_reads:
  assumes "proxied fl" "inserted st" "regular_file data fs" "0 < pos"
    and "\<And>bc. bc \<in> set bcs \<Longrightarrow> 0 < unat (snd bc)"
  shows "\<exists>k \<ge> pos. bytes_of (concat (map snd (read_all e comm fs bcs (fl, pos, st)))) = take (k - pos) (drop pos data) \<and>
    (\<forall>(r, w) \<in> set (read_all e comm fs bcs (fl, pos, st)). r = Some (int (length (bytes_of w)))) \<and>
    (bcs \<noteq> [] \<and> fst (last (read_all e comm fs bcs (fl, pos, st))) = Some 0 \<longrightarrow> length data \<le> k)"
  using assms(2,4,5)
proof (induction bcs arbitrary: pos st)
  case Nil
  then show ?case by (intro exI [of _ pos]) (simp add: bytes_of_def)
next
  case (Cons bc bcs)
  obtain buf n where bc: "bc = (buf, n)" by fastforce
  obtain bs st' where s: "sys_read e comm fs (buf, n) (fl, pos, st) = ((Some (int (length bs)), [(buf, bs)]),
       (fl, pos + length bs, st'))" "inserted st'" "bs = take (length bs) (drop pos data)"
    "0 < unat n \<and> pos < length data \<longrightarrow> bs \<noteq> []"
    using read_after_insertion [OF assms(1) Cons.prems(1) assms(3), of e comm buf n pos] Cons.prems(2) by auto
  have p: "0 < pos + length bs" using Cons.prems(2) by simp
  have q: "0 < unat (snd b)" if "b \<in> set bcs" for b using Cons.prems(3) that by simp
  obtain k where k: "pos + length bs \<le> k"
    "bytes_of (concat (map snd (read_all e comm fs bcs (fl, pos + length bs, st')))) =
       take (k - (pos + length bs)) (drop (pos + length bs) data)"
    "\<forall>(r, w) \<in> set (read_all e comm fs bcs (fl, pos + length bs, st')). r = Some (int (length (bytes_of w)))"
    "bcs \<noteq> [] \<and> fst (last (read_all e comm fs bcs (fl, pos + length bs, st'))) = Some 0 \<longrightarrow> length data \<le> k"
    using Cons.IH [OF s(2) p q] by metis
  have n: "0 < unat n" using Cons.prems(3) [of bc] by (simp add: bc)
  have e: "read_all e comm fs (bc # bcs) (fl, pos, st) =
      (Some (int (length bs)), [(buf, bs)]) # read_all e comm fs bcs (fl, pos + length bs, st')"
    by (simp add: bc s(1))
  have "bytes_of (concat (map snd (read_all e comm fs (bc # bcs) (fl, pos, st)))) = take (k - pos) (drop pos data)"
    unfolding e using k(2) take_drop_join [OF s(3) k(1)] by (simp add: bytes_of_def)
  moreover have "\<forall>(r, w) \<in> set (read_all e comm fs (bc # bcs) (fl, pos, st)). r = Some (int (length (bytes_of w)))"
    unfolding e using k(3) by (simp add: bytes_of_def)
  moreover have "fst (last (read_all e comm fs (bc # bcs) (fl, pos, st))) = Some 0 \<longrightarrow> length data \<le> k"
  proof (cases bcs)
    case Nil
    then show ?thesis unfolding e using s(4) n k(1) by auto
  next
    case (Cons c cs)
    then have "read_all e comm fs bcs (fl, pos + length bs, st') \<noteq> []" by (simp split: prod.split)
    then show ?thesis unfolding e using k(4) Cons by simp
  qed
  ultimately show ?case using k(1) by (intro exI [of _ k]) auto
qed

lemma first_read:
  assumes "atrace_rc fl" "ksu_vfs_read_hook st" "\<not> rc_inserted st" "cstr comm = ''init''"
    and "length KERNEL_SU_RC \<le> unat n" "ke_copy_left e buf (length KERNEL_SU_RC) = 0" "regular_file data fs"
  shows "\<exists>bs fl' st'. sys_read e comm fs (buf, n) (fl, 0, st) =
      ((Some (int (length (KERNEL_SU_RC @ bs))), [(buf, KERNEL_SU_RC), (buf + word_of_nat (length KERNEL_SU_RC), bs)]),
       (fl', length bs, st')) \<and> proxied fl' \<and> inserted st' \<and>
    bs = take (length bs) data \<and> length bs \<le> unat n - length KERNEL_SU_RC \<and>
    (length KERNEL_SU_RC < unat n \<and> data \<noteq> [] \<longrightarrow> bs \<noteq> [])"
proof -
  let ?rc = "length KERNEL_SU_RC"
  obtain fl' st' where h: "ksu_handle_sys_read e comm (Some fl) (buf, n) st =
      (Some fl', (buf + word_of_nat ?rc, n - word_of_nat ?rc), st')" "proxied fl'" "inserted st'"
    "kd_writes st' = kd_writes st @ [(buf, KERNEL_SU_RC)]"
    using hook_inserts [OF assms(1-6)] by blast
  obtain bs where b: "fs 0 (unat (n - word_of_nat ?rc)) = (int (length bs), bs)" "bs = take (length bs) data"
    "length bs \<le> unat (n - word_of_nat ?rc)" "0 < unat (n - word_of_nat ?rc) \<and> 0 < length data \<longrightarrow> bs \<noteq> []"
    using assms(7) unfolding regular_file_def by (metis drop0)
  have rc: "unat (word_of_nat ?rc :: u64) = ?rc"
    using order.strict_trans1 [OF assms(5) unsigned_less] by (simp add: unat_of_nat)
  then have "word_of_nat ?rc \<le> n" using assms(5) by (simp add: word_le_nat_alt)
  with rc have u: "unat (n - word_of_nat ?rc) = unat n - ?rc" by (simp add: unat_sub)
  show ?thesis
    using h b u proxy_result [OF h(2,3), of 0] assms(5)
    by (intro exI [of _ bs] exI [of _ fl'] exI [of _ st']) (auto simp: sys_read_def add.commute)
qed

text \<open>C11. When init reads atrace.rc from the start with a buffer larger than the script, it reads the
  driver's script followed by the file: over any sequence of read calls the results are the numbers of
  bytes delivered, the bytes are the script and then the file without gap or repetition, the script is
  written exactly in front of where the first part of the file goes, and when a read returns 0 the
  whole file has been delivered.\<close>
theorem init_reads_script_then_file:
  assumes "atrace_rc fl" "ksu_vfs_read_hook st" "\<not> rc_inserted st" "cstr comm = ''init''"
    and "length KERNEL_SU_RC < unat n" "ke_copy_left e buf (length KERNEL_SU_RC) = 0" "regular_file data fs"
    and "data \<noteq> []" "\<And>bc. bc \<in> set bcs \<Longrightarrow> 0 < unat (snd bc)"
  defines "out \<equiv> read_all e comm fs ((buf, n) # bcs) (fl, 0, st)"
  shows "(\<exists>k. bytes_of (concat (map snd out)) = KERNEL_SU_RC @ take k data \<and>
      (fst (last out) = Some 0 \<longrightarrow> length data \<le> k)) \<and>
    (\<forall>(r, w) \<in> set out. r = Some (int (length (bytes_of w)))) \<and>
    (\<exists>bs. snd (hd out) = [(buf, KERNEL_SU_RC), (buf + word_of_nat (length KERNEL_SU_RC), bs)])"
proof -
  obtain bs fl' st' where s: "sys_read e comm fs (buf, n) (fl, 0, st) =
      ((Some (int (length (KERNEL_SU_RC @ bs))), [(buf, KERNEL_SU_RC), (buf + word_of_nat (length KERNEL_SU_RC), bs)]),
       (fl', length bs, st'))" "proxied fl'" "inserted st'" "bs = take (length bs) data" "bs \<noteq> []"
    using first_read [OF assms(1-4) less_imp_le [OF assms(5)] assms(6,7)] assms(5,8) by blast
  have p: "0 < length bs" using s(5) by simp
  obtain k where k: "length bs \<le> k"
    "bytes_of (concat (map snd (read_all e comm fs bcs (fl', length bs, st')))) = take (k - length bs) (drop (length bs) data)"
    "\<forall>(r, w) \<in> set (read_all e comm fs bcs (fl', length bs, st')). r = Some (int (length (bytes_of w)))"
    "bcs \<noteq> [] \<and> fst (last (read_all e comm fs bcs (fl', length bs, st'))) = Some 0 \<longrightarrow> length data \<le> k"
    using later_reads [OF s(2,3) assms(7) p assms(9)] by metis
  have o: "out = (Some (int (length (KERNEL_SU_RC @ bs))),
      [(buf, KERNEL_SU_RC), (buf + word_of_nat (length KERNEL_SU_RC), bs)]) # read_all e comm fs bcs (fl', length bs, st')"
    by (simp add: out_def s(1))
  have "bytes_of (concat (map snd out)) = KERNEL_SU_RC @ take k data"
    unfolding o using k(2) take_drop_join [of bs 0 data k] s(4) k(1) by (simp add: bytes_of_def)
  moreover have "fst (last out) = Some 0 \<longrightarrow> length data \<le> k"
  proof (cases bcs)
    case Nil
    then show ?thesis unfolding o using p by (simp add: add_nonneg_eq_0_iff)
  next
    case (Cons c cs)
    then have "read_all e comm fs bcs (fl', length bs, st') \<noteq> []" by (simp split: prod.split)
    then show ?thesis unfolding o using k(4) Cons by simp
  qed
  moreover have "\<forall>(r, w) \<in> set out. r = Some (int (length (bytes_of w)))"
    unfolding o using k(3) by (simp add: bytes_of_def)
  moreover have "snd (hd out) = [(buf, KERNEL_SU_RC), (buf + word_of_nat (length KERNEL_SU_RC), bs)]" by (simp add: o)
  ultimately show ?thesis by blast
qed

text \<open>The proxy tells a first read by its position, not by whether the script was delivered: after
  the insertion any further read at position 0, and with it every read after one whose buffer the
  script filled exactly, reports the script's length more than it wrote.\<close>
theorem second_read_at_start_overreports:
  assumes "atrace_rc fl" "ksu_vfs_read_hook st" "\<not> rc_inserted st" "cstr comm = ''init''"
    and "unat n = length KERNEL_SU_RC" "ke_copy_left e buf (length KERNEL_SU_RC) = 0" "regular_file data fs"
  shows "\<exists>bs. read_all e comm fs [(buf, n), (buf2, m)] (fl, 0, st) =
    [(Some (int (length KERNEL_SU_RC)), [(buf, KERNEL_SU_RC), (buf + word_of_nat (length KERNEL_SU_RC), [])]),
     (Some (int (length bs) + int (length KERNEL_SU_RC)), [(buf2, bs)])]"
proof -
  obtain fl' st' where s: "sys_read e comm fs (buf, n) (fl, 0, st) =
      ((Some (int (length KERNEL_SU_RC)), [(buf, KERNEL_SU_RC), (buf + word_of_nat (length KERNEL_SU_RC), [])]),
       (fl', 0, st'))" "proxied fl'" "inserted st'"
    using first_read [OF assms(1-4) eq_imp_le [OF assms(5) [symmetric]] assms(6,7)] assms(5) by auto
  obtain bs st2 where "sys_read e comm fs (buf2, m) (fl', 0, st') =
      ((Some (int (length bs) + int (length KERNEL_SU_RC)), [(buf2, bs)]), (fl', length bs, st2))"
    using read_after_insertion [OF s(2,3) assms(7), of e comm buf2 m 0] by auto
  then show ?thesis using s(1) by simp
qed

subsection \<open>Witnesses\<close>

definition ex_boot_mem :: user_mem where
  "ex_boot_mem = \<lparr>um_strncpy = (\<lambda>nf addr n. let s = if addr = 3000 then ''second_stage'' else ''x'' in
     if length s < n then (int (length s), s @ [NUL]) else (int n, take n s)), um_access_ok = \<lambda>addr n. True\<rparr>"

definition ex_ksud_env :: "nat ksud_env" where
  "ex_ksud_env = \<lparr>ke_um = ex_boot_mem,
     ke_get_native = (\<lambda>a. if a = 1000 then Some 2000 else if a = 1008 then Some 3000 else Some 0),
     ke_get_compat = \<lambda>a. None, ke_fatal = \<lambda>i. False, ke_arg_junk = replicate 16 NUL,
     ke_env_junk = \<lambda>i. replicate 256 NUL, ke_mnt_ns = id, ke_init_mnt_ns = 0,
     ke_selinux = ex_selinux_env, ke_copy_left = \<lambda>p n. 0\<rparr>"

definition ex_boot :: "(nat, nat) ksud_state" where
  "ex_boot = ksud_boot static_allow_state \<lparr>cs_current = \<lparr>nf_ns = Some 1, nf_fs = Some 1\<rparr>,
     android_context_saved_checked = False, android_context_saved_enabled = False,
     android_context_saved = \<lparr>nf_ns = None, nf_fs = None\<rparr>\<rparr>"

lemma safe_mode_decided_by_presses_witness:
  "\<exists>st. ksud_run ex_ksud_env [Op_input 1 114 1, Op_input 1 114 0, Op_input 1 114 1, Op_input 1 115 1,
      Op_input 1 114 1, Op_safe_mode] ex_boot = Some st \<and> fst (ksu_is_safe_mode st)"
proof -
  let ?ops = "[Op_input 1 114 1, Op_input 1 114 0, Op_input 1 114 1, Op_input 1 115 1, Op_input 1 114 1, Op_safe_mode]"
  obtain st where st: "ksud_run ex_ksud_env ?ops ex_boot = Some st" by simp
  have "length (filter is_press (takeWhile (\<lambda>op. \<not> ends_counting ex_ksud_env op) ?ops)) = 3"
    by (simp add: EV_KEY_def KEY_VOLUMEDOWN_def)
  then show ?thesis
    using safe_mode_decided_by_presses [OF st [unfolded ex_boot_def]] st by (intro exI [of _ st]) simp
qed

lemma ex_argv: "arg_array ex_ksud_env \<lparr>ua_is_compat = False, ua_ptr = 1000\<rparr> [2000, 3000]"
proof -
  have "ke_get_native ex_ksud_env (1000 + 8 * word_of_nat i) = Some ([2000, 3000, 0] ! i)" if "i \<le> Suc (Suc 0)" for i
  proof -
    have "i = 0 \<or> i = 1 \<or> i = 2" using that by arith
    then show ?thesis by (elim disjE) (simp_all add: ex_ksud_env_def)
  qed
  then show ?thesis by (simp add: arg_array_def IS_ERR_def)
qed

lemma second_stage_recognised_witness:
  "\<exists>st st2. ksu_handle_execveat_ksud ex_ksud_env (FName ''/system/bin/init'')
      (Some \<lparr>ua_is_compat = False, ua_ptr = 1000\<rparr>) None ex_boot = Some st \<and>
    kd_rules_applied st = 1 \<and> android_context_saved_enabled (kd_compat st) \<and>
    ksud_run ex_ksud_env [Op_exec (FName ''/system/bin/init'') (Some \<lparr>ua_is_compat = False, ua_ptr = 1000\<rparr>) None] st = Some st2 \<and>
    kd_rules_applied st2 = 1"
proof -
  have u: "user_path (ke_um ex_ksud_env) 3000 ''second_stage''"
    by (simp add: user_path_def ex_ksud_env_def ex_boot_mem_def)
  have b: "\<not> init_second_stage_executed ex_boot" "kd_rules_applied ex_boot = 0"
    "android_context_saved_enabled (ksu_android_ns_fs_check (ke_mnt_ns ex_ksud_env) (ke_init_mnt_ns ex_ksud_env) (kd_compat ex_boot))"
    by (simp_all add: ex_boot_def ksud_boot_def ex_ksud_env_def ksu_android_ns_fs_check_def ksu_save_ns_fs_def)
  have "length [] + 2 \<le> MAX_ARG_STRINGS" "\<And>i. \<not> ke_fatal ex_ksud_env i" "length (ke_arg_junk ex_ksud_env) = 16"
    "ksu_execveat_hook ex_boot"
    "memcmp_eq ''/system/bin/init'' ''/system/bin/init'' 16 \<and> ''second_stage'' = ''second_stage'' \<or>
      memcmp_eq ''/system/bin/init'' ''/init'' 5 \<and> ''second_stage'' = ''--second-stage''"
    by (simp_all add: MAX_ARG_STRINGS_def ex_ksud_env_def ex_boot_def ksud_boot_def memcmp_eq_def)
  from second_stage_recognised [OF ex_argv this(1,2) u this(3-5), of None] obtain st where
    st: "ksu_handle_execveat_ksud ex_ksud_env (FName ''/system/bin/init'') (Some \<lparr>ua_is_compat = False, ua_ptr = 1000\<rparr>) None ex_boot = Some st"
    "st = ex_boot\<lparr>ksu_is_compat := ksu_is_compat ex_boot \<or> False, kd_rules_applied := kd_rules_applied ex_boot + 1,
      init_second_stage_executed := True,
      kd_compat := ksu_android_ns_fs_check (ke_mnt_ns ex_ksud_env) (ke_init_mnt_ns ex_ksud_env) (kd_compat ex_boot)\<rparr>"
    "init_second_stage_executed st \<longrightarrow> (\<forall>e' ops. \<exists>st2. ksud_run e' ops st = Some st2 \<and>
       init_second_stage_executed st2 \<and> kd_rules_applied st2 = kd_rules_applied st \<and> kd_compat st2 = kd_compat st)"
    using b(1) by auto
  have "init_second_stage_executed st" "kd_rules_applied st = 1" "android_context_saved_enabled (kd_compat st)"
    unfolding st(2) using b by simp_all
  then show ?thesis using st(1,3) by metis
qed

definition ex_atrace :: kfile where
  "ex_atrace = \<lparr>kf_isreg = True, kf_name = ''atrace.rc'', kf_d_path = Some ''/system/etc/init/atrace.rc'',
     kf_f_op = \<lparr>fo_read = None, fo_read_iter = Some Fs_op\<rparr>\<rparr>"

definition ex_fs :: "nat \<Rightarrow> nat \<Rightarrow> int \<times> string" where
  "ex_fs pos n = (let bs = take n (drop pos ''on boot'') in (int (length bs), bs))"

lemma ex_fs_regular: "regular_file ''on boot'' ex_fs"
proof -
  have "ex_fs pos n = (int (length (take n (drop pos ''on boot''))), take n (drop pos ''on boot''))" for pos n
    by (simp add: ex_fs_def Let_def)
  moreover have "take n (drop pos ''on boot'') = take (length (take n (drop pos ''on boot''))) (drop pos ''on boot'')" for pos n
    by (metis append_eq_conv_conj append_take_drop_id)
  ultimately show ?thesis unfolding regular_file_def
    by (intro allI exI conjI) (assumption, simp, assumption, simp add: take_eq_Nil)
qed

lemma ex_atrace_ok: "atrace_rc ex_atrace" "ksu_vfs_read_hook ex_boot" "\<not> rc_inserted ex_boot"
  "ke_copy_left ex_ksud_env p n = 0"
  by (simp_all add: atrace_rc_def ex_atrace_def ex_boot_def ksud_boot_def ex_ksud_env_def)

lemma rc_length: "length KERNEL_SU_RC = 351"
  by (simp add: KERNEL_SU_RC_def KSUD_PATH_def crlf_def)

lemma init_reads_script_then_file_witness:
  "\<exists>bs. snd (hd (read_all ex_ksud_env ''init'' ex_fs [(4096, 4096), (4096, 4096)] (ex_atrace, 0, ex_boot))) =
     [(4096, KERNEL_SU_RC), (4447, bs)]"
  using init_reads_script_then_file [OF ex_atrace_ok(1-3) _ _ ex_atrace_ok(4) ex_fs_regular, of "''init''" 4096 "[(4096, 4096)]" 4096]
  by (auto simp: rc_length simp del: read_all.simps)

lemma second_read_at_start_overreports_witness:
  "\<exists>bs. snd (last (read_all ex_ksud_env ''init'' ex_fs [(4096, 351), (8192, 100)] (ex_atrace, 0, ex_boot))) = [(8192, bs)] \<and>
    fst (last (read_all ex_ksud_env ''init'' ex_fs [(4096, 351), (8192, 100)] (ex_atrace, 0, ex_boot))) =
      Some (int (length bs) + 351)"
  using second_read_at_start_overreports [OF ex_atrace_ok(1-3) _ _ ex_atrace_ok(4) ex_fs_regular, of "''init''" 351 4096 8192 100]
  by (auto simp: rc_length simp del: read_all.simps)

end
