(* ===== verification/Sepolicy_Rules.thy ===== *)
theory Sepolicy_Rules
  imports Sepolicy
begin

text \<open>
  Properties of the access vector rules: the hashed table with its nodes refines a map from keys to
  access vectors, and every rule, wildcards included, is one update of that map.
\<close>

subsection \<open>The table as a map\<close>

text \<open>The kinds of entries; every key the kernel stores has exactly one.\<close>

definition av_flags :: "u16 set" where
  "av_flags = {AVTAB_ALLOWED, AVTAB_AUDITALLOW, AVTAB_AUDITDENY, AVTAB_TRANSITION, AVTAB_MEMBER, AVTAB_CHANGE,
     AVTAB_XPERMS_ALLOWED, AVTAB_XPERMS_AUDITALLOW, AVTAB_XPERMS_DONTAUDIT}"

definition data_flags :: "u16 set" where
  "data_flags = {AVTAB_ALLOWED, AVTAB_AUDITALLOW, AVTAB_AUDITDENY, AVTAB_TRANSITION, AVTAB_MEMBER, AVTAB_CHANGE}"

definition avtab_wf :: "avtab \<Rightarrow> bool" where
  "avtab_wf t \<longleftrightarrow> (\<forall>(k, d) \<in> set t. k_specified k \<in> av_flags)"

abbreviation key_ok :: "avtab_key \<Rightarrow> bool" where
  "key_ok k \<equiv> k_specified k \<in> av_flags"

lemma flag_and: "f \<in> av_flags \<Longrightarrow> g \<in> av_flags \<Longrightarrow> f AND g \<noteq> 0 \<longleftrightarrow> f = g"
  by (auto simp: av_flags_def avtab_flags)

lemma data_flag_ok: "f \<in> data_flags \<Longrightarrow> f \<in> av_flags" "f \<in> data_flags \<Longrightarrow> f AND AVTAB_XPERMS = 0"
  by (auto simp: av_flags_def data_flags_def avtab_flags)

lemma match_iff: "key_ok key \<Longrightarrow> key_ok k \<Longrightarrow> avtab_match key k \<longleftrightarrow> key = k"
  by (cases key; cases k) (auto simp: avtab_match_def flag_and)

fun av_lookup :: "avtab \<Rightarrow> avtab_key \<Rightarrow> avtab_datum option" where
  "av_lookup [] key = None"
| "av_lookup ((k, d) # t) key = (if k = key then Some d else av_lookup t key)"

definition initial_av :: "avtab_key \<Rightarrow> u32" where
  "initial_av key = (if k_specified key = AVTAB_AUDITDENY then NOT 0 else 0)"

text \<open>The access vector of a key; an absent one is what a new node would hold.\<close>

definition access :: "policydb \<Rightarrow> avtab_key \<Rightarrow> u32" where
  "access db key = (case av_lookup (te_avtab db) key of None \<Rightarrow> initial_av key | Some d \<Rightarrow> av_data d)"

lemma av_lookup_append:
  "av_lookup (a @ b) key = (case av_lookup a key of None \<Rightarrow> av_lookup b key | Some d \<Rightarrow> Some d)"
  by (induction a key rule: av_lookup.induct) auto

lemma search_lookup:
  assumes "avtab_wf t" "key_ok key"
  shows "(case avtab_search_node t key of None \<Rightarrow> av_lookup t key = None
    | Some i \<Rightarrow> i < length t \<and> fst (t ! i) = key \<and> av_lookup t key = Some (snd (t ! i)))"
  using assms
proof (induction t key rule: av_lookup.induct)
  case (2 k d t key)
  then have "key_ok k" "avtab_wf t" by (auto simp: avtab_wf_def)
  then show ?case using 2 match_iff [of key k]
    by (auto simp: avtab_search_node_def split: option.splits)
qed (simp add: avtab_search_node_def)

text \<open>Changing the data of the node that a key finds changes the lookup of that key alone.\<close>

lemma lookup_update:
  assumes "avtab_wf t" "key_ok key" "avtab_search_node t key = Some i"
  shows "av_lookup (t[i := (fst (t ! i), d')]) k = (if k = key then Some d' else av_lookup t k)"
  using assms
proof (induction t key arbitrary: i rule: av_lookup.induct)
  case (2 k0 d t key)
  have ok: "key_ok k0" "avtab_wf t" using "2.prems"(1) by (auto simp: avtab_wf_def)
  show ?case
  proof (cases "k0 = key")
    case True
    then have "i = 0" using "2.prems"(3) match_iff [OF "2.prems"(2) ok(1)] by (simp add: avtab_search_node_def)
    then show ?thesis using True by auto
  next
    case False
    then have "\<not> avtab_match key k0" using match_iff [OF "2.prems"(2) ok(1)] by auto
    then obtain j where j: "i = Suc j" "avtab_search_node t key = Some j"
      using "2.prems"(3) by (auto simp: avtab_search_node_def)
    then show ?thesis using "2.IH" [OF False ok(2) "2.prems"(2) j(2)] False by auto
  qed
qed (simp add: avtab_search_node_def)

subsection \<open>One node\<close>

text \<open>An edit that applies \<open>u\<close> to the keys of \<open>K\<close> and changes nothing else but the table's length.\<close>

definition updates :: "avtab_key set \<Rightarrow> (u32 \<Rightarrow> u32) \<Rightarrow> policydb \<Rightarrow> policydb \<Rightarrow> bool" where
  "updates K u db db' \<longleftrightarrow> avtab_wf (te_avtab db') \<and>
     db' = db\<lparr>te_avtab := te_avtab db', db_len := db_len db'\<rparr> \<and>
     (\<forall>k. key_ok k \<longrightarrow> access db' k = (if k \<in> K then u (access db k) else access db k))"

lemma updates_refl: "avtab_wf (te_avtab db) \<Longrightarrow> updates {} u db db"
  by (simp add: updates_def)

lemma updates_trans:
  assumes "updates K u db db1" "updates L u db1 db2" "\<And>x. u (u x) = u x"
  shows "updates (K \<union> L) u db db2"
proof -
  obtain a b c d where "db1 = db\<lparr>te_avtab := a, db_len := b\<rparr>" "db2 = db1\<lparr>te_avtab := c, db_len := d\<rparr>"
    using assms(1,2) unfolding updates_def by blast
  then have "db2 = db\<lparr>te_avtab := te_avtab db2, db_len := db_len db2\<rparr>" by simp
  then show ?thesis using assms by (auto simp: updates_def)
qed

lemma updates_keeps:
  assumes "updates K u db db'"
  shows "p_types db' = p_types db" "p_classes db' = p_classes db"
    "avtab_wf (te_avtab db')" "wildcard_types f i db' = wildcard_types f i db"
proof -
  have e: "db' = db\<lparr>te_avtab := te_avtab db', db_len := db_len db'\<rparr>" using assms by (simp add: updates_def)
  show "p_types db' = p_types db" "p_classes db' = p_classes db" by (subst e, simp)+
  then show "wildcard_types f i db' = wildcard_types f i db" by (simp add: wildcard_types_def)
  show "avtab_wf (te_avtab db')" using assms by (simp add: updates_def)
qed

lemma insert_node:
  assumes "avtab_wf t" "key_ok key" "avtab_search_node t key = None"
  shows "avtab_search_node (take i t @ (key, d) # drop i t) key = Some (min i (length t))"
    "av_lookup (take i t @ (key, d) # drop i t) k = (if k = key then Some d else av_lookup t k)"
    "avtab_wf (take i t @ (key, d) # drop i t)"
proof -
  have t: "av_lookup t k = av_lookup (take i t @ drop i t) k" for k by simp
  have n: "av_lookup t key = None" using search_lookup [OF assms(1,2)] assms(3) by simp
  then have "av_lookup (take i t) key = None" unfolding t [of key] av_lookup_append by (simp split: option.splits)
  then show "av_lookup (take i t @ (key, d) # drop i t) k = (if k = key then Some d else av_lookup t k)"
    by (auto simp: t [of k] av_lookup_append split: option.splits simp del: append_take_drop_id)
  show "avtab_wf (take i t @ (key, d) # drop i t)"
    using assms(1,2) by (auto simp: avtab_wf_def dest: in_set_takeD in_set_dropD)
  have "find_index P (xs @ x # ys) = Some (length xs)" if "\<forall>y \<in> set xs. \<not> P y" "P x" for P xs and x :: "avtab_key \<times> avtab_datum" and ys
    using that by (induction xs) auto
  moreover have "\<forall>y \<in> set (take i t). \<not> (\<lambda>(k, d). avtab_match key k) y"
    using assms(3) by (auto simp: avtab_search_node_def find_index_None dest: in_set_takeD)
  moreover have "avtab_match key key" using match_iff [OF assms(2,2)] by simp
  ultimately show "avtab_search_node (take i t @ (key, d) # drop i t) key = Some (min i (length t))"
    by (simp add: avtab_search_node_def min.commute)
qed

lemma get_node:
  assumes "avtab_wf (te_avtab db)" "k_specified key \<in> data_flags" "get_avtab_node e key None db = (Some i, db')"
  shows "updates {} u db db'" "avtab_search_node (te_avtab db') key = Some i"
proof -
  have ok: "key_ok key" "k_specified key AND AVTAB_XPERMS = 0" using data_flag_ok assms(2) by auto
  have "updates {} u db db' \<and> avtab_search_node (te_avtab db') key = Some i"
  proof (cases "avtab_search_node (te_avtab db) key")
    case (Some j)
    then show ?thesis using assms(1,3) ok(2) by (simp add: get_avtab_node_def updates_refl)
  next
    case None
    let ?p = "min (po_av_place e (te_avtab db) key) (length (te_avtab db))"
    let ?t = "take ?p (te_avtab db) @ (key, Av_data (initial_av key)) # drop ?p (te_avtab db)"
    have db': "i = ?p" "te_avtab db' = ?t" "db' = db\<lparr>te_avtab := ?t, db_len := db_len db'\<rparr>"
      using assms(3) None ok(2)
      by (auto simp: get_avtab_node_def avtab_insert_nonunique_def initial_av_def Let_def split: if_splits)
    note n = insert_node [OF assms(1) ok(1) None, of ?p "Av_data (initial_av key)"]
    have "access db' k = access db k" for k
      using n(2) [of key] n(2) [of k] search_lookup [OF assms(1) ok(1)] None
      by (auto simp: access_def db'(2))
    then show ?thesis using n(1,3) db' by (simp add: updates_def)
  qed
  then show "updates {} u db db'" "avtab_search_node (te_avtab db') key = Some i" by auto
qed

lemma set_node:
  assumes "avtab_wf (te_avtab db)" "key_ok key" "avtab_search_node (te_avtab db) key = Some i"
  shows "updates {key} u db (set_node_data i u db)"
proof -
  let ?d = "snd (te_avtab db ! i)"
  have s: "i < length (te_avtab db)" "fst (te_avtab db ! i) = key" "av_lookup (te_avtab db) key = Some ?d"
    using search_lookup [OF assms(1,2)] assms(3) by auto
  note l = lookup_update [OF assms]
  have "access (set_node_data i u db) k = (if k = key then u (access db k) else access db k)" for k
    using s(3) l by (simp add: access_def set_node_data_def)
  moreover have "avtab_wf (te_avtab (set_node_data i u db))"
    using assms(1,2) s(2) unfolding avtab_wf_def set_node_data_def
    by (auto dest!: set_update_subset_insert [THEN subsetD])
  moreover have "set_node_data i u db = db\<lparr>te_avtab := te_avtab (set_node_data i u db), db_len := db_len (set_node_data i u db)\<rparr>"
    by (simp add: set_node_data_def)
  ultimately show ?thesis by (simp add: updates_def)
qed

lemma node_updated:
  assumes "avtab_wf (te_avtab db)" "k_specified key \<in> data_flags" "get_avtab_node e key None db = (Some i, db')"
    "\<And>x. u (u x) = u x"
  shows "updates {key} u db (set_node_data i u db')"
  using updates_trans [OF get_node(1) [OF assms(1-3)] set_node [OF _ _ get_node(2) [OF assms(1-3)]] assms(4)]
    updates_keeps(3) [OF get_node(1) [OF assms(1-3)]] data_flag_ok(1) [OF assms(2)]
  by simp


subsection \<open>Rules with wildcards\<close>

lemma av_update_idem: "av_update perm invert (av_update perm invert x) = av_update perm invert x"
  by (cases perm) (auto simp: av_update_def bit_eq_iff bit_simps)

definition rule_types :: "type_datum option \<Rightarrow> u16 \<Rightarrow> bool \<Rightarrow> policydb \<Rightarrow> type_datum set" where
  "rule_types ty effect invert db =
     (case ty of None \<Rightarrow> set (wildcard_types effect invert db) | Some t \<Rightarrow> {t})"

definition rule_classes :: "class_datum option \<Rightarrow> policydb \<Rightarrow> class_datum set" where
  "rule_classes cls db = (case cls of None \<Rightarrow> snd ` set (p_classes db) | Some c \<Rightarrow> {c})"

definition rule_keys :: "type_datum option \<Rightarrow> type_datum option \<Rightarrow> class_datum option \<Rightarrow> u16 \<Rightarrow> bool \<Rightarrow> policydb \<Rightarrow>
    avtab_key set" where
  "rule_keys src tgt cls effect invert db =
     {rule_key s t c effect | s t c. s \<in> rule_types src effect invert db \<and> t \<in> rule_types tgt effect invert db \<and>
        c \<in> rule_classes cls db}"

text \<open>A fold of updates is the update of all their keys.\<close>

lemma fold_updates:
  assumes "\<And>x db db'. x \<in> set xs \<Longrightarrow> Q db \<Longrightarrow> f x db = Some db' \<Longrightarrow> updates (K x) u db db'"
    and "\<And>L db db'. Q db \<Longrightarrow> updates L u db db' \<Longrightarrow> Q db'" and "\<And>x. u (u x) = u x"
    and "Q db" "avtab_wf (te_avtab db)" "fold_opt f xs db = Some db'"
  shows "updates (\<Union>x \<in> set xs. K x) u db db'"
  using assms(1,4-6)
proof (induction xs arbitrary: db)
  case (Cons x xs)
  obtain db1 where f: "f x db = Some db1" "fold_opt f xs db1 = Some db'" using Cons.prems by (auto split: option.splits)
  have x: "updates (K x) u db db1" using Cons.prems(1,2) f(1) by simp
  then have "updates (\<Union>x \<in> set xs. K x) u db1 db'"
    using Cons.prems(1) assms(2) [OF Cons.prems(2) x] updates_keeps(3) [OF x] f(2) by (intro Cons.IH) auto
  then show ?case using updates_trans [OF x _ assms(3)] by simp
qed (simp add: updates_refl)

definition same_symbols :: "policydb \<Rightarrow> policydb \<Rightarrow> bool" where
  "same_symbols db0 db \<longleftrightarrow> avtab_wf (te_avtab db) \<and> p_types db = p_types db0 \<and> p_classes db = p_classes db0"

lemma same_symbols_updates: "same_symbols db0 db \<Longrightarrow> updates L u db db' \<Longrightarrow> same_symbols db0 db'"
  using updates_keeps [of L u db db'] by (simp add: same_symbols_def)

lemma leaf_updates:
  assumes "avtab_wf (te_avtab db)" "effect \<in> data_flags" "add_rule_leaf e src tgt perm effect invert cls db = Some db'"
  shows "updates {rule_key src tgt cls effect} (av_update perm invert) db db'"
proof -
  obtain i db1 where g: "get_avtab_node e (rule_key src tgt cls effect) None db = (Some i, db1)"
    "db' = set_node_data i (av_update perm invert) db1"
    using assms(3) by (auto simp: add_rule_leaf_def split: prod.splits option.splits)
  show ?thesis unfolding g(2)
    by (rule node_updated [OF assms(1) _ g(1) av_update_idem]) (simp add: rule_key_def assms(2))
qed

lemma tgt_updates:
  assumes "same_symbols db0 db" "effect \<in> data_flags" "add_rule_tgt e src cls perm effect invert tgt db = Some db'"
  shows "updates {rule_key src tgt c effect | c. c \<in> rule_classes cls db0} (av_update perm invert) db db'"
proof (cases cls)
  case None
  have f: "fold_opt (\<lambda>(_, cls). add_rule_leaf e src tgt perm effect invert cls) (p_classes db) db = Some db'"
    using assms(3) None by (simp add: add_rule_tgt_def)
  have "updates (\<Union>x \<in> set (p_classes db). {rule_key src tgt (snd x) effect}) (av_update perm invert) db db'"
    by (rule fold_updates [where Q = "same_symbols db0", OF _ same_symbols_updates av_update_idem assms(1) _ f])
      (use leaf_updates assms in \<open>auto simp: same_symbols_def\<close>)
  moreover have "(\<Union>x \<in> set (p_classes db). {rule_key src tgt (snd x) effect}) =
      {rule_key src tgt c effect | c. c \<in> rule_classes cls db0}"
    using assms(1) None by (auto simp: rule_classes_def same_symbols_def)
  ultimately show ?thesis by simp
next
  case (Some c)
  then show ?thesis using leaf_updates [OF _ assms(2)] assms by (simp add: add_rule_tgt_def rule_classes_def same_symbols_def)
qed

lemma types_fold_updates:
  assumes "same_symbols db0 db" "\<And>x db db'. same_symbols db0 db \<Longrightarrow> f x db = Some db' \<Longrightarrow> updates (K x) (av_update perm invert) db db'"
    and "(case ty of None \<Rightarrow> fold_opt f (wildcard_types effect invert db) db | Some t \<Rightarrow> f t db) = Some db'"
  shows "updates (\<Union>t \<in> rule_types ty effect invert db0. K t) (av_update perm invert) db db'"
proof (cases ty)
  case None
  have w: "wildcard_types effect invert db = wildcard_types effect invert db0"
    using assms(1) by (simp add: wildcard_types_def same_symbols_def)
  have "updates (\<Union>x \<in> set (wildcard_types effect invert db). K x) (av_update perm invert) db db'"
    by (rule fold_updates [where Q = "same_symbols db0", OF _ same_symbols_updates av_update_idem assms(1)])
      (use assms None in \<open>auto simp: same_symbols_def\<close>)
  then show ?thesis by (simp add: rule_types_def None w)
next
  case (Some t)
  then show ?thesis using assms by (simp add: rule_types_def)
qed

lemma raw_updates:
  assumes "avtab_wf (te_avtab db)" "effect \<in> data_flags" "add_rule_raw e src tgt cls perm effect invert db = Some db'"
  shows "updates (rule_keys src tgt cls effect invert db) (av_update perm invert) db db'"
proof -
  have q: "same_symbols db db" using assms(1) by (simp add: same_symbols_def)
  have t: "updates (\<Union>t \<in> rule_types tgt effect invert db. {rule_key s t c effect | c. c \<in> rule_classes cls db})
      (av_update perm invert) db1 db2"
    if "same_symbols db db1" "add_rule_src e tgt cls perm effect invert s db1 = Some db2" for s db1 db2
    by (rule types_fold_updates [where f = "add_rule_tgt e s cls perm effect invert", OF that(1) tgt_updates [OF _ assms(2)]])
      (use that(2) in \<open>simp_all add: add_rule_src_def\<close>)
  have "updates (\<Union>s \<in> rule_types src effect invert db. \<Union>t \<in> rule_types tgt effect invert db.
      {rule_key s t c effect | c. c \<in> rule_classes cls db}) (av_update perm invert) db db'"
    by (rule types_fold_updates [where f = "add_rule_src e tgt cls perm effect invert", OF q t])
      (use assms(3) in \<open>simp_all add: add_rule_raw_def\<close>)
  moreover have "(\<Union>s \<in> rule_types src effect invert db. \<Union>t \<in> rule_types tgt effect invert db.
      {rule_key s t c effect | c. c \<in> rule_classes cls db}) = rule_keys src tgt cls effect invert db"
    by (auto simp: rule_keys_def)
  ultimately show ?thesis by simp
qed

text \<open>The names of a rule resolved, and the keys they stand for.\<close>

definition rule_resolves :: "string option \<Rightarrow> string option \<Rightarrow> string option \<Rightarrow> string option \<Rightarrow> policydb \<Rightarrow>
    (type_datum option \<times> type_datum option \<times> class_datum option \<times> u32 option) option" where
  "rule_resolves s t c p db =
     (case (optional_symbol (p_types db) s, optional_symbol (p_types db) t, optional_symbol (p_classes db) c) of
        (Some src, Some tgt, Some cls) \<Rightarrow> map_option (\<lambda>perm. (src, tgt, cls, perm)) (find_perm cls p)
      | _ \<Rightarrow> None)"

lemma add_rule_resolved:
  "add_rule e s t c p effect invert db =
     (case rule_resolves s t c p db of
        None \<Rightarrow> Some (False, db)
      | Some (src, tgt, cls, perm) \<Rightarrow> map_option (Pair True) (add_rule_raw e src tgt cls perm effect invert db))"
  by (simp add: add_rule_def rule_resolves_def split: option.splits)

lemma add_rule_updates:
  assumes "avtab_wf (te_avtab db)" "effect \<in> data_flags" "add_rule e s t c p effect invert db = Some (ok, db')"
  shows "(case rule_resolves s t c p db of
      None \<Rightarrow> \<not> ok \<and> db' = db
    | Some (src, tgt, cls, perm) \<Rightarrow>
        ok \<and> updates (rule_keys src tgt cls effect invert db) (av_update perm invert) db db')"
  using assms raw_updates [OF assms(1,2)] by (auto simp: add_rule_resolved split: option.splits)

lemma fold_opt_total: "(\<And>x s. x \<in> set xs \<Longrightarrow> f x s \<noteq> None) \<Longrightarrow> fold_opt f xs s \<noteq> None"
proof (induction xs arbitrary: s)
  case (Cons x xs)
  obtain s1 where "f x s = Some s1" using Cons.prems [of x s] by auto
  then show ?case using Cons.IH Cons.prems by simp
qed simp

lemma add_rule_total:
  assumes "\<And>t. po_av_alloc e t"
  shows "add_rule e s t c p effect invert db \<noteq> None"
proof -
  have l: "add_rule_leaf e src tgt perm effect invert cls db \<noteq> None" for src tgt perm cls db
    using assms
    by (auto simp: add_rule_leaf_def get_avtab_node_def avtab_insert_nonunique_def Let_def split: prod.splits option.splits)
  have t: "add_rule_tgt e src cls perm effect invert tgt db \<noteq> None" for src cls perm tgt db
  proof (cases cls)
    case None
    have "(\<lambda>(_, cls). add_rule_leaf e src tgt perm effect invert cls) x db \<noteq> None" for x db
      using l by (cases x) simp
    then have "fold_opt (\<lambda>(_, cls). add_rule_leaf e src tgt perm effect invert cls) (p_classes db) db \<noteq> None"
      by (rule fold_opt_total)
    then show ?thesis by (simp add: add_rule_tgt_def None)
  qed (use l in \<open>simp add: add_rule_tgt_def\<close>)
  have s: "add_rule_src e tgt cls perm effect invert src db \<noteq> None" for tgt cls perm src db
  proof -
    have "fold_opt (add_rule_tgt e src cls perm effect invert) xs db \<noteq> None" for xs by (rule fold_opt_total) (rule t)
    then show ?thesis by (cases tgt) (use t in \<open>simp_all add: add_rule_src_def\<close>)
  qed
  have "add_rule_raw e src tgt cls perm effect invert db \<noteq> None" for src tgt cls perm
  proof -
    have "fold_opt (add_rule_src e tgt cls perm effect invert) xs db \<noteq> None" for xs by (rule fold_opt_total) (rule s)
    then show ?thesis by (cases src) (use s in \<open>simp_all add: add_rule_raw_def\<close>)
  qed
  then show ?thesis by (auto simp: add_rule_resolved split: option.split)
qed


subsection \<open>Witnesses\<close>

text \<open>A policy of three types, one of them an attribute, and a class of two permissions.\<close>

definition ex_policy_env :: policy_env where
  "ex_policy_env = \<lparr>po_av_place = \<lambda>t k. length t, po_av_alloc = \<lambda>t. True, po_ebitmap_alloc = \<lambda>b. True,
     po_type_place = 0, po_type_alloc = True, po_key_dup = True, po_sym_insert = True, po_attr_map_alloc = True,
     po_val_to_struct_alloc = True, po_val_to_name_alloc = True, po_attr_map_prealloc = True,
     po_val_to_struct_prealloc = True, po_val_to_name_prealloc = True, po_trans_alloc = True,
     po_trans_key_alloc = True, po_trans_name_dup = True, po_trans_insert = True, po_stype_junk = 77,
     po_low_junk = 0, po_high_junk = 0, po_sscanf_hx = \<lambda>s. Some 0x8910, po_sscanf_hx_hx = \<lambda>s. (Some 0x8910, Some 0x8911)\<rparr>"

definition ex_type :: "u32 \<Rightarrow> bool \<Rightarrow> type_datum" where
  "ex_type v attr = \<lparr>td_value = v, td_primary = True, td_attribute = attr\<rparr>"

definition ex_class :: class_datum where
  "ex_class = \<lparr>cd_value = 1, cd_permissions = [(''read'', 1), (''write'', 2)], cd_comdatum = None, cd_constraints = []\<rparr>"

definition ex_policy :: policydb where
  "ex_policy = \<lparr>p_types = [(''su'', ex_type 1 False), (''domain'', ex_type 2 True), (''init'', ex_type 3 False)],
     p_types_nprim = 3, p_classes = [(''file'', ex_class)], te_avtab = [], db_len = 0, filename_trans = [],
     filename_trans_ttypes = {}, type_attr_map_array = [{0}, {1}, {2}],
     type_val_to_struct_array = [Some (ex_type 1 False), Some (ex_type 2 True), Some (ex_type 3 False)],
     sym_val_to_name_types = [Some ''su'', Some ''domain'', Some ''init''], role_types = [{0, 2}],
     permissive_map = {}, policyvers = 30\<rparr>"

lemma ex_policy_ok: "avtab_wf (te_avtab ex_policy)" "po_av_alloc ex_policy_env t" "po_ebitmap_alloc ex_policy_env b"
  by (simp_all add: ex_policy_def avtab_wf_def ex_policy_env_def)

lemma ex_policy_types:
  "map_of (p_types ex_policy) ''su'' = Some (ex_type 1 False)" "map_of (p_types ex_policy) ''domain'' = Some (ex_type 2 True)"
  "map_of (p_types ex_policy) ''init'' = Some (ex_type 3 False)" "map_of (p_classes ex_policy) ''file'' = Some ex_class"
  "map_of (p_types ex_policy) ''app'' = None" "p_types_nprim ex_policy = 3"
  by (simp_all add: ex_policy_def)

end
