(* ===== verification/Sepolicy_Types.thy ===== *)
theory Sepolicy_Types
  imports Sepolicy_Rules
begin

text \<open>
  The tables of types: what adding a type does to the symbol table and to the arrays indexed by type
  values, and what a named type transition stores.
\<close>

subsection \<open>The symbol table\<close>

lemma publish_type_frame:
  "te_avtab (publish_type e k t db) = te_avtab db" "permissive_map (publish_type e k t db) = permissive_map db"
  "p_classes (publish_type e k t db) = p_classes db" "p_types (publish_type e k t db) = p_types db"
  by (simp_all add: publish_type_def Let_def)

lemma add_type_frame:
  assumes "add_type e n attr db = (ok, db')"
  shows "te_avtab db' = te_avtab db \<and> permissive_map db' = permissive_map db \<and> p_classes db' = p_classes db \<and>
      (p_types db' = p_types db \<or> map_of (p_types db) n = None \<and>
       (\<exists>t. p_types db' = take (po_type_place e) (p_types db) @ (n, t) # drop (po_type_place e) (p_types db)))"
proof (cases "map_of (p_types db) n")
  case None
  from assms show ?thesis
    unfolding add_type_def symtab_search_def None option.case Let_def
    by (simp only: split: if_split_asm) (clarsimp simp: publish_type_frame None)+
next
  case (Some t)
  then show ?thesis using assms by (simp add: add_type_def symtab_search_def)
qed

lemma keys_inserted: "fst ` set (take i xs @ y # drop i xs) = insert (fst y) (fst ` set xs)"
proof -
  have "set xs = set (take i xs) \<union> set (drop i xs)" by (metis append_take_drop_id set_append)
  then show ?thesis by (simp add: image_Un)
qed

lemma map_of_inserted:
  assumes "map_of xs n = None"
  shows "map_of (take i xs @ (n, t) # drop i xs) n = Some t"
proof -
  have "map_of (take i xs @ drop i xs) n = None" using assms by simp
  then have "map_of (take i xs) n = None" by (simp add: map_add_def split: option.splits del: append_take_drop_id)
  then show ?thesis by (simp add: map_add_def)
qed

lemma add_type_ok:
  assumes "add_type e n attr db = (True, db')" "map_of (p_types db) n = None"
  defines "t \<equiv> \<lparr>td_value = p_types_nprim db + 1, td_primary = True, td_attribute = attr\<rparr>"
  shows "db' = publish_type e n t (db\<lparr>p_types_nprim := p_types_nprim db + 1,
      p_types := take (po_type_place e) (p_types db) @ (n, t) # drop (po_type_place e) (p_types db)\<rparr>)"
    "map_of (p_types db') n = Some t" "fst ` set (p_types db') = insert n (fst ` set (p_types db))"
proof -
  show d: "db' = publish_type e n t (db\<lparr>p_types_nprim := p_types_nprim db + 1,
      p_types := take (po_type_place e) (p_types db) @ (n, t) # drop (po_type_place e) (p_types db)\<rparr>)"
    using assms(1) unfolding add_type_def symtab_search_def assms(2) option.case Let_def t_def
    by (simp only: split: if_split_asm) simp_all
  have p: "p_types db' = take (po_type_place e) (p_types db) @ (n, t) # drop (po_type_place e) (p_types db)"
    by (simp add: d publish_type_frame)
  show "map_of (p_types db') n = Some t" unfolding p by (rule map_of_inserted [OF assms(2)])
  show "fst ` set (p_types db') = insert n (fst ` set (p_types db))"
    unfolding p using keys_inserted [of "po_type_place e" "p_types db" "(n, t)"] by simp
qed

subsection \<open>Consistency of the type tables\<close>

text \<open>Every type has a value from 1 to the number of types, its own, under which the arrays hold its name,
  its datum and its attributes; no name occurs twice and the arrays are as long as there are types.\<close>

definition types_wf :: "policydb \<Rightarrow> bool" where
  "types_wf db \<longleftrightarrow> distinct (map fst (p_types db)) \<and>
     length (type_attr_map_array db) = unat (p_types_nprim db) \<and>
     length (type_val_to_struct_array db) = unat (p_types_nprim db) \<and>
     length (sym_val_to_name_types db) = unat (p_types_nprim db) \<and>
     (\<forall>(n, t) \<in> set (p_types db). td_value t \<noteq> 0 \<and> unat (td_value t - 1) < unat (p_types_nprim db) \<and>
        type_val_to_struct_array db ! unat (td_value t - 1) = Some t \<and>
        sym_val_to_name_types db ! unat (td_value t - 1) = Some n \<and>
        unat (td_value t - 1) \<in> type_attr_map_array db ! unat (td_value t - 1))"

lemma resize_Suc: "length xs = n \<Longrightarrow> resize_array z (Suc n) xs = xs @ [z]"
  by (simp add: resize_array_def)

text \<open>C17. Adding a type keeps the tables consistent, on success: the type gets the next value, is found by
  its name with that value, and belongs to every role; all other types are found as before. An
  existing name is left alone. But a failed allocation leaves them inconsistent: the number of types
  has been raised and the arrays have not grown.\<close>
theorem add_type_keeps_tables:
  assumes "types_wf db" "p_types_nprim db + 1 \<noteq> 0" "\<And>b. po_ebitmap_alloc e b" "add_type e n attr db = (ok, db')"
  shows "(ok \<longrightarrow> types_wf db') \<and> (\<not> ok \<longrightarrow> \<not> types_wf db') \<and>
    (case map_of (p_types db) n of
      Some t \<Rightarrow> ok \<and> db' = db
    | None \<Rightarrow> ok \<longrightarrow> map_of (p_types db') =
        (map_of (p_types db))(n \<mapsto> \<lparr>td_value = p_types_nprim db + 1, td_primary = True, td_attribute = attr\<rparr>) \<and>
        (\<forall>m \<in> set (role_types db'). unat (p_types_nprim db) \<in> m))"
proof (cases "map_of (p_types db) n")
  case (Some t)
  then show ?thesis using assms(1,4) by (auto simp: add_type_def symtab_search_def)
next
  case None
  have n1: "unat (p_types_nprim db + 1) = Suc (unat (p_types_nprim db))"
    using assms(2) by (metis add.commute unatSuc Suc_eq_plus1_left)
  let ?t = "\<lparr>td_value = p_types_nprim db + 1, td_primary = True, td_attribute = attr\<rparr>"
  let ?n = "unat (p_types_nprim db)"
  show ?thesis
  proof (cases ok)
    case True
    have a: "add_type e n attr db = (True, db')" using assms(4) True by simp
    note ok = add_type_ok [OF a None]
    have l: "length (type_attr_map_array db) = ?n" "length (type_val_to_struct_array db) = ?n"
      "length (sym_val_to_name_types db) = ?n" using assms(1) by (simp_all add: types_wf_def)
    have arrays: "p_types_nprim db' = p_types_nprim db + 1"
      "p_types db' = take (po_type_place e) (p_types db) @ (n, ?t) # drop (po_type_place e) (p_types db)"
      "type_attr_map_array db' = type_attr_map_array db @ [{?n}]"
      "type_val_to_struct_array db' = type_val_to_struct_array db @ [Some ?t]"
      "sym_val_to_name_types db' = sym_val_to_name_types db @ [Some n]"
      "role_types db' = map (insert ?n) (role_types db)"
      unfolding ok(1) using l assms(3)
      by (simp_all add: publish_type_def Let_def n1 resize_Suc list_update_append ebitmap_set_bit_def)
    have set: "set (p_types db') = insert (n, ?t) (set (p_types db))"
    proof -
      have "set (p_types db) = set (take (po_type_place e) (p_types db)) \<union> set (drop (po_type_place e) (p_types db))"
        by (metis append_take_drop_id set_append)
      then show ?thesis by (simp add: arrays(2))
    qed
    have d: "distinct (map fst (p_types db'))"
    proof -
      let ?a = "take (po_type_place e) (p_types db)" and ?b = "drop (po_type_place e) (p_types db)"
      have "distinct (map fst (?a @ ?b))" "n \<notin> fst ` set (?a @ ?b)"
        using assms(1) None by (simp_all add: types_wf_def map_of_eq_None_iff)
      then show ?thesis unfolding arrays(2) by (auto simp del: append_take_drop_id)
    qed
    have "types_wf db'"
      using assms(1,2) d l unfolding types_wf_def set
      by (auto simp: arrays n1 nth_append)
    moreover have "map_of (p_types db') = (map_of (p_types db))(n \<mapsto> ?t)"
    proof
      fix k
      have "map_of (p_types db') k = Some t \<longleftrightarrow> ((map_of (p_types db))(n \<mapsto> ?t)) k = Some t" for t
      proof -
        have "map_of (p_types db') k = Some t \<longleftrightarrow> (k, t) \<in> insert (n, ?t) (set (p_types db))"
          using map_of_eq_Some_iff [OF d] set by simp
        also have "\<dots> \<longleftrightarrow> ((map_of (p_types db))(n \<mapsto> ?t)) k = Some t"
          using assms(1) None by (auto simp: types_wf_def map_of_eq_None_iff image_iff)
        finally show ?thesis .
      qed
      then show "map_of (p_types db') k = ((map_of (p_types db))(n \<mapsto> ?t)) k" by (metis not_Some_eq)
    qed
    ultimately show ?thesis using True None arrays(6) by auto
  next
    case False
    have f: "p_types_nprim db' = p_types_nprim db + 1 \<and> type_attr_map_array db' = type_attr_map_array db"
      using assms(4) False unfolding add_type_def symtab_search_def None option.case Let_def
      by (simp only: split: if_split_asm) auto
    then have "\<not> types_wf db'" using assms(1) n1 by (simp add: types_wf_def)
    then show ?thesis using False None by simp
  qed
qed

subsection \<open>Named type transitions\<close>

text \<open>The names resolved, a rule with an object name stores its default type under a key whose source is
  whatever the uninitialised variable held, and marks the source where the target's mark belongs: no
  entry for the source it was asked for changes, and an entry that exists under that key keeps its old
  default.\<close>
theorem named_transition_loses_source:
  assumes "rule_symbols db s t c d = Some (src, tgt, cls, dt)" "po_stype_junk e \<noteq> td_value src"
    and "add_filename_trans e s t c d obj db = Some (ok, db')" "ft_stype key = td_value src"
  shows "map_of (filename_trans db') key = map_of (filename_trans db) key \<and>
    filename_trans_ttypes db' \<subseteq> insert (unat (td_value src - 1)) (filename_trans_ttypes db)"
proof -
  have k: "key \<noteq> \<lparr>ft_stype = po_stype_junk e, ft_ttype = td_value tgt, ft_tclass = ucast (cd_value cls), ft_name = obj\<rparr>"
    using assms(2,4) by auto
  show ?thesis
    using assms(1,3) k
    by (auto simp: add_filename_trans_def Let_def ebitmap_set_bit_def split: option.splits if_splits)
qed


subsection \<open>Witnesses\<close>

lemma ex_policy_types_wf: "types_wf ex_policy" "p_types_nprim ex_policy + 1 \<noteq> 0"
  by (simp_all add: types_wf_def ex_policy_def ex_type_def nth_Cons')

lemma add_type_keeps_tables_witness:
  "(\<exists>db. add_type ex_policy_env ''app'' False ex_policy = (True, db) \<and> types_wf db \<and>
     (\<exists>t. map_of (p_types db) ''app'' = Some t \<and> td_value t = 4)) \<and>
   (\<exists>db. add_type (ex_policy_env\<lparr>po_val_to_name_alloc := False\<rparr>) ''app'' False ex_policy = (False, db) \<and> \<not> types_wf db)"
proof
  obtain ok db where a: "add_type ex_policy_env ''app'' False ex_policy = (ok, db)" by fastforce
  have "ok" using a by (auto simp: add_type_def symtab_search_def ex_policy_types ex_policy_env_def new_type_arrays_def Let_def)
  then show "\<exists>db. add_type ex_policy_env ''app'' False ex_policy = (True, db) \<and> types_wf db \<and>
     (\<exists>t. map_of (p_types db) ''app'' = Some t \<and> td_value t = 4)"
    using add_type_keeps_tables [OF ex_policy_types_wf ex_policy_ok(3) a] a by (simp add: ex_policy_types)
next
  let ?e = "ex_policy_env\<lparr>po_val_to_name_alloc := False\<rparr>"
  obtain ok db where a: "add_type ?e ''app'' False ex_policy = (ok, db)" by fastforce
  have "\<not> ok" using a by (auto simp: add_type_def symtab_search_def ex_policy_types ex_policy_env_def new_type_arrays_def Let_def)
  moreover have "po_ebitmap_alloc ?e b" for b by (simp add: ex_policy_env_def)
  ultimately show "\<exists>db. add_type ?e ''app'' False ex_policy = (False, db) \<and> \<not> types_wf db"
    using add_type_keeps_tables [OF ex_policy_types_wf _ a] a by simp
qed

lemma named_transition_loses_source_witness:
  "\<exists>db. add_filename_trans ex_policy_env ''init'' ''su'' ''file'' ''domain'' ''sock'' ex_policy = Some (True, db) \<and>
     map_of (filename_trans db) \<lparr>ft_stype = 3, ft_ttype = 1, ft_tclass = 1, ft_name = ''sock''\<rparr> = None"
proof -
  have r: "rule_symbols ex_policy ''init'' ''su'' ''file'' ''domain'' = Some (ex_type 3 False, ex_type 1 False, ex_class, ex_type 2 True)"
    by (simp add: rule_symbols_def symtab_search_def ex_policy_types)
  obtain db where d: "add_filename_trans ex_policy_env ''init'' ''su'' ''file'' ''domain'' ''sock'' ex_policy = Some (True, db)"
    using r by (simp add: add_filename_trans_def ex_policy_env_def ebitmap_set_bit_def Let_def)
      (simp add: ex_policy_def)
  have j: "po_stype_junk ex_policy_env \<noteq> td_value (ex_type 3 False)" by (simp add: ex_policy_env_def ex_type_def)
  show ?thesis
    using named_transition_loses_source [OF r j d, of "\<lparr>ft_stype = 3, ft_ttype = 1, ft_tclass = 1, ft_name = ''sock''\<rparr>"] d
    by (simp add: ex_type_def) (simp add: ex_policy_def)
qed

end
