(* ===== verification/Rules_Grow.thy ===== *)
theory Rules_Grow
  imports Rules Sepolicy_Types
begin

text \<open>
  What every one of the driver's own policy edits keeps: nothing allowed is taken back, no type is lost,
  and no NULL pointer is followed.
\<close>

subsection \<open>Edits that only grow the policy\<close>

text \<open>What every one of the driver's rules keeps: allowed accesses, permissive types, known types and the
  values of the classes.\<close>

definition allows_more :: "policydb \<Rightarrow> policydb \<Rightarrow> bool" where
  "allows_more db db' \<longleftrightarrow> (\<forall>k n. k_specified k = AVTAB_ALLOWED \<and> bit (access db k) n \<longrightarrow> bit (access db' k) n)"

definition grows :: "policydb \<Rightarrow> policydb \<Rightarrow> bool" where
  "grows db db' \<longleftrightarrow> avtab_wf (te_avtab db') \<and> allows_more db db' \<and> permissive_map db \<subseteq> permissive_map db' \<and>
     (\<forall>n t. map_of (p_types db) n = Some t \<longrightarrow> map_of (p_types db') n = Some t) \<and>
     set (p_types db) \<subseteq> set (p_types db') \<and>
     (\<lambda>c. cd_value (snd c)) ` set (p_classes db') = (\<lambda>c. cd_value (snd c)) ` set (p_classes db)"

lemma grows_refl: "avtab_wf (te_avtab db) \<Longrightarrow> grows db db"
  by (simp add: grows_def allows_more_def)

lemma grows_trans: "grows a b \<Longrightarrow> grows b c \<Longrightarrow> grows a c"
  by (auto simp: grows_def allows_more_def)

lemma allowed_flag: "AVTAB_ALLOWED \<in> av_flags" "AVTAB_ALLOWED \<in> data_flags"
  by (simp_all add: av_flags_def data_flags_def)

lemma av_update_grows: "bit x n \<Longrightarrow> bit (av_update perm False x) n \<or> \<not> n < 32"
  by (cases perm) (auto simp: av_update_def bit_simps)

lemma bit_u32_less: "bit (x :: u32) n \<Longrightarrow> n < 32"
  using bit_imp_le_length by force

text \<open>An update of the access map with \<open>av_update perm False\<close> only grows the policy.\<close>

lemma updates_grow:
  assumes "updates K (av_update perm False) db db'"
  shows "grows db db'"
proof -
  have "bit (access db' k) n" if "k_specified k = AVTAB_ALLOWED" "bit (access db k) n" for k n
    using assms that allowed_flag(1) av_update_grows [OF that(2), of perm] bit_u32_less [OF that(2)]
    by (auto simp: updates_def)
  moreover have "permissive_map db' = permissive_map db"
  proof -
    have "db' = db\<lparr>te_avtab := te_avtab db', db_len := db_len db'\<rparr>" using assms by (simp add: updates_def)
    then show ?thesis by (metis policydb.select_convs(12) policydb.surjective policydb.update_convs(4,5))
  qed
  ultimately show ?thesis using updates_keeps [OF assms] by (simp add: grows_def allows_more_def)
qed

lemma allow_grows:
  assumes "avtab_wf (te_avtab db)" "apply_allow e rule db = Some db'"
  shows "grows db db'"
proof -
  obtain s t c p ok where r: "add_rule e s t c p AVTAB_ALLOWED False db = Some (ok, db')"
    using assms(2) by (cases rule) (auto simp: apply_allow_def ksu_allow_def)
  show ?thesis
    using add_rule_updates [OF assms(1) allowed_flag(2) r] updates_grow grows_refl [OF assms(1)]
    by (auto split: option.splits)
qed

lemma permissive_grows:
  assumes "avtab_wf (te_avtab db)"
  shows "grows db (snd (ksu_permissive e (Some n) db))"
  using assms
  by (auto simp: ksu_permissive_def set_type_state_def ebitmap_set_bit_def grows_def allows_more_def access_def
      split: option.splits)

lemma map_opt_same:
  assumes "map_opt f xs = Some ys" "\<And>x y. f x = Some y \<Longrightarrow> g y = g x"
  shows "map g ys = map g xs"
  using assms(1) by (induction xs arbitrary: ys) (auto split: option.splits simp: assms(2))

lemma typeattribute_grows:
  assumes "avtab_wf (te_avtab db)" "apply_typeattribute e ty attr db = Some db'"
  shows "grows db db'"
proof -
  obtain ok where r: "add_typeattribute e ty attr db = Some (ok, db')"
    using assms(2) by (auto simp: apply_typeattribute_def ksu_typeattribute_def)
  show ?thesis
  proof (cases "db' = db")
    case False
    then obtain t a m cls where "db' = db\<lparr>type_attr_map_array := m, p_classes := cls\<rparr>"
      "map_opt (\<lambda>(n, cls). map_option (\<lambda>cs. (n, cls\<lparr>cd_constraints := cs\<rparr>))
         (map_opt (map_opt (add_constraint_name e t a)) (cd_constraints cls))) (p_classes db) = Some cls"
      using r by (auto simp: add_typeattribute_def add_typeattribute_raw_def Let_def split: option.splits if_splits)
    moreover from this(2) have "map (\<lambda>c. cd_value (snd c)) cls = map (\<lambda>c. cd_value (snd c)) (p_classes db)"
      by (rule map_opt_same) auto
    then have "(\<lambda>c. cd_value (snd c)) ` set cls = (\<lambda>c. cd_value (snd c)) ` set (p_classes db)"
      by (metis list.set_map)
    ultimately show ?thesis using assms(1) by (simp add: grows_def allows_more_def access_def)
  qed (use grows_refl assms(1) in simp)
qed

lemma add_type_grows:
  assumes "avtab_wf (te_avtab db)" "add_type e n attr db = (ok, db')"
  shows "grows db db'"
proof -
  have m: "map_of (take i xs @ (n, t) # drop i xs) k = Some v" if "map_of xs n = None" "map_of xs k = Some v"
    for i k v and t :: type_datum and xs
  proof -
    have "map_of (take i xs @ drop i xs) k = Some v" "k \<noteq> n" using that by auto
    then show ?thesis by (simp add: map_add_def split: option.splits del: append_take_drop_id)
  qed
  have s: "set xs \<subseteq> set (take i xs @ (n, t) # drop i xs)" for i and t :: type_datum and xs
  proof -
    have "set (take i xs) \<union> set (drop i xs) = set xs" by (metis append_take_drop_id set_append)
    then show ?thesis by auto
  qed
  note f = add_type_frame [OF assms(2)]
  have "(\<forall>k v. map_of (p_types db) k = Some v \<longrightarrow> map_of (p_types db') k = Some v) \<and> set (p_types db) \<subseteq> set (p_types db')"
  proof (cases "p_types db' = p_types db")
    case False
    then obtain t where "map_of (p_types db) n = None"
      "p_types db' = take (po_type_place e) (p_types db) @ (n, t) # drop (po_type_place e) (p_types db)" using f by blast
    then show ?thesis using m s by metis
  qed simp
  then show ?thesis using assms(1) f by (simp add: grows_def allows_more_def access_def)
qed

lemma type_grows:
  assumes "avtab_wf (te_avtab db)" "ksu_type e n attr db = Some (ok, db')"
  shows "grows db db'"
proof -
  obtain ok1 db1 where a: "add_type e n False db = (ok1, db1)" by fastforce
  have g: "grows db db1" by (rule add_type_grows [OF assms(1) a])
  then have w: "avtab_wf (te_avtab db1)" by (simp add: grows_def)
  show ?thesis
  proof (cases ok1)
    case True
    then have "apply_typeattribute e n attr db1 = Some db'"
      using assms(2) a by (simp add: ksu_type_def apply_typeattribute_def ksu_typeattribute_def)
    then show ?thesis using grows_trans [OF g] typeattribute_grows [OF w] by blast
  qed (use assms(2) a g in \<open>simp add: ksu_type_def\<close>)
qed

lemma xperm_node_grows:
  assumes "avtab_wf (te_avtab db)" "k_specified key \<in> {AVTAB_XPERMS_ALLOWED, AVTAB_XPERMS_AUDITALLOW, AVTAB_XPERMS_DONTAUDIT}"
  shows "grows db (snd (get_avtab_node e key (Some x) db)) \<and>
    p_types (snd (get_avtab_node e key (Some x) db)) = p_types db \<and>
    p_classes (snd (get_avtab_node e key (Some x) db)) = p_classes db"
proof (cases "te_avtab (snd (get_avtab_node e key (Some x) db)) = te_avtab db")
  case True
  then have "\<exists>l. snd (get_avtab_node e key (Some x) db) = db\<lparr>te_avtab := te_avtab db, db_len := l\<rparr>"
    by (auto simp: get_avtab_node_def Let_def split: option.splits prod.splits intro: exI [of _ "db_len db"])
  then show ?thesis using assms(1) by (auto simp: grows_def allows_more_def access_def)
next
  case False
  have fl: "k_specified key AND AVTAB_XPERMS \<noteq> 0" using assms(2) by (auto simp: avtab_flags)
  have kx: "key_ok key" "k_specified key \<noteq> AVTAB_ALLOWED" using assms(2) by (auto simp: av_flags_def avtab_flags)
  obtain i l where e: "snd (get_avtab_node e key (Some x) db) =
      db\<lparr>te_avtab := take i (te_avtab db) @ (key, Av_xperms x) # drop i (te_avtab db), db_len := l\<rparr>"
    using False fl by (auto simp: get_avtab_node_def avtab_insert_nonunique_def Let_def split: option.splits if_splits)
  have "av_lookup (take i (te_avtab db) @ (key, Av_xperms x) # drop i (te_avtab db)) k = av_lookup (te_avtab db) k"
    if "k_specified k = AVTAB_ALLOWED" for k
  proof -
    have "key \<noteq> k" using that kx by auto
    then show ?thesis using av_lookup_append [of "take i (te_avtab db)" "drop i (te_avtab db)" k]
      by (simp add: av_lookup_append cong: option.case_cong)
  qed
  moreover have "avtab_wf (take i (te_avtab db) @ (key, Av_xperms x) # drop i (te_avtab db))"
    using assms(1) kx(1) by (auto simp: avtab_wf_def dest: in_set_takeD in_set_dropD)
  ultimately show ?thesis unfolding e by (simp add: grows_def allows_more_def access_def)
qed


lemma fold_grows:
  assumes "\<And>x db. x \<in> set xs \<Longrightarrow> avtab_wf (te_avtab db) \<Longrightarrow> grows db (f x db)" "avtab_wf (te_avtab db)"
  shows "grows db (fold f xs db)"
  using assms
proof (induction xs arbitrary: db)
  case (Cons x xs)
  have x: "grows db (f x db)" using Cons.prems by simp
  then have "grows (f x db) (fold f xs (f x db))" using Cons.prems(1) by (intro Cons.IH) (auto simp: grows_def)
  then show ?case using grows_trans [OF x] by simp
qed (simp add: grows_refl)

lemma xperm_rule_grows:
  assumes "avtab_wf (te_avtab db)" "effect \<in> {AVTAB_XPERMS_ALLOWED, AVTAB_XPERMS_AUDITALLOW, AVTAB_XPERMS_DONTAUDIT}"
  shows "grows db (snd (add_xperm_rule e s t c rng effect invert db))"
proof -
  have l: "grows db (add_xperm_leaf e s t low high effect invert c db)" if "avtab_wf (te_avtab db)" for s t low high c db
    using xperm_node_grows [OF that, of "rule_key s t c effect"] assms(2) by (simp add: add_xperm_leaf_def rule_key_def)
  have t: "grows db (add_xperm_tgt e s c low high effect invert t db)" if "avtab_wf (te_avtab db)" for s t low high c db
    using that l by (cases c) (auto simp: add_xperm_tgt_def intro!: fold_grows)
  have u: "grows db (add_xperm_src e t c low high effect invert s db)" if "avtab_wf (te_avtab db)" for s t low high c db
    using that t by (cases t) (auto simp: add_xperm_src_def intro!: fold_grows)
  have "grows db (add_xperm_rule_raw e s t c low high effect invert db)" for s t low high c
    using assms(1) u by (cases s) (auto simp: add_xperm_rule_raw_def intro!: fold_grows)
  then show ?thesis
    using grows_refl [OF assms(1)] by (simp add: add_xperm_rule_def split: option.split prod.split)
qed

lemma xperm_rules_grow:
  assumes "avtab_wf (te_avtab db)"
  shows "grows db (xperm_rules e db)"
proof -
  have "grows db (fold (\<lambda>c db. snd (ksu_allowxperm e (Some SU_DOMAIN) ANY (Some c) ANY db)) cs db)" for cs
    by (rule fold_grows [OF _ assms]) (simp add: ksu_allowxperm_def xperm_rule_grows)
  then show ?thesis using grows_refl [OF assms] unfolding xperm_rules_def
    by (cases "POLICYDB_VERSION_XPERMS_IOCTL \<le> policyvers db") (simp_all only: if_True if_False)
qed

lemma kernelsu_rule_grows:
  assumes "rule \<in> set (kernelsu_rules e)" "avtab_wf (te_avtab db)" "rule db = Some db'"
  shows "grows db db'"
proof -
  have a: "rule \<in> set (su_domain_rules e) \<or> rule = (\<lambda>db. Some (xperm_rules e db)) \<or> (\<exists>x. rule = apply_allow e x)"
    using assms(1) by (auto simp: kernelsu_rules_def)
  have b: "rule = (\<lambda>db. Some (snd (ksu_permissive e (Some SU_DOMAIN) db))) \<or> (\<exists>ty attr. rule = apply_typeattribute e ty attr) \<or>
      rule = (\<lambda>db. map_option snd (ksu_type e KERNEL_SU_FILE ''file_type'' db)) \<or> (\<exists>x. rule = apply_allow e x)"
    if "rule \<in> set (su_domain_rules e)"
    using that unfolding su_domain_rules_def by (simp only: set_simps insert_iff empty_iff) blast
  consider "rule = (\<lambda>db. Some (snd (ksu_permissive e (Some SU_DOMAIN) db)))" | (2) ty attr where "rule = apply_typeattribute e ty attr"
    | "rule = (\<lambda>db. map_option snd (ksu_type e KERNEL_SU_FILE ''file_type'' db))" | (4) x where "rule = apply_allow e x"
    | "rule = (\<lambda>db. Some (xperm_rules e db))"
    using a b by blast
  then show ?thesis
  proof cases
    case 1
    then show ?thesis using assms(3) permissive_grows [OF assms(2)] by auto
  next
    case (2 ty attr)
    then show ?thesis using assms(3) typeattribute_grows [OF assms(2)] by auto
  next
    case 3
    then show ?thesis using assms(3) type_grows [OF assms(2)] by auto
  next
    case (4 x)
    then show ?thesis using assms(3) allow_grows [OF assms(2)] by auto
  next
    case 5
    then show ?thesis using assms(3) xperm_rules_grow [OF assms(2)] by auto
  qed
qed

interpretation rules: related_steps "\<lambda>rule db. rule db" "\<lambda>rule. rule \<in> set (kernelsu_rules e)"
  "\<lambda>db. avtab_wf (te_avtab db)" grows for e
  by unfold_locales (auto simp: grows_refl intro: kernelsu_rule_grows grows_trans dest: kernelsu_rule_grows [unfolded grows_def])

lemma fold_rules_grow:
  assumes "set rules \<subseteq> set (kernelsu_rules e)" "avtab_wf (te_avtab db)"
    and "fold_opt (\<lambda>rule db. rule db) rules db = Some db'"
  shows "grows db db'"
  using rules.run_rel [OF assms(3)] assms(1,2) by blast

subsection \<open>Edits that follow no NULL pointer\<close>

text \<open>What the attribute edits rely on: an attribute map for every type, and the type names of every
  constraint that compares names.\<close>

definition tables where
  "tables db = (p_types db, p_types_nprim db, p_classes db, type_attr_map_array db)"

definition names_ok :: "constraint_expr \<Rightarrow> bool" where
  "names_ok x \<longleftrightarrow> ce_expr_type x = CEXPR_NAMES \<longrightarrow> ce_type_names x \<noteq> None"

definition policy_safe :: "policydb \<Rightarrow> bool" where
  "policy_safe db \<longleftrightarrow> length (type_attr_map_array db) = unat (p_types_nprim db) \<and>
     (\<forall>(n, t) \<in> set (p_types db). unat (td_value t - 1) < length (type_attr_map_array db)) \<and>
     (\<forall>(n, c) \<in> set (p_classes db). \<forall>xs \<in> set (cd_constraints c). \<forall>x \<in> set xs. names_ok x)"

lemma policy_safe_tables: "tables db' = tables db \<Longrightarrow> policy_safe db' = policy_safe db"
  by (simp add: policy_safe_def tables_def)

lemma get_node_tables: "get_avtab_node e key x db = (r, db') \<Longrightarrow> tables db' = tables db"
  by (auto simp: get_avtab_node_def tables_def Let_def split: option.splits prod.splits)

lemma fold_tables: "(\<And>x db. tables (f x db) = tables db) \<Longrightarrow> tables (fold f xs db) = tables db"
  by (induction xs arbitrary: db) simp_all

lemma fold_opt_tables:
  assumes "\<And>x db db'. f x db = Some db' \<Longrightarrow> tables db' = tables db" "fold_opt f xs db = Some db'"
  shows "tables db' = tables db"
  using assms(2)
proof (induction xs arbitrary: db)
  case (Cons x xs)
  obtain db1 where d: "f x db = Some db1" "fold_opt f xs db1 = Some db'" using Cons.prems by (auto split: option.splits)
  show ?case using Cons.IH [OF d(2)] assms(1) [OF d(1)] by simp
qed simp

lemma allow_tables: "add_rule e s t c p effect invert db = Some (ok, db') \<Longrightarrow> tables db' = tables db"
proof -
  have l: "tables db' = tables db" if d: "add_rule_leaf e src tgt perm effect invert cls db = Some db'" for src tgt perm cls db db'
  proof -
    obtain i db1 where "get_avtab_node e (rule_key src tgt cls effect) None db = (Some i, db1)"
      "db' = set_node_data i (av_update perm invert) db1"
      using d unfolding add_rule_leaf_def by (auto split: prod.splits option.splits)
    then show ?thesis using get_node_tables by (fastforce simp: set_node_data_def tables_def)
  qed
  have t: "tables db' = tables db" if "add_rule_tgt e src cls perm effect invert tgt db = Some db'" for src cls perm tgt db db'
  proof (cases cls)
    case None
    have f: "tables db2 = tables db1" if "(\<lambda>(_, cls). add_rule_leaf e src tgt perm effect invert cls) x db1 = Some db2" for x db1 db2
      using that l by (cases x) auto
    have "fold_opt (\<lambda>(_, cls). add_rule_leaf e src tgt perm effect invert cls) (p_classes db) db = Some db'"
      using that None by (simp add: add_rule_tgt_def)
    from fold_opt_tables [OF f this] show ?thesis .
  qed (use that l in \<open>simp add: add_rule_tgt_def\<close>)
  have u: "tables db' = tables db" if "add_rule_src e tgt cls perm effect invert src db = Some db'" for tgt cls perm src db db'
  proof (cases tgt)
    case None
    then have "fold_opt (add_rule_tgt e src cls perm effect invert) (wildcard_types effect invert db) db = Some db'"
      using that by (simp add: add_rule_src_def)
    from fold_opt_tables [OF t this] show ?thesis .
  next
    case (Some x)
    then have "add_rule_tgt e src cls perm effect invert x db = Some db'" using that by (simp add: add_rule_src_def)
    then show ?thesis by (rule t)
  qed
  have "tables db' = tables db" if "add_rule_raw e src tgt cls perm effect invert db = Some db'" for src tgt cls perm
  proof (cases src)
    case None
    then have "fold_opt (add_rule_src e tgt cls perm effect invert) (wildcard_types effect invert db) db = Some db'"
      using that by (simp add: add_rule_raw_def)
    from fold_opt_tables [OF u this] show ?thesis .
  next
    case (Some x)
    then have "add_rule_src e tgt cls perm effect invert x db = Some db'" using that by (simp add: add_rule_raw_def)
    then show ?thesis by (rule u)
  qed
  then show "add_rule e s t c p effect invert db = Some (ok, db') \<Longrightarrow> tables db' = tables db"
    by (auto simp: add_rule_resolved split: option.splits)
qed

lemma xperm_tables: "tables (snd (add_xperm_rule e s t c rng effect invert db)) = tables db"
proof -
  have l: "tables (add_xperm_leaf e s t low high effect invert c db) = tables db" for s t low high c db
    unfolding add_xperm_leaf_def by (rule get_node_tables) (rule prod.collapse [symmetric])
  have t: "tables (add_xperm_tgt e s c low high effect invert t db) = tables db" for s t low high c db
    using l by (cases c) (auto simp: add_xperm_tgt_def intro!: fold_tables split: prod.split)
  have u: "tables (add_xperm_src e t c low high effect invert s db) = tables db" for s t low high c db
    using t by (cases t) (auto simp: add_xperm_src_def intro!: fold_tables)
  have "tables (add_xperm_rule_raw e s t c low high effect invert db) = tables db" for s t low high c
    using u by (cases s) (auto simp: add_xperm_rule_raw_def intro!: fold_tables)
  then show ?thesis by (simp add: add_xperm_rule_def split: option.split prod.split)
qed

lemma map_opt_total: "(\<And>x. x \<in> set xs \<Longrightarrow> f x \<noteq> None) \<Longrightarrow> map_opt f xs \<noteq> None"
proof (induction xs)
  case (Cons x xs)
  obtain y where "f x = Some y" using Cons.prems [of x] by auto
  then show ?case using Cons.IH Cons.prems by auto
qed simp

lemma map_opt_in: "map_opt f xs = Some ys \<Longrightarrow> y \<in> set ys \<Longrightarrow> \<exists>x \<in> set xs. f x = Some y"
  by (induction xs arbitrary: ys) (auto split: option.splits)

lemma typeattribute_safe:
  assumes "policy_safe db"
  shows "add_typeattribute e ty attr db \<noteq> None"
    "add_typeattribute e ty attr db = Some (ok, db') \<Longrightarrow> policy_safe db' \<and> p_types_nprim db' = p_types_nprim db"
proof -
  have raw: "\<exists>db'. add_typeattribute_raw e t a db = Some db' \<and> policy_safe db' \<and> p_types_nprim db' = p_types_nprim db"
    if "(n, t) \<in> set (p_types db)" for n t a
  proof -
    let ?g = "\<lambda>(n, cls). map_option (\<lambda>cs. (n, cls\<lparr>cd_constraints := cs\<rparr>))
      (map_opt (map_opt (add_constraint_name e t a)) (cd_constraints cls))"
    have x: "add_constraint_name e t a x \<noteq> None" if "names_ok x" for x
      using that by (auto simp: add_constraint_name_def names_ok_def)
    have "map_opt ?g (p_classes db) \<noteq> None"
    proof (rule map_opt_total)
      fix y assume y: "y \<in> set (p_classes db)"
      obtain n c where c: "y = (n, c)" by fastforce
      have "map_opt (map_opt (add_constraint_name e t a)) (cd_constraints c) \<noteq> None"
        using assms y c x by (intro map_opt_total) (auto simp: policy_safe_def)
      then show "?g y \<noteq> None" by (simp add: c)
    qed
    then obtain cls where cls: "map_opt ?g (p_classes db) = Some cls" by blast
    have "names_ok x" if nc: "(n, c) \<in> set cls" and xs: "xs \<in> set (cd_constraints c)" and x: "x \<in> set xs" for n c xs x
    proof -
      obtain c0 cs where c0: "(n, c0) \<in> set (p_classes db)" "map_opt (map_opt (add_constraint_name e t a)) (cd_constraints c0) = Some cs"
        "c = c0\<lparr>cd_constraints := cs\<rparr>" using map_opt_in [OF cls nc] by auto
      then have "xs \<in> set cs" using xs by simp
      then obtain xs0 where xs0: "xs0 \<in> set (cd_constraints c0)" "map_opt (add_constraint_name e t a) xs0 = Some xs"
        using map_opt_in [OF c0(2)] by blast
      obtain x0 where "x0 \<in> set xs0" "add_constraint_name e t a x0 = Some x" using map_opt_in [OF xs0(2) x] by blast
      moreover have "names_ok x0" using calculation(1) xs0(1) c0(1) assms by (auto simp: policy_safe_def)
      ultimately show ?thesis by (auto simp: add_constraint_name_def names_ok_def split: if_splits option.splits)
    qed
    then show ?thesis
      using assms that cls by (auto simp: add_typeattribute_raw_def Let_def policy_safe_def)
  qed
  have "\<exists>ok db'. add_typeattribute e ty attr db = Some (ok, db') \<and> policy_safe db' \<and> p_types_nprim db' = p_types_nprim db"
  proof (cases "map_of (p_types db) ty")
    case (Some t)
    have "\<exists>db'. add_typeattribute_raw e t a db = Some db' \<and> policy_safe db' \<and> p_types_nprim db' = p_types_nprim db" for a
      by (rule raw [OF map_of_SomeD [OF Some]])
    then show ?thesis using Some assms
      by (cases "map_of (p_types db) attr") (fastforce simp: add_typeattribute_def symtab_search_def)+
  qed (use assms in \<open>auto simp: add_typeattribute_def symtab_search_def\<close>)
  then show "add_typeattribute e ty attr db \<noteq> None"
    "add_typeattribute e ty attr db = Some (ok, db') \<Longrightarrow> policy_safe db' \<and> p_types_nprim db' = p_types_nprim db" by auto
qed


text \<open>All allocations succeed.\<close>

definition alloc_ok :: "policy_env \<Rightarrow> bool" where
  "alloc_ok e \<longleftrightarrow> (\<forall>t. po_av_alloc e t) \<and> (\<forall>b. po_ebitmap_alloc e b) \<and> po_type_alloc e \<and> po_key_dup e \<and>
     po_sym_insert e \<and> po_attr_map_alloc e \<and> po_val_to_struct_alloc e \<and> po_val_to_name_alloc e \<and>
     po_attr_map_prealloc e \<and> po_val_to_struct_prealloc e \<and> po_val_to_name_prealloc e"

lemma type_safe:
  assumes "policy_safe db" "alloc_ok e" "p_types_nprim db + 1 \<noteq> 0"
  shows "\<exists>ok db'. ksu_type e n attr db = Some (ok, db') \<and> policy_safe db'"
proof -
  obtain db1 where a: "add_type e n False db = (True, db1)"
  proof (cases "map_of (p_types db) n")
    case None
    have "fst (add_type e n False db)"
      using assms(2) None by (simp add: add_type_def symtab_search_def alloc_ok_def new_type_arrays_def Let_def)
    then show ?thesis using that by (cases "add_type e n False db") simp
  next
    case (Some t)
    then show ?thesis using that by (simp add: add_type_def symtab_search_def)
  qed
  have safe: "policy_safe db1"
  proof (cases "map_of (p_types db) n")
    case None
    note ok = add_type_ok [OF a None]
    have n1: "unat (p_types_nprim db + 1) = Suc (unat (p_types_nprim db))"
      using assms(3) by (metis add.commute unatSuc Suc_eq_plus1_left)
    let ?t = "\<lparr>td_value = p_types_nprim db + 1, td_primary = True, td_attribute = False\<rparr>"
    have p: "p_types db1 = take (po_type_place e) (p_types db) @ (n, ?t) # drop (po_type_place e) (p_types db)"
      "p_types_nprim db1 = p_types_nprim db + 1" "p_classes db1 = p_classes db"
      "length (type_attr_map_array db1) = Suc (unat (p_types_nprim db))"
      unfolding ok(1) by (simp_all add: publish_type_frame)
        (simp_all add: publish_type_def Let_def resize_array_def n1 min_def)
    have "set (p_types db1) \<subseteq> insert (n, ?t) (set (p_types db))"
      unfolding p(1) using set_take_subset [of "po_type_place e" "p_types db"] set_drop_subset [of "po_type_place e" "p_types db"]
      by auto
    then have "unat (td_value t - 1) < Suc (unat (p_types_nprim db))" if "(m, t) \<in> set (p_types db1)" for m t
      using that assms(1) by (fastforce simp: policy_safe_def)
    then show ?thesis using assms(1) p(2-4) n1 by (auto simp: policy_safe_def)
  next
    case (Some t)
    then show ?thesis using a assms(1) by (simp add: add_type_def symtab_search_def)
  qed
  obtain ok db' where "add_typeattribute e n attr db1 = Some (ok, db')" using typeattribute_safe(1) [OF safe] by fastforce
  moreover have "policy_safe db'" using typeattribute_safe(2) [OF safe] calculation by blast
  ultimately show ?thesis using a by (simp add: ksu_type_def)
qed

text \<open>A rule that keeps the tables safe and adds no type.\<close>

definition mild :: "(policydb \<Rightarrow> policydb option) \<Rightarrow> bool" where
  "mild rule \<longleftrightarrow> (\<forall>db. policy_safe db \<longrightarrow>
     (\<exists>db'. rule db = Some db' \<and> policy_safe db' \<and> p_types_nprim db' = p_types_nprim db))"

interpretation mild_steps: total_steps "\<lambda>rule db. rule db" mild "\<lambda>db. policy_safe db \<and> p_types_nprim db = n" for n
  by unfold_locales (force simp: mild_def)+

lemma fold_mild:
  assumes "\<forall>rule \<in> set rules. mild rule" "policy_safe db"
  shows "\<exists>db'. fold_opt (\<lambda>rule db. rule db) rules db = Some db' \<and> policy_safe db' \<and> p_types_nprim db' = p_types_nprim db"
  using mild_steps.run_total [OF assms(1), of db] assms(2) by blast

lemma mild_rules:
  assumes "alloc_ok e"
  shows "mild (apply_allow e x)" "mild (apply_typeattribute e ty attr)" "mild (\<lambda>db. Some (xperm_rules e db))"
    "mild (\<lambda>db. Some (snd (ksu_permissive e (Some n) db)))"
proof -
  have same: "policy_safe db' \<and> p_types_nprim db' = p_types_nprim db" if "policy_safe db" "tables db' = tables db" for db db'
    using that policy_safe_tables [OF that(2)] by (simp add: tables_def)
  show "mild (apply_allow e x)"
    unfolding mild_def
  proof (intro allI impI)
    fix db assume s: "policy_safe db"
    obtain sn t c p where x: "x = (sn, t, c, p)" by (cases x)
    obtain ok db' where "add_rule e sn t c p AVTAB_ALLOWED False db = Some (ok, db')"
      using add_rule_total [of e] assms by (fastforce simp: alloc_ok_def)
    then show "\<exists>db'. apply_allow e x db = Some db' \<and> policy_safe db' \<and> p_types_nprim db' = p_types_nprim db"
      using same [OF s allow_tables] by (auto simp: x apply_allow_def ksu_allow_def)
  qed
  show "mild (apply_typeattribute e ty attr)"
    unfolding mild_def
  proof (intro allI impI)
    fix db assume s: "policy_safe db"
    obtain ok db' where "add_typeattribute e ty attr db = Some (ok, db')" using typeattribute_safe(1) [OF s] by fastforce
    then show "\<exists>db'. apply_typeattribute e ty attr db = Some db' \<and> policy_safe db' \<and> p_types_nprim db' = p_types_nprim db"
      using typeattribute_safe(2) [OF s] by (auto simp: apply_typeattribute_def ksu_typeattribute_def)
  qed
  have "tables (fold (\<lambda>c db. snd (ksu_allowxperm e (Some SU_DOMAIN) ANY (Some c) ANY db)) cs db) = tables db" for cs db
    by (rule fold_tables) (simp add: ksu_allowxperm_def xperm_tables)
  then have "tables (xperm_rules e db) = tables db" for db
    unfolding xperm_rules_def by (cases "POLICYDB_VERSION_XPERMS_IOCTL \<le> policyvers db") (simp_all only: if_True if_False)
  then show "mild (\<lambda>db. Some (xperm_rules e db))" using same unfolding mild_def by blast
  have "tables (snd (ksu_permissive e (Some n) db)) = tables db" for db
    by (simp add: ksu_permissive_def set_type_state_def tables_def split: option.split prod.split)
  then show "mild (\<lambda>db. Some (snd (ksu_permissive e (Some n) db)))" using same unfolding mild_def by blast
qed

text \<open>With enough memory the driver's rules are applied to the end.\<close>

lemma kernelsu_rules_applied:
  assumes "policy_safe db" "alloc_ok e" "p_types_nprim db + 1 \<noteq> 0"
  shows "fold_opt (\<lambda>rule db. rule db) (kernelsu_rules e) db \<noteq> None"
proof -
  let ?f = "\<lambda>rule db. rule db :: policydb option"
  let ?pre = "take 4 (su_domain_rules e)" and ?post = "drop 5 (su_domain_rules e) @ [\<lambda>db. Some (xperm_rules e db)] @ map (apply_allow e) allow_rules"
  have split: "kernelsu_rules e = ?pre @ [\<lambda>db. map_option snd (ksu_type e KERNEL_SU_FILE ''file_type'' db)] @ ?post"
    by (simp add: kernelsu_rules_def su_domain_rules_def)
  have "\<forall>rule \<in> set ?pre. mild rule" "\<forall>rule \<in> set ?post. mild rule"
    using mild_rules [OF assms(2)] by (auto simp: su_domain_rules_def)
  note pre = fold_mild [OF this(1) assms(1)] and post = fold_mild [OF this(2)]
  obtain db1 where a: "fold_opt ?f ?pre db = Some db1" "policy_safe db1" "p_types_nprim db1 = p_types_nprim db" using pre by blast
  obtain ok db2 where b: "ksu_type e KERNEL_SU_FILE ''file_type'' db1 = Some (ok, db2)" "policy_safe db2"
    using type_safe [OF a(2) assms(2)] a(3) assms(3) by metis
  obtain db3 where "fold_opt ?f ?post db2 = Some db3" using post [OF b(2)] by blast
  then have "fold_opt ?f (kernelsu_rules e) db = Some db3" unfolding split fold_opt_append a(1) by (simp add: b(1))
  then show ?thesis by simp
qed

end
