(* ===== verification/Sepolicy_Props.thy ===== *)
theory Sepolicy_Props
  imports Sepolicy_Rules
begin

text \<open>
  Properties of the policy edits: access vector rules as map updates, extended permissions, and the
  tables of types.
\<close>

subsection \<open>Access vector rules\<close>

text \<open>C9. A rule of \<open>add_rule\<close> succeeds exactly when every name given is known, and does nothing
  otherwise. On success it is one update of the map from keys to access vectors: every key of a source,
  a target and a class that the names or wildcards stand for gets the permission's bit set or cleared
  (all bits without a permission), every other key and the rest of the database stay as they are. The
  order of the hash chains and where new nodes go do not matter; while allocations succeed no NULL
  pointer is followed.\<close>
theorem rule_updates_access_map:
  assumes "avtab_wf (te_avtab db)" "effect \<in> data_flags"
  shows "((\<forall>t. po_av_alloc e t) \<longrightarrow> add_rule e s t c p effect invert db \<noteq> None) \<and>
    (\<forall>ok db'. add_rule e s t c p effect invert db = Some (ok, db') \<longrightarrow>
      (case rule_resolves s t c p db of
        None \<Rightarrow> \<not> ok \<and> db' = db
      | Some (src, tgt, cls, perm) \<Rightarrow> ok \<and> db' = db\<lparr>te_avtab := te_avtab db', db_len := db_len db'\<rparr> \<and>
          avtab_wf (te_avtab db') \<and>
          (\<forall>k. key_ok k \<longrightarrow> access db' k =
            (if k \<in> rule_keys src tgt cls effect invert db then av_update perm invert (access db k) else access db k))))"
proof (intro conjI allI impI)
  show "add_rule e s t c p effect invert db \<noteq> None" if "\<forall>t. po_av_alloc e t" using that add_rule_total by blast
next
  fix ok db'
  assume "add_rule e s t c p effect invert db = Some (ok, db')"
  from add_rule_updates [OF assms this]
  show "case rule_resolves s t c p db of
        None \<Rightarrow> \<not> ok \<and> db' = db
      | Some (src, tgt, cls, perm) \<Rightarrow> ok \<and> db' = db\<lparr>te_avtab := te_avtab db', db_len := db_len db'\<rparr> \<and>
          avtab_wf (te_avtab db') \<and>
          (\<forall>k. key_ok k \<longrightarrow> access db' k =
            (if k \<in> rule_keys src tgt cls effect invert db then av_update perm invert (access db k) else access db k))"
    by (auto simp: updates_def split: option.split)
qed

lemma resolves_same:
  "p_types db' = p_types db \<Longrightarrow> p_classes db' = p_classes db \<Longrightarrow> rule_resolves s t c p db' = rule_resolves s t c p db"
  by (simp add: rule_resolves_def)

lemma rule_keys_same:
  "p_types db' = p_types db \<Longrightarrow> p_classes db' = p_classes db \<Longrightarrow> rule_keys s t c f i db' = rule_keys s t c f i db"
  by (simp add: rule_keys_def rule_types_def rule_classes_def wildcard_types_def cong: option.case_cong)

lemma rule_keys_flag: "k \<in> rule_keys s t c f i db \<Longrightarrow> k_specified k = f"
  by (auto simp: rule_keys_def rule_key_def)

lemma allow_keys_denied: "rule_keys s t c AVTAB_ALLOWED False db \<subseteq> rule_keys s t c AVTAB_ALLOWED True db"
proof -
  have "rule_types ty AVTAB_ALLOWED False db \<subseteq> rule_types ty AVTAB_ALLOWED True db" for ty
    by (auto simp: rule_types_def wildcard_types_def strip_av_def avtab_flags split: option.split)
  then show ?thesis unfolding rule_keys_def by blast
qed

text \<open>The bits of an access vector that a permission stands for; no permission stands for all.\<close>

definition rule_bit :: "u32 option \<Rightarrow> nat \<Rightarrow> bool" where
  "rule_bit perm n \<longleftrightarrow> (case perm of None \<Rightarrow> True | Some v \<Rightarrow> n = unat (v - 1))"

lemma av_update_bit:
  assumes "n < 32"
  shows "bit (av_update perm invert x) n \<longleftrightarrow> (if rule_bit perm n then \<not> invert else bit x n)"
proof (cases perm)
  case None
  then show ?thesis using assms by (simp add: av_update_def rule_bit_def)
next
  case (Some v)
  have "bit (push_bit (unat (v - 1)) 1 :: u32) n \<longleftrightarrow> n = unat (v - 1)"
    using assms by (auto simp: bit_simps)
  then show ?thesis using assms by (auto simp: Some av_update_def rule_bit_def bit_or_iff bit_and_iff bit_not_iff)
qed

text \<open>C24. An allow rule sets the permission in every access vector its names stand for and touches no
  other bit; a denial with the same names afterwards clears the permission in all of these again, and
  leaves every other bit of them, and every access vector it does not name, as the allow rule found it.
  A wildcard in an allow rule stands for the attributes only, in a denial for all types, so the
  denial reaches at least as far.\<close>
theorem deny_takes_back_allow:
  assumes "avtab_wf (te_avtab db)" "ksu_allow e s t c p db = Some (True, db1)" "ksu_deny e s t c p db1 = Some (ok, db2)"
  shows "\<exists>src tgt cls perm. rule_resolves s t c p db = Some (src, tgt, cls, perm) \<and> ok \<and>
    rule_keys src tgt cls AVTAB_ALLOWED False db \<subseteq> rule_keys src tgt cls AVTAB_ALLOWED True db \<and>
    (\<forall>k n. key_ok k \<and> n < 32 \<longrightarrow>
       (bit (access db1 k) n \<longleftrightarrow>
          k \<in> rule_keys src tgt cls AVTAB_ALLOWED False db \<and> rule_bit perm n \<or> bit (access db k) n) \<and>
       (bit (access db2 k) n \<longleftrightarrow>
          \<not> (k \<in> rule_keys src tgt cls AVTAB_ALLOWED True db \<and> rule_bit perm n) \<and> bit (access db k) n))"
proof -
  have f: "AVTAB_ALLOWED \<in> data_flags" by (simp add: data_flags_def)
  have a: "add_rule e s t c p AVTAB_ALLOWED False db = Some (True, db1)"
    and d: "add_rule e s t c p AVTAB_ALLOWED True db1 = Some (ok, db2)"
    using assms(2,3) by (simp_all add: ksu_allow_def ksu_deny_def)
  obtain src tgt cls perm where r: "rule_resolves s t c p db = Some (src, tgt, cls, perm)"
    and u: "updates (rule_keys src tgt cls AVTAB_ALLOWED False db) (av_update perm False) db db1"
    using add_rule_updates [OF assms(1) f a] by (auto split: option.splits)
  have same: "p_types db1 = p_types db" "p_classes db1 = p_classes db" "avtab_wf (te_avtab db1)"
    using updates_keeps [OF u] by simp_all
  have v: "ok" "updates (rule_keys src tgt cls AVTAB_ALLOWED True db) (av_update perm True) db1 db2"
    using add_rule_updates [OF same(3) f d] r resolves_same [OF same(1,2), of s t c p]
      rule_keys_same [OF same(1,2), of src tgt cls AVTAB_ALLOWED True] by simp_all
  note sub = allow_keys_denied [of src tgt cls db]
  have "(bit (access db1 k) n \<longleftrightarrow>
          k \<in> rule_keys src tgt cls AVTAB_ALLOWED False db \<and> rule_bit perm n \<or> bit (access db k) n) \<and>
       (bit (access db2 k) n \<longleftrightarrow>
          \<not> (k \<in> rule_keys src tgt cls AVTAB_ALLOWED True db \<and> rule_bit perm n) \<and> bit (access db k) n)"
    if k: "key_ok k" "n < 32" for k n
  proof -
    have 1: "access db1 k = (if k \<in> rule_keys src tgt cls AVTAB_ALLOWED False db
        then av_update perm False (access db k) else access db k)"
      and 2: "access db2 k = (if k \<in> rule_keys src tgt cls AVTAB_ALLOWED True db
        then av_update perm True (access db1 k) else access db1 k)"
      using u v(2) k(1) unfolding updates_def by blast+
    show ?thesis using sub unfolding 2 by (auto simp: 1 av_update_bit [OF k(2)])
  qed
  then show ?thesis using r v(1) sub by blast
qed

subsection \<open>Extended permissions\<close>

definition xperm_bit :: "u32 list \<Rightarrow> nat \<Rightarrow> bool" where
  "xperm_bit p i \<longleftrightarrow> bit (p ! (i div 32)) (i mod 32)"

lemma xperm_set_bit:
  assumes "length p = 8" "x < 256" "i < 256"
  shows "length (xperm_set x p) = 8" "xperm_bit (xperm_set x p) i \<longleftrightarrow> i = x \<or> xperm_bit p i"
proof -
  show "length (xperm_set x p) = 8" using assms by (simp add: xperm_set_def)
  have "x div 32 < length p" using assms by simp
  moreover have "i = x \<longleftrightarrow> i div 32 = x div 32 \<and> i mod 32 = x mod 32"
    by (metis div_mult_mod_eq)
  moreover have "i mod 32 < 32" by simp
  ultimately show "xperm_bit (xperm_set x p) i \<longleftrightarrow> i = x \<or> xperm_bit p i"
    by (cases "i div 32 = x div 32")
      (auto simp: xperm_set_def xperm_bit_def bit_or_iff bit_push_bit_iff bit_1_iff bit_exp_iff)
qed

lemma xperm_range_bits:
  assumes "i < 256"
  shows "length (xperm_range False lo hi) = 8" "xperm_bit (xperm_range False lo hi) i \<longleftrightarrow> unat lo \<le> i \<and> i \<le> unat hi"
proof -
  have f: "length (fold xperm_set xs p) = 8 \<and> (xperm_bit (fold xperm_set xs p) i \<longleftrightarrow> i \<in> set xs \<or> xperm_bit p i)"
    if "length p = 8" "\<forall>x \<in> set xs. x < 256" for xs p
    using that
  proof (induction xs arbitrary: p)
    case (Cons x xs)
    then show ?case using xperm_set_bit [of p x i] assms by auto
  qed simp
  have "x < 256" if "x \<in> set [unat lo..<Suc (unat hi)]" for x
  proof -
    have "unat hi < 256" using unsigned_less [of hi] by simp
    then show ?thesis using that by auto
  qed
  then have r: "length (fold xperm_set [unat lo..<Suc (unat hi)] (replicate 8 0)) = 8 \<and>
      (xperm_bit (fold xperm_set [unat lo..<Suc (unat hi)] (replicate 8 0)) i \<longleftrightarrow>
       i \<in> set [unat lo..<Suc (unat hi)] \<or> xperm_bit (replicate 8 0) i)"
    by (intro f) auto
  have z: "\<not> xperm_bit (replicate 8 0) i" using assms by (simp add: xperm_bit_def)
  have e: "(\<lambda>i. if False then xperm_clear i else xperm_set i) = xperm_set" by auto
  show "length (xperm_range False lo hi) = 8" "xperm_bit (xperm_range False lo hi) i \<longleftrightarrow> unat lo \<le> i \<and> i \<le> unat hi"
    using r z unfolding xperm_range_def e by (auto simp del: upt_Suc)
qed

text \<open>The extended permissions that a key has for a driver, in the table's order.\<close>

definition xperm_entries :: "policydb \<Rightarrow> avtab_key \<Rightarrow> u8 \<Rightarrow> u8 \<Rightarrow> avtab_datum list" where
  "xperm_entries db key sp dr = map snd (filter (\<lambda>(k, d). avtab_match key k \<and>
     (case d of Av_data _ \<Rightarrow> False | Av_xperms y \<Rightarrow> xp_specified y = sp \<and> xp_driver y = dr)) (te_avtab db))"

lemma xperm_entries_none:
  "find_index (xperm_match key x) (te_avtab db) = None \<longleftrightarrow>
    xperm_entries db key (xp_specified x) (xp_driver x) = []"
  by (auto simp: find_index_None xperm_entries_def xperm_match_def filter_empty_conv split: prod.splits)

text \<open>The driver of an ioctl is its upper byte, the function its lower one.\<close>

lemma ioctl_parts:
  "unat (ioctl_driver v) = unat v div 256" "unat (ioctl_func v) = unat v mod 256"
  "ioctl_driver v = word_of_nat (unat v div 256)" "ioctl_driver v = ioctl_driver w \<longleftrightarrow> unat v div 256 = unat w div 256"
proof -
  have l: "unat v div 256 < 256" for v :: u16
  proof -
    have "unat v < 65536" using unsigned_less [of v] by simp
    then show ?thesis by simp
  qed
  have m: "(255 :: u16) = mask 8" by (simp add: mask_eq_exp_minus_1)
  have d: "unat (ioctl_driver v) = unat v div 256" for v
    using l [of v] by (simp add: ioctl_driver_def m flip: take_bit_eq_mask) (simp add: unsigned_ucast_eq unsigned_take_bit_eq unsigned_drop_bit_eq drop_bit_eq_div take_bit_eq_mod
        unat_mod_distrib unat_div_distrib)
  show "unat (ioctl_driver v) = unat v div 256" by (rule d)
  show "unat (ioctl_func v) = unat v mod 256"
    by (simp add: ioctl_func_def m flip: take_bit_eq_mask)
      (simp add: unsigned_ucast_eq unsigned_take_bit_eq take_bit_eq_mod unat_mod_distrib)
  show "ioctl_driver v = word_of_nat (unat v div 256)" unfolding d [symmetric] by simp
  show "ioctl_driver v = ioctl_driver w \<longleftrightarrow> unat v div 256 = unat w div 256" by (metis d word_unat_eq_iff)
qed

text \<open>C35. An extended permission rule for a named source, target and class always reports success.
  Where the key has no entry for the driver yet, it adds one: of the driver kind for drivers from one to
  another, of the function kind and with the driver's number for functions of one driver, with exactly
  the bits of the range; every entry of the table stays, in its order, and so does the rest of the
  policy. But it only ever adds: where the key already has an entry of that kind for the driver, the
  policy stays entirely as it was, whatever range was asked for.\<close>
theorem xperm_rule_never_extends:
  assumes "symtab_search (p_types db) s = Some src" "symtab_search (p_types db) t = Some tgt"
    "symtab_search (p_classes db) c = Some cls" "effect \<in> {AVTAB_XPERMS_ALLOWED, AVTAB_XPERMS_AUDITALLOW, AVTAB_XPERMS_DONTAUDIT}"
    "\<And>t. po_av_alloc e t" "xperm_bounds e rng = (low, high)"
  defines "key \<equiv> rule_key src tgt cls effect" and "wide \<equiv> unat low div 256 \<noteq> unat high div 256"
  defines "sp \<equiv> if wide then AVTAB_XPERMS_IOCTLDRIVER else AVTAB_XPERMS_IOCTLFUNCTION"
    and "dr \<equiv> if wide then 0 else word_of_nat (unat low div 256)"
  shows "\<exists>db'. add_xperm_rule e (Some s) (Some t) (Some c) rng effect False db = (True, db') \<and>
    (if xperm_entries db key sp dr \<noteq> [] then db' = db
     else \<exists>x before after. te_avtab db = before @ after \<and>
       db' = db\<lparr>te_avtab := before @ (key, Av_xperms x) # after, db_len := db_len db + 50\<rparr> \<and>
       xp_specified x = sp \<and> xp_driver x = dr \<and> length (xp_perms x) = 8 \<and>
       (\<forall>i < 256. xperm_bit (xp_perms x) i \<longleftrightarrow>
         (if wide then unat low div 256 \<le> i \<and> i \<le> unat high div 256
          else unat low mod 256 \<le> i \<and> i \<le> unat high mod 256)))"
proof -
  let ?x = "make_xperms low high False" and ?T = "te_avtab db"
  have r: "add_xperm_rule e (Some s) (Some t) (Some c) rng effect False db = (True, snd (get_avtab_node e key (Some ?x) db))"
    using assms(1-3,6)
    by (simp add: key_def add_xperm_rule_def optional_symbol_def add_xperm_rule_raw_def
        add_xperm_src_def add_xperm_tgt_def add_xperm_leaf_def)
  have fl: "k_specified key AND AVTAB_XPERMS \<noteq> 0" using assms(4) by (auto simp: key_def rule_key_def avtab_flags)
  have w: "ioctl_driver low \<noteq> ioctl_driver high \<longleftrightarrow> wide" by (simp add: wide_def ioctl_parts(4))
  have x: "xp_specified ?x = sp" "xp_driver ?x = dr" "length (xp_perms ?x) = 8"
    "\<forall>i < 256. xperm_bit (xp_perms ?x) i \<longleftrightarrow>
       (if wide then unat low div 256 \<le> i \<and> i \<le> unat high div 256
        else unat low mod 256 \<le> i \<and> i \<le> unat high mod 256)"
    using xperm_range_bits(1) [of 0] xperm_range_bits(2)
    by (simp_all add: make_xperms_def w sp_def dr_def ioctl_parts(1,2)) (simp add: ioctl_parts(3))
  note n = xperm_entries_none [of key ?x db, unfolded x(1,2)]
  define i where "i = min (po_av_place e ?T key) (length ?T)"
  have old: "snd (get_avtab_node e key (Some ?x) db) = db" if "xperm_entries db key sp dr \<noteq> []"
    using n fl that by (auto simp: get_avtab_node_def)
  have new: "snd (get_avtab_node e key (Some ?x) db) =
      db\<lparr>te_avtab := take i ?T @ (key, Av_xperms ?x) # drop i ?T, db_len := db_len db + 50\<rparr>"
    if "xperm_entries db key sp dr = []"
    using n that fl assms(5) by (simp add: get_avtab_node_def avtab_insert_nonunique_def Let_def i_def)
  show ?thesis
  proof (cases "xperm_entries db key sp dr = []")
    case True
    have c: "\<not> xperm_entries db key sp dr \<noteq> []" using True by simp
    show ?thesis
      unfolding r new [OF True] if_not_P [OF c]
      by (rule exI, rule conjI [OF refl], rule exI [of _ ?x], rule exI [of _ "take i ?T"], rule exI [of _ "drop i ?T"],
        intro conjI) (rule append_take_drop_id [symmetric], rule refl, (rule x)+)
  next
    case False
    then show ?thesis unfolding r old [OF False] by simp
  qed
qed

subsection \<open>Witnesses\<close>

lemma rule_updates_access_map_witness:
  "\<exists>db. add_rule ex_policy_env (Some ''init'') None (Some ''file'') (Some ''write'') AVTAB_ALLOWED False ex_policy = Some (True, db) \<and>
    access db (rule_key (ex_type 3 False) (ex_type 2 True) ex_class AVTAB_ALLOWED) = 2 \<and>
    access db (rule_key (ex_type 3 False) (ex_type 1 False) ex_class AVTAB_ALLOWED) = 0"
proof -
  have f: "AVTAB_ALLOWED \<in> data_flags" "AVTAB_ALLOWED \<in> av_flags" by (simp_all add: data_flags_def av_flags_def)
  note t = rule_updates_access_map [OF ex_policy_ok(1) f(1), of ex_policy_env "Some ''init''" None "Some ''file''" "Some ''write''" False]
  have r: "rule_resolves (Some ''init'') None (Some ''file'') (Some ''write'') ex_policy =
      Some (Some (ex_type 3 False), None, Some ex_class, Some 2)"
    by (simp add: rule_resolves_def optional_symbol_def symtab_search_def ex_policy_types find_perm_def) (simp add: ex_class_def)
  obtain ok db where a: "add_rule ex_policy_env (Some ''init'') None (Some ''file'') (Some ''write'') AVTAB_ALLOWED False ex_policy = Some (ok, db)"
    using t ex_policy_ok(2) by fastforce
  have u: "ok \<and> (\<forall>k. key_ok k \<longrightarrow> access db k =
      (if k \<in> rule_keys (Some (ex_type 3 False)) None (Some ex_class) AVTAB_ALLOWED False ex_policy
       then av_update (Some 2) False (access ex_policy k) else access ex_policy k))"
    using t a r by simp
  have s: "rule_keys (Some (ex_type 3 False)) None (Some ex_class) AVTAB_ALLOWED False ex_policy =
      {rule_key (ex_type 3 False) (ex_type 2 True) ex_class AVTAB_ALLOWED}"
    by (auto simp: rule_keys_def rule_types_def rule_classes_def wildcard_types_def strip_av_def avtab_flags ex_policy_def ex_type_def)
  have z: "access ex_policy k = (if k_specified k = AVTAB_AUDITDENY then NOT 0 else 0)" for k
    by (simp add: access_def ex_policy_def initial_av_def)
  have "access db (rule_key (ex_type 3 False) (ex_type 2 True) ex_class AVTAB_ALLOWED) = 2"
    using u f(2) by (simp add: s z rule_key_def av_update_def) (simp add: avtab_flags)
  moreover have "access db (rule_key (ex_type 3 False) (ex_type 1 False) ex_class AVTAB_ALLOWED) = 0"
  proof -
    have "rule_key (ex_type 3 False) (ex_type 1 False) ex_class AVTAB_ALLOWED \<noteq> rule_key (ex_type 3 False) (ex_type 2 True) ex_class AVTAB_ALLOWED"
      "k_specified (rule_key (ex_type 3 False) (ex_type 1 False) ex_class AVTAB_ALLOWED) = AVTAB_ALLOWED"
      by (simp_all add: rule_key_def ex_type_def)
    then show ?thesis using u f(2) unfolding s z by (simp add: avtab_flags)
  qed
  ultimately show ?thesis using a u by simp
qed

lemma deny_takes_back_allow_witness:
  "\<exists>db1 db2. ksu_allow ex_policy_env None None None None ex_policy = Some (True, db1) \<and>
    ksu_deny ex_policy_env None None None None db1 = Some (True, db2) \<and>
    access db1 (rule_key (ex_type 2 True) (ex_type 2 True) ex_class AVTAB_ALLOWED) = NOT 0 \<and>
    access db2 (rule_key (ex_type 2 True) (ex_type 2 True) ex_class AVTAB_ALLOWED) = 0"
proof -
  have r: "rule_resolves None None None None ex_policy = Some (None, None, None, None)"
    by (simp add: rule_resolves_def optional_symbol_def find_perm_def)
  obtain ok1 db1 where "add_rule ex_policy_env None None None None AVTAB_ALLOWED False ex_policy = Some (ok1, db1)"
    using add_rule_total [OF ex_policy_ok(2)] by fastforce
  moreover from this have "ok1" using r by (auto simp: add_rule_resolved)
  ultimately have a: "ksu_allow ex_policy_env None None None None ex_policy = Some (True, db1)" by (simp add: ksu_allow_def)
  obtain ok db2 where d: "ksu_deny ex_policy_env None None None None db1 = Some (ok, db2)"
    using add_rule_total [OF ex_policy_ok(2)] unfolding ksu_deny_def by fastforce
  have k: "rule_key (ex_type 2 True) (ex_type 2 True) ex_class AVTAB_ALLOWED \<in> rule_keys None None None AVTAB_ALLOWED False ex_policy"
  proof -
    have "ex_type 2 True \<in> rule_types None AVTAB_ALLOWED False ex_policy" "ex_class \<in> rule_classes None ex_policy"
      by (auto simp: rule_types_def rule_classes_def wildcard_types_def ex_policy_def ex_type_def)
    then show ?thesis unfolding rule_keys_def by blast
  qed
  have ok: "key_ok (rule_key (ex_type 2 True) (ex_type 2 True) ex_class AVTAB_ALLOWED)"
    using rule_keys_flag [OF k] data_flag_ok(1) [of AVTAB_ALLOWED] by (simp add: data_flags_def)
  obtain D where x: "ok" "rule_keys None None None AVTAB_ALLOWED False ex_policy \<subseteq> D"
    "\<forall>k n. key_ok k \<and> n < 32 \<longrightarrow>
       (bit (access db1 k) n \<longleftrightarrow> k \<in> rule_keys None None None AVTAB_ALLOWED False ex_policy \<and> rule_bit None n
          \<or> bit (access ex_policy k) n) \<and>
       (bit (access db2 k) n \<longleftrightarrow> \<not> (k \<in> D \<and> rule_bit None n) \<and> bit (access ex_policy k) n)"
    using deny_takes_back_allow [OF ex_policy_ok(1) a d] r by auto
  show ?thesis
    using x(1) a d bit_word_eqI [of "access db1 _" "NOT 0 :: u32"] bit_word_eqI [of "access db2 _" "0 :: u32"]
      x(2,3) k ok by (auto simp: rule_bit_def subset_iff)
qed

lemma xperm_rule_never_extends_witness:
  "\<exists>db db'. add_xperm_rule ex_policy_env (Some ''su'') (Some ''init'') (Some ''file'') (Some ''8910-8911'') AVTAB_XPERMS_ALLOWED False ex_policy
      = (True, db) \<and> length (te_avtab db) = 1 \<and>
    add_xperm_rule ex_policy_env (Some ''su'') (Some ''init'') (Some ''file'') (Some ''8910-8911'') AVTAB_XPERMS_ALLOWED False db = (True, db') \<and>
    db' = db"
proof -
  have b: "xperm_bounds ex_policy_env (Some ''8910-8911'') = (0x8910, 0x8911)"
    by (simp add: xperm_bounds_def ex_policy_env_def)
  have s: "symtab_search (p_types ex_policy) ''su'' = Some (ex_type 1 False)"
    "symtab_search (p_types ex_policy) ''init'' = Some (ex_type 3 False)" "symtab_search (p_classes ex_policy) ''file'' = Some ex_class"
    by (simp_all add: symtab_search_def ex_policy_types)
  have f: "AVTAB_XPERMS_ALLOWED \<in> {AVTAB_XPERMS_ALLOWED, AVTAB_XPERMS_AUDITALLOW, AVTAB_XPERMS_DONTAUDIT}" by simp
  let ?key = "rule_key (ex_type 1 False) (ex_type 3 False) ex_class AVTAB_XPERMS_ALLOWED"
  have e: "te_avtab ex_policy = []" "xperm_entries ex_policy k sp dr = []" for k sp dr
    by (simp_all add: xperm_entries_def ex_policy_def)
  obtain db x where d: "add_xperm_rule ex_policy_env (Some ''su'') (Some ''init'') (Some ''file'') (Some ''8910-8911'') AVTAB_XPERMS_ALLOWED False ex_policy = (True, db)"
    "db = ex_policy\<lparr>te_avtab := [(?key, Av_xperms x)], db_len := db_len ex_policy + 50\<rparr>"
    "xp_specified x = AVTAB_XPERMS_IOCTLFUNCTION" "xp_driver x = 0x89"
    using xperm_rule_never_extends [OF s f ex_policy_ok(2) b] e by auto
  have t: "symtab_search (p_types db) ''su'' = Some (ex_type 1 False)"
    "symtab_search (p_types db) ''init'' = Some (ex_type 3 False)" "symtab_search (p_classes db) ''file'' = Some ex_class"
    using s by (simp_all add: d(2))
  have m: "avtab_match ?key ?key" by (simp add: avtab_match_def rule_key_def avtab_flags)
  have n: "xperm_entries db ?key AVTAB_XPERMS_IOCTLFUNCTION 0x89 \<noteq> []"
    using d(3,4) m by (simp add: d(2) xperm_entries_def)
  show ?thesis
    using xperm_rule_never_extends [OF t f ex_policy_ok(2) b] n d(1) by (simp add: d(2))
qed

end
