(* ===== verification/Rules_Props.thy ===== *)
theory Rules_Props
  imports Rules_Grow Sepolicy_Props Sucompat
begin

text \<open>
  Properties of the driver's own rules and of the rule requests: what the su domain may do afterwards,
  what a request changes, and what a failed one leaves alone.
\<close>

subsection \<open>What the su domain may do\<close>

text \<open>The rule that allows everything to su, in whatever policy it meets.\<close>

lemma allow_everything:
  assumes "avtab_wf (te_avtab db)" "map_of (p_types db) SU_DOMAIN = Some su"
    "apply_allow e (Some SU_DOMAIN, ANY, ANY, ANY) db = Some db'"
    "(n, t) \<in> set (p_types db)" "td_attribute t" "c \<in> snd ` set (p_classes db)"
  shows "access db' (rule_key su t c AVTAB_ALLOWED) = NOT 0"
proof -
  obtain ok where r: "add_rule e (Some SU_DOMAIN) ANY ANY ANY AVTAB_ALLOWED False db = Some (ok, db')"
    using assms(3) by (auto simp: apply_allow_def ksu_allow_def)
  have res: "rule_resolves (Some SU_DOMAIN) ANY ANY ANY db = Some (Some su, None, None, None)"
    using assms(2) by (simp add: rule_resolves_def optional_symbol_def symtab_search_def find_perm_def)
  have "updates (rule_keys (Some su) None None AVTAB_ALLOWED False db) (av_update None False) db db'"
    using add_rule_updates [OF assms(1) allowed_flag(2) r] res by simp
  moreover have "t \<in> set (wildcard_types AVTAB_ALLOWED False db)" using assms(4,5) by (force simp: wildcard_types_def)
  then have "rule_key su t c AVTAB_ALLOWED \<in> rule_keys (Some su) None None AVTAB_ALLOWED False db"
    using assms(6) by (auto simp: rule_keys_def rule_types_def rule_classes_def)
  moreover have "key_ok (rule_key su t c AVTAB_ALLOWED)" by (simp add: rule_key_def allowed_flag)
  ultimately show ?thesis by (simp add: updates_def av_update_def)
qed

text \<open>C10. While allocations succeed the driver's rules are applied to the end, on any policy with
  consistent tables. Afterwards the su domain is permissive and allowed every permission of every class on
  every attribute of the policy, and with that on every type that carries one; what was allowed to any
  domain before is still allowed, no type disappears and the table stays well formed.\<close>
theorem su_domain_unconfined:
  assumes "avtab_wf (te_avtab (rs_db st))" "map_of (p_types (rs_db st)) SU_DOMAIN = Some su"
    "policy_safe (rs_db st)" "alloc_ok e" "p_types_nprim (rs_db st) + 1 \<noteq> 0"
  shows "\<exists>st'. ksu_apply_kernelsu_rules e se st = Some st' \<and>
    unat (td_value su) \<in> permissive_map (rs_db st') \<and>
    (\<forall>(n, t) \<in> set (p_types (rs_db st)). \<forall>c \<in> snd ` set (p_classes (rs_db st)).
       td_attribute t \<longrightarrow> access (rs_db st') (rule_key su t c AVTAB_ALLOWED) = NOT 0) \<and>
    allows_more (rs_db st) (rs_db st') \<and> set (p_types (rs_db st)) \<subseteq> set (p_types (rs_db st')) \<and>
    avtab_wf (te_avtab (rs_db st'))"
proof -
  obtain st' where st': "ksu_apply_kernelsu_rules e se st = Some st'"
    using kernelsu_rules_applied [OF assms(3-5)] by (auto simp: ksu_apply_kernelsu_rules_def)
  let ?db = "rs_db st" and ?f = "\<lambda>rule db. rule db :: policydb option"
  let ?p = "snd (ksu_permissive e (Some SU_DOMAIN) ?db)"
  let ?pre = "tl (take 7 (su_domain_rules e))" and ?rest = "(\<lambda>db. Some (xperm_rules e db)) # map (apply_allow e) allow_rules"
  have split: "kernelsu_rules e = [\<lambda>db. Some (snd (ksu_permissive e (Some SU_DOMAIN) db))] @ ?pre @
      [apply_allow e (Some SU_DOMAIN, ANY, ANY, ANY)] @ ?rest"
    by (simp add: kernelsu_rules_def su_domain_rules_def)
  have sub: "set ?pre \<subseteq> set (kernelsu_rules e)" "set ?rest \<subseteq> set (kernelsu_rules e)" unfolding split by auto
  have run: "fold_opt ?f (kernelsu_rules e) ?db = Some (rs_db st')"
    using st' by (auto simp: ksu_apply_kernelsu_rules_def split: option.splits)
  then obtain m m2 where m: "fold_opt ?f ?pre ?p = Some m" "apply_allow e (Some SU_DOMAIN, ANY, ANY, ANY) m = Some m2"
    "fold_opt ?f ?rest m2 = Some (rs_db st')"
    unfolding split fold_opt_append by (auto split: option.splits)
  have g0: "grows ?db ?p" by (rule permissive_grows [OF assms(1)])
  then have w0: "avtab_wf (te_avtab ?p)" by (simp add: grows_def)
  have g1: "grows ?p m"
    by (rule fold_rules_grow [OF sub(1) w0 m(1)])
  then have w1: "avtab_wf (te_avtab m)" by (simp add: grows_def)
  have g2: "grows m m2" by (rule allow_grows [OF w1 m(2)])
  then have w2: "avtab_wf (te_avtab m2)" by (simp add: grows_def)
  have g3: "grows m2 (rs_db st')"
    by (rule fold_rules_grow [OF sub(2) w2 m(3)])
  have gm: "grows ?db m" by (rule grows_trans [OF g0 g1])
  have all: "grows ?db (rs_db st')" by (rule grows_trans [OF gm grows_trans [OF g2 g3]])
  have su: "map_of (p_types m) SU_DOMAIN = Some su" using gm assms(2) by (simp add: grows_def)
  have "access (rs_db st') (rule_key su t c AVTAB_ALLOWED) = NOT 0"
    if n: "(n, t) \<in> set (p_types ?db)" and c: "c \<in> snd ` set (p_classes ?db)" and a: "td_attribute t" for n t c
  proof -
    have t: "(n, t) \<in> set (p_types m)" using gm n by (auto simp: grows_def)
    obtain c' where c': "c' \<in> snd ` set (p_classes m)" "cd_value c' = cd_value c"
    proof -
      have "cd_value c \<in> (\<lambda>c. cd_value (snd c)) ` set (p_classes ?db)" using c by auto
      then have "cd_value c \<in> (\<lambda>c. cd_value (snd c)) ` set (p_classes m)" using gm unfolding grows_def by metis
      then show ?thesis using that by (metis (no_types, lifting) image_iff)
    qed
    have k: "rule_key su t c AVTAB_ALLOWED = rule_key su t c' AVTAB_ALLOWED" using c'(2) by (simp add: rule_key_def)
    have "access m2 (rule_key su t c AVTAB_ALLOWED) = NOT 0"
      unfolding k by (rule allow_everything [OF w1 su m(2) t a c'(1)])
    then have "bit (access (rs_db st') (rule_key su t c AVTAB_ALLOWED)) n" if "n < 32" for n
      using g3 that by (simp add: grows_def allows_more_def rule_key_def bit_simps)
    then show ?thesis by (intro bit_word_eqI) (simp add: bit_simps)
  qed
  moreover have "unat (td_value su) \<in> permissive_map (rs_db st')"
  proof -
    have "unat (td_value su) \<in> permissive_map ?p"
      using assms(2,4) by (simp add: ksu_permissive_def set_type_state_def symtab_search_def ebitmap_set_bit_def alloc_ok_def)
    then show ?thesis using grows_trans [OF g1 grows_trans [OF g2 g3]] by (auto simp: grows_def)
  qed
  ultimately have a: "\<forall>(n, t) \<in> set (p_types ?db). \<forall>c \<in> snd ` set (p_classes ?db).
      td_attribute t \<longrightarrow> access (rs_db st') (rule_key su t c AVTAB_ALLOWED) = NOT 0"
    and p: "unat (td_value su) \<in> permissive_map (rs_db st')" by blast+
  have b: "allows_more ?db (rs_db st')" "set (p_types ?db) \<subseteq> set (p_types (rs_db st'))" "avtab_wf (te_avtab (rs_db st'))"
    using all by (simp_all add: grows_def)
  show ?thesis by (rule exI [of _ st'], intro conjI) (fact st' p a b)+
qed


subsection \<open>Rule requests\<close>

text \<open>A short name is copied exactly; one that fills its buffer goes on into the stack behind it.\<close>

lemma cstr_append_nonul: "NUL \<notin> set a \<Longrightarrow> cstr (a @ b) = a @ cstr b"
  by (induction a) auto

lemma copied_name:
  assumes "user_path (re_um r) addr s"
  shows "length s < MAX_SEPOL_LEN \<Longrightarrow> copy_name r i addr = Some s"
    "MAX_SEPOL_LEN \<le> length s \<Longrightarrow> length (re_stack r i) = MAX_SEPOL_LEN \<Longrightarrow>
      copy_name r i addr = Some (take MAX_SEPOL_LEN s @ cstr (re_behind r i))"
proof -
  have n: "NUL \<notin> set s" using assms by (simp add: user_path_def)
  then have t: "NUL \<notin> set (take MAX_SEPOL_LEN s)" by (auto dest: in_set_takeD)
  show "length s < MAX_SEPOL_LEN \<Longrightarrow> copy_name r i addr = Some s"
    using assms n by (simp add: copy_name_def strncpy_from_user_def user_path_def cstr_append_NUL)
  show "copy_name r i addr = Some (take MAX_SEPOL_LEN s @ cstr (re_behind r i))"
    if "MAX_SEPOL_LEN \<le> length s" "length (re_stack r i) = MAX_SEPOL_LEN"
    using assms t that cstr_append_nonul [OF t, of "re_behind r i"]
    by (simp add: copy_name_def strncpy_from_user_def user_path_def)
qed

definition user_name :: "user_mem \<Rightarrow> uaddr \<Rightarrow> string option \<Rightarrow> bool" where
  "user_name um addr so \<longleftrightarrow>
     (case so of None \<Rightarrow> addr = 0 | Some s \<Rightarrow> addr \<noteq> 0 \<and> user_path um addr s \<and> length s < MAX_SEPOL_LEN)"

lemma got_object: "user_name (re_um r) addr so \<Longrightarrow> get_object r i addr = Some so"
  by (cases so) (simp_all add: user_name_def get_object_def copied_name)

text \<open>What the four kinds of permission requests do to a rule.\<close>

fun subcmd_rule :: "u32 \<Rightarrow> (u16 \<times> bool) option" where
  "subcmd_rule n =
     (if n = 1 then Some (AVTAB_ALLOWED, False) else if n = 2 then Some (AVTAB_ALLOWED, True)
      else if n = 3 then Some (AVTAB_AUDITALLOW, False) else if n = 4 then Some (AVTAB_AUDITDENY, True) else None)"

definition request_at :: "request_env \<Rightarrow> bool \<Rightarrow> uaddr \<Rightarrow> sepol_data option" where
  "request_at r is_compat addr =
     (if addr = 0 then None else if is_compat then map_option widen_request (re_compat_data r addr) else re_data r addr)"

lemma handle_request:
  "request_at r is_compat addr = Some d \<Longrightarrow> ksu_handle_sepolicy r e is_compat addr st =
     (case sepol_command r e d (rs_db st) of None \<Rightarrow> None
      | Some (ret, db) \<Rightarrow> Some (ret, st\<lparr>rs_db := db, rs_avc_resets := Suc (rs_avc_resets st)\<rparr>))"
  by (auto simp: ksu_handle_sepolicy_def request_at_def reset_avc_cache_def split: if_splits option.splits)

lemma normal_perm_command:
  assumes "sd_cmd d = CMD_NORMAL_PERM" "subcmd_rule (sd_subcmd d) = Some (effect, invert)"
    "user_name (re_um r) (sepol1 d) s" "user_name (re_um r) (sepol2 d) t" "user_name (re_um r) (sepol3 d) c"
    "user_name (re_um r) (sepol4 d) p"
  shows "sepol_command r e d db = map_option sepol_ret (add_rule e s t c p effect invert db)"
  using assms
  by (auto simp: sepol_command_def handle_normal_perm_def got_object ksu_allow_def ksu_deny_def
      ksu_auditallow_def ksu_dontaudit_def split: if_splits)

text \<open>A permission request lies at an address in the layout of the caller: the command, the kind of
  rule, and four pointers, which a 32-bit caller gives as 32-bit numbers.\<close>

definition perm_request_at :: "request_env \<Rightarrow> bool \<Rightarrow> uaddr \<Rightarrow> u32 \<Rightarrow> uaddr \<Rightarrow> uaddr \<Rightarrow> uaddr \<Rightarrow> uaddr \<Rightarrow> bool" where
  "perm_request_at r is_compat addr sub a1 a2 a3 a4 \<longleftrightarrow> addr \<noteq> 0 \<and>
     (if is_compat
      then \<exists>c. re_compat_data r addr = Some c \<and> unat (cd_cmd c) = 1 \<and> cd_subcmd c = sub \<and>
        unat (compat_sepol1 c) = unat a1 \<and> unat (compat_sepol2 c) = unat a2 \<and>
        unat (compat_sepol3 c) = unat a3 \<and> unat (compat_sepol4 c) = unat a4
      else \<exists>d. re_data r addr = Some d \<and> unat (sd_cmd d) = 1 \<and> sd_subcmd d = sub \<and>
        sepol1 d = a1 \<and> sepol2 d = a2 \<and> sepol3 d = a3 \<and> sepol4 d = a4)"

lemma ucast_same: "unat (x :: u32) = unat (a :: u64) \<Longrightarrow> ucast x = a"
  by (metis of_nat_unat ucast_id)

lemma perm_request_found:
  assumes "perm_request_at r is_compat addr sub a1 a2 a3 a4"
  obtains d where "request_at r is_compat addr = Some d" "sd_cmd d = CMD_NORMAL_PERM" "sd_subcmd d = sub"
    "sepol1 d = a1" "sepol2 d = a2" "sepol3 d = a3" "sepol4 d = a4"
proof -
  have c: "unat x = 1 \<Longrightarrow> x = CMD_NORMAL_PERM" for x :: u32 by (simp add: sepol_cmds word_unat_eq_iff)
  show ?thesis
    using assms that by (auto simp: perm_request_at_def request_at_def widen_request_def c ucast_same split: if_splits)
qed

text \<open>C16. A permission request, in either layout, whose names fit their buffers is carried out as the
  access vector rule it asks for, a NULL name standing for all: its first pointer names the source, the
  second the target, the third the class, the fourth the permission. It returns 0 exactly when all its
  names are known to the policy, sets (or, for a denial and a dontaudit rule, clears) exactly the
  permission's bits of exactly the keys its names stand for, and resets the access vector cache in any
  case.\<close>
theorem permission_request_carried_out:
  assumes "perm_request_at r is_compat addr sub a1 a2 a3 a4"
    "subcmd_rule sub = Some (effect, invert)"
    "user_name (re_um r) a1 s" "user_name (re_um r) a2 t" "user_name (re_um r) a3 c" "user_name (re_um r) a4 p"
    and "avtab_wf (te_avtab (rs_db st))" "\<And>t. po_av_alloc e t"
  shows "\<exists>ret st'. ksu_handle_sepolicy r e is_compat addr st = Some (ret, st') \<and>
    rs_avc_resets st' = Suc (rs_avc_resets st) \<and>
    (case rule_resolves s t c p (rs_db st) of
      None \<Rightarrow> ret = - 1 \<and> rs_db st' = rs_db st
    | Some (src, tgt, cls, perm) \<Rightarrow> ret = 0 \<and>
        (\<forall>k n. key_ok k \<and> n < 32 \<longrightarrow> (bit (access (rs_db st') k) n \<longleftrightarrow>
          (if k \<in> rule_keys src tgt cls effect invert (rs_db st) \<and> rule_bit perm n then \<not> invert
           else bit (access (rs_db st) k) n))))"
proof -
  obtain d where r: "request_at r is_compat addr = Some d" "sd_cmd d = CMD_NORMAL_PERM" "sd_subcmd d = sub"
    "sepol1 d = a1" "sepol2 d = a2" "sepol3 d = a3" "sepol4 d = a4"
    by (rule perm_request_found [OF assms(1)])
  have f: "effect \<in> data_flags" using assms(2) by (auto simp: data_flags_def split: if_splits)
  obtain ok db where a: "add_rule e s t c p effect invert (rs_db st) = Some (ok, db)"
    using add_rule_total [OF assms(8)] by fastforce
  note cmd = normal_perm_command [OF r(2), of effect invert r s t c p, unfolded r(3-), OF assms(2-6)]
  have h: "ksu_handle_sepolicy r e is_compat addr st =
      Some (if ok then 0 else - 1, st\<lparr>rs_db := db, rs_avc_resets := Suc (rs_avc_resets st)\<rparr>)"
    using a by (simp add: handle_request [OF r(1)] cmd sepol_ret_def)
  note u = add_rule_updates [OF assms(7) f a]
  have bits: "bit (access db k) n \<longleftrightarrow>
      (if k \<in> K \<and> rule_bit perm n then \<not> invert else bit (access (rs_db st) k) n)"
    if "updates K (av_update perm invert) (rs_db st) db" "key_ok k" "n < 32" for K perm k n
    using that by (simp add: updates_def av_update_bit)
  show ?thesis
    using u bits unfolding h by (auto split: option.splits)
qed

lemma refused_same:
  "add_rule e s t c p effect invert db = Some (False, db') \<Longrightarrow> db' = db"
  "add_xperm_rule e s t c rng effect invert db = (False, db') \<Longrightarrow> db' = db"
  "add_type_rule e s' t' c' d effect db = Some (False, db') \<Longrightarrow> db' = db"
  "add_typeattribute e ty attr db = Some (False, db') \<Longrightarrow> db' = db"
  "set_type_state e (Some n) v db = (False, db') \<Longrightarrow> db' = db"
  by (auto simp: add_rule_resolved add_xperm_rule_def add_type_rule_def add_typeattribute_def set_type_state_def
      ebitmap_set_bit_def Let_def split: option.splits if_splits prod.splits)

lemma sepol_ret_failed: "sepol_ret x = (ret, db) \<Longrightarrow> ret \<noteq> 0 \<Longrightarrow> x = (False, db)"
  by (cases x) (auto simp: sepol_ret_def split: if_splits)

lemma failed_normal_perm:
  assumes "handle_normal_perm r e d db = Some (ret, db')" "ret \<noteq> 0"
  shows "db' = db"
  using assms
  by (auto simp: handle_normal_perm_def ksu_allow_def ksu_deny_def ksu_auditallow_def ksu_dontaudit_def
      split: option.splits if_splits dest!: sepol_ret_failed refused_same(1))

lemma failed_xperm:
  assumes "handle_xperm r e d db = (ret, db')" "ret \<noteq> 0"
  shows "db' = db"
  using assms
  by (auto simp: handle_xperm_def ksu_allowxperm_def ksu_auditallowxperm_def ksu_dontauditxperm_def
      split: option.splits if_splits dest!: sepol_ret_failed refused_same(2))

lemma failed_type_state:
  assumes "handle_type_state r e d db = (ret, db')" "ret \<noteq> 0"
  shows "db' = db"
  using assms
  by (auto simp: handle_type_state_def ksu_permissive_def ksu_enforce_def
      split: option.splits if_splits dest!: sepol_ret_failed refused_same(5))

lemma failed_typeattribute:
  assumes "handle_type r e d db = Some (ret, db')" "sd_cmd d \<noteq> CMD_TYPE" "ret \<noteq> 0"
  shows "db' = db"
  using assms
  by (auto simp: handle_type_def ksu_typeattribute_def split: option.splits dest!: sepol_ret_failed refused_same(4))

lemma failed_type_rules:
  assumes "ret \<noteq> 0"
  shows "handle_type_transition r e d db = Some (ret, db') \<Longrightarrow> sepol5 d = 0 \<Longrightarrow> db' = db"
    "handle_type_change r e d db = Some (ret, db') \<Longrightarrow> db' = db"
  using assms
  by (auto simp: handle_type_transition_def handle_type_change_def ksu_type_transition_def ksu_type_change_def
      ksu_type_member_def split: option.splits prod.splits if_splits dest!: sepol_ret_failed refused_same(3))

lemma failed_genfscon:
  assumes "handle_genfscon r d db = (ret, db')"
  shows "ret = - 1 \<and> db' = db"
  using assms
  by (auto simp: handle_genfscon_def ksu_genfscon_def add_genfscon_def sepol_ret_def split: option.splits)

text \<open>C30. A request that fails leaves the policy as it was, whatever it asked for, unless it is one that
  adds a type, an attribute or a named type transition (one with an object name, the fifth pointer).
  Those are not undone: a request for a new type with
  an attribute the policy does not know fails with -1 and leaves the new type behind.\<close>
theorem failed_request_leaves_policy:
  assumes "request_at r is_compat addr = Some d"
  shows "(\<forall>ret st'. ksu_handle_sepolicy r e is_compat addr st = Some (ret, st') \<and> ret \<noteq> 0 \<and>
      sd_cmd d \<notin> {CMD_TYPE, CMD_ATTR} \<and> (sd_cmd d = CMD_TYPE_TRANSITION \<longrightarrow> sepol5 d = 0) \<longrightarrow>
      rs_db st' = rs_db st) \<and>
    (\<forall>n a db. sd_cmd d = CMD_TYPE \<and> copy_name r 0 (sepol1 d) = Some n \<and> copy_name r 1 (sepol2 d) = Some a \<and>
      map_of (p_types (rs_db st)) n = None \<and> a \<noteq> n \<and> map_of (p_types (rs_db st)) a = None \<and>
      add_type e n False (rs_db st) = (True, db) \<longrightarrow>
      ksu_handle_sepolicy r e is_compat addr st =
        Some (- 1, st\<lparr>rs_db := db, rs_avc_resets := Suc (rs_avc_resets st)\<rparr>) \<and> n \<in> fst ` set (p_types db))"
proof (intro conjI allI impI, goal_cases)
  case (1 ret st')
  then obtain db where db: "sepol_command r e d (rs_db st) = Some (ret, db)" "rs_db st' = db" "ret \<noteq> 0"
    by (auto simp: handle_request [OF assms] split: option.splits)
  from db(1,3) 1 show ?case
    unfolding db(2) sepol_command_def
    using failed_normal_perm [of r e d "rs_db st" ret db] failed_xperm [of r e d "rs_db st" ret db]
      failed_type_state [of r e d "rs_db st" ret db] failed_typeattribute [of r e d "rs_db st" ret db]
      failed_type_rules [of ret r e d "rs_db st" db] failed_genfscon [of r d "rs_db st" ret db]
    by (simp split: if_split_asm)
next
  case (2 n a db)
  then have t: "add_type e n False (rs_db st) = (True, db)" "map_of (p_types (rs_db st)) n = None" by blast+
  have "map_of (p_types db) a = None" using add_type_ok(3) [OF t] 2 by (auto simp: map_of_eq_None_iff)
  then show ?case
    using 2 add_type_ok(2) [OF t] by (auto simp: handle_request [OF assms] sepol_command_def sepol_cmds handle_type_def ksu_type_def
        add_typeattribute_def symtab_search_def sepol_ret_def)
next
  case (3 n a db)
  then show ?case using add_type_ok(3) [of e n False "rs_db st" db] by auto
qed


subsection \<open>Witnesses\<close>

definition ex_rules :: rules_state where
  "ex_rules = \<lparr>rs_db = ex_policy, rs_sids = \<lparr>sl_enforcing = True, sl_disabled = False, susfs_ksu_sid = 0,
     susfs_init_sid = 0, susfs_zygote_sid = 0\<rparr>, rs_avc_resets = 0\<rparr>"

lemma su_domain_unconfined_witness:
  "\<exists>st. ksu_apply_kernelsu_rules ex_policy_env ex_selinux_env ex_rules = Some st \<and>
    access (rs_db st) (rule_key (ex_type 1 False) (ex_type 2 True) ex_class AVTAB_ALLOWED) = NOT 0"
proof -
  have a: "avtab_wf (te_avtab (rs_db ex_rules))" "map_of (p_types (rs_db ex_rules)) SU_DOMAIN = Some (ex_type 1 False)"
    "policy_safe (rs_db ex_rules)" "alloc_ok ex_policy_env" "p_types_nprim (rs_db ex_rules) + 1 \<noteq> 0"
    by (simp_all add: ex_rules_def ex_policy_def avtab_wf_def SU_DOMAIN_def policy_safe_def ex_type_def ex_class_def
        alloc_ok_def ex_policy_env_def)
  have t: "(''domain'', ex_type 2 True) \<in> set (p_types (rs_db ex_rules))" "ex_class \<in> snd ` set (p_classes (rs_db ex_rules))"
    "td_attribute (ex_type 2 True)"
    by (simp_all add: ex_rules_def ex_policy_def ex_type_def)
  show ?thesis using su_domain_unconfined [OF a, of ex_selinux_env] t by blast
qed

definition ex_request_mem :: user_mem where
  "ex_request_mem = \<lparr>um_strncpy = (\<lambda>nf addr n. let s = if addr = 100 then ''init'' else if addr = 200 then ''domain''
       else if addr = 300 then ''file'' else if addr = 400 then ''read'' else if addr = 500 then ''app'' else ''nope'' in
     if length s < n then (int (length s), s @ [NUL]) else (int n, take n s)), um_access_ok = \<lambda>addr n. True\<rparr>"

definition ex_request :: request_env where
  "ex_request = \<lparr>re_um = ex_request_mem,
     re_data = (\<lambda>a. if a = 8 then Some \<lparr>sd_cmd = 1, sd_subcmd = 1, sepol1 = 100, sepol2 = 200, sepol3 = 300, sepol4 = 400, sepol5 = 0, sepol6 = 0, sepol7 = 0\<rparr>
       else Some \<lparr>sd_cmd = 4, sd_subcmd = 0, sepol1 = 500, sepol2 = 600, sepol3 = 0, sepol4 = 0, sepol5 = 0, sepol6 = 0, sepol7 = 0\<rparr>),
     re_compat_data = \<lambda>a. Some \<lparr>cd_cmd = 1, cd_subcmd = 1, compat_sepol1 = 100, compat_sepol2 = 200, compat_sepol3 = 300,
       compat_sepol4 = 400, compat_sepol5 = 0, compat_sepol6 = 0, compat_sepol7 = 0\<rparr>, re_stack = \<lambda>i. replicate 128 NUL, re_behind = \<lambda>i. [NUL]\<rparr>"

lemma ex_names:
  "user_path ex_request_mem 100 ''init''" "user_path ex_request_mem 200 ''domain''" "user_path ex_request_mem 300 ''file''"
  "user_path ex_request_mem 400 ''read''" "user_path ex_request_mem 500 ''app''" "user_path ex_request_mem 600 ''nope''"
  by (simp_all add: user_path_def ex_request_mem_def)

lemma permission_request_carried_out_witness:
  "\<forall>is_compat. \<exists>st. ksu_handle_sepolicy ex_request ex_policy_env is_compat 8 ex_rules = Some (0, st) \<and>
    access (rs_db st) (rule_key (ex_type 3 False) (ex_type 2 True) ex_class AVTAB_ALLOWED) = 1"
proof
  fix is_compat
  have d: "perm_request_at ex_request is_compat 8 1 100 200 300 400"
    "subcmd_rule 1 = Some (AVTAB_ALLOWED, False)"
    by (simp_all add: perm_request_at_def ex_request_def)
  have n: "user_name (re_um ex_request) 100 (Some ''init'')" "user_name (re_um ex_request) 200 (Some ''domain'')"
    "user_name (re_um ex_request) 300 (Some ''file'')" "user_name (re_um ex_request) 400 (Some ''read'')"
    by (simp_all add: user_name_def ex_request_def ex_names MAX_SEPOL_LEN_def)
  have w: "avtab_wf (te_avtab (rs_db ex_rules))" by (simp add: ex_rules_def ex_policy_ok)
  have r: "rule_resolves (Some ''init'') (Some ''domain'') (Some ''file'') (Some ''read'') ex_policy =
      Some (Some (ex_type 3 False), Some (ex_type 2 True), Some ex_class, Some 1)"
    by (simp add: rule_resolves_def optional_symbol_def symtab_search_def ex_policy_types find_perm_def) (simp add: ex_class_def)
  let ?k = "rule_key (ex_type 3 False) (ex_type 2 True) ex_class AVTAB_ALLOWED"
  have k: "?k \<in> rule_keys (Some (ex_type 3 False)) (Some (ex_type 2 True)) (Some ex_class) AVTAB_ALLOWED False ex_policy"
    "key_ok ?k"
    by (auto simp: rule_keys_def rule_types_def rule_classes_def) (simp add: rule_key_def allowed_flag)
  have z: "access ex_policy ?k = 0"
    by (simp add: access_def ex_policy_def initial_av_def rule_key_def avtab_flags)
  obtain st where st: "ksu_handle_sepolicy ex_request ex_policy_env is_compat 8 ex_rules = Some (0, st)"
    "\<forall>n < 32. bit (access (rs_db st) ?k) n \<longleftrightarrow> n = 0"
    using permission_request_carried_out [OF d n w ex_policy_ok(2)] r k z
    by (auto simp: ex_rules_def rule_bit_def)
  have "access (rs_db st) ?k = 1" using st(2) by (intro bit_word_eqI) (simp add: bit_1_iff)
  with st(1) show "\<exists>st. ksu_handle_sepolicy ex_request ex_policy_env is_compat 8 ex_rules = Some (0, st) \<and>
    access (rs_db st) ?k = 1" by blast
qed

lemma failed_request_leaves_policy_witness:
  "\<exists>db. ksu_handle_sepolicy ex_request ex_policy_env False 16 ex_rules =
      Some (- 1, ex_rules\<lparr>rs_db := db, rs_avc_resets := 1\<rparr>) \<and> ''app'' \<in> fst ` set (p_types db)"
proof -
  let ?d = "\<lparr>sd_cmd = 4, sd_subcmd = 0, sepol1 = 500, sepol2 = 600, sepol3 = 0, sepol4 = 0, sepol5 = 0, sepol6 = 0, sepol7 = 0\<rparr>"
  have d: "request_at ex_request False 16 = Some ?d" by (simp add: request_at_def ex_request_def)
  have n: "copy_name ex_request 0 500 = Some ''app''" "copy_name ex_request 1 600 = Some ''nope''"
    by (rule copied_name; simp add: ex_request_def ex_names MAX_SEPOL_LEN_def)+
  have p: "map_of (p_types (rs_db ex_rules)) ''app'' = None" "map_of (p_types (rs_db ex_rules)) ''nope'' = None"
    by (simp_all add: ex_rules_def ex_policy_def)
  obtain ok db where a: "add_type ex_policy_env ''app'' False (rs_db ex_rules) = (ok, db)" by fastforce
  have "ok" using a p(1) by (auto simp: add_type_def symtab_search_def ex_policy_env_def new_type_arrays_def Let_def)
  then show ?thesis
    using failed_request_leaves_policy [OF d, of ex_policy_env ex_rules] a n p
    by (auto simp: sepol_cmds ex_rules_def)
qed

end
