(* ===== verification/Driver_Run.thy ===== *)
theory Driver_Run
  imports Driver_Props Ksud_Read Rules_Props
begin

text \<open>
  What holds of any run of the driver: whoever gets the credentials of a root profile can be traced to
  a manager whose APK was checked, to a grant, or to the KernelSU domain; and the su switch, which two
  files keep a copy of, governs every hook of an exec.
\<close>

subsection \<open>Properties\<close>

text \<open>C1. Root can be traced. In a run from the driver's initialisation, by any tasks with any arguments,
  let a call change its task's credentials. Then it asked for root (the grant command of \<open>prctl\<close>, or
  an exec, with the su switch on), and the task's uid is root in the KernelSU domain, or that of a
  package whose APK an earlier scan found to carry the manager's signature (or the same app in another
  user profile), or it was given root by an earlier call: a profile set by the manager's app or read by
  the load of the allowlist, and not taken back by any call since.\<close>
theorem root_is_traceable:
  assumes "driver_run cs (ksu_kernelsu_init cap t0 ns r) = Some d" "\<forall>c \<in> set cs. memory_ok c"
    and "do_call c d = Some d'" "caller c = Some t" "dv_task d' \<noteq> t" "task_uid t \<noteq> KSU_INVALID_UID"
  shows "asks_root c \<and> ((\<exists>e x. c = Exec t e x) \<longrightarrow> ks_su_compat_enabled (dv_core d)) \<and>
    (task_uid t = 0 \<and> call_in_ksu_domain c d \<or>
     (\<exists>pre c1 post d1 w. cs = pre @ c1 # post \<and> driver_run pre (ksu_kernelsu_init cap t0 ns r) = Some d1 \<and>
        crowns c1 d1 w \<and> (task_uid t = w \<or> task_uid t mod 100000 = w)) \<or>
     (\<exists>pre c1 post d1. cs = pre @ c1 # post \<and> driver_run pre (ksu_kernelsu_init cap t0 ns r) = Some d1 \<and>
        gives_root c1 d1 (task_uid t) \<and> (\<forall>mid d2. prefix mid post \<and>
          driver_run (pre @ c1 # mid) (ksu_kernelsu_init cap t0 ns r) = Some d2 \<longrightarrow> granted (dv_allow d2) (task_uid t))))"
proof -
  note task = do_call_task [OF assms(3-5)]
  have sw: "ksu_sucompat_non_kp (dv_su d) = ks_su_compat_enabled (dv_core d)"
    using run_switches [OF assms(1) init_state(3)] by (simp add: switches_agree_def)
  consider (root) "task_uid t = 0 \<and> call_in_ksu_domain c d" | (mgr) "manager_app d (task_uid t)"
    | (grant) "granted (dv_allow d) (task_uid t)"
    using task(2) by (auto simp: allowed_root_def)
  then show ?thesis
  proof cases
    case mgr
    have "ks_manager (dv_core d) \<noteq> KSU_INVALID_UID"
    proof
      assume i: "ks_manager (dv_core d) = KSU_INVALID_UID"
      have "task_uid t mod 100000 < 100000" by (simp add: word_mod_less_divisor)
      moreover have "\<not> KSU_INVALID_UID < 100000" by (simp add: kdefs)
      ultimately show False using mgr i assms(6) unfolding manager_app_def by metis
    qed
    then obtain pre c1 post d1 w where p: "cs = pre @ c1 # post" "driver_run pre (ksu_kernelsu_init cap t0 ns r) = Some d1"
      "crowns c1 d1 w" "ks_manager (dv_core d) = w \<or> ks_manager (dv_core d) mod 100000 = w"
      using manager_origin [OF assms(1) init_state(4)] by blast
    have "task_uid t = w \<or> task_uid t mod 100000 = w"
      using mgr p(4) mod_mod_uid [of "task_uid t"] by (auto simp: manager_app_def)
    then show ?thesis using task(1,3) sw p(1-3) by blast
  next
    case grant
    show ?thesis
      using task(1,3) sw grant_origin [OF assms(1,2) init_state(1,2) grant] by blast
  qed (use task(1,3) sw in blast)
qed

text \<open>The file name of an exec without hooks: the kernel's copy of the user's, or the name it is given.\<close>

fun plain_name :: "'ns driver_env \<Rightarrow> exec_call \<Rightarrow> ('ns, 'fs) driver \<Rightarrow> filename_arg" where
  "plain_name e (Sys_execve filename argv envp) d = de_getname e filename (su_user_writes (dv_su d))"
| "plain_name e (Compat_sys_execve filename argv envp) d = de_getname e filename (su_user_writes (dv_su d))"
| "plain_name e (Kernel_execve filename argv envp) d = filename"
| "plain_name e (Sys_execveat filename argv envp) d = filename"

text \<open>With the hooks off nothing of this changes.\<close>

definition su_off_same :: "('ns, 'fs) driver \<Rightarrow> ('ns, 'fs) driver \<Rightarrow> bool" where
  "su_off_same d d' \<longleftrightarrow> dv_task d' = dv_task d \<and> su_user_writes (dv_su d') = su_user_writes (dv_su d) \<and>
     \<not> ksu_sucompat_non_kp (dv_su d')"

lemma off_hooks:
  assumes "\<not> ksu_sucompat_non_kp (dv_su d)"
  shows "call_execveat e f argv envp d = Some (f', d') \<Longrightarrow> f' = f \<and> su_off_same d d'"
    "call_execveat_sucompat e f d = Some (f', d') \<Longrightarrow> f' = f \<and> su_off_same d d'"
    "call_execve_ksud e a argv0 d = Some d' \<Longrightarrow> su_off_same d d'"
    "call_execve_sucompat e a d = Some (a', d') \<Longrightarrow> a' = a \<and> su_off_same d d'"
  using assms
  by (auto simp: call_execveat_def ksu_handle_execveat_def ksu_handle_execveat_sucompat_def call_execveat_sucompat_def
      call_execve_ksud_def call_execve_sucompat_def ksu_handle_execve_sucompat_def su_off_same_def
      put_su_def put_boot_def su_view_def split: option.splits)

lemma off_common:
  "do_execveat_common driver_hooks e f argv envp d = Some (f', d') \<Longrightarrow> \<not> ksu_sucompat_non_kp (dv_su d) \<Longrightarrow>
    f' = f \<and> su_off_same d d'"
  by (auto simp: do_execveat_common_def dest: off_hooks split: if_splits)

lemma off_execve:
  assumes "do_execve driver_hooks e f a v d = Some (f', d')" "\<not> ksu_sucompat_non_kp (dv_su d)"
  shows "f' = f \<and> su_off_same d d'"
proof -
  obtain f1 d1 argv envp where 1: "f1 = f \<and> su_off_same d d1" "do_execveat_common driver_hooks e f1 argv envp d1 = Some (f', d')"
    using assms(1) by (auto simp: do_execve_def Let_def split: option.splits if_splits dest!: off_hooks [OF assms(2)])
  then show ?thesis using off_common [OF 1(2)] by (auto simp: su_off_same_def)
qed

lemma off_compat_execve:
  assumes "compat_do_execve driver_hooks e f a v d = Some (f', d')" "\<not> ksu_sucompat_non_kp (dv_su d)"
  shows "f' = f \<and> su_off_same d d'"
proof -
  have "su_off_same d d" using assms(2) by (simp add: su_off_same_def)
  then obtain f1 d1 argv envp where 1: "f1 = f \<and> su_off_same d d1" "do_execveat_common driver_hooks e f1 argv envp d1 = Some (f', d')"
    using assms(1) \<open>su_off_same d d\<close>
    by (auto simp: compat_do_execve_def Let_def split: option.splits if_splits dest!: off_hooks [OF assms(2)])
  then show ?thesis using off_common [OF 1(2)] by (auto simp: su_off_same_def)
qed

lemma off_exec:
  assumes "exec_kernel driver_hooks e x d = Some (f', d')" "\<not> ksu_sucompat_non_kp (dv_su d)"
  shows "f' = plain_name e x d \<and> dv_task d' = dv_task d"
proof (cases x)
  case (Sys_execve p a v)
  then obtain d1 where 1: "su_off_same d d1" "do_execve driver_hooks e (de_getname e p (su_user_writes (dv_su d1))) a v d1 = Some (f', d')"
    using assms(1) by (auto simp: sys_execve_def split: option.splits if_splits dest!: off_hooks [OF assms(2)])
  then show ?thesis using off_execve [OF 1(2)] Sys_execve by (simp add: su_off_same_def)
next
  case (Compat_sys_execve p a v)
  have "su_off_same d d" using assms(2) by (simp add: su_off_same_def)
  then obtain d1 where 1: "su_off_same d d1" "compat_do_execve driver_hooks e (de_getname e p (su_user_writes (dv_su d1))) a v d1 = Some (f', d')"
    using Compat_sys_execve assms(1) \<open>su_off_same d d\<close>
    by (auto simp: compat_sys_execve_def split: option.splits if_splits dest!: off_hooks [OF assms(2)])
  then show ?thesis using off_compat_execve [OF 1(2)] Compat_sys_execve by (simp add: su_off_same_def)
next
  case (Kernel_execve f a v)
  then show ?thesis using off_execve assms by (fastforce simp: su_off_same_def)
next
  case (Sys_execveat f a v)
  then show ?thesis using off_common assms by (fastforce simp: su_off_same_def)
qed

text \<open>C14. The manager's su switch is the hooks' switch: in any run the flag that \<^verbatim>\<open>core_hook.c\<close> keeps and the
  one that the hooks test are equal; and while su is disabled, an exec of any kind by any task, through
  every hook of the patched kernel, comes to its end only with the file name the kernel would use without
  hooks and the task's own credentials, and \<open>access\<close> and \<open>stat\<close> pass every path through.\<close>
theorem disabled_su_is_inert:
  assumes "driver_run cs (ksu_kernelsu_init cap t0 ns r) = Some d"
  shows "ksu_sucompat_non_kp (dv_su d) = ks_su_compat_enabled (dv_core d) \<and>
    (\<not> ks_su_compat_enabled (dv_core d) \<longrightarrow>
      (\<forall>t e x f' d'. exec_kernel driver_hooks e x (by_task t d) = Some (f', d') \<longrightarrow>
        f' = plain_name e x (by_task t d) \<and> dv_task d' = t) \<and>
      (\<forall>e addr. ksu_handle_faccessat (sucompat_view e d) addr (su_view d) = (addr, su_view d)) \<and>
      (\<forall>e a. ksu_handle_stat (sucompat_view e d) a (su_view d) = (a, su_view d)))"
proof -
  have sw: "ksu_sucompat_non_kp (dv_su d) = ks_su_compat_enabled (dv_core d)"
    using run_switches [OF assms init_state(3)] by (simp add: switches_agree_def)
  have x: "f' = plain_name e x (by_task t d) \<and> dv_task d' = t"
    if "\<not> ks_su_compat_enabled (dv_core d)" "exec_kernel driver_hooks e x (by_task t d) = Some (f', d')" for t e x f' d'
    using off_exec [OF that(2)] that(1) sw by simp
  have "\<not> ksu_sucompat_non_kp (su_view d)" if "\<not> ks_su_compat_enabled (dv_core d)" using that sw by (simp add: su_view_def)
  then show ?thesis using sw x by (auto simp: ksu_handle_faccessat_def ksu_handle_stat_def)
qed

subsection \<open>Witnesses\<close>

definition ex_driver_env :: "nat driver_env" where
  "ex_driver_env = \<lparr>de_prctl = ex_prctl None, de_ksud = ex_ksud_env, de_su = ex_su_env, de_policy = ex_policy_env,
     de_request = ex_request, de_throne = ex_throne_env, de_scan = ex_scan_env,
     de_tmps = \<lambda>k. Some (replicate ALLOW_ARR_SIZE 0), de_getname = \<lambda>p w. FName (''/system/bin/su'' @ [NUL])\<rparr>"

definition ex_compat :: "(nat, nat) compat_state" where
  "ex_compat = \<lparr>cs_current = \<lparr>nf_ns = Some 1, nf_fs = Some 1\<rparr>, android_context_saved_checked = False,
     android_context_saved_enabled = False, android_context_saved = \<lparr>nf_ns = None, nf_fs = None\<rparr>\<rparr>"

abbreviation ex_as :: "uid_t \<Rightarrow> task" where
  "ex_as u \<equiv> ex_task\<lparr>tk_cred := (tk_cred ex_task)\<lparr>cr_uid := u\<rparr>\<rparr>"

abbreviation ex_init_driver :: "(nat, nat) driver" where
  "ex_init_driver \<equiv> ksu_kernelsu_init 0 ex_task ex_compat ex_rules"

abbreviation ex_rename :: "nat call" where
  "ex_rename \<equiv> Rename (ex_as 1000) ex_driver_env True (Some ''packages.list.tmp'') (Some ''packages.list'')
     (Inr ''/data/system/packages.list'')"

abbreviation ex_grant :: "nat call" where
  "ex_grant \<equiv> Prctl (ex_as 10007) ex_driver_env KERNEL_SU_OPTION CMD_GRANT_ROOT 0 0 16"

lemma ex_static_search:
  "search_manager ex_throne_env ''/data/app'' 2 [ex_uid_data] (throne_static\<lparr>scan_lock := 1\<rparr>) =
     Some (throne_static\<lparr>scan_lock := 1, th_manager_uid := 10007, locked_manager_uid := 10007\<rparr>)"
  by (simp add: search_manager_def numeral_2_eq_2 ex_visit(1,2) [simplified])
    (simp add: visit_def my_actor_def Let_def dot_name_def strncmp_eq_def base_apk_def check_apk_def
      ex_image_manager ex_crown throne_static_def, simp add: crown_def ex_uid_data_def ksu_set_manager_uid_def)

lemma ex_static_track:
  "ksu_track_throne ex_throne_env ex_scan_env tmps (throne_static, al) =
     Some (throne_static\<lparr>scan_lock := 1, th_manager_uid := 10007, locked_manager_uid := 10007\<rparr>,
       ksu_prune_allowlist (is_uid_exist [ex_uid_data]) tmps al)"
proof -
  have "list_packages ex_scan_env throne_static = Inr (throne_static\<lparr>scan_lock := 1\<rparr>, [ex_uid_data])"
    by (simp add: list_packages_def scan_user_data_for_uids_def ex_scan_env_def user_data_actor_def Let_def
        dot_name_def strncmp_eq_def USER_DATA_PATH_def throne_static_def ex_uid_data_def numeral_3_eq_3)
  moreover have "\<not> manager_exists [ex_uid_data] (throne_static\<lparr>scan_lock := 1\<rparr>)"
    by (simp add: manager_exists_def ex_uid_data_def throne_static_def ksu_get_manager_uid_def)
  moreover have "unlock_manager (throne_static\<lparr>scan_lock := 1\<rparr>) = throne_static\<lparr>scan_lock := 1\<rparr>"
    by (simp add: unlock_manager_def throne_static_def)
  ultimately show ?thesis using ex_static_search by (simp add: ksu_track_throne_def)
qed

lemma ex_crowned:
  obtains d where "driver_run [ex_rename] ex_init_driver = Some d" "ks_manager (dv_core d) = 10007"
    "dv_allow d = ksu_allowlist_init 0 static_allow_state"
proof -
  let ?al = "ksu_allowlist_init 0 static_allow_state"
  have hook: "ksu_handle_rename True 1000 (Some ''packages.list.tmp'') (Some ''packages.list'')
      (Inr ''/data/system/packages.list'')"
    by (simp add: ksu_handle_rename_def strcmp_eq_def cstr_def)
  have v: "throne_view (by_task (ex_as 1000) ex_init_driver) = (throne_static, ?al)"
    by (simp add: throne_view_def by_task_def ksu_kernelsu_init_def Let_def throne_static_def)
  have p: "ksu_prune_allowlist valid tmps ?al = ?al" for valid tmps
    using allow_init_tables(1) [of 0] by (simp add: ksu_prune_allowlist_def)
  have "driver_run [ex_rename] ex_init_driver = Some (put_throne
      (throne_static\<lparr>scan_lock := 1, th_manager_uid := 10007, locked_manager_uid := 10007\<rparr>, ?al) (by_task (ex_as 1000) ex_init_driver))"
    using hook ex_static_track [of _ ?al]
    by (simp add: driver_run_def call_rename_def v p ex_driver_env_def)
  then show ?thesis by (rule that) (simp_all add: put_throne_def)
qed

lemma ex_manager_escapes:
  "\<exists>t. ksu_escape_to_root ex_cred_env ex_selinux_env (ksu_allowlist_init 0 static_allow_state) (ex_as 10007) = Some t \<and>
    cr_euid (tk_cred t) = 0"
proof -
  let ?al = "ksu_allowlist_init 0 static_allow_state"
  define p where "p = ksu_get_root_profile ?al 10007"
  have p: "p = al_default_root ?al" using allow_init_tables(1) [of 0] by (simp add: p_def ksu_get_root_profile_def)
  have f: "rp_groups_count p = 1" "rp_groups p ! 0 = 0" "rp_uid p = 0"
    by (simp_all add: p ksu_allowlist_init_def init_default_profiles_def static_allow_state_def zero_root_profile_def)
  have "setup_groups ex_cred_env p c = Some (c\<lparr>cr_groups := []\<rparr>)" for c using f(1,2) by (simp add: setup_groups_def)
  then show ?thesis
    using f(3) p_def by (simp add: ksu_escape_to_root_def ex_task_def ex_cred_env_def Let_def profile_cred_def disable_seccomp_def)
qed

lemma ex_manager_granted:
  assumes "ks_manager (dv_core d) = 10007" "dv_allow d = ksu_allowlist_init 0 static_allow_state"
  shows "\<exists>d'. do_call ex_grant d = Some d' \<and> dv_task d' \<noteq> ex_as 10007"
proof -
  obtain t where t: "ksu_escape_to_root ex_cred_env ex_selinux_env (ksu_allowlist_init 0 static_allow_state) (ex_as 10007) = Some t"
    "cr_euid (tk_cred t) = 0" using ex_manager_escapes by blast
  let ?d = "by_task (ex_as 10007) d"
  let ?pe = "prctl_view ex_driver_env ?d"
  have ad: "adopt_manager (dv_core ?d) = dv_core ?d" using assms(1) by (simp add: adopt_manager_def Let_def kdefs)
  have pe: "pe_cred ?pe = ex_cred_env" "pe_selinux ?pe = ex_selinux_env" "pe_writable ?pe x" for x
    by (simp_all add: prctl_view_def ex_driver_env_def ex_prctl_def)
  let ?s = "reply ?pe 16 ((dv_core ?d)\<lparr>ks_task := t\<rparr>)"
  have "is_allow_su (current_is_ksu_domain ?pe (dv_core ?d)) (ks_manager (dv_core ?d)) (dv_allow ?d) (current_uid (dv_core ?d))"
    using assms(1) by (simp add: is_allow_su_def ksu_is_manager_def kdefs)
  then have "cmd_grant_root ?pe 16 (dv_core ?d) = Some ?s" using t(1) pe assms(2) by (simp add: cmd_grant_root_def)
  then have p: "ksu_task_prctl ?pe KERNEL_SU_OPTION CMD_GRANT_ROOT 0 0 16 (dv_core ?d) = Some (- ENOSYS, ?s)"
    using assms(1) by (simp add: ksu_task_prctl_def ksu_handle_prctl_def ad ksu_is_manager_def kdefs)
  have "new_events (dv_core ?d) ?s = []" by (simp add: new_events_def reply_def copy_to_user_def)
  then have "do_call ex_grant d = Some (?d\<lparr>dv_core := ?s\<rparr>)" using p by (simp add: call_prctl_def)
  moreover have "ks_task ?s = t" by (simp add: prctl_frame)
  moreover have "t \<noteq> ex_as 10007" using t(2) by (auto simp: ex_task_def)
  ultimately show ?thesis by simp
qed

lemma root_is_traceable_witness:
  "\<exists>d1 w. driver_run [] ex_init_driver = Some d1 \<and> crowns ex_rename d1 w \<and> w = 10007"
proof -
  obtain d where d: "driver_run [ex_rename] ex_init_driver = Some d" "ks_manager (dv_core d) = 10007"
    "dv_allow d = ksu_allowlist_init 0 static_allow_state" by (rule ex_crowned)
  obtain d' where d': "do_call ex_grant d = Some d'" "dv_task d' \<noteq> ex_as 10007" using ex_manager_granted [OF d(2,3)] by blast
  have m: "\<forall>c \<in> set [ex_rename]. memory_ok c" by (simp add: ex_driver_env_def tmp_ok_def)
  have u: "task_uid (ex_as 10007) = 10007" "(10007 :: uid_t) \<noteq> 0" "(10007 :: uid_t) \<noteq> KSU_INVALID_UID"
    "(10007 :: uid_t) mod 100000 = 10007" "caller ex_grant = Some (ex_as 10007)" by (simp_all add: kdefs)
  have "asks_root ex_grant \<and> (\<exists>pre c1 post d1. [ex_rename] = pre @ c1 # post \<and> driver_run pre ex_init_driver = Some d1 \<and>
      (crowns c1 d1 10007 \<or> gives_root c1 d1 10007))"
    using root_is_traceable [OF d(1) m d'(1) u(5) d'(2)] u by auto
  then obtain pre c1 post d1 where p: "[ex_rename] = pre @ c1 # post" "driver_run pre ex_init_driver = Some d1"
    "crowns c1 d1 10007 \<or> gives_root c1 d1 10007" by blast
  then have "pre = []" "c1 = ex_rename" by (simp_all add: Cons_eq_append_conv)
  then show ?thesis using p by auto
qed

abbreviation ex_disable :: "nat call" where
  "ex_disable \<equiv> Prctl (ex_as 10007) ex_driver_env KERNEL_SU_OPTION CMD_ENABLE_SU 0 0 16"

lemma ex_disabled:
  assumes "ks_manager (dv_core d) = 10007" "ks_su_compat_enabled (dv_core d)"
  shows "\<exists>d'. do_call ex_disable d = Some d' \<and> \<not> ks_su_compat_enabled (dv_core d')"
proof -
  let ?d = "by_task (ex_as 10007) d"
  let ?pe = "prctl_view ex_driver_env ?d"
  let ?s = "cmd_enable_su ?pe 0 16 (dv_core ?d)"
  have ad: "adopt_manager (dv_core ?d) = dv_core ?d" using assms(1) by (simp add: adopt_manager_def Let_def kdefs)
  have p: "ksu_task_prctl ?pe KERNEL_SU_OPTION CMD_ENABLE_SU 0 0 16 (dv_core ?d) = Some (- ENOSYS, ?s)"
    using assms(1) by (simp add: ksu_task_prctl_def ksu_handle_prctl_def ad ksu_is_manager_def kdefs manager_commands_def)
  have e: "new_events (dv_core ?d) ?s = [EvSucompatExit]" "\<not> ks_su_compat_enabled ?s"
    using assms(2) by (simp_all add: new_events_def cmd_enable_su_def reply_def copy_to_user_def add_event_def Let_def)
  then have "do_call ex_disable d = run_event ex_driver_env EvSucompatExit (?d\<lparr>dv_core := ?s\<rparr>)"
    using p by (simp add: call_prctl_def split: option.splits)
  then show ?thesis using e(2) by (simp add: run_event_def put_su_def)
qed

lemma disabled_su_is_inert_witness:
  "\<exists>d. driver_run [ex_rename, ex_disable] ex_init_driver = Some d \<and>
    \<not> ksu_sucompat_non_kp (dv_su d) \<and>
    ksu_handle_faccessat (sucompat_view ex_driver_env d) 512 (su_view d) = (512, su_view d)"
proof -
  obtain d where d: "driver_run [ex_rename] ex_init_driver = Some d" "ks_manager (dv_core d) = 10007"
    by (rule ex_crowned)
  have "ks_su_compat_enabled (dv_core ex_init_driver)" by (simp add: ksu_kernelsu_init_def Let_def)
  then have "ks_su_compat_enabled (dv_core d)"
    using d(1) by (auto simp: driver_run_def call_rename_def put_throne_def split: if_splits option.splits)
  then obtain d' where d': "do_call ex_disable d = Some d'" "\<not> ks_su_compat_enabled (dv_core d')"
    using ex_disabled [OF d(2)] by blast
  have "driver_run [ex_rename, ex_disable] ex_init_driver = Some d'"
    using d(1) d'(1) fold_opt_snoc [of do_call "[ex_rename]" ex_disable ex_init_driver] by (simp add: driver_run_def)
  then show ?thesis using disabled_su_is_inert [of "[ex_rename, ex_disable]" 0 ex_task ex_compat ex_rules d'] d'(2) by blast
qed


end
