(* ===== verification/Driver_Soft.thy ===== *)
theory Driver_Soft
  imports Driver_Run
begin

text \<open>
  The driver on a kernel that can switch it off at boot (\<^verbatim>\<open>CONFIG_E404_SIGNATURE\<close>): then
  \<open>ksu_kernelsu_init\<close> returns before it registers or initialises anything. The calls that the kernel
  patches make stay in place, with their static switches on, while the LSM hooks, the work queue and the list head
  of the allowlist are missing.
\<close>

subsection \<open>Initialisation\<close>

text \<open>\<open>ksu_queue_work\<close> for a work item that is pending or not: without a queue it refuses.\<close>

definition ksu_queue_work :: "bool \<Rightarrow> bool \<Rightarrow> bool \<times> bool" where
  "ksu_queue_work have_queue pending = (if \<not> have_queue then (False, pending) else (\<not> pending, True))"

text \<open>What the loader leaves; \<open>kernelsu\<close> is the field of \<open>e404_data\<close>.\<close>

definition soft_disabled_driver :: "task \<Rightarrow> ('ns, 'fs) compat_state \<Rightarrow> rules_state \<Rightarrow> ('ns, 'fs) driver" where
  "soft_disabled_driver t cs r =
     \<lparr>dv_core = \<lparr>ks_allow = static_allow_state, ks_manager = KSU_INVALID_UID, ks_task = t, ks_susfs = susfs_static,
        ks_switches = switches_static, ks_module_mounted = False, ks_su_compat_enabled = True, ks_post_fs_data_lock = False,
        ks_boot_complete_lock = False, ks_writes = [], ks_events = []\<rparr>,
      dv_boot = ksud_boot static_allow_state cs, dv_throne = throne_static,
      dv_su = \<lparr>ksu_sucompat_non_kp = True, su_task = t, su_user_writes = []\<rparr>, dv_rules = r\<rparr>"

definition ksu_kernelsu_init_e404 :: "int \<Rightarrow> u64 \<Rightarrow> task \<Rightarrow> ('ns, 'fs) compat_state \<Rightarrow> rules_state \<Rightarrow>
    ('ns, 'fs) driver" where
  "ksu_kernelsu_init_e404 kernelsu full_cap t cs r =
     (if kernelsu = 0 then soft_disabled_driver t cs r else ksu_kernelsu_init full_cap t cs r)"

subsection \<open>Calls\<close>

text \<open>The execve hooks of \<^verbatim>\<open>sucompat.c\<close> come to \<open>ksu_escape_to_root\<close>; the second is the one that reads the
  name from the user.\<close>

definition comes_to_escape :: "sucompat_env \<Rightarrow> filename_arg \<Rightarrow> sucompat \<Rightarrow> bool" where
  "comes_to_escape e f st = (case f of
     FName name \<Rightarrow> ksu_sucompat_non_kp st \<and> (memcmp_eq name (SU_PATH @ [NUL]) 15 \<or>
       (let n = c_strlen name in 3 \<le> n \<and> memcmp_eq (drop (n - 3) name) (''/su'' @ [NUL]) 4)) \<and> su_allowed e st
   | _ \<Rightarrow> False)"

definition user_comes_to_escape :: "sucompat_env \<Rightarrow> uaddr \<Rightarrow> sucompat \<Rightarrow> bool" where
  "user_comes_to_escape e addr st \<longleftrightarrow> ksu_sucompat_non_kp st \<and>
     memcmp_eq (snd (ksu_strncpy_from_user_retry (su_um e) (replicate 16 NUL) addr 16)) (SU_PATH @ [NUL]) 15 \<and> su_allowed e st"

lemma no_escape_passes: "\<not> comes_to_escape se f st \<Longrightarrow> ksu_handle_execveat_sucompat se f st = Some (f, st)"
  by (auto simp: comes_to_escape_def ksu_handle_execveat_sucompat_def Let_def not_less split: filename_arg.split)

lemma escape_by_name:
  assumes "NUL \<in> set name"
  shows "comes_to_escape se (FName name) st \<longleftrightarrow>
    ksu_sucompat_non_kp st \<and> suffix ''/su'' (cstr name) \<and> su_allowed se st"
  using su_name_recognised [OF assms] by (auto simp: comes_to_escape_def Let_def not_less)

text \<open>There it follows the list head of the allowlist, which is zero, unless it returns before: for want of
  memory, or because the effective uid is 0 already.\<close>

definition follows_list :: "'ns driver_env \<Rightarrow> ('ns, 'fs) driver \<Rightarrow> bool" where
  "follows_list e d \<longleftrightarrow> ce_prepare_creds (su_cred (de_su e)) \<and> cr_euid (tk_cred (dv_task d)) \<noteq> 0"

text \<open>What was queued is not: the queue refused it.\<close>

definition refuse_work :: "('ns, 'fs) driver \<Rightarrow> ('ns, 'fs) driver" where
  "refuse_work d = set_allow ((dv_allow d)\<lparr>al_load_pending := snd (ksu_queue_work False False),
     al_save_pending := snd (ksu_queue_work False False)\<rparr>) d"

text \<open>The hooks of exec: those of the driver, with the NULL dereference (\<open>None\<close>) and the refused work.\<close>

definition soft_hooks :: "('ns, 'fs) exec_hooks" where
  "soft_hooks =
     \<lparr>eh_execveat = (\<lambda>e f argv envp d.
        if comes_to_escape (sucompat_view e d) f (su_view d) \<and> follows_list e d then None
        else map_option (apsnd refuse_work) (call_execveat e f argv envp d)),
      eh_execveat_sucompat = (\<lambda>e f d.
        if comes_to_escape (sucompat_view e d) f (su_view d) \<and> follows_list e d then None
        else call_execveat_sucompat e f d),
      eh_execve_ksud = (\<lambda>e a argv d. map_option refuse_work (call_execve_ksud e a argv d)),
      eh_execve_sucompat = (\<lambda>e a d.
        if user_comes_to_escape (sucompat_view e d) a (su_view d) \<and> follows_list e d then None
        else call_execve_sucompat e a d)\<rparr>"

text \<open>\<open>prctl\<close> and rename do not reach the driver, and no work runs.\<close>

fun soft_call :: "'ns call \<Rightarrow> ('ns, 'fs) driver \<Rightarrow> ('ns, 'fs) driver option" where
  "soft_call (Exec t e x) d = map_option snd (exec_kernel soft_hooks e x (by_task t d))"
| "soft_call (Read t e comm fl bc) d = Some (call_read e comm fl bc (by_task t d))"
| "soft_call (Input ty code val) d = Some (call_input ty code val d)"
| "soft_call c d = Some d"


subsection \<open>Nobody is allowed\<close>




lemma refuse_work_simps [simp]:
  "granted (dv_allow (refuse_work d)) u = granted (dv_allow d) u" "dv_task (refuse_work d) = dv_task d"
  "ks_manager (dv_core (refuse_work d)) = ks_manager (dv_core d)" "dv_rules (refuse_work d) = dv_rules d"
  "dv_boot (refuse_work d) = dv_boot d"
  by (simp_all add: refuse_work_def set_allow_def granted_def arr_mem_def)






subsection \<open>Properties\<close>


text \<open>But the boot hooks go on: the second stage of init loads the driver's SELinux rules, su domain
  included, into the policy of a kernel whose driver is switched off.\<close>
theorem soft_disabled_loads_rules:
  assumes "arg_array (de_ksud e) a (p # q # ps)" "length ps + 2 \<le> MAX_ARG_STRINGS" "\<And>i. \<not> ke_fatal (de_ksud e) i"
    and "user_path (ke_um (de_ksud e)) q ''second_stage''" "length (ke_arg_junk (de_ksud e)) = 16"
    and "ksu_apply_kernelsu_rules (de_policy e) (ke_selinux (de_ksud e)) r = Some r'"
  shows "\<exists>d. soft_call (Exec t e (Sys_execveat (FName (''/system/bin/init'' @ [NUL])) a envp))
      (ksu_kernelsu_init_e404 0 cap t0 ns r) = Some d \<and> dv_rules d = r'"
proof -
  define n where "n = ''/system/bin/init'' @ [NUL]"
  let ?d = "by_task t (ksu_kernelsu_init_e404 0 cap t0 ns r)"
  define k where "k = second_stage (de_ksud e) (touch a (boot_view ?d))"
  have d: "dv_rules ?d = r" "kd_rules_applied (dv_boot ?d) = 0" "ksu_execveat_hook (boot_view ?d)"
    "\<not> init_second_stage_executed (boot_view ?d)"
    by (simp_all add: ksu_kernelsu_init_e404_def soft_disabled_driver_def ksud_boot_def boot_view_def by_task_def)
  have "ksu_handle_execveat_ksud (de_ksud e) (FName n) (Some a) (Some envp) (boot_view ?d) =
      Some (if ''second_stage'' = ''second_stage'' \<and> \<not> init_second_stage_executed (boot_view ?d) then k else touch a (boot_view ?d))"
    unfolding k_def by (rule second_stage_exec [OF assms(1-5) d(3)]) (simp add: memcmp_eq_def n_def)
  then have h: "ksu_handle_execveat_ksud (de_ksud e) (FName n) (Some a) (Some envp) (boot_view ?d) = Some k"
    using d(4) by simp
  have k: "kd_rules_applied k = 1" using d(2) by (simp add: k_def second_stage_def touch_def boot_view_def)
  have n: "NUL \<in> set n" "cstr n = ''/system/bin/init''" "\<not> suffix ''/su'' ''/system/bin/init''"
    by (simp_all add: n_def cstr_append_NUL suffix_def Cons_eq_append_conv)
  have no: "\<not> comes_to_escape se (FName n) st" for se st
    using n(2,3) by (simp only: escape_by_name [OF n(1)]) simp
  note su = no_escape_passes [OF no]
  have "call_execveat e (FName n) (Some a) (Some envp) ?d = Some (FName n, (put_su (su_view ?d) (put_boot k ?d))\<lparr>dv_rules := r'\<rparr>)"
    by (simp add: call_execveat_def ksu_handle_execveat_def h su k d(1,2) assms(6))
  then show ?thesis
    using no d(3) unfolding n_def [symmetric]
    by (simp add: do_execveat_common_def soft_hooks_def refuse_work_def set_allow_def boot_view_def)
qed

subsection \<open>Witnesses\<close>



end
