(* ===== verification/Lsm_Hooks.thy ===== *)
theory Lsm_Hooks
  imports Kprelude
begin

text \<open>
  How \<^verbatim>\<open>core_hook.c\<close> gets its LSM hooks called. Built in, it registers them with the kernel; a module
  finds the heads of the hook lists by the kernel's own capability hooks in them, and replaces each head
  by a copy of its list with the driver's hook at the end. The heads are the fields of
  \<open>security_hook_heads\<close>, by their index.
\<close>

subsection \<open>Hooks and their lists\<close>

text \<open>A function of the kernel is its address. \<open>lh_static\<close> marks an entry that is a static object, which
  must not be freed.\<close>

datatype hook_fn = Kernel_fn u64 | Ksu_task_prctl | Ksu_inode_rename | Ksu_task_fix_setuid | Ksu_inode_permission

record lsm_hook =
  lh_fn :: hook_fn
  lh_lsm :: "string option"
  lh_static :: bool

record lsm_state =
  ls_heads :: "lsm_hook list list"
  ls_renameat_kp :: bool

text \<open>The indices of the fields, the symbols (0 for an unknown one), for each patched head its address,
  whether its page is found and mapped, and the allocations of its copy.\<close>

record lsm_env =
  le_task_prctl :: nat
  le_inode_killpriv :: nat
  le_inode_rename :: nat
  le_task_fix_setuid :: nat
  le_inode_permission :: nat
  le_kallsyms :: "string \<Rightarrow> u64"
  le_head_addr :: "nat \<Rightarrow> u64"
  le_page :: "nat \<Rightarrow> bool"
  le_vmap :: "nat \<Rightarrow> bool"
  le_alloc :: "nat \<Rightarrow> nat \<Rightarrow> bool"

definition ksu_hook :: "hook_fn \<Rightarrow> lsm_hook" where
  "ksu_hook f = \<lparr>lh_fn = f, lh_lsm = Some ''ksu'', lh_static = True\<rparr>"

subsection \<open>Built in\<close>

definition ksu_hooks :: "lsm_env \<Rightarrow> (nat \<times> hook_fn) list" where
  "ksu_hooks e = [(le_task_prctl e, Ksu_task_prctl), (le_inode_rename e, Ksu_inode_rename),
     (le_task_fix_setuid e, Ksu_task_fix_setuid), (le_inode_permission e, Ksu_inode_permission)]"

text \<open>\<open>security_add_hooks\<close> of the kernel: each hook goes to the tail of its list.\<close>

definition security_add_hooks :: "(nat \<times> hook_fn) list \<Rightarrow> lsm_hook list list \<Rightarrow> lsm_hook list list" where
  "security_add_hooks = fold (\<lambda>(i, f) heads. heads[i := heads ! i @ [ksu_hook f]])"

definition ksu_lsm_hook_init :: "lsm_env \<Rightarrow> lsm_state \<Rightarrow> lsm_state" where
  "ksu_lsm_hook_init e st = st\<lparr>ls_heads := security_add_hooks (ksu_hooks e) (ls_heads st)\<rparr>"

subsection \<open>As a module\<close>

text \<open>\<open>None\<close> is the \<open>BUG_ON\<close> of a head that crosses a page.\<close>

definition override_security_head :: "lsm_env \<Rightarrow> nat \<Rightarrow> lsm_hook list \<Rightarrow> lsm_hook list list \<Rightarrow>
    (int \<times> lsm_hook list list) option" where
  "override_security_head e i new_head heads =
     (let offset = unat (le_head_addr e i) mod 4096 in
      if offset + 8 > 4096 then None
      else if \<not> le_page e i then Some (- 14, heads)
      else if \<not> le_vmap e i then Some (- 12, heads)
      else Some (0, heads[i := new_head]))"

text \<open>\<open>None\<close> is the \<open>kfree\<close> of a static object.\<close>

definition free_security_hook_list :: "lsm_hook list \<Rightarrow> unit option" where
  "free_security_hook_list head = (if list_ex lh_static head then None else Some ())"

fun copy_loop :: "(nat \<Rightarrow> bool) \<Rightarrow> nat \<Rightarrow> lsm_hook list \<Rightarrow> lsm_hook list \<Rightarrow> lsm_hook list option option" where
  "copy_loop alloc k [] new_head = Some (Some new_head)"
| "copy_loop alloc k (entry # es) new_head =
     (if \<not> alloc k then map_option (\<lambda>_. None) (free_security_hook_list new_head)
      else copy_loop alloc (Suc k) es (new_head @ [entry\<lparr>lh_static := False\<rparr>]))"

text \<open>The result of the copy, \<open>Some None\<close> for NULL.\<close>

definition copy_security_hlist :: "lsm_env \<Rightarrow> nat \<Rightarrow> lsm_hook list \<Rightarrow> lsm_hook list option option" where
  "copy_security_hlist e i orig = (if \<not> le_alloc e i 0 then Some None else copy_loop (le_alloc e i) 1 orig [])"

definition LSM_SEARCH_MAX :: nat where "LSM_SEARCH_MAX = 180"

text \<open>\<open>None\<close> is the read behind the last head.\<close>

fun find_head_loop :: "lsm_hook list list \<Rightarrow> u64 \<Rightarrow> nat list \<Rightarrow> nat option option" where
  "find_head_loop heads p [] = Some None"
| "find_head_loop heads p (i # is) =
     (if length heads \<le> i then None
      else if list_ex (\<lambda>pos. lh_fn pos = Kernel_fn p) (heads ! i) then Some (Some i)
      else find_head_loop heads p is)"

definition find_head_addr :: "u64 \<Rightarrow> lsm_hook list list \<Rightarrow> nat option option" where
  "find_head_addr security_ptr heads =
     (if security_ptr = 0 then Some None else find_head_loop heads security_ptr [0..<LSM_SEARCH_MAX])"

definition GET_SYMBOL_ADDR :: "lsm_env \<Rightarrow> string \<Rightarrow> u64" where
  "GET_SYMBOL_ADDR e symbol =
     (let addr = le_kallsyms e (symbol @ ''.cfi_jt'') in if addr = 0 then le_kallsyms e symbol else addr)"

definition KSU_LSM_HOOK_HACK_INIT :: "lsm_env \<Rightarrow> nat \<Rightarrow> hook_fn \<Rightarrow> lsm_state \<Rightarrow> lsm_state option" where
  "KSU_LSM_HOOK_HACK_INIT e i f st =
     (if length (ls_heads st) \<le> i then None
      else case copy_security_hlist e i (ls_heads st ! i) of
        None \<Rightarrow> None
      | Some None \<Rightarrow> Some st
      | Some (Some new_head) \<Rightarrow>
          let new_head = new_head @ [ksu_hook f] in
          (case override_security_head e i new_head (ls_heads st) of
            None \<Rightarrow> None
          | Some (err, heads) \<Rightarrow>
              if err \<noteq> 0 then map_option (\<lambda>_. st) (free_security_hook_list new_head)
              else Some (st\<lparr>ls_heads := heads\<rparr>)))"

text \<open>A head found by a symbol is patched; otherwise the hook is left out.\<close>

definition patch_found :: "lsm_env \<Rightarrow> string \<Rightarrow> hook_fn \<Rightarrow> lsm_state \<Rightarrow> lsm_state option" where
  "patch_found e symbol f st =
     (case find_head_addr (GET_SYMBOL_ADDR e symbol) (ls_heads st) of
        None \<Rightarrow> None
      | Some None \<Rightarrow> Some st
      | Some (Some i) \<Rightarrow> KSU_LSM_HOOK_HACK_INIT e i f st)"

text \<open>\<open>inode_rename\<close> has no capability hook; its head is found by its distance from \<open>inode_killpriv\<close>,
  and without that the kprobe is registered.\<close>

definition patch_rename :: "lsm_env \<Rightarrow> lsm_state \<Rightarrow> lsm_state option" where
  "patch_rename e st =
     (case find_head_addr (GET_SYMBOL_ADDR e ''cap_inode_killpriv'') (ls_heads st) of
        None \<Rightarrow> None
      | Some None \<Rightarrow> Some (st\<lparr>ls_renameat_kp := True\<rparr>)
      | Some (Some i) \<Rightarrow>
          let inode_rename_index = int i + (int (le_inode_rename e) - int (le_inode_killpriv e)) in
          if inode_rename_index < 0 then None
          else KSU_LSM_HOOK_HACK_INIT e (nat inode_rename_index) Ksu_inode_rename st)"

definition ksu_lsm_hook_init_module :: "lsm_env \<Rightarrow> lsm_state \<Rightarrow> lsm_state option" where
  "ksu_lsm_hook_init_module e st =
     (case patch_found e ''cap_task_prctl'' Ksu_task_prctl st of
        None \<Rightarrow> None
      | Some st \<Rightarrow> (case patch_rename e st of
          None \<Rightarrow> None
        | Some st \<Rightarrow> patch_found e ''cap_task_fix_setuid'' Ksu_task_fix_setuid st))"

subsection \<open>Lemmas\<close>

lemma copy_loop_ok:
  "\<forall>j \<ge> k. alloc j \<Longrightarrow> copy_loop alloc k es new_head = Some (Some (new_head @ map (lh_static_update (\<lambda>_. False)) es))"
  by (induction alloc k es new_head rule: copy_loop.induct) auto

text \<open>A failed copy frees what it has copied, none of it static, and returns NULL.\<close>

lemma copy_loop_no_static:
  "\<not> list_ex lh_static new_head \<Longrightarrow> copy_loop alloc k es new_head \<noteq> None"
  by (induction alloc k es new_head rule: copy_loop.induct) (auto simp: free_security_hook_list_def)

lemma copy_returns: "copy_security_hlist e i orig \<noteq> None"
  using copy_loop_no_static [of "[]" "le_alloc e i" 1 orig] by (simp add: copy_security_hlist_def)

text \<open>A symbol's address is that of a hook in the list at \<open>i\<close>, and of none in an earlier list.\<close>

definition first_in :: "lsm_env \<Rightarrow> string \<Rightarrow> nat \<Rightarrow> lsm_hook list list \<Rightarrow> bool" where
  "first_in e symbol i heads \<longleftrightarrow> (let p = GET_SYMBOL_ADDR e symbol; has = (\<lambda>j. list_ex (\<lambda>h. lh_fn h = Kernel_fn p) (heads ! j)) in
     p \<noteq> 0 \<and> i < LSM_SEARCH_MAX \<and> i < length heads \<and> has i \<and> (\<forall>j < i. \<not> has j))"

lemma find_head_from:
  "k \<le> i \<Longrightarrow> i < n \<Longrightarrow> i < length heads \<Longrightarrow> list_ex (\<lambda>h. lh_fn h = Kernel_fn p) (heads ! i) \<Longrightarrow>
    \<forall>j < i. \<not> list_ex (\<lambda>h. lh_fn h = Kernel_fn p) (heads ! j) \<Longrightarrow> find_head_loop heads p [k..<n] = Some (Some i)"
proof (induction "i - k" arbitrary: k)
  case 0
  then show ?case by (simp add: upt_conv_Cons)
next
  case (Suc d)
  then show ?case by (simp add: upt_conv_Cons)
qed

lemma first_in_found: "first_in e symbol i heads \<Longrightarrow> find_head_addr (GET_SYMBOL_ADDR e symbol) heads = Some (Some i)"
  by (simp add: first_in_def find_head_addr_def find_head_from Let_def)

text \<open>Memory for the copy of a head's list, which lies in one mappable page.\<close>

definition patchable :: "lsm_env \<Rightarrow> nat \<Rightarrow> bool" where
  "patchable e i \<longleftrightarrow> unat (le_head_addr e i) mod 4096 + 8 \<le> 4096 \<and> le_page e i \<and> le_vmap e i \<and> (\<forall>k. le_alloc e i k)"

definition patched :: "nat \<Rightarrow> hook_fn \<Rightarrow> lsm_hook list list \<Rightarrow> lsm_hook list list" where
  "patched i f heads = heads[i := map (lh_static_update (\<lambda>_. False)) (heads ! i) @ [ksu_hook f]]"

lemma copied: "(\<forall>k. le_alloc e i k) \<Longrightarrow> copy_security_hlist e i orig = Some (Some (map (lh_static_update (\<lambda>_. False)) orig))"
  by (simp add: copy_security_hlist_def copy_loop_ok)

lemma hack_ok:
  "patchable e i \<Longrightarrow> i < length (ls_heads st) \<Longrightarrow>
    KSU_LSM_HOOK_HACK_INIT e i f st = Some (st\<lparr>ls_heads := patched i f (ls_heads st)\<rparr>)"
  by (simp add: KSU_LSM_HOOK_HACK_INIT_def patchable_def copied override_security_head_def patched_def Let_def)

lemma first_in_patched:
  assumes "first_in e symbol i heads" "\<And>p. f \<noteq> Kernel_fn p"
  shows "first_in e symbol i (patched j f heads)"
proof -
  have "list_ex (\<lambda>h. lh_fn h = Kernel_fn p) (patched j f heads ! l) = list_ex (\<lambda>h. lh_fn h = Kernel_fn p) (heads ! l)" for p l
    using assms(2) by (cases "j < length heads") (auto simp: patched_def ksu_hook_def list_ex_iff nth_list_update not_less list_update_beyond)
  then show ?thesis using assms(1) by (simp add: first_in_def Let_def patched_def)
qed

text \<open>What the kernel calls, whether an entry is static or not.\<close>

definition hooks_of :: "lsm_hook list list \<Rightarrow> (hook_fn \<times> string option) list list" where
  "hooks_of = map (map (\<lambda>h. (lh_fn h, lh_lsm h)))"

lemma hooks_of_update: "hooks_of (a[i := x]) = (hooks_of a)[i := map (\<lambda>h. (lh_fn h, lh_lsm h)) x]"
  by (simp add: hooks_of_def map_update)

lemma hooks_of_patched:
  assumes "hooks_of a = hooks_of b" "i < length a"
  shows "hooks_of (patched i f a) = hooks_of (b[i := b ! i @ [ksu_hook f]])"
proof -
  let ?v = "\<lambda>h. (lh_fn h, lh_lsm h)"
  have "length a = length b" using assms(1) by (metis hooks_of_def length_map)
  moreover have "hooks_of a ! i = hooks_of b ! i" using assms(1) by simp
  ultimately have m: "map ?v (a ! i) = map ?v (b ! i)" using assms(2) by (simp add: hooks_of_def)
  have "map ?v (map (lh_static_update (\<lambda>_. False)) (a ! i)) = map ?v (a ! i)" by simp
  then show ?thesis unfolding patched_def hooks_of_update map_append m assms(1) by simp
qed

lemma hooks_of_patched_nth:
  assumes "i < length a" "j < length a"
  shows "hooks_of (patched i f a) ! j = hooks_of a ! j @ (if j = i then [(f, Some ''ksu'')] else [])"
  using assms by (simp add: patched_def hooks_of_def ksu_hook_def comp_def nth_list_update)

subsection \<open>Properties\<close>

text \<open>C31. If the capability hooks are found first where they belong, memory suffices and the heads can
  be mapped, then patching the hook heads from a module puts the driver's hooks for \<open>task_prctl\<close>,
  \<open>inode_rename\<close> and \<open>task_fix_setuid\<close> behind the hooks these lists had and leaves every other list as it
  is. A driver that is built in registers the same hooks in the same places and order and one hook more,
  that of \<open>inode_permission\<close>, which the module leaves out.\<close>
theorem module_patch_registers:
  assumes "first_in e ''cap_task_prctl'' (le_task_prctl e) (ls_heads st)"
    and "first_in e ''cap_inode_killpriv'' (le_inode_killpriv e) (ls_heads st)"
    and "first_in e ''cap_task_fix_setuid'' (le_task_fix_setuid e) (ls_heads st)"
    and "le_inode_rename e < length (ls_heads st)"
    and "patchable e (le_task_prctl e)" "patchable e (le_inode_rename e)" "patchable e (le_task_fix_setuid e)"
  shows "\<exists>st'. ksu_lsm_hook_init_module e st = Some st' \<and> ls_renameat_kp st' = ls_renameat_kp st \<and>
    (\<forall>j < length (ls_heads st). hooks_of (ls_heads st') ! j = hooks_of (ls_heads st) ! j @
      map (\<lambda>f. (f, Some ''ksu''))
        ((if j = le_task_prctl e then [Ksu_task_prctl] else []) @
         (if j = le_inode_rename e then [Ksu_inode_rename] else []) @
         (if j = le_task_fix_setuid e then [Ksu_task_fix_setuid] else []))) \<and>
    hooks_of (ls_heads (ksu_lsm_hook_init e st)) =
      (hooks_of (ls_heads st'))[le_inode_permission e :=
         hooks_of (ls_heads st') ! le_inode_permission e @ [(Ksu_inode_permission, Some ''ksu'')]]"
proof -
  let ?h = "ls_heads st"
  let ?h1 = "patched (le_task_prctl e) Ksu_task_prctl ?h"
  let ?h2 = "patched (le_inode_rename e) Ksu_inode_rename ?h1"
  let ?h3 = "patched (le_task_fix_setuid e) Ksu_task_fix_setuid ?h2"
  have len: "le_task_prctl e < length ?h" "le_task_fix_setuid e < length ?h"
    using assms(1,3) by (simp_all add: first_in_def Let_def)
  have l: "length (patched i f hs) = length hs" for i f hs by (simp add: patched_def)
  have "patch_found e ''cap_task_prctl'' Ksu_task_prctl st = Some (st\<lparr>ls_heads := ?h1\<rparr>)"
    using first_in_found [OF assms(1)] hack_ok [OF assms(5) len(1)] by (simp add: patch_found_def)
  moreover have "patch_rename e (st\<lparr>ls_heads := ?h1\<rparr>) = Some (st\<lparr>ls_heads := ?h2\<rparr>)"
    using first_in_found [OF first_in_patched [OF assms(2)], of Ksu_task_prctl "le_task_prctl e"]
      hack_ok [OF assms(6), of "st\<lparr>ls_heads := ?h1\<rparr>"] assms(4) by (simp add: patch_rename_def l)
  moreover have "patch_found e ''cap_task_fix_setuid'' Ksu_task_fix_setuid (st\<lparr>ls_heads := ?h2\<rparr>) = Some (st\<lparr>ls_heads := ?h3\<rparr>)"
    using first_in_found [OF first_in_patched [OF first_in_patched [OF assms(3)]], of Ksu_task_prctl Ksu_inode_rename
        "le_inode_rename e" "le_task_prctl e"] hack_ok [OF assms(7), of "st\<lparr>ls_heads := ?h2\<rparr>"] len(2)
    by (simp add: patch_found_def l)
  ultimately have run: "ksu_lsm_hook_init_module e st = Some (st\<lparr>ls_heads := ?h3\<rparr>)"
    by (simp add: ksu_lsm_hook_init_module_def)
  define b3 where "b3 = security_add_hooks (take 3 (ksu_hooks e)) ?h"
  have three: "hooks_of ?h3 = hooks_of b3"
    unfolding b3_def security_add_hooks_def ksu_hooks_def
    using len assms(4) by (simp add: l) (intro hooks_of_patched; simp add: l)
  then have len3: "length b3 = length ?h" by (metis hooks_of_def l length_map)
  have built: "ls_heads (ksu_lsm_hook_init e st) =
      b3[le_inode_permission e := b3 ! le_inode_permission e @ [ksu_hook Ksu_inode_permission]]"
    by (simp add: ksu_lsm_hook_init_def b3_def security_add_hooks_def ksu_hooks_def)
  have four: "hooks_of (ls_heads (ksu_lsm_hook_init e st)) =
      (hooks_of ?h3)[le_inode_permission e :=
         hooks_of ?h3 ! le_inode_permission e @ [(Ksu_inode_permission, Some ''ksu'')]]"
  proof (cases "le_inode_permission e < length b3")
    case True
    then show ?thesis unfolding built three hooks_of_update by (simp add: hooks_of_def ksu_hook_def)
  next
    case False
    then show ?thesis unfolding built three by (simp add: list_update_beyond hooks_of_def)
  qed
  have "hooks_of ?h3 ! j = hooks_of ?h ! j @ map (\<lambda>f. (f, Some ''ksu''))
      ((if j = le_task_prctl e then [Ksu_task_prctl] else []) @
       (if j = le_inode_rename e then [Ksu_inode_rename] else []) @
       (if j = le_task_fix_setuid e then [Ksu_task_fix_setuid] else []))" if "j < length ?h" for j
    using that len assms(4) by (simp add: hooks_of_patched_nth l)
  then show ?thesis using run four by simp
qed

text \<open>When the head cannot be replaced the cleanup frees the whole new list, whose last entry is the static
  hook: \<open>kfree\<close> of an object that was never allocated. Without memory for the copy nothing happens.\<close>

theorem failed_override_frees_static:
  assumes "i < length (ls_heads st)" "\<not> le_page e i \<or> \<not> le_vmap e i" "\<forall>k. le_alloc e i k"
  shows "KSU_LSM_HOOK_HACK_INIT e i f st = None"
  using assms
  by (auto simp: KSU_LSM_HOOK_HACK_INIT_def copied override_security_head_def Let_def
      free_security_hook_list_def ksu_hook_def)

subsection \<open>Witnesses\<close>

definition ex_lsm_env :: lsm_env where
  "ex_lsm_env = \<lparr>le_task_prctl = 3, le_inode_killpriv = 1, le_inode_rename = 0, le_task_fix_setuid = 2,
     le_inode_permission = 1,
     le_kallsyms = (\<lambda>s. if s = ''cap_task_prctl.cfi_jt'' then 10 else if s = ''cap_inode_killpriv'' then 11
       else if s = ''cap_task_fix_setuid'' then 12 else 0),
     le_head_addr = (\<lambda>i. 4096 + 8 * word_of_nat i), le_page = (\<lambda>i. True), le_vmap = (\<lambda>i. True), le_alloc = (\<lambda>i k. True)\<rparr>"

definition ex_lsm_state :: lsm_state where
  "ex_lsm_state = \<lparr>ls_heads = map (map (\<lambda>a. \<lparr>lh_fn = Kernel_fn a, lh_lsm = None, lh_static = True\<rparr>)) [[], [11], [12, 20], [10]],
     ls_renameat_kp = False\<rparr>"

lemma module_patch_registers_witness:
  "\<exists>st'. ksu_lsm_hook_init_module ex_lsm_env ex_lsm_state = Some st' \<and>
    hooks_of (ls_heads st') = [[(Ksu_inode_rename, Some ''ksu'')], [(Kernel_fn 11, None)],
      [(Kernel_fn 12, None), (Kernel_fn 20, None), (Ksu_task_fix_setuid, Some ''ksu'')],
      [(Kernel_fn 10, None), (Ksu_task_prctl, Some ''ksu'')]] \<and>
    hooks_of (ls_heads (ksu_lsm_hook_init ex_lsm_env ex_lsm_state)) =
     [[(Ksu_inode_rename, Some ''ksu'')], [(Kernel_fn 11, None), (Ksu_inode_permission, Some ''ksu'')],
      [(Kernel_fn 12, None), (Kernel_fn 20, None), (Ksu_task_fix_setuid, Some ''ksu'')],
      [(Kernel_fn 10, None), (Ksu_task_prctl, Some ''ksu'')]]"
proof -
  let ?e = ex_lsm_env and ?st = ex_lsm_state
  have all: "(\<forall>j < 3. P j) \<longleftrightarrow> P 0 \<and> P 1 \<and> P 2" "(\<forall>j < 2. P j) \<longleftrightarrow> P 0 \<and> P 1" for P :: "nat \<Rightarrow> bool"
    by (auto simp: numeral_3_eq_3 numeral_2_eq_2 All_less_Suc)
  have f: "first_in ?e ''cap_task_prctl'' (le_task_prctl ?e) (ls_heads ?st)"
    "first_in ?e ''cap_inode_killpriv'' (le_inode_killpriv ?e) (ls_heads ?st)"
    "first_in ?e ''cap_task_fix_setuid'' (le_task_fix_setuid ?e) (ls_heads ?st)"
    by (simp_all add: first_in_def ex_lsm_env_def ex_lsm_state_def GET_SYMBOL_ADDR_def LSM_SEARCH_MAX_def all)
  have p: "patchable ?e (le_task_prctl ?e)" "patchable ?e (le_inode_rename ?e)" "patchable ?e (le_task_fix_setuid ?e)"
    "le_inode_rename ?e < length (ls_heads ?st)"
    by (simp_all add: patchable_def ex_lsm_env_def ex_lsm_state_def)
  obtain st' where run: "ksu_lsm_hook_init_module ?e ?st = Some st'"
    and old: "\<forall>j < length (ls_heads ?st). hooks_of (ls_heads st') ! j = hooks_of (ls_heads ?st) ! j @
      map (\<lambda>f. (f, Some ''ksu''))
        ((if j = le_task_prctl ?e then [Ksu_task_prctl] else []) @
         (if j = le_inode_rename ?e then [Ksu_inode_rename] else []) @
         (if j = le_task_fix_setuid ?e then [Ksu_task_fix_setuid] else []))"
    and built: "hooks_of (ls_heads (ksu_lsm_hook_init ?e ?st)) = (hooks_of (ls_heads st'))[le_inode_permission ?e :=
         hooks_of (ls_heads st') ! le_inode_permission ?e @ [(Ksu_inode_permission, Some ''ksu'')]]"
    using module_patch_registers [OF f p(4,1,2,3)] by blast
  have four: "length (ls_heads ?st) = 4" by (simp add: ex_lsm_state_def)
  have b: "hooks_of (ls_heads (ksu_lsm_hook_init ?e ?st)) =
     [[(Ksu_inode_rename, Some ''ksu'')], [(Kernel_fn 11, None), (Ksu_inode_permission, Some ''ksu'')],
      [(Kernel_fn 12, None), (Kernel_fn 20, None), (Ksu_task_fix_setuid, Some ''ksu'')],
      [(Kernel_fn 10, None), (Ksu_task_prctl, Some ''ksu'')]]"
    by (simp add: hooks_of_def ksu_lsm_hook_init_def security_add_hooks_def ksu_hooks_def ex_lsm_env_def
        ex_lsm_state_def ksu_hook_def)
  have "length (hooks_of (ls_heads st')) = 4" using arg_cong [OF built, of length] b by simp
  then have "hooks_of (ls_heads st') = map (\<lambda>j. hooks_of (ls_heads st') ! j) [0, 1, 2, 3]"
    by (intro nth_equalityI) (auto simp: less_Suc_eq numeral_eq_Suc)
  also have "\<dots> = [[(Ksu_inode_rename, Some ''ksu'')], [(Kernel_fn 11, None)],
      [(Kernel_fn 12, None), (Kernel_fn 20, None), (Ksu_task_fix_setuid, Some ''ksu'')],
      [(Kernel_fn 10, None), (Ksu_task_prctl, Some ''ksu'')]]"
    using old unfolding four by (simp add: ex_lsm_env_def) (simp add: ex_lsm_state_def hooks_of_def)
  finally show ?thesis using run b by blast
qed

end
