(* ===== verification/Sepolicy_Later.thy ===== *)
theory Sepolicy_Later
  imports Sepolicy_Types
begin

text \<open>
  The branches of \<^verbatim>\<open>sepolicy.c\<close> for later kernels: named type transitions from 5.7 on, where one key holds
  a chain of data, each a set of source types with their default type; and new types from 5.1 on, where
  the arrays are plain memory. The rest of the file is the same for all kernels.
\<close>

subsection \<open>Named type transitions\<close>

record later_trans_key =
  lk_ttype :: u32
  lk_tclass :: u16
  lk_name :: string

record later_trans_datum =
  ld_stypes :: "nat set"
  ld_otype :: u32

text \<open>The table with its chains, none of them empty, and \<open>compat_filename_trans_count\<close>.\<close>

record later_trans =
  lt_chains :: "(later_trans_key \<times> later_trans_datum list) list"
  compat_filename_trans_count :: u32

text \<open>The table's hash, over the kernel's \<open>partial_name_hash\<close>, and its comparison.\<close>

definition filenametr_hash :: "(char \<Rightarrow> u64 \<Rightarrow> u64) \<Rightarrow> later_trans_key \<Rightarrow> u32" where
  "filenametr_hash partial_name_hash ft =
     ucast (fold partial_name_hash (lk_name ft) (ucast (lk_ttype ft XOR ucast (lk_tclass ft))))"

fun c_strcmp :: "string \<Rightarrow> string \<Rightarrow> int" where
  "c_strcmp [] [] = 0"
| "c_strcmp [] (b # bs) = - 1"
| "c_strcmp (a # as) [] = 1"
| "c_strcmp (a # as) (b # bs) =
     (if (of_char a :: nat) = of_char b then c_strcmp as bs else if (of_char a :: nat) < of_char b then - 1 else 1)"

definition filenametr_cmp :: "later_trans_key \<Rightarrow> later_trans_key \<Rightarrow> int" where
  "filenametr_cmp ft1 ft2 =
     (let v = sint (lk_ttype ft1 - lk_ttype ft2) in
      if v \<noteq> 0 then v
      else let v = uint (lk_tclass ft1) - uint (lk_tclass ft2) in
      if v \<noteq> 0 then v else c_strcmp (lk_name ft1) (lk_name ft2))"

text \<open>\<open>None\<close> is an access through a failed allocation. A key that the table has is not inserted a second
  time: then the new datum hangs on nothing.\<close>

definition add_filename_trans_later :: "policy_env \<Rightarrow> policydb \<Rightarrow> string \<Rightarrow> string \<Rightarrow> string \<Rightarrow> string \<Rightarrow> string \<Rightarrow>
    later_trans \<Rightarrow> (bool \<times> later_trans) option" where
  "add_filename_trans_later e db s t c d obj lt =
     (case rule_symbols db s t c d of
        None \<Rightarrow> Some (False, lt)
      | Some (src, tgt, cls, dt) \<Rightarrow>
          let key = \<lparr>lk_ttype = td_value tgt, lk_tclass = ucast (cd_value cls), lk_name = obj\<rparr>;
              chain = (case map_of (lt_chains lt) key of None \<Rightarrow> [] | Some ch \<Rightarrow> ch);
              b = unat (td_value src - 1);
              put = (\<lambda>i x lt. lt\<lparr>lt_chains := map (\<lambda>(k, ch). if k = key then (k, ch[i := x]) else (k, ch)) (lt_chains lt)\<rparr>);
              count = (\<lambda>lt. lt\<lparr>compat_filename_trans_count := compat_filename_trans_count lt + 1\<rparr>)
          in (case find_index (\<lambda>x. b \<in> ld_stypes x \<or> ld_otype x = td_value dt) chain of
            Some i \<Rightarrow>
              let x = chain ! i in
              if b \<in> ld_stypes x then Some (True, put i (x\<lparr>ld_otype := td_value dt\<rparr>) lt)
              else (let (ok, m) = ebitmap_set_bit e (ld_stypes x) b True in Some (ok, count (put i (x\<lparr>ld_stypes := m\<rparr>) lt)))
          | None \<Rightarrow>
              if \<not> po_trans_alloc e \<or> \<not> po_trans_key_alloc e \<or> \<not> po_trans_name_dup e then None
              else let (ok, m) = ebitmap_set_bit e {} b True;
                  x = \<lparr>ld_stypes = m, ld_otype = td_value dt\<rparr>
                in Some (ok, count (if chain = [] \<and> po_trans_insert e then lt\<lparr>lt_chains := (key, [x]) # lt_chains lt\<rparr> else lt))))"

subsection \<open>New types\<close>

definition ksu_realloc :: "bool \<Rightarrow> 'a \<Rightarrow> 'a list \<Rightarrow> nat \<Rightarrow> nat \<Rightarrow> 'a list option" where
  "ksu_realloc alloc zero old new_size old_size =
     (if \<not> alloc then None else Some (take old_size old @ replicate (new_size - old_size) zero))"

definition add_type_later :: "policy_env \<Rightarrow> string \<Rightarrow> bool \<Rightarrow> policydb \<Rightarrow> bool \<times> policydb" where
  "add_type_later e type_name attr db =
     (case symtab_search (p_types db) type_name of
        Some _ \<Rightarrow> (True, db)
      | None \<Rightarrow>
          let val = p_types_nprim db + 1;
              db = db\<lparr>p_types_nprim := val\<rparr>;
              ty = \<lparr>td_value = val, td_primary = True, td_attribute = attr\<rparr>;
              n = unat val; i = unat (val - 1)
          in if \<not> po_type_alloc e then (False, db)
          else if \<not> po_key_dup e then (False, db)
          else if \<not> po_sym_insert e then (False, db)
          else let db = db\<lparr>p_types := take (po_type_place e) (p_types db) @ (type_name, ty) # drop (po_type_place e) (p_types db)\<rparr>
          in (case ksu_realloc (po_attr_map_alloc e) {} (type_attr_map_array db) n i of
            None \<Rightarrow> (False, db)
          | Some attrs \<Rightarrow> (case ksu_realloc (po_val_to_struct_alloc e) None (type_val_to_struct_array db) n i of
              None \<Rightarrow> (False, db)
            | Some structs \<Rightarrow> (case ksu_realloc (po_val_to_name_alloc e) None (sym_val_to_name_types db) n i of
                None \<Rightarrow> (False, db)
              | Some names \<Rightarrow>
                  let db = db\<lparr>type_attr_map_array := attrs[i := snd (ebitmap_set_bit e {} i True)]\<rparr>;
                      db = db\<lparr>type_val_to_struct_array := structs[i := Some ty]\<rparr>;
                      db = db\<lparr>sym_val_to_name_types := names[i := Some type_name]\<rparr>
                  in (True, db\<lparr>role_types := map (\<lambda>m. snd (ebitmap_set_bit e m i True)) (role_types db)\<rparr>)))))"

subsection \<open>Lemmas\<close>

lemma c_strcmp_zero: "c_strcmp as bs = 0 \<longleftrightarrow> as = bs"
  by (induction as bs rule: c_strcmp.induct) auto

text \<open>The comparison finds exactly equal keys, and these hash alike.\<close>

lemma filenametr_cmp_zero: "filenametr_cmp k1 k2 = 0 \<longleftrightarrow> k1 = k2"
proof -
  have "sint (lk_ttype k1 - lk_ttype k2) = 0 \<longleftrightarrow> lk_ttype k1 = lk_ttype k2" by (simp add: signed_eq_0_iff)
  moreover have "uint (lk_tclass k1) - uint (lk_tclass k2) = 0 \<longleftrightarrow> lk_tclass k1 = lk_tclass k2"
    by (simp add: word_uint_eq_iff)
  ultimately show ?thesis by (cases k1; cases k2) (auto simp: filenametr_cmp_def Let_def c_strcmp_zero)
qed

text \<open>On consistent tables adding a type is the same before and after 5.1, whatever fails.\<close>

lemma add_type_later_eq:
  assumes "types_wf db" "p_types_nprim db + 1 \<noteq> 0"
    and "po_attr_map_prealloc e" "po_val_to_struct_prealloc e" "po_val_to_name_prealloc e"
  shows "add_type_later e n attr db = add_type e n attr db"
proof -
  let ?n = "unat (p_types_nprim db)"
  have n1: "unat (p_types_nprim db + 1) = Suc ?n"
    using assms(2) by (metis add.commute unatSuc Suc_eq_plus1_left)
  have l: "length (type_attr_map_array db) = ?n" "length (type_val_to_struct_array db) = ?n"
    "length (sym_val_to_name_types db) = ?n" using assms(1) by (simp_all add: types_wf_def)
  show ?thesis
    using assms(3-5) l
    by (auto simp: add_type_later_def add_type_def new_type_arrays_def ksu_realloc_def publish_type_def resize_array_def
        n1 Let_def split: option.split)
qed

subsection \<open>What a named transition stores\<close>

text \<open>The kernel answers a lookup from the first datum of the key's chain that has the source.\<close>

definition chain_index :: "later_trans_datum list \<Rightarrow> nat \<Rightarrow> nat option" where
  "chain_index ch i = find_index (\<lambda>x. i \<in> ld_stypes x) ch"

definition chain_lookup :: "later_trans_datum list \<Rightarrow> nat \<Rightarrow> u32 option" where
  "chain_lookup ch i = map_option (\<lambda>j. ld_otype (ch ! j)) (chain_index ch i)"

definition trans_chain :: "later_trans \<Rightarrow> later_trans_key \<Rightarrow> later_trans_datum list" where
  "trans_chain lt k = (case map_of (lt_chains lt) k of None \<Rightarrow> [] | Some ch \<Rightarrow> ch)"

text \<open>Whether a new default for a source is written over the datum it shares with other sources: it has
  one, and no earlier datum of the chain has that default.\<close>

definition chain_overwrites :: "later_trans_datum list \<Rightarrow> nat \<Rightarrow> u32 \<Rightarrow> bool" where
  "chain_overwrites ch b d =
     (case chain_index ch b of None \<Rightarrow> False | Some j \<Rightarrow> d \<notin> ld_otype ` set (take j ch))"

text \<open>What the new default makes of the datum the search stops at.\<close>

definition datum_with :: "nat \<Rightarrow> u32 \<Rightarrow> later_trans_datum \<Rightarrow> later_trans_datum" where
  "datum_with b d x = (if b \<in> ld_stypes x then x\<lparr>ld_otype := d\<rparr> else x\<lparr>ld_stypes := insert b (ld_stypes x)\<rparr>)"

lemma map_of_replace:
  "map_of (map (\<lambda>(k, ch). if k = key then (k, f ch) else (k, ch)) ps) k =
     (if k = key then map_option f (map_of ps k) else map_of ps k)"
  by (induction ps) auto

lemma map_option_comp_Suc: "(case map_option Suc r of None \<Rightarrow> a | Some j \<Rightarrow> f j) = (case r of None \<Rightarrow> a | Some j \<Rightarrow> f (Suc j))"
  by (cases r) auto

lemma chain_update:
  assumes "find_index (\<lambda>x. b \<in> ld_stypes x \<or> ld_otype x = d) ch = Some j"
  shows "chain_lookup (ch[j := datum_with b d (ch ! j)]) i =
     (if i = b \<or> chain_overwrites ch b d \<and> chain_index ch i = chain_index ch b then Some d else chain_lookup ch i)"
  using assms
proof (induction ch arbitrary: j)
  case (Cons y ys)
  then show ?case
    by (cases j) (auto simp: chain_lookup_def chain_index_def chain_overwrites_def datum_with_def map_option_comp_Suc
        option.map_comp o_def split: if_splits option.splits)
qed simp

definition trans_lookup :: "later_trans \<Rightarrow> later_trans_key \<Rightarrow> nat \<Rightarrow> u32 option" where
  "trans_lookup lt k i = chain_lookup (trans_chain lt k) i"

definition later_key :: "type_datum \<Rightarrow> class_datum \<Rightarrow> string \<Rightarrow> later_trans_key" where
  "later_key tgt cls obj = \<lparr>lk_ttype = td_value tgt, lk_tclass = ucast (cd_value cls), lk_name = obj\<rparr>"

lemmas later_step = add_filename_trans_later_def later_key_def Let_def

text \<open>The search stops at a datum: that one is changed.\<close>

lemma later_stops:
  assumes "rule_symbols db s t c d = Some (src, tgt, cls, dt)" "\<forall>b. po_ebitmap_alloc e b"
    and "find_index (\<lambda>x. unat (td_value src - 1) \<in> ld_stypes x \<or> ld_otype x = td_value dt) (trans_chain lt (later_key tgt cls obj)) = Some j"
  shows "\<exists>lt'. add_filename_trans_later e db s t c d obj lt = Some (True, lt') \<and>
    trans_chain lt' (later_key tgt cls obj) = (trans_chain lt (later_key tgt cls obj))
      [j := datum_with (unat (td_value src - 1)) (td_value dt) (trans_chain lt (later_key tgt cls obj) ! j)] \<and>
    (\<forall>k. k \<noteq> later_key tgt cls obj \<longrightarrow> trans_chain lt' k = trans_chain lt k)"
  using assms
  by (auto simp: later_step trans_chain_def ebitmap_set_bit_def map_of_replace datum_with_def split: option.splits)

text \<open>It stops nowhere: a key the table lacks gets a chain of one datum, the others stay as they are.\<close>

lemma later_runs_through:
  assumes "rule_symbols db s t c d = Some (src, tgt, cls, dt)" "\<forall>b. po_ebitmap_alloc e b"
    and "po_trans_alloc e" "po_trans_key_alloc e" "po_trans_name_dup e" "po_trans_insert e"
    and "find_index (\<lambda>x. unat (td_value src - 1) \<in> ld_stypes x \<or> ld_otype x = td_value dt) (trans_chain lt (later_key tgt cls obj)) = None"
  shows "\<exists>lt'. add_filename_trans_later e db s t c d obj lt = Some (True, lt') \<and>
    trans_chain lt' (later_key tgt cls obj) =
      (if trans_chain lt (later_key tgt cls obj) = []
       then [\<lparr>ld_stypes = {unat (td_value src - 1)}, ld_otype = td_value dt\<rparr>] else trans_chain lt (later_key tgt cls obj)) \<and>
    (\<forall>k. k \<noteq> later_key tgt cls obj \<longrightarrow> trans_chain lt' k = trans_chain lt k)"
  using assms
  by (auto simp: later_step trans_chain_def ebitmap_set_bit_def split: option.splits)

text \<open>C26. From 5.7 on a named transition whose names resolve and whose memory is granted reports success.
  A later lookup gives the new default if the key had no chain, or the source already had a default under
  it, or a datum of the chain has that default; otherwise the source still has none, the key being in the
  table already. No other key changes, and another source's answer changes exactly when it shares the datum
  that the new default was written over: it then gets the new default too.\<close>
theorem later_transition_stored:
  fixes obj :: string
  assumes r: "rule_symbols db s t c d = Some (src, tgt, cls, dt)" and a: "\<forall>b. po_ebitmap_alloc e b"
    and m: "po_trans_alloc e" "po_trans_key_alloc e" "po_trans_name_dup e" "po_trans_insert e"
  defines "key \<equiv> later_key tgt cls obj" and "b \<equiv> unat (td_value src - 1)" and "o' \<equiv> td_value dt"
  shows "\<exists>lt'. add_filename_trans_later e db s t c d obj lt = Some (True, lt') \<and>
    trans_lookup lt' key b =
      (if trans_chain lt key = [] \<or> trans_lookup lt key b \<noteq> None \<or> o' \<in> ld_otype ` set (trans_chain lt key)
       then Some o' else None) \<and>
    (\<forall>k i. (k, i) \<noteq> (key, b) \<longrightarrow> trans_lookup lt' k i =
      (if k = key \<and> chain_overwrites (trans_chain lt key) b o' \<and>
          chain_index (trans_chain lt key) i = chain_index (trans_chain lt key) b
       then Some o' else trans_lookup lt k i))"
proof (cases "find_index (\<lambda>x. b \<in> ld_stypes x \<or> ld_otype x = o') (trans_chain lt key)")
  case None
  then have n: "chain_index (trans_chain lt key) b = None" "o' \<notin> ld_otype ` set (trans_chain lt key)"
    by (auto simp: chain_index_def find_index_None)
  then have w: "\<not> chain_overwrites (trans_chain lt key) b o'" by (simp add: chain_overwrites_def)
  obtain lt' where l: "add_filename_trans_later e db s t c d obj lt = Some (True, lt')"
    "trans_chain lt' key = (if trans_chain lt key = [] then [\<lparr>ld_stypes = {b}, ld_otype = o'\<rparr>] else trans_chain lt key)"
    "\<forall>k. k \<noteq> key \<longrightarrow> trans_chain lt' k = trans_chain lt k"
    using later_runs_through [OF r a m None [unfolded key_def b_def o'_def]] unfolding key_def b_def o'_def by blast
  have f: "trans_lookup lt' k i = trans_lookup lt k i" if "(k, i) \<noteq> (key, b)" for k i
    using that l by (cases "k = key") (auto simp: trans_lookup_def chain_lookup_def chain_index_def)
  have g: "trans_lookup lt' key b = (if trans_chain lt key = [] then Some o' else None)"
    using l n by (auto simp: trans_lookup_def chain_lookup_def chain_index_def)
  have h: "trans_lookup lt key b = None" using n by (simp add: trans_lookup_def chain_lookup_def)
  show ?thesis
    by (rule exI [of _ lt']) (use l(1) f g h n(2) w in auto)
next
  case (Some j)
  obtain lt' where l: "add_filename_trans_later e db s t c d obj lt = Some (True, lt')"
    "trans_chain lt' key = (trans_chain lt key)[j := datum_with b o' (trans_chain lt key ! j)]"
    "\<forall>k. k \<noteq> key \<longrightarrow> trans_chain lt' k = trans_chain lt k"
    using later_stops [OF r a Some [unfolded key_def b_def o'_def]] unfolding key_def b_def o'_def by blast
  have s: "trans_lookup lt key b \<noteq> None \<or> o' \<in> ld_otype ` set (trans_chain lt key)"
    using find_index_Some [OF Some] find_index_None [of "\<lambda>x. b \<in> ld_stypes x" "trans_chain lt key"]
    by (auto simp: trans_lookup_def chain_lookup_def chain_index_def)
  have f: "trans_lookup lt' k i = (if k = key then chain_lookup ((trans_chain lt key)[j := datum_with b o' (trans_chain lt key ! j)]) i
      else trans_lookup lt k i)" for k i
    using l by (simp add: trans_lookup_def)
  show ?thesis
    by (rule exI [of _ lt']) (use l(1) s f chain_update [OF Some] in \<open>auto simp: trans_lookup_def\<close>)
qed

text \<open>Under a chain that gives source 0 a default, type 3 gets none of its own; and a new default for one of
  two sources that share a datum is the other's too.\<close>

lemma later_transition_stored_witness:
  "(\<exists>lt. add_filename_trans_later ex_policy_env ex_policy ''init'' ''su'' ''file'' ''domain'' ''sock''
      \<lparr>lt_chains = [(later_key (ex_type 1 False) ex_class ''sock'', [\<lparr>ld_stypes = {0}, ld_otype = 1\<rparr>])],
       compat_filename_trans_count = 1\<rparr> = Some (True, lt) \<and> trans_lookup lt (later_key (ex_type 1 False) ex_class ''sock'') 2 = None) \<and>
   (\<exists>lt. add_filename_trans_later ex_policy_env ex_policy ''init'' ''su'' ''file'' ''domain'' ''sock''
      \<lparr>lt_chains = [(later_key (ex_type 1 False) ex_class ''sock'', [\<lparr>ld_stypes = {0, 2}, ld_otype = 1\<rparr>])],
       compat_filename_trans_count = 2\<rparr> = Some (True, lt) \<and> trans_lookup lt (later_key (ex_type 1 False) ex_class ''sock'') 0 = Some 2)"
proof -
  have r: "rule_symbols ex_policy ''init'' ''su'' ''file'' ''domain'' = Some (ex_type 3 False, ex_type 1 False, ex_class, ex_type 2 True)"
    by (simp add: rule_symbols_def symtab_search_def ex_policy_types)
  have e: "\<forall>b. po_ebitmap_alloc ex_policy_env b" "po_trans_alloc ex_policy_env" "po_trans_key_alloc ex_policy_env"
    "po_trans_name_dup ex_policy_env" "po_trans_insert ex_policy_env" by (simp_all add: ex_policy_env_def)
  note p = later_transition_stored [OF r e, of "''sock''"]
  define k where "k = later_key (ex_type 1 False) ex_class ''sock''"
  have v: "unat (td_value (ex_type 3 False) - 1) = 2" "td_value (ex_type 2 True) = 2" by (simp_all add: ex_type_def)
  define lt1 where "lt1 = \<lparr>lt_chains = [(k, [\<lparr>ld_stypes = {0::nat}, ld_otype = 1\<rparr>])], compat_filename_trans_count = 1\<rparr>"
  define lt2 where "lt2 = \<lparr>lt_chains = [(k, [\<lparr>ld_stypes = {0::nat, 2}, ld_otype = 1\<rparr>])], compat_filename_trans_count = 2\<rparr>"
  have "\<exists>lt. add_filename_trans_later ex_policy_env ex_policy ''init'' ''su'' ''file'' ''domain'' ''sock'' lt1 = Some (True, lt) \<and>
      trans_lookup lt k 2 = None"
    using p [of lt1, folded k_def, unfolded v]
    by (auto simp: lt1_def trans_chain_def trans_lookup_def chain_lookup_def chain_index_def)
  moreover have "\<exists>lt. add_filename_trans_later ex_policy_env ex_policy ''init'' ''su'' ''file'' ''domain'' ''sock'' lt2 = Some (True, lt) \<and>
      trans_lookup lt k 0 = Some 2"
    using p [of lt2, folded k_def, unfolded v]
    by (auto simp: lt2_def trans_chain_def chain_overwrites_def chain_index_def)
  ultimately show ?thesis unfolding lt1_def lt2_def k_def by blast
qed

end
