(* ===== verification/Kprobes.thy ===== *)
theory Kprobes
  imports Ksud Core_Hooks Core_Prctl Runs
begin

text \<open>
  The build with \<^verbatim>\<open>CONFIG_KSU_KPROBES_HOOK\<close>, in which the hooks of \<^verbatim>\<open>ksud.c\<close> and \<^verbatim>\<open>sucompat.c\<close> are
  called by kprobes at the entries of the system calls instead of by patches in the kernel, and are
  stopped by unregistering the probes from a work item instead of by a flag. The registers are those
  of arm64 (\<^verbatim>\<open>arch.h\<close>). The properties relate this build to the one of the other theories.
\<close>

subsection \<open>Registers\<close>

text \<open>A register file by number; the entry of a system call gets the address of the user's registers.\<close>

type_synonym pt_regs = "nat \<Rightarrow> u64"
type_synonym regs_mem = "u64 \<Rightarrow> pt_regs"

definition PT_REGS_PARM1 :: "pt_regs \<Rightarrow> u64" where "PT_REGS_PARM1 x = x 0"
definition PT_REGS_PARM2 :: "pt_regs \<Rightarrow> u64" where "PT_REGS_PARM2 x = x 1"
definition PT_REGS_PARM3 :: "pt_regs \<Rightarrow> u64" where "PT_REGS_PARM3 x = x 2"
definition PT_REGS_SYSCALL_PARM4 :: "pt_regs \<Rightarrow> u64" where "PT_REGS_SYSCALL_PARM4 x = x 3"
definition PT_REGS_CCALL_PARM4 :: "pt_regs \<Rightarrow> u64" where "PT_REGS_CCALL_PARM4 x = x 3"
definition PT_REGS_PARM5 :: "pt_regs \<Rightarrow> u64" where "PT_REGS_PARM5 x = x 4"

definition PT_REAL_REGS :: "regs_mem \<Rightarrow> pt_regs \<Rightarrow> pt_regs" where
  "PT_REAL_REGS m x = m (PT_REGS_PARM1 x)"

text \<open>A write through the address of one of the user's registers.\<close>

definition write_reg :: "nat \<Rightarrow> u64 \<Rightarrow> pt_regs \<Rightarrow> regs_mem \<Rightarrow> regs_mem" where
  "write_reg i v x m = m(PT_REGS_PARM1 x := (PT_REAL_REGS m x)(i := v))"

subsection \<open>The hooks of ksud.c\<close>

text \<open>Which probes are registered, which of their work items are queued, and the static
  \<open>input_hook_stopped\<close>. The flags in \<open>kq_st\<close> are not part of this build.\<close>

record ('ns, 'fs) ksud_probes =
  kq_st :: "('ns, 'fs) ksud_state"
  execve_kp :: bool
  vfs_read_kp :: bool
  input_event_kp :: bool
  stop_vfs_read_work :: bool
  stop_execve_hook_work :: bool
  stop_input_hook_work :: bool
  input_hook_stopped :: bool

definition do_stop_vfs_read_hook :: "('ns, 'fs) ksud_probes \<Rightarrow> ('ns, 'fs) ksud_probes" where
  "do_stop_vfs_read_hook q = q\<lparr>vfs_read_kp := False\<rparr>"

definition do_stop_execve_hook :: "('ns, 'fs) ksud_probes \<Rightarrow> ('ns, 'fs) ksud_probes" where
  "do_stop_execve_hook q = q\<lparr>execve_kp := False\<rparr>"

definition do_stop_input_hook :: "('ns, 'fs) ksud_probes \<Rightarrow> ('ns, 'fs) ksud_probes" where
  "do_stop_input_hook q = q\<lparr>input_event_kp := False\<rparr>"

text \<open>The system's work queue runs what is queued.\<close>

definition run_probe_work :: "('ns, 'fs) ksud_probes \<Rightarrow> ('ns, 'fs) ksud_probes" where
  "run_probe_work q =
     (let q = (if stop_vfs_read_work q then do_stop_vfs_read_hook (q\<lparr>stop_vfs_read_work := False\<rparr>) else q);
          q = (if stop_execve_hook_work q then do_stop_execve_hook (q\<lparr>stop_execve_hook_work := False\<rparr>) else q)
      in if stop_input_hook_work q then do_stop_input_hook (q\<lparr>stop_input_hook_work := False\<rparr>) else q)"

definition stop_vfs_read_hook_kp :: "('ns, 'fs) ksud_probes \<Rightarrow> ('ns, 'fs) ksud_probes" where
  "stop_vfs_read_hook_kp q = q\<lparr>stop_vfs_read_work := True\<rparr>"

definition stop_execve_hook_kp :: "('ns, 'fs) ksud_probes \<Rightarrow> ('ns, 'fs) ksud_probes" where
  "stop_execve_hook_kp q = q\<lparr>stop_execve_hook_work := True\<rparr>"

definition stop_input_hook_kp :: "('ns, 'fs) ksud_probes \<Rightarrow> ('ns, 'fs) ksud_probes" where
  "stop_input_hook_kp q =
     (if input_hook_stopped q then q else q\<lparr>input_hook_stopped := True, stop_input_hook_work := True\<rparr>)"

definition ksu_on_post_fs_data_kp :: "'ns ksud_env \<Rightarrow> ('ns, 'fs) ksud_probes \<Rightarrow> ('ns, 'fs) ksud_probes" where
  "ksu_on_post_fs_data_kp e q =
     (let st = kq_st q in
      if post_fs_data_done st then q
      else let st = st\<lparr>post_fs_data_done := True\<rparr>;
          st = st\<lparr>kd_allow := snd (ksu_load_allow_list (kd_allow st))\<rparr>;
          q = stop_input_hook_kp (q\<lparr>kq_st := st\<rparr>)
        in q\<lparr>kq_st := (kq_st q)\<lparr>ksu_devpts_sid := ksu_get_devpts_sid (ke_selinux e)\<rparr>\<rparr>)"

definition exec_app_process_kp :: "'ns ksud_env \<Rightarrow> cbuf \<Rightarrow> ('ns, 'fs) ksud_probes \<Rightarrow> ('ns, 'fs) ksud_probes" where
  "exec_app_process_kp e name q =
     (if first_app_process (kq_st q) \<and> memcmp_eq name ''/system/bin/app_process'' 23
      then stop_execve_hook_kp (ksu_on_post_fs_data_kp e (q\<lparr>kq_st := (kq_st q)\<lparr>first_app_process := False\<rparr>\<rparr>))
      else q)"

definition ksu_handle_execveat_ksud_kp :: "'ns ksud_env \<Rightarrow> filename_arg \<Rightarrow> user_arg_ptr option \<Rightarrow>
    user_arg_ptr option \<Rightarrow> ('ns, 'fs) ksud_probes \<Rightarrow> ('ns, 'fs) ksud_probes option" where
  "ksu_handle_execveat_ksud_kp e filename_ptr argv envp q =
     (case filename_ptr of
        FNull \<Rightarrow> Some q
      | FErr \<Rightarrow> Some q
      | FName name \<Rightarrow> map_option (\<lambda>st. exec_app_process_kp e name (q\<lparr>kq_st := st\<rparr>))
          (case argv of
            None \<Rightarrow> Some (kq_st q)
          | Some argv \<Rightarrow>
              if memcmp_eq name ''/system/bin/init'' 16 then Some (exec_system_init e argv (kq_st q))
              else if memcmp_eq name ''/init'' 5 then exec_old_init e argv envp (kq_st q)
              else Some (kq_st q)))"

definition sys_execve_handler_pre :: "'ns ksud_env \<Rightarrow> regs_mem \<Rightarrow> pt_regs \<Rightarrow> ('ns, 'fs) ksud_probes \<Rightarrow>
    ('ns, 'fs) ksud_probes option" where
  "sys_execve_handler_pre e m x q =
     (let real_regs = PT_REAL_REGS m x;
          argv = \<lparr>ua_is_compat = False, ua_ptr = PT_REGS_PARM2 real_regs\<rparr>;
          (_, path) = ksu_strncpy_from_user_nofault (ke_um e) (replicate 32 NUL) (PT_REGS_PARM1 real_regs) 32
      in ksu_handle_execveat_ksud_kp e (FName path) (Some argv) None q)"

definition ksu_handle_vfs_read_kp :: "'ns ksud_env \<Rightarrow> cbuf \<Rightarrow> kfile option \<Rightarrow> uaddr \<times> u64 \<Rightarrow>
    ('ns, 'fs) ksud_probes \<Rightarrow> kfile option \<times> (uaddr \<times> u64) \<times> ('ns, 'fs) ksud_probes" where
  "ksu_handle_vfs_read_kp e comm file_ptr bc q =
     (if \<not> strcmp_eq comm ''init'' then (file_ptr, bc, q)
      else case file_ptr of
        None \<Rightarrow> (file_ptr, bc, q)
      | Some fl \<Rightarrow>
          if \<not> kf_isreg fl then (file_ptr, bc, q)
          else if kf_name fl \<noteq> ''atrace.rc'' then (file_ptr, bc, q)
          else if kf_d_path fl \<noteq> Some ''/system/etc/init/atrace.rc'' then (file_ptr, bc, q)
          else if rc_inserted (kq_st q) then (file_ptr, bc, stop_vfs_read_hook_kp q)
          else let st = (kq_st q)\<lparr>rc_inserted := True\<rparr>;
              (buf, cnt) = bc;
              rc_count = length KERNEL_SU_RC
            in if unat cnt < rc_count then (file_ptr, bc, q\<lparr>kq_st := st\<rparr>)
              else let left = ke_copy_left e buf rc_count;
                  st = st\<lparr>kd_writes := kd_writes st @ [(buf, take (rc_count - left) KERNEL_SU_RC)]\<rparr>
                in if left \<noteq> 0 then (file_ptr, bc, q\<lparr>kq_st := st\<rparr>)
                  else let (fl, st) = install_proxy fl st
                    in (Some fl, (buf + word_of_nat rc_count, cnt - word_of_nat rc_count), q\<lparr>kq_st := st\<rparr>))"

definition ksu_handle_sys_read_kp :: "'ns ksud_env \<Rightarrow> cbuf \<Rightarrow> kfile option \<Rightarrow> uaddr \<times> u64 \<Rightarrow>
    ('ns, 'fs) ksud_probes \<Rightarrow> kfile option \<times> (uaddr \<times> u64) \<times> ('ns, 'fs) ksud_probes" where
  "ksu_handle_sys_read_kp e comm fget bc q =
     (case fget of None \<Rightarrow> (None, bc, q) | Some fl \<Rightarrow> ksu_handle_vfs_read_kp e comm (Some fl) bc q)"

definition sys_read_handler_pre :: "'ns ksud_env \<Rightarrow> cbuf \<Rightarrow> (u32 \<Rightarrow> kfile option) \<Rightarrow> regs_mem \<Rightarrow> pt_regs \<Rightarrow>
    ('ns, 'fs) ksud_probes \<Rightarrow> kfile option \<times> regs_mem \<times> ('ns, 'fs) ksud_probes" where
  "sys_read_handler_pre e comm fget m x q =
     (let real_regs = PT_REAL_REGS m x;
          fd = ucast (PT_REGS_PARM1 real_regs);
          (fl, (buf, cnt), q) =
            ksu_handle_sys_read_kp e comm (fget fd) (PT_REGS_PARM2 real_regs, PT_REGS_PARM3 real_regs) q
      in (fl, write_reg 2 cnt x (write_reg 1 buf x m), q))"

definition ksu_handle_input_handle_event_kp :: "u32 \<Rightarrow> u32 \<Rightarrow> 32 word \<Rightarrow> ('ns, 'fs) ksud_probes \<Rightarrow> ('ns, 'fs) ksud_probes" where
  "ksu_handle_input_handle_event_kp ty code val q =
     (if ty = EV_KEY \<and> code = KEY_VOLUMEDOWN
      then (if val \<noteq> 0
        then (let q = q\<lparr>kq_st := (kq_st q)\<lparr>volumedown_pressed_count := volumedown_pressed_count (kq_st q) + 1\<rparr>\<rparr>
          in if is_volumedown_enough (volumedown_pressed_count (kq_st q)) then stop_input_hook_kp q else q)
        else q)
      else q)"

definition input_handle_event_handler_pre :: "pt_regs \<Rightarrow> ('ns, 'fs) ksud_probes \<Rightarrow> ('ns, 'fs) ksud_probes" where
  "input_handle_event_handler_pre x q =
     ksu_handle_input_handle_event_kp (ucast (PT_REGS_PARM2 x)) (ucast (PT_REGS_PARM3 x)) (ucast (PT_REGS_CCALL_PARM4 x)) q"

definition ksu_is_safe_mode_kp :: "('ns, 'fs) ksud_probes \<Rightarrow> bool \<times> ('ns, 'fs) ksud_probes" where
  "ksu_is_safe_mode_kp q =
     (if safe_mode (kq_st q) then (True, q)
      else let q = stop_input_hook_kp q in
        if is_volumedown_enough (volumedown_pressed_count (kq_st q)) then (True, q\<lparr>kq_st := (kq_st q)\<lparr>safe_mode := True\<rparr>\<rparr>)
        else (False, q))"

text \<open>The arguments are the results of the three calls of \<open>register_kprobe\<close>.\<close>

definition ksu_ksud_init :: "int \<Rightarrow> int \<Rightarrow> int \<Rightarrow> ('ns, 'fs) ksud_probes \<Rightarrow> ('ns, 'fs) ksud_probes" where
  "ksu_ksud_init r1 r2 r3 q = q\<lparr>execve_kp := (r1 = 0), vfs_read_kp := (r2 = 0), input_event_kp := (r3 = 0),
     stop_vfs_read_work := False, stop_execve_hook_work := False, stop_input_hook_work := False\<rparr>"

definition ksu_ksud_exit :: "('ns, 'fs) ksud_probes \<Rightarrow> ('ns, 'fs) ksud_probes" where
  "ksu_ksud_exit q = q\<lparr>execve_kp := False, input_event_kp := False\<rparr>"

definition static_ksud_probes :: "allow_state \<Rightarrow> ('ns, 'fs) compat_state \<Rightarrow> ('ns, 'fs) ksud_probes" where
  "static_ksud_probes al cs = \<lparr>kq_st = ksud_boot al cs, execve_kp = False, vfs_read_kp = False, input_event_kp = False,
     stop_vfs_read_work = False, stop_execve_hook_work = False, stop_input_hook_work = False, input_hook_stopped = False\<rparr>"

subsection \<open>The hooks of sucompat.c\<close>

text \<open>A probe is its handler (and so its symbol); \<open>sq_registered\<close> holds those the kernel calls. The flag in \<open>sq_su\<close>
  is not part of this build; \<open>ksu_su_compat_enabled\<close> is the variable of \<^verbatim>\<open>core_hook.c\<close>.\<close>

datatype su_probe = Su_execve | Su_faccessat | Su_newfstatat | Su_pts_unix98_lookup

record su_probes =
  sq_su :: sucompat
  su_kps :: "su_probe option list"
  sq_registered :: "su_probe list"
  ksu_su_compat_enabled :: bool

definition ksu_handle_faccessat_kp :: "sucompat_env \<Rightarrow> uaddr \<Rightarrow> sucompat \<Rightarrow> uaddr \<times> sucompat" where
  "ksu_handle_faccessat_kp e filename_user st =
     (if \<not> su_allowed e st then (filename_user, st)
      else let (_, path) = ksu_strncpy_from_user_nofault (su_um e) (replicate 16 NUL) filename_user 16 in
        if memcmp_eq path (SU_PATH @ [NUL]) 15 then sh_user_path e st else (filename_user, st))"

definition faccessat_handler_pre :: "sucompat_env \<Rightarrow> regs_mem \<Rightarrow> pt_regs \<Rightarrow> su_probes \<Rightarrow> regs_mem \<times> su_probes" where
  "faccessat_handler_pre e m x q =
     (let (f, st) = ksu_handle_faccessat_kp e (PT_REGS_PARM2 (PT_REAL_REGS m x)) (sq_su q)
      in (write_reg 1 f x m, q\<lparr>sq_su := st\<rparr>))"

definition ksu_handle_stat_kp :: "sucompat_env \<Rightarrow> uaddr option \<Rightarrow> sucompat \<Rightarrow> uaddr option \<times> sucompat" where
  "ksu_handle_stat_kp e filename_user st =
     (if \<not> su_allowed e st then (filename_user, st)
      else case filename_user of
        None \<Rightarrow> (None, st)
      | Some addr \<Rightarrow>
          let (_, path) = ksu_strncpy_from_user_nofault (su_um e) (replicate 16 NUL) addr 16 in
          if memcmp_eq path (SU_PATH @ [NUL]) 15
          then (let (p, st') = sh_user_path e st in (Some p, st')) else (Some addr, st))"

definition newfstatat_handler_pre :: "sucompat_env \<Rightarrow> regs_mem \<Rightarrow> pt_regs \<Rightarrow> su_probes \<Rightarrow> regs_mem \<times> su_probes" where
  "newfstatat_handler_pre e m x q =
     (let filename_user = PT_REGS_PARM2 (PT_REAL_REGS m x);
          (f, st) = ksu_handle_stat_kp e (Some filename_user) (sq_su q)
      in (write_reg 1 (case f of None \<Rightarrow> filename_user | Some f \<Rightarrow> f) x m, q\<lparr>sq_su := st\<rparr>))"

definition ksu_handle_execve_sucompat_kp :: "sucompat_env \<Rightarrow> uaddr option \<Rightarrow> sucompat \<Rightarrow> (uaddr option \<times> sucompat) option" where
  "ksu_handle_execve_sucompat_kp e filename_user st =
     (case filename_user of
        None \<Rightarrow> Some (None, st)
      | Some addr \<Rightarrow>
          let (_, path) = ksu_strncpy_from_user_retry (su_um e) (replicate 16 NUL) addr 16 in
          if \<not> memcmp_eq path (SU_PATH @ [NUL]) 15 then Some (Some addr, st)
          else if \<not> su_allowed e st then Some (Some addr, st)
          else let (p, st') = ksud_user_path e st in map_option (Pair (Some p)) (escape e st'))"

definition execve_handler_pre :: "sucompat_env \<Rightarrow> regs_mem \<Rightarrow> pt_regs \<Rightarrow> su_probes \<Rightarrow> (regs_mem \<times> su_probes) option" where
  "execve_handler_pre e m x q =
     (let filename_user = PT_REGS_PARM1 (PT_REAL_REGS m x) in
      map_option (\<lambda>(f, st). (write_reg 0 (case f of None \<Rightarrow> filename_user | Some f \<Rightarrow> f) x m, q\<lparr>sq_su := st\<rparr>))
        (ksu_handle_execve_sucompat_kp e (Some filename_user) (sq_su q)))"

definition ksu_handle_devpts_kp :: "sucompat_env \<Rightarrow> u32 \<Rightarrow> bool \<Rightarrow> u32 option \<Rightarrow> sucompat \<Rightarrow> u32 option" where
  "ksu_handle_devpts_kp e devpts_sid has_mm sec st =
     (if \<not> has_mm then sec
      else let uid = su_uid st in
        if uid mod 100000 < 10000 then sec
        else if \<not> ksu_is_allow_uid (su_is_ksu_domain e) (su_manager e) (su_allow e) uid then sec
        else if devpts_sid \<noteq> 0 then map_option (\<lambda>_. devpts_sid) sec
        else sec)"

text \<open>\<open>inode_sec\<close> gives the sid in the blob of the inode of the file at an address.\<close>

definition pts_unix98_lookup_pre :: "sucompat_env \<Rightarrow> u32 \<Rightarrow> bool \<Rightarrow> (u64 \<Rightarrow> u32 option) \<Rightarrow> pt_regs \<Rightarrow> su_probes \<Rightarrow> u32 option" where
  "pts_unix98_lookup_pre e devpts_sid has_mm inode_sec x q =
     ksu_handle_devpts_kp e devpts_sid has_mm (inode_sec (PT_REGS_PARM2 x)) (sq_su q)"

text \<open>\<open>alloc\<close> is the allocation, \<open>ret\<close> the result of \<open>register_kprobe\<close>.\<close>

definition init_kprobe :: "bool \<Rightarrow> int \<Rightarrow> su_probe \<Rightarrow> su_probes \<Rightarrow> su_probe option \<times> su_probes" where
  "init_kprobe alloc ret handler q =
     (if \<not> alloc then (None, q)
      else if ret \<noteq> 0 then (None, q)
      else (Some handler, q\<lparr>sq_registered := handler # sq_registered q\<rparr>))"

definition destroy_kprobe :: "nat \<Rightarrow> su_probes \<Rightarrow> su_probes" where
  "destroy_kprobe i q =
     (case su_kps q ! i of
        None \<Rightarrow> q
      | Some kp \<Rightarrow> q\<lparr>sq_registered := remove1 kp (sq_registered q), su_kps := (su_kps q)[i := None]\<rparr>)"

definition set_su_kp :: "(nat \<Rightarrow> bool) \<Rightarrow> (nat \<Rightarrow> int) \<Rightarrow> nat \<Rightarrow> su_probe \<Rightarrow> su_probes \<Rightarrow> su_probes" where
  "set_su_kp alloc ret i handler q =
     (let (kp, q) = init_kprobe (alloc i) (ret i) handler q in q\<lparr>su_kps := (su_kps q)[i := kp]\<rparr>)"

definition ksu_sucompat_init_kp :: "(nat \<Rightarrow> bool) \<Rightarrow> (nat \<Rightarrow> int) \<Rightarrow> su_probes \<Rightarrow> su_probes" where
  "ksu_sucompat_init_kp alloc ret q =
     (let q = set_su_kp alloc ret 0 Su_execve q;
          q = set_su_kp alloc ret 1 Su_faccessat q;
          q = set_su_kp alloc ret 2 Su_newfstatat q
      in set_su_kp alloc ret 3 Su_pts_unix98_lookup q)"

definition ksu_sucompat_exit_kp :: "su_probes \<Rightarrow> su_probes" where
  "ksu_sucompat_exit_kp q = fold destroy_kprobe [0..<4] q"

text \<open>What \<open>CMD_ENABLE_SU\<close> does to the probes; in this build the command comes before the test for the
  manager, so that any caller with uid 0 may give it.\<close>

definition enable_su_kp :: "(nat \<Rightarrow> bool) \<Rightarrow> (nat \<Rightarrow> int) \<Rightarrow> u64 \<Rightarrow> su_probes \<Rightarrow> su_probes" where
  "enable_su_kp alloc ret arg3 q =
     (let enabled = (arg3 \<noteq> 0) in
      if enabled = ksu_su_compat_enabled q then q
      else let q = (if enabled then ksu_sucompat_init_kp alloc ret q else ksu_sucompat_exit_kp q)
        in q\<lparr>ksu_su_compat_enabled := enabled\<rparr>)"

definition static_su_probes :: "sucompat \<Rightarrow> su_probes" where
  "static_su_probes su = \<lparr>sq_su = su, su_kps = replicate 4 None, sq_registered = [], ksu_su_compat_enabled = True\<rparr>"

subsection \<open>The probes of core\_hook.c\<close>

text \<open>Compiled in every build, but \<open>ksu_kprobe_init\<close> has no caller.\<close>

definition handler_pre :: "prctl_env \<Rightarrow> regs_mem \<Rightarrow> pt_regs \<Rightarrow> ksu_state \<Rightarrow> ksu_state option" where
  "handler_pre pe m x s =
     (let real_regs = PT_REAL_REGS m x in
      ksu_handle_prctl pe (ucast (PT_REGS_PARM1 real_regs)) (PT_REGS_PARM2 real_regs) (PT_REGS_PARM3 real_regs)
        (PT_REGS_SYSCALL_PARM4 real_regs) (PT_REGS_PARM5 real_regs) s)"

definition renameat_handler_pre :: "bool \<Rightarrow> uid_t \<Rightarrow> (u64 \<Rightarrow> cbuf option) \<Rightarrow> (u64 \<Rightarrow> int + cbuf) \<Rightarrow> pt_regs \<Rightarrow> bool" where
  "renameat_handler_pre has_mm uid dentry_at path_of x =
     (let old_entry = PT_REGS_PARM2 x; new_entry = PT_REGS_CCALL_PARM4 x in
      ksu_handle_rename has_mm uid (dentry_at old_entry) (dentry_at new_entry) (path_of new_entry))"

record core_probes =
  prctl_kp :: bool
  renameat_kp :: bool

definition ksu_kprobe_init :: "int \<Rightarrow> int \<Rightarrow> core_probes \<Rightarrow> int \<times> core_probes" where
  "ksu_kprobe_init r1 r2 q =
     (if r1 \<noteq> 0 then (r1, q) else (r2, q\<lparr>prctl_kp := True, renameat_kp := (r2 = 0)\<rparr>))"

definition ksu_kprobe_exit :: "core_probes \<Rightarrow> core_probes" where
  "ksu_kprobe_exit q = q\<lparr>prctl_kp := False, renameat_kp := False\<rparr>"

end
