(* ===== verification/Kprobe_Props.thy ===== *)
theory Kprobe_Props
  imports Kprobes
begin

text \<open>
  The probes of the kprobe build refine the hook functions of the build with manual hooks: what a probe
  does to the registers of a system call, and what it leaves behind, is what the hook function of the same
  name does with the same arguments, over any sequence of probes firing between which the queued work gets
  to run. Which of its hook functions the patched kernel calls at an exec is the subject of \<open>Driver\<close>.
\<close>

subsection \<open>The state of the other build\<close>

text \<open>A flag is set while its probe is registered and not about to be unregistered.\<close>

definition set_hooks :: "bool \<Rightarrow> bool \<Rightarrow> bool \<Rightarrow> ('ns, 'fs) ksud_state \<Rightarrow> ('ns, 'fs) ksud_state" where
  "set_hooks v x i st = st\<lparr>ksu_vfs_read_hook := v, ksu_execveat_hook := x, ksu_input_hook := i\<rparr>"

definition manual_ksud :: "('ns, 'fs) ksud_probes \<Rightarrow> ('ns, 'fs) ksud_state" where
  "manual_ksud q = set_hooks (vfs_read_kp q \<and> \<not> stop_vfs_read_work q) (execve_kp q \<and> \<not> stop_execve_hook_work q)
     (input_event_kp q \<and> \<not> stop_input_hook_work q) (kq_st q)"

definition manual_su :: "su_probes \<Rightarrow> sucompat" where
  "manual_su q = (sq_su q)\<lparr>ksu_sucompat_non_kp := sq_registered q \<noteq> []\<rparr>"

text \<open>Nothing is queued between the calls, and a stopped input hook is not registered; the probes of
  \<^verbatim>\<open>su\<close> are registered together.\<close>

definition probes_idle :: "('ns, 'fs) ksud_probes \<Rightarrow> bool" where
  "probes_idle q \<longleftrightarrow> \<not> stop_vfs_read_work q \<and> \<not> stop_execve_hook_work q \<and> \<not> stop_input_hook_work q"

definition input_stop_ok :: "('ns, 'fs) ksud_probes \<Rightarrow> bool" where
  "input_stop_ok q \<longleftrightarrow> (input_hook_stopped q \<longrightarrow> \<not> input_event_kp q \<or> stop_input_hook_work q)"

abbreviation all_su_probes :: "su_probe list" where
  "all_su_probes \<equiv> [Su_execve, Su_faccessat, Su_newfstatat, Su_pts_unix98_lookup]"

definition su_together :: "su_probes \<Rightarrow> bool" where
  "su_together q \<longleftrightarrow>
     (if ksu_su_compat_enabled q then su_kps q = map Some all_su_probes \<and> sq_registered q = rev all_su_probes
      else su_kps q = replicate 4 None \<and> sq_registered q = [])"

subsection \<open>The flags do not matter in between\<close>

lemma set_hooks_simps [simp]:
  "post_fs_data_done (set_hooks v x i st) = post_fs_data_done st"
  "first_app_process (set_hooks v x i st) = first_app_process st"
  "init_second_stage_executed (set_hooks v x i st) = init_second_stage_executed st"
  "rc_inserted (set_hooks v x i st) = rc_inserted st"
  "safe_mode (set_hooks v x i st) = safe_mode st"
  "volumedown_pressed_count (set_hooks v x i st) = volumedown_pressed_count st"
  "kd_allow (set_hooks v x i st) = kd_allow st"
  "kd_writes (set_hooks v x i st) = kd_writes st"
  "ksu_vfs_read_hook (set_hooks v x i st) = v"
  "ksu_execveat_hook (set_hooks v x i st) = x"
  "ksu_input_hook (set_hooks v x i st) = i"
  by (simp_all add: set_hooks_def)

lemma get_user_arg_ptr_hooks:
  "get_user_arg_ptr e argv nr (set_hooks v x i st) = apsnd (set_hooks v x i) (get_user_arg_ptr e argv nr st)"
  by (simp add: get_user_arg_ptr_def set_hooks_def split: option.split)

lemma count_loop_hooks:
  "count_loop e argv mx k (set_hooks v x i st) = apsnd (set_hooks v x i) (count_loop e argv mx k st)"
proof (induction e argv mx k st rule: count_loop.induct)
  case (1 e argv mx k st)
  obtain p st1 where p: "get_user_arg_ptr e argv k st = (p, st1)" by fastforce
  show ?case
    using 1 [OF p [symmetric] refl]
    by (simp add: count_loop.simps [of e argv mx k] get_user_arg_ptr_hooks p)
qed

lemma count_args_hooks:
  "count_args e argv mx (set_hooks v x i st) = apsnd (set_hooks v x i) (count_args e argv mx st)"
  by (simp add: count_args_def count_loop_hooks)

lemma second_stage_hooks: "second_stage e (set_hooks v x i st) = set_hooks v x i (second_stage e st)"
  by (simp add: second_stage_def set_hooks_def)

lemma init_first_arg_hooks:
  "init_first_arg e argv s (set_hooks v x i st) = set_hooks v x i (init_first_arg e argv s st)"
  by (simp add: init_first_arg_def get_user_arg_ptr_hooks second_stage_hooks split_beta)

lemma env_loop_hooks:
  "env_loop e envp ns (set_hooks v x i st) = map_option (set_hooks v x i) (env_loop e envp ns st)"
  by (induction ns arbitrary: st)
    (simp_all add: get_user_arg_ptr_hooks second_stage_hooks split_beta split: option.split)

lemma exec_init_hooks:
  "exec_system_init e argv (set_hooks v x i st) = set_hooks v x i (exec_system_init e argv st)"
  "exec_old_init e argv envp (set_hooks v x i st) = map_option (set_hooks v x i) (exec_old_init e argv envp st)"
  by (simp_all add: exec_system_init_def exec_old_init_def count_args_hooks init_first_arg_hooks env_loop_hooks
      split_beta split: option.split)

lemma install_proxy_hooks:
  "install_proxy fl (set_hooks v x i st) = apsnd (set_hooks v x i) (install_proxy fl st)"
  by (simp add: install_proxy_def set_hooks_def Let_def)

subsection \<open>One call\<close>

lemma manual_kq [simp]: "manual_ksud (q\<lparr>kq_st := st\<rparr>) = set_hooks (vfs_read_kp q \<and> \<not> stop_vfs_read_work q)
    (execve_kp q \<and> \<not> stop_execve_hook_work q) (input_event_kp q \<and> \<not> stop_input_hook_work q) st"
  by (simp add: manual_ksud_def)

lemma manual_flags [simp]:
  "ksu_vfs_read_hook (manual_ksud q) = (vfs_read_kp q \<and> \<not> stop_vfs_read_work q)"
  "ksu_execveat_hook (manual_ksud q) = (execve_kp q \<and> \<not> stop_execve_hook_work q)"
  "ksu_input_hook (manual_ksud q) = (input_event_kp q \<and> \<not> stop_input_hook_work q)"
  by (simp_all add: manual_ksud_def)

text \<open>Queueing the unregistration is clearing the flag, and running it changes nothing more.\<close>

lemma manual_stop:
  "manual_ksud (stop_vfs_read_hook_kp q) = stop_vfs_read_hook (manual_ksud q)"
  "manual_ksud (stop_execve_hook_kp q) = stop_execve_hook (manual_ksud q)"
  "input_stop_ok q \<Longrightarrow> manual_ksud (stop_input_hook_kp q) = stop_input_hook (manual_ksud q)"
  by (auto simp: manual_ksud_def set_hooks_def stop_vfs_read_hook_kp_def stop_vfs_read_hook_def
      stop_execve_hook_kp_def stop_execve_hook_def stop_input_hook_kp_def stop_input_hook_def input_stop_ok_def)

lemma manual_work: "manual_ksud (run_probe_work q) = manual_ksud q"
  by (simp add: run_probe_work_def manual_ksud_def set_hooks_def do_stop_vfs_read_hook_def do_stop_execve_hook_def
      do_stop_input_hook_def Let_def)

lemma work_idle: "probes_idle (run_probe_work q)" "input_stop_ok q \<Longrightarrow> input_stop_ok (run_probe_work q)"
  by (auto simp: run_probe_work_def probes_idle_def input_stop_ok_def do_stop_vfs_read_hook_def do_stop_execve_hook_def
      do_stop_input_hook_def Let_def)

lemma input_stop_ok_simps [simp]:
  "input_stop_ok (q\<lparr>kq_st := st\<rparr>) = input_stop_ok q"
  "input_stop_ok (stop_vfs_read_hook_kp q) = input_stop_ok q"
  "input_stop_ok (stop_execve_hook_kp q) = input_stop_ok q"
  "input_stop_ok q \<Longrightarrow> input_stop_ok (stop_input_hook_kp q)"
  by (simp_all add: input_stop_ok_def stop_vfs_read_hook_kp_def stop_execve_hook_kp_def stop_input_hook_kp_def)

lemma manual_post_fs_data:
  assumes "input_stop_ok q"
  shows "manual_ksud (ksu_on_post_fs_data_kp e q) = ksu_on_post_fs_data e (manual_ksud q)"
    "input_stop_ok (ksu_on_post_fs_data_kp e q)"
proof -
  show "input_stop_ok (ksu_on_post_fs_data_kp e q)"
    using assms by (simp add: ksu_on_post_fs_data_kp_def Let_def)
  show "manual_ksud (ksu_on_post_fs_data_kp e q) = ksu_on_post_fs_data e (manual_ksud q)"
    using assms
    by (cases "post_fs_data_done (kq_st q)"; cases "input_hook_stopped q"; cases "input_event_kp q \<and> \<not> stop_input_hook_work q")
      (auto simp: ksu_on_post_fs_data_kp_def ksu_on_post_fs_data_def stop_input_hook_kp_def stop_input_hook_def
        input_stop_ok_def manual_ksud_def set_hooks_def Let_def)
qed

lemma manual_app_process:
  assumes "input_stop_ok q"
  shows "manual_ksud (exec_app_process_kp e name q) = exec_app_process e name (manual_ksud q)"
    "input_stop_ok (exec_app_process_kp e name q)"
proof -
  have "(manual_ksud q)\<lparr>first_app_process := False\<rparr> = manual_ksud (q\<lparr>kq_st := (kq_st q)\<lparr>first_app_process := False\<rparr>\<rparr>)"
    "first_app_process (manual_ksud q) = first_app_process (kq_st q)"
    by (simp_all add: manual_ksud_def set_hooks_def)
  then show "manual_ksud (exec_app_process_kp e name q) = exec_app_process e name (manual_ksud q)"
    "input_stop_ok (exec_app_process_kp e name q)"
    using assms by (simp_all add: exec_app_process_kp_def exec_app_process_def manual_stop manual_post_fs_data)
qed

lemma manual_execveat:
  assumes "input_stop_ok q" "execve_kp q" "\<not> stop_execve_hook_work q"
  shows "map_option manual_ksud (ksu_handle_execveat_ksud_kp e f argv envp q) =
      ksu_handle_execveat_ksud e f argv envp (manual_ksud q)"
    "ksu_handle_execveat_ksud_kp e f argv envp q = Some q' \<Longrightarrow> input_stop_ok q'"
proof -
  show "ksu_handle_execveat_ksud_kp e f argv envp q = Some q' \<Longrightarrow> input_stop_ok q'"
    using assms by (auto simp: ksu_handle_execveat_ksud_kp_def manual_app_process split: filename_arg.splits)
  let ?h = "set_hooks (vfs_read_kp q \<and> \<not> stop_vfs_read_work q) (execve_kp q \<and> \<not> stop_execve_hook_work q)
     (input_event_kp q \<and> \<not> stop_input_hook_work q)"
  have m: "manual_ksud q = ?h (kq_st q)" by (simp add: manual_ksud_def)
  have app: "manual_ksud (exec_app_process_kp e name (q\<lparr>kq_st := st\<rparr>)) = exec_app_process e name (?h st)" for name st
    using assms(1) manual_app_process(1) [of "q\<lparr>kq_st := st\<rparr>"] by simp
  show "map_option manual_ksud (ksu_handle_execveat_ksud_kp e f argv envp q) =
      ksu_handle_execveat_ksud e f argv envp (manual_ksud q)"
    using assms(2,3)
    by (simp add: ksu_handle_execveat_ksud_kp_def ksu_handle_execveat_ksud_def m exec_init_hooks option.map_comp
        comp_def app split: filename_arg.split option.split)
qed

lemma manual_update:
  "(manual_ksud q)\<lparr>volumedown_pressed_count := n\<rparr> = manual_ksud (q\<lparr>kq_st := (kq_st q)\<lparr>volumedown_pressed_count := n\<rparr>\<rparr>)"
  "(manual_ksud q)\<lparr>safe_mode := b\<rparr> = manual_ksud (q\<lparr>kq_st := (kq_st q)\<lparr>safe_mode := b\<rparr>\<rparr>)"
  "(set_hooks v x i st)\<lparr>rc_inserted := b\<rparr> = set_hooks v x i (st\<lparr>rc_inserted := b\<rparr>)"
  "(set_hooks v x i st)\<lparr>kd_writes := w\<rparr> = set_hooks v x i (st\<lparr>kd_writes := w\<rparr>)"
  by (simp_all add: manual_ksud_def set_hooks_def)

lemma manual_field:
  "volumedown_pressed_count (manual_ksud q) = volumedown_pressed_count (kq_st q)"
  "safe_mode (manual_ksud q) = safe_mode (kq_st q)"
  "rc_inserted (manual_ksud q) = rc_inserted (kq_st q)"
  by (simp_all add: manual_ksud_def)

lemma manual_sys_read:
  assumes "vfs_read_kp q" "\<not> stop_vfs_read_work q"
  shows "ksu_handle_sys_read e comm fl bc (manual_ksud q) =
      apsnd (apsnd manual_ksud) (ksu_handle_sys_read_kp e comm fl bc q)"
proof -
  have s: "manual_ksud (stop_vfs_read_hook_kp q) = stop_vfs_read_hook (manual_ksud q)" by (rule manual_stop(1))
  have m: "manual_ksud q = set_hooks True (execve_kp q \<and> \<not> stop_execve_hook_work q)
     (input_event_kp q \<and> \<not> stop_input_hook_work q) (kq_st q)" using assms by (simp add: manual_ksud_def)
  show ?thesis
  proof (cases fl)
    case (Some f)
    show ?thesis
      unfolding Some ksu_handle_sys_read_kp_def ksu_handle_sys_read_def option.case ksu_handle_vfs_read_kp_def ksu_handle_vfs_read_def
      using assms by (simp add: s [symmetric] Let_def split_beta) (simp add: m manual_update(3,4) install_proxy_hooks)
  qed (simp add: ksu_handle_sys_read_kp_def ksu_handle_sys_read_def)
qed

lemma sys_read_input_ok:
  "input_stop_ok q \<Longrightarrow> input_stop_ok (snd (snd (ksu_handle_sys_read_kp e comm fl bc q)))"
  by (simp add: ksu_handle_sys_read_kp_def ksu_handle_vfs_read_kp_def Let_def split_beta split: option.split)

lemma manual_input:
  assumes "input_stop_ok q" "input_event_kp q" "\<not> stop_input_hook_work q"
  shows "manual_ksud (ksu_handle_input_handle_event_kp ty code val q) = ksu_handle_input_handle_event ty code val (manual_ksud q)"
    "input_stop_ok (ksu_handle_input_handle_event_kp ty code val q)"
proof -
  show "manual_ksud (ksu_handle_input_handle_event_kp ty code val q) = ksu_handle_input_handle_event ty code val (manual_ksud q)"
    using assms unfolding ksu_handle_input_handle_event_kp_def ksu_handle_input_handle_event_def Let_def manual_update manual_field
    by (simp add: manual_stop(3) [symmetric] del: manual_kq)
  show "input_stop_ok (ksu_handle_input_handle_event_kp ty code val q)"
    using assms(1) by (simp add: ksu_handle_input_handle_event_kp_def Let_def)
qed

lemma manual_safe_mode:
  assumes "input_stop_ok q"
  shows "ksu_is_safe_mode (manual_ksud q) = apsnd manual_ksud (ksu_is_safe_mode_kp q)"
    "input_stop_ok (snd (ksu_is_safe_mode_kp q))"
proof -
  show "ksu_is_safe_mode (manual_ksud q) = apsnd manual_ksud (ksu_is_safe_mode_kp q)"
    unfolding ksu_is_safe_mode_def ksu_is_safe_mode_kp_def Let_def manual_stop(3) [OF assms, symmetric]
      manual_update manual_field
    by (simp del: manual_kq)
  show "input_stop_ok (snd (ksu_is_safe_mode_kp q))"
    using assms by (simp add: ksu_is_safe_mode_kp_def Let_def)
qed


subsection \<open>The su hooks\<close>

lemma manual_su_allowed [simp]: "su_allowed e (st\<lparr>ksu_sucompat_non_kp := b\<rparr>) = su_allowed e st"
  by (simp add: su_allowed_def su_uid_def)

lemma sh_user_path_flag:
  "sh_user_path e (st\<lparr>ksu_sucompat_non_kp := b\<rparr>) = apsnd (ksu_sucompat_non_kp_update (\<lambda>_. b)) (sh_user_path e st)"
  "ksud_user_path e (st\<lparr>ksu_sucompat_non_kp := b\<rparr>) = apsnd (ksu_sucompat_non_kp_update (\<lambda>_. b)) (ksud_user_path e st)"
  by (simp_all add: sh_user_path_def ksud_user_path_def userspace_stack_buffer_def Let_def)

lemma escape_flag:
  "escape e (st\<lparr>ksu_sucompat_non_kp := b\<rparr>) = map_option (ksu_sucompat_non_kp_update (\<lambda>_. b)) (escape e st)"
  by (cases "ksu_escape_to_root (su_cred e) (su_selinux e) (su_allow e) (su_task st)") (simp_all add: escape_def)

text \<open>Without the test of the flag a hook does what it does with the flag set.\<close>

lemma su_hooks_on:
  "ksu_handle_faccessat e f (st\<lparr>ksu_sucompat_non_kp := True\<rparr>) =
     apsnd (ksu_sucompat_non_kp_update (\<lambda>_. True)) (ksu_handle_faccessat_kp e f st)"
  "ksu_handle_stat e fo (st\<lparr>ksu_sucompat_non_kp := True\<rparr>) =
     apsnd (ksu_sucompat_non_kp_update (\<lambda>_. True)) (ksu_handle_stat_kp e fo st)"
  "ksu_handle_execve_sucompat e fo (st\<lparr>ksu_sucompat_non_kp := True\<rparr>) =
     map_option (apsnd (ksu_sucompat_non_kp_update (\<lambda>_. True))) (ksu_handle_execve_sucompat_kp e fo st)"
  "ksu_handle_devpts e sid has_mm sec (st\<lparr>ksu_sucompat_non_kp := True\<rparr>) = ksu_handle_devpts_kp e sid has_mm sec st"
  by (simp_all add: ksu_handle_faccessat_def ksu_handle_faccessat_kp_def ksu_handle_stat_def ksu_handle_stat_kp_def
      ksu_handle_execve_sucompat_def ksu_handle_execve_sucompat_kp_def ksu_handle_devpts_def ksu_handle_devpts_kp_def
      sh_user_path_flag escape_flag su_uid_def split_beta option.map_comp comp_def split: option.split)

lemma write_same [simp]:
  "write_reg 0 (PT_REGS_PARM1 (PT_REAL_REGS m x)) x m = m" "write_reg 1 (PT_REGS_PARM2 (PT_REAL_REGS m x)) x m = m"
  "write_reg 2 (PT_REGS_PARM3 (PT_REAL_REGS m x)) x m = m"
  "write_reg (Suc 0) (PT_REGS_PARM2 (PT_REAL_REGS m x)) x m = m"
  by (simp_all add: write_reg_def PT_REAL_REGS_def PT_REGS_PARM1_def PT_REGS_PARM2_def PT_REGS_PARM3_def)

subsection \<open>Runs\<close>

text \<open>A probe that fires, or a call from elsewhere, with what the kernel and the user's memory supply, and
  what comes out: the registers of the system call, the file read, the inode's sid, an answer. Two probes
  sit on the entry of \<open>execve\<close>, the kernel fires them one after the other.\<close>

datatype 'ns probe_call =
    PExecve_ksud "'ns ksud_env" regs_mem pt_regs
  | PExecve_su sucompat_env regs_mem pt_regs
  | PFaccessat sucompat_env regs_mem pt_regs
  | PNewfstatat sucompat_env regs_mem pt_regs
  | PPtsLookup sucompat_env bool "u64 \<Rightarrow> u32 option" pt_regs
  | PRead "'ns ksud_env" cbuf "u32 \<Rightarrow> kfile option" regs_mem pt_regs
  | PInput pt_regs
  | PPostFsData "'ns ksud_env"
  | PSafeMode
  | PEnableSu "nat \<Rightarrow> bool" "nat \<Rightarrow> int" u64

datatype probe_result = RRegs regs_mem | RRead "kfile option" regs_mem | RSid "u32 option" | RAnswer bool | RDone

text \<open>In the kprobe build a handler runs if its probe is registered.\<close>

definition do_probe :: "'ns probe_call \<Rightarrow> ('ns, 'fs) ksud_probes \<Rightarrow> su_probes \<Rightarrow>
    (probe_result \<times> ('ns, 'fs) ksud_probes \<times> su_probes) option" where
  "do_probe c q s = (let on = (\<lambda>p. p \<in> set (sq_registered s)) in case c of
     PExecve_ksud e m x \<Rightarrow> map_option (\<lambda>q. (RDone, q, s)) (if execve_kp q then sys_execve_handler_pre e m x q else Some q)
   | PExecve_su se m x \<Rightarrow>
       map_option (\<lambda>(m, s). (RRegs m, q, s)) (if on Su_execve then execve_handler_pre se m x s else Some (m, s))
   | PFaccessat se m x \<Rightarrow> (let (m, s) = if on Su_faccessat then faccessat_handler_pre se m x s else (m, s) in Some (RRegs m, q, s))
   | PNewfstatat se m x \<Rightarrow> (let (m, s) = if on Su_newfstatat then newfstatat_handler_pre se m x s else (m, s) in Some (RRegs m, q, s))
   | PPtsLookup se has_mm inode_sec x \<Rightarrow>
       Some (RSid (if on Su_pts_unix98_lookup then pts_unix98_lookup_pre se (ksu_devpts_sid (kq_st q)) has_mm inode_sec x s
         else inode_sec (PT_REGS_PARM2 x)), q, s)
   | PRead e comm fget m x \<Rightarrow> (let (fl, m, q) = if vfs_read_kp q then sys_read_handler_pre e comm fget m x q
         else (fget (ucast (PT_REGS_PARM1 (PT_REAL_REGS m x))), m, q) in Some (RRead fl m, q, s))
   | PInput x \<Rightarrow> Some (RDone, if input_event_kp q then input_handle_event_handler_pre x q else q, s)
   | PPostFsData e \<Rightarrow> Some (RDone, ksu_on_post_fs_data_kp e q, s)
   | PSafeMode \<Rightarrow> (let (b, q) = ksu_is_safe_mode_kp q in Some (RAnswer b, q, s))
   | PEnableSu alloc ret arg3 \<Rightarrow> Some (RDone, q, enable_su_kp alloc ret arg3 s))"

definition probe_step :: "'ns probe_call \<Rightarrow> probe_result list \<times> ('ns, 'fs) ksud_probes \<times> su_probes \<Rightarrow>
    (probe_result list \<times> ('ns, 'fs) ksud_probes \<times> su_probes) option" where
  "probe_step c = (\<lambda>(rs, q, s). map_option (\<lambda>(r, q, s). (rs @ [r], run_probe_work q, s)) (do_probe c q s))"

text \<open>The hook functions of the other build, each called with the arguments that the registers hold; a pointer
  passed by reference goes back to its register.\<close>

definition do_hook :: "'ns probe_call \<Rightarrow> ('ns, 'fs) ksud_state \<Rightarrow> sucompat \<Rightarrow>
    (probe_result \<times> ('ns, 'fs) ksud_state \<times> sucompat) option" where
  "do_hook c kd su = (case c of
     PExecve_ksud e m x \<Rightarrow> (let r = PT_REAL_REGS m x in
       map_option (\<lambda>kd. (RDone, kd, su)) (ksu_handle_execve_ksud e (PT_REGS_PARM1 r) (PT_REGS_PARM2 r) kd))
   | PExecve_su se m x \<Rightarrow> (let f = PT_REGS_PARM1 (PT_REAL_REGS m x) in
       map_option (\<lambda>(p, su). (RRegs (write_reg 0 (case p of None \<Rightarrow> f | Some p \<Rightarrow> p) x m), kd, su))
         (ksu_handle_execve_sucompat se (Some f) su))
   | PFaccessat se m x \<Rightarrow> (let (p, su) = ksu_handle_faccessat se (PT_REGS_PARM2 (PT_REAL_REGS m x)) su
       in Some (RRegs (write_reg 1 p x m), kd, su))
   | PNewfstatat se m x \<Rightarrow> (let f = PT_REGS_PARM2 (PT_REAL_REGS m x); (p, su) = ksu_handle_stat se (Some f) su
       in Some (RRegs (write_reg 1 (case p of None \<Rightarrow> f | Some p \<Rightarrow> p) x m), kd, su))
   | PPtsLookup se has_mm inode_sec x \<Rightarrow>
       Some (RSid (ksu_handle_devpts se (ksu_devpts_sid kd) has_mm (inode_sec (PT_REGS_PARM2 x)) su), kd, su)
   | PRead e comm fget m x \<Rightarrow> (let r = PT_REAL_REGS m x;
         (fl, (buf, cnt), kd) = ksu_handle_sys_read e comm (fget (ucast (PT_REGS_PARM1 r))) (PT_REGS_PARM2 r, PT_REGS_PARM3 r) kd
       in Some (RRead fl (write_reg 2 cnt x (write_reg 1 buf x m)), kd, su))
   | PInput x \<Rightarrow> Some (RDone, ksu_handle_input_handle_event (ucast (PT_REGS_PARM2 x)) (ucast (PT_REGS_PARM3 x))
       (ucast (PT_REGS_CCALL_PARM4 x)) kd, su)
   | PPostFsData e \<Rightarrow> Some (RDone, ksu_on_post_fs_data e kd, su)
   | PSafeMode \<Rightarrow> (let (b, kd) = ksu_is_safe_mode kd in Some (RAnswer b, kd, su))
   | PEnableSu alloc ret arg3 \<Rightarrow> Some (RDone, kd, if arg3 \<noteq> 0 then ksu_sucompat_init su else ksu_sucompat_exit su))"

definition hook_step :: "'ns probe_call \<Rightarrow> probe_result list \<times> ('ns, 'fs) ksud_state \<times> sucompat \<Rightarrow>
    (probe_result list \<times> ('ns, 'fs) ksud_state \<times> sucompat) option" where
  "hook_step c = (\<lambda>(rs, kd, su). map_option (\<lambda>(r, kd, su). (rs @ [r], kd, su)) (do_hook c kd su))"

text \<open>The probe does not test the file name for NULL; nothing can be copied from there. Probes are allocated
  and registered when su is enabled.\<close>

definition kps_ok :: "(nat \<Rightarrow> bool) \<Rightarrow> (nat \<Rightarrow> int) \<Rightarrow> bool" where
  "kps_ok alloc ret \<longleftrightarrow> alloc 0 \<and> alloc 1 \<and> alloc 2 \<and> alloc 3 \<and> ret 0 = 0 \<and> ret 1 = 0 \<and> ret 2 = 0 \<and> ret 3 = 0"

definition probe_ok :: "'ns probe_call \<Rightarrow> bool" where
  "probe_ok c \<longleftrightarrow> (case c of PExecve_ksud e m x \<Rightarrow> um_strncpy (ke_um e) True 0 32 = (- EFAULT, [])
     | PEnableSu alloc ret arg3 \<Rightarrow> kps_ok alloc ret | _ \<Rightarrow> True)"

definition probe_inv :: "probe_result list \<times> ('ns, 'fs) ksud_probes \<times> su_probes \<Rightarrow> bool" where
  "probe_inv = (\<lambda>(rs, q, s). probes_idle q \<and> input_stop_ok q \<and> su_together s)"

definition manual_view :: "probe_result list \<times> ('ns, 'fs) ksud_probes \<times> su_probes \<Rightarrow>
    probe_result list \<times> ('ns, 'fs) ksud_state \<times> sucompat" where
  "manual_view = (\<lambda>(rs, q, s). (rs, manual_ksud q, manual_su s))"


lemma manual_su_on:
  "su_together s \<Longrightarrow> sq_registered s \<noteq> [] \<Longrightarrow> p \<in> set (sq_registered s) \<and>
    manual_su s = (sq_su s)\<lparr>ksu_sucompat_non_kp := True\<rparr> \<and> manual_su (s\<lparr>sq_su := st\<rparr>) = st\<lparr>ksu_sucompat_non_kp := True\<rparr>"
  by (cases p) (auto simp: su_together_def manual_su_def split: if_splits)

lemma manual_su_none:
  "sq_registered s = [] \<Longrightarrow> manual_su s = (sq_su s)\<lparr>ksu_sucompat_non_kp := False\<rparr>"
  by (simp add: manual_su_def)

lemma su_probe_execve:
  assumes "su_together s"
  shows "map_option (\<lambda>(m, s). (RRegs m, manual_su s))
      (if Su_execve \<in> set (sq_registered s) then execve_handler_pre e m x s else Some (m, s)) =
    map_option (\<lambda>(p, su). (RRegs (write_reg 0 (case p of None \<Rightarrow> PT_REGS_PARM1 (PT_REAL_REGS m x) | Some p \<Rightarrow> p) x m), su))
      (ksu_handle_execve_sucompat e (Some (PT_REGS_PARM1 (PT_REAL_REGS m x))) (manual_su s))"
proof (cases "sq_registered s = []")
  case True
  then show ?thesis by (simp add: manual_su_none ksu_handle_execve_sucompat_def)
next
  case False
  show ?thesis
    using manual_su_on [OF assms False]
    by (simp add: execve_handler_pre_def Let_def su_hooks_on option.map_comp comp_def split_beta)
qed

lemma su_probe_access:
  assumes "su_together s"
  shows "(let (m, s) = if Su_faccessat \<in> set (sq_registered s) then faccessat_handler_pre e m x s else (m, s) in (RRegs m, manual_su s)) =
    (let (p, su) = ksu_handle_faccessat e (PT_REGS_PARM2 (PT_REAL_REGS m x)) (manual_su s) in (RRegs (write_reg 1 p x m), su))"
    "(let (m, s) = if Su_newfstatat \<in> set (sq_registered s) then newfstatat_handler_pre e m x s else (m, s) in (RRegs m, manual_su s)) =
    (let f = PT_REGS_PARM2 (PT_REAL_REGS m x); (p, su) = ksu_handle_stat e (Some f) (manual_su s)
       in (RRegs (write_reg 1 (case p of None \<Rightarrow> f | Some p \<Rightarrow> p) x m), su))"
    "(if Su_pts_unix98_lookup \<in> set (sq_registered s) then pts_unix98_lookup_pre e sid has_mm inode_sec x s
         else inode_sec (PT_REGS_PARM2 x)) = ksu_handle_devpts e sid has_mm (inode_sec (PT_REGS_PARM2 x)) (manual_su s)"
proof (goal_cases)
  case 1
  show ?case
  proof (cases "sq_registered s = []")
    case False
    then show ?thesis using manual_su_on [OF assms False]
      by (simp add: faccessat_handler_pre_def Let_def su_hooks_on split_beta)
  qed (simp add: manual_su_none ksu_handle_faccessat_def)
next
  case 2
  show ?case
  proof (cases "sq_registered s = []")
    case False
    then show ?thesis using manual_su_on [OF assms False]
      by (simp add: newfstatat_handler_pre_def Let_def su_hooks_on split_beta)
  qed (simp add: manual_su_none ksu_handle_stat_def)
next
  case 3
  show ?case
  proof (cases "sq_registered s = []")
    case False
    then show ?thesis using manual_su_on [OF assms False]
      by (simp add: pts_unix98_lookup_pre_def su_hooks_on)
  qed (simp add: manual_su_none ksu_handle_devpts_def)
qed

lemma null_name_ignored:
  assumes "um_strncpy (ke_um e) True 0 32 = (- EFAULT, [])"
  shows "ksu_strncpy_from_user_nofault (ke_um e) (replicate 32 NUL) 0 32 = (- EFAULT, replicate 32 NUL)"
    "ksu_handle_execveat_ksud_kp e (FName (replicate 32 NUL)) (Some argv) envp q = Some q"
proof -
  show "ksu_strncpy_from_user_nofault (ke_um e) (replicate 32 NUL) 0 32 = (- EFAULT, replicate 32 NUL)"
    using assms by (simp add: ksu_strncpy_from_user_nofault_def strncpy_from_user_def)
  have "\<not> memcmp_eq (replicate 32 NUL) (CHR ''/'' # s) (Suc n)" for s n
    by (simp add: memcmp_eq_def replicate_Suc [of 31, simplified])
  then have "\<not> memcmp_eq (replicate 32 NUL) ''/system/bin/app_process'' 23"
    "\<not> memcmp_eq (replicate 32 NUL) ''/system/bin/init'' 16" "\<not> memcmp_eq (replicate 32 NUL) ''/init'' 5"
    by (simp_all add: eval_nat_numeral)
  then show "ksu_handle_execveat_ksud_kp e (FName (replicate 32 NUL)) (Some argv) envp q = Some q"
    by (simp add: ksu_handle_execveat_ksud_kp_def exec_app_process_kp_def)
qed

lemma probe_execve:
  assumes "probes_idle q" "input_stop_ok q" "um_strncpy (ke_um e) True 0 32 = (- EFAULT, [])"
  shows "map_option manual_ksud (if execve_kp q then sys_execve_handler_pre e m x q else Some q) =
      ksu_handle_execve_ksud e (PT_REGS_PARM1 (PT_REAL_REGS m x)) (PT_REGS_PARM2 (PT_REAL_REGS m x)) (manual_ksud q)"
    "(if execve_kp q then sys_execve_handler_pre e m x q else Some q) = Some q' \<Longrightarrow> input_stop_ok q'"
proof -
  have s: "\<not> stop_execve_hook_work q" using assms(1) by (simp add: probes_idle_def)
  show "(if execve_kp q then sys_execve_handler_pre e m x q else Some q) = Some q' \<Longrightarrow> input_stop_ok q'"
    using assms(2) s
    by (auto simp: sys_execve_handler_pre_def Let_def split_beta intro: manual_execveat(2) split: if_splits)
  show "map_option manual_ksud (if execve_kp q then sys_execve_handler_pre e m x q else Some q) =
      ksu_handle_execve_ksud e (PT_REGS_PARM1 (PT_REAL_REGS m x)) (PT_REGS_PARM2 (PT_REAL_REGS m x)) (manual_ksud q)"
  proof (cases "execve_kp q \<and> PT_REGS_PARM1 (PT_REAL_REGS m x) \<noteq> 0")
    case True
    then show ?thesis using s assms(2)
      by (simp add: sys_execve_handler_pre_def ksu_handle_execve_ksud_def Let_def split_beta manual_execveat(1))
  next
    case False
    then show ?thesis
      using s null_name_ignored [OF assms(3)]
      by (auto simp: sys_execve_handler_pre_def ksu_handle_execve_ksud_def Let_def split_beta)
  qed
qed


lemma four_su_kps: "replicate 4 None = [None, None, None, None :: su_probe option]" "[0..<4] = [0, 1, 2, 3 :: nat]"
  by (simp_all add: upt_rec eval_nat_numeral)

lemma set_su_kp_alt:
  "set_su_kp alloc ret i h q = (if alloc i \<and> ret i = 0
      then q\<lparr>sq_registered := h # sq_registered q, su_kps := (su_kps q)[i := Some h]\<rparr> else q\<lparr>su_kps := (su_kps q)[i := None]\<rparr>)"
  by (simp add: set_su_kp_def init_kprobe_def)

lemma su_probes_init:
  "kps_ok alloc ret \<Longrightarrow> su_kps q = replicate 4 None \<Longrightarrow> sq_registered q = [] \<Longrightarrow>
    ksu_sucompat_init_kp alloc ret q = q\<lparr>su_kps := map Some all_su_probes, sq_registered := rev all_su_probes\<rparr>"
  by (simp add: ksu_sucompat_init_kp_def set_su_kp_alt kps_ok_def four_su_kps numeral_2_eq_2 numeral_3_eq_3)

lemma su_probes_exit:
  "su_kps q = map Some all_su_probes \<Longrightarrow> sq_registered q = rev all_su_probes \<Longrightarrow>
    ksu_sucompat_exit_kp q = q\<lparr>su_kps := replicate 4 None, sq_registered := []\<rparr>"
  by (simp add: ksu_sucompat_exit_kp_def destroy_kprobe_def four_su_kps numeral_2_eq_2 numeral_3_eq_3)

lemma manual_enable:
  assumes "su_together s" "kps_ok alloc ret"
  shows "su_together (enable_su_kp alloc ret arg3 s)"
    "manual_su (enable_su_kp alloc ret arg3 s) =
      (if arg3 \<noteq> 0 then ksu_sucompat_init (manual_su s) else ksu_sucompat_exit (manual_su s))"
  using assms
  by (auto simp: enable_su_kp_def Let_def su_together_def su_probes_init su_probes_exit manual_su_def
      ksu_sucompat_init_def ksu_sucompat_exit_def split: if_splits)

lemma do_probe_refines:
  assumes "probes_idle q" "input_stop_ok q" "su_together s" "probe_ok c"
  shows "map_option (\<lambda>(r, q, s). (r, manual_ksud q, manual_su s)) (do_probe c q s) = do_hook c (manual_ksud q) (manual_su s)"
proof (cases c)
  case (PExecve_ksud e m x)
  then have n: "um_strncpy (ke_um e) True 0 32 = (- EFAULT, [])" using assms(4) by (simp add: probe_ok_def)
  define r where "r = (if execve_kp q then sys_execve_handler_pre e m x q else Some q)"
  have k: "map_option manual_ksud r =
      ksu_handle_execve_ksud e (PT_REGS_PARM1 (PT_REAL_REGS m x)) (PT_REGS_PARM2 (PT_REAL_REGS m x)) (manual_ksud q)"
    unfolding r_def by (rule probe_execve(1) [OF assms(1,2) n])
  show ?thesis
    unfolding PExecve_ksud do_probe_def do_hook_def Let_def probe_call.case k [symmetric] r_def [symmetric]
    by (simp add: option.map_comp comp_def)
next
  case (PExecve_su se m x)
  define t where "t = (if Su_execve \<in> set (sq_registered s) then execve_handler_pre se m x s else Some (m, s))"
  have u: "map_option (\<lambda>(m, s). (RRegs m, manual_su s)) t =
    map_option (\<lambda>(p, su). (RRegs (write_reg 0 (case p of None \<Rightarrow> PT_REGS_PARM1 (PT_REAL_REGS m x) | Some p \<Rightarrow> p) x m), su))
      (ksu_handle_execve_sucompat se (Some (PT_REGS_PARM1 (PT_REAL_REGS m x))) (manual_su s))"
    unfolding t_def by (rule su_probe_execve [OF assms(3)])
  show ?thesis
    using arg_cong [OF u, of "map_option (\<lambda>(r, su). (r, manual_ksud q, su))"]
    unfolding PExecve_su do_probe_def do_hook_def Let_def probe_call.case t_def [symmetric]
    by (simp add: option.map_comp comp_def case_prod_unfold)
next
  case (PFaccessat se m x)
  then show ?thesis using su_probe_access(1) [OF assms(3), of se m x]
    by (simp add: do_probe_def do_hook_def Let_def split_beta split: if_splits)
next
  case (PNewfstatat se m x)
  then show ?thesis using su_probe_access(2) [OF assms(3), of se m x]
    by (simp add: do_probe_def do_hook_def Let_def split_beta split: if_splits)
next
  case (PPtsLookup se has_mm inode_sec x)
  have "ksu_devpts_sid (manual_ksud q) = ksu_devpts_sid (kq_st q)" by (simp add: manual_ksud_def set_hooks_def)
  then show ?thesis using su_probe_access(3) [OF assms(3), of se "ksu_devpts_sid (kq_st q)" has_mm inode_sec x]
    by (simp add: PPtsLookup do_probe_def do_hook_def Let_def)
next
  case (PRead e comm fget m x)
  have w: "\<not> stop_vfs_read_work q" using assms(1) by (simp add: probes_idle_def)
  show ?thesis
  proof (cases "vfs_read_kp q")
    case True
    then show ?thesis unfolding PRead do_probe_def do_hook_def Let_def probe_call.case manual_sys_read [OF True w]
      by (simp add: sys_read_handler_pre_def Let_def split_beta)
  next
    case False
    then show ?thesis
      by (simp add: PRead do_probe_def do_hook_def Let_def ksu_handle_sys_read_def ksu_handle_vfs_read_def split: option.split)
  qed
next
  case (PInput x)
  have w: "\<not> stop_input_hook_work q" using assms(1) by (simp add: probes_idle_def)
  show ?thesis
  proof (cases "input_event_kp q")
    case True
    then show ?thesis
      by (simp add: PInput do_probe_def do_hook_def Let_def input_handle_event_handler_pre_def manual_input(1) [OF assms(2) True w])
  next
    case False
    then show ?thesis
      by (simp add: PInput do_probe_def do_hook_def Let_def ksu_handle_input_handle_event_def)
  qed
next
  case (PPostFsData e)
  then show ?thesis by (simp add: do_probe_def do_hook_def Let_def manual_post_fs_data(1) [OF assms(2)])
next
  case PSafeMode
  then show ?thesis by (simp add: do_probe_def do_hook_def Let_def manual_safe_mode(1) [OF assms(2)] split_beta)
next
  case (PEnableSu alloc ret arg3)
  then have "kps_ok alloc ret" using assms(4) by (simp add: probe_ok_def)
  then show ?thesis by (simp add: PEnableSu do_probe_def do_hook_def Let_def manual_enable(2) [OF assms(3)])
qed

lemma do_probe_inv:
  assumes "do_probe c q s = Some (r, q', s')" "probes_idle q" "input_stop_ok q" "su_together s" "probe_ok c"
  shows "input_stop_ok q'" "su_together s'"
proof -
  let ?p = "\<lambda>s. (su_kps s, sq_registered s, ksu_su_compat_enabled s)"
  have reg: "?p (snd (faccessat_handler_pre se m x s)) = ?p s" "?p (snd (newfstatat_handler_pre se m x s)) = ?p s"
    "execve_handler_pre se m x s = Some (m', s1) \<Longrightarrow> ?p s1 = ?p s" for se m x m' s1
    by (auto simp: faccessat_handler_pre_def newfstatat_handler_pre_def execve_handler_pre_def Let_def split_beta)
  show "su_together s'"
  proof (cases "\<exists>alloc ret arg3. c = PEnableSu alloc ret arg3")
    case True
    then show ?thesis using assms(1,4,5) manual_enable(1) by (auto simp: do_probe_def probe_ok_def)
  next
    case False
    then have "?p s' = ?p s"
      using assms(1) reg
      by (auto simp: do_probe_def Let_def split_beta split: probe_call.splits option.splits if_splits)
    then show ?thesis using assms(4) by (auto simp: su_together_def)
  qed
  show "input_stop_ok q'"
  proof (cases c)
    case (PExecve_ksud e m x)
    then have n: "um_strncpy (ke_um e) True 0 32 = (- EFAULT, [])" using assms(5) by (simp add: probe_ok_def)
    have "(if execve_kp q then sys_execve_handler_pre e m x q else Some q) = Some q'"
      using assms(1) unfolding PExecve_ksud do_probe_def Let_def probe_call.case by (auto simp del: if_split)
    then show ?thesis using probe_execve(2) [OF assms(2,3) n] by blast
  next
    case (PRead e comm fget m x)
    then show ?thesis using assms(1,3) sys_read_input_ok [OF assms(3)]
      by (auto simp: do_probe_def sys_read_handler_pre_def Let_def split_beta split: if_splits)
  next
    case (PInput x)
    then show ?thesis using assms(1,2,3) manual_input(2) [OF assms(3)]
      by (auto simp: do_probe_def input_handle_event_handler_pre_def probes_idle_def split: if_splits)
  next
    case (PPostFsData e)
    then show ?thesis using assms(1) manual_post_fs_data(2) [OF assms(3)] by (auto simp: do_probe_def)
  next
    case PSafeMode
    then show ?thesis using assms(1) manual_safe_mode(2) [OF assms(3)] by (auto simp: do_probe_def split_beta)
  qed (use assms(1,3) in \<open>auto simp: do_probe_def Let_def split_beta split: if_splits\<close>)
qed


interpretation kprobes: refined_steps probe_step probe_ok probe_inv hook_step manual_view
proof unfold_locales
  show "probe_inv t'" if s: "probe_step c t = Some t'" "probe_ok c" "probe_inv t"
    for c :: "'a probe_call" and t t' :: "probe_result list \<times> ('a, 'b) ksud_probes \<times> su_probes"
  proof -
    obtain rs q s where t: "t = (rs, q, s)" by (cases t)
    obtain r q1 s1 where d: "do_probe c q s = Some (r, q1, s1)" "t' = (rs @ [r], run_probe_work q1, s1)"
      using s(1) by (auto simp: probe_step_def t)
    show ?thesis using do_probe_inv [OF d(1)] s(2,3) by (simp add: d(2) t probe_inv_def work_idle)
  qed
  show "map_option manual_view (probe_step c t) = hook_step c (manual_view t)" if s: "probe_ok c" "probe_inv t"
    for c :: "'a probe_call" and t :: "probe_result list \<times> ('a, 'b) ksud_probes \<times> su_probes"
  proof -
    obtain rs q s where t: "t = (rs, q, s)" by (cases t)
    have h: "map_option (\<lambda>(r, q, s). (r, manual_ksud q, manual_su s)) (do_probe c q s) = do_hook c (manual_ksud q) (manual_su s)"
      by (rule do_probe_refines) (use s in \<open>simp_all add: t probe_inv_def\<close>)
    show ?thesis unfolding hook_step_def probe_step_def t manual_view_def prod.case h [symmetric]
      by (cases "do_probe c q s") (auto simp: manual_work)
  qed
qed

subsection \<open>Properties\<close>

text \<open>Whatever registrations failed, the exit unregisters all that succeeded.\<close>

lemma su_probes_unregistered:
  "sq_registered (ksu_sucompat_exit_kp (ksu_sucompat_init_kp alloc ret (static_su_probes su))) = []"
proof -
  show ?thesis
    unfolding ksu_sucompat_exit_kp_def four_su_kps ksu_sucompat_init_kp_def static_su_probes_def set_su_kp_alt Let_def
    by (cases "alloc 0 \<and> ret 0 = 0"; cases "alloc 1 \<and> ret 1 = 0"; cases "alloc 2 \<and> ret 2 = 0"; cases "alloc 3 \<and> ret 3 = 0";
      simp only: if_True if_False; simp add: destroy_kprobe_def numeral_2_eq_2 numeral_3_eq_3)
qed

text \<open>C32. The probes follow the hook functions of the build with manual hooks. From the static state, with the
  probes of \<^verbatim>\<open>sucompat.c\<close> registered and those of \<^verbatim>\<open>ksud.c\<close> registered or not, let any sequence of probes fire, at
  execve, faccessat, newfstatat, the pts lookup, read and in the input layer, and of calls of post-fs-data, the
  safe mode query and the su switch come. Each gives the same registers, files, sids and answers, and
  leaves the same state, as the hook function of the same name whose flags say which probes are registered,
  called with the same arguments; it fails on the same calls. The queued unregistrations run between the calls,
  and nothing can be copied from a NULL file name.\<close>
theorem kprobe_build_follows_hooks:
  assumes "\<forall>c \<in> set cs. probe_ok c" and "kps_ok alloc ret"
  shows "map_option (\<lambda>(rs, q, s). (rs, manual_ksud q, manual_su s))
      (fold_opt probe_step cs ([], ksu_ksud_init r1 r2 r3 (static_ksud_probes al ns), ksu_sucompat_init_kp alloc ret (static_su_probes su))) =
    fold_opt hook_step cs ([], set_hooks (r2 = 0) (r1 = 0) (r3 = 0) (ksud_boot al ns), ksu_sucompat_init su)"
proof -
  let ?q = "ksu_ksud_init r1 r2 r3 (static_ksud_probes al ns)" and ?s = "ksu_sucompat_init_kp alloc ret (static_su_probes su)"
  have s: "?s = (static_su_probes su)\<lparr>su_kps := map Some all_su_probes, sq_registered := rev all_su_probes\<rparr>"
    by (rule su_probes_init [OF assms(2)]) (simp_all add: static_su_probes_def)
  have i: "probe_inv ([], ?q, ?s)"
    unfolding s
    by (simp add: probe_inv_def probes_idle_def input_stop_ok_def su_together_def ksu_ksud_init_def static_ksud_probes_def
        static_su_probes_def)
  have v: "manual_view ([], ?q, ?s) = ([], set_hooks (r2 = 0) (r1 = 0) (r3 = 0) (ksud_boot al ns), ksu_sucompat_init su)"
    unfolding s
    by (simp add: manual_view_def manual_ksud_def manual_su_def ksu_ksud_init_def static_ksud_probes_def ksu_sucompat_init_def
        static_su_probes_def)
  show ?thesis
    using kprobes.run_refines [OF assms(1) i] unfolding v unfolding manual_view_def .
qed

definition ex_press :: pt_regs where
  "ex_press = (\<lambda>_. 0)(1 := 1, 2 := 114, 3 := 1)"

definition ex_boot_ns :: "(unit, unit) compat_state" where
  "ex_boot_ns = \<lparr>cs_current = \<lparr>nf_ns = None, nf_fs = None\<rparr>, android_context_saved_checked = False,
     android_context_saved_enabled = False, android_context_saved = \<lparr>nf_ns = None, nf_fs = None\<rparr>\<rparr>"

theorem kprobe_build_follows_hooks_witness:
  "\<exists>q s. fold_opt probe_step [PInput ex_press, PInput ex_press, PInput ex_press, PInput ex_press, PSafeMode :: unit probe_call]
      ([], ksu_ksud_init 0 0 0 (static_ksud_probes static_allow_state ex_boot_ns),
       ksu_sucompat_init_kp (\<lambda>_. True) (\<lambda>_. 0) (static_su_probes ex_su)) =
    Some ([RDone, RDone, RDone, RDone, RAnswer True], q, s) \<and>
    volumedown_pressed_count (kq_st q) = 3"
proof -
  let ?cs = "[PInput ex_press, PInput ex_press, PInput ex_press, PInput ex_press, PSafeMode :: unit probe_call]"
  let ?b = "ksud_boot static_allow_state ex_boot_ns"
  have ok: "\<forall>c \<in> set ?cs. probe_ok c" "kps_ok (\<lambda>_. True) (\<lambda>_. 0)" by (simp_all add: probe_ok_def kps_ok_def)
  have press: "do_hook (PInput ex_press) (set_hooks True True True (?b\<lparr>volumedown_pressed_count := n\<rparr>)) su =
      Some (RDone, set_hooks True True (\<not> is_volumedown_enough (n + 1)) (?b\<lparr>volumedown_pressed_count := n + 1\<rparr>), su)" for n su
    by (simp add: do_hook_def ex_press_def ksu_handle_input_handle_event_def PT_REGS_PARM2_def PT_REGS_PARM3_def
        PT_REGS_CCALL_PARM4_def EV_KEY_def KEY_VOLUMEDOWN_def stop_input_hook_def set_hooks_def Let_def)
  have zero: "?b = ?b\<lparr>volumedown_pressed_count := 0\<rparr>" by (simp add: ksud_boot_def)
  have late: "do_hook (PInput ex_press) (set_hooks True True False st) su = Some (RDone, set_hooks True True False st, su)" for st su
    by (simp add: do_hook_def ksu_handle_input_handle_event_def)
  have safe: "do_hook PSafeMode (set_hooks True True False (?b\<lparr>volumedown_pressed_count := 3\<rparr>)) su =
      Some (RAnswer True, set_hooks True True False (?b\<lparr>volumedown_pressed_count := 3\<rparr>)\<lparr>safe_mode := True\<rparr>, su)" for su
    by (simp add: do_hook_def ksu_is_safe_mode_def is_volumedown_enough_def stop_input_hook_def set_hooks_def ksud_boot_def)
  have e: "is_volumedown_enough 3" "\<not> is_volumedown_enough 2" "\<not> is_volumedown_enough 1"
    by (simp_all add: is_volumedown_enough_def word_le_nat_alt)
  have "fold_opt hook_step ?cs ([], set_hooks True True True (?b\<lparr>volumedown_pressed_count := 0\<rparr>), su) =
      Some ([RDone, RDone, RDone, RDone, RAnswer True],
        set_hooks True True False (?b\<lparr>volumedown_pressed_count := 3\<rparr>)\<lparr>safe_mode := True\<rparr>, su)" for su
    by (simp add: hook_step_def press e late safe)
  then have "map_option (\<lambda>(rs, q, s). (rs, manual_ksud q, manual_su s))
      (fold_opt probe_step ?cs ([], ksu_ksud_init 0 0 0 (static_ksud_probes static_allow_state ex_boot_ns),
        ksu_sucompat_init_kp (\<lambda>_. True) (\<lambda>_. 0) (static_su_probes ex_su))) =
    Some ([RDone, RDone, RDone, RDone, RAnswer True],
      set_hooks True True False (?b\<lparr>volumedown_pressed_count := 3\<rparr>)\<lparr>safe_mode := True\<rparr>, ksu_sucompat_init ex_su)"
    using kprobe_build_follows_hooks [OF ok, of 0 0 0 static_allow_state ex_boot_ns ex_su] zero by simp
  then obtain q s where q: "fold_opt probe_step ?cs ([], ksu_ksud_init 0 0 0 (static_ksud_probes static_allow_state ex_boot_ns),
        ksu_sucompat_init_kp (\<lambda>_. True) (\<lambda>_. 0) (static_su_probes ex_su)) = Some ([RDone, RDone, RDone, RDone, RAnswer True], q, s)"
    "manual_ksud q = set_hooks True True False (?b\<lparr>volumedown_pressed_count := 3\<rparr>)\<lparr>safe_mode := True\<rparr>"
    by (auto simp del: fold_opt.simps)
  have "volumedown_pressed_count (kq_st q) = 3"
    using arg_cong [OF q(2), of volumedown_pressed_count] by (simp add: manual_field set_hooks_def)
  then show ?thesis using q(1) by blast
qed

end
