(* ===== verification/Sus_Su.thy ===== *)
theory Sus_Su
  imports Kprobe_Props Core_Props
begin

text \<open>
  The \<^verbatim>\<open>sus_su\<close> feature of SUSFS: a character device with a random name through which an allowed process
  that knows the token gets root (\<^verbatim>\<open>sus_su.c\<close>), and the working modes that switch between the kprobes of
  \<^verbatim>\<open>sucompat.c\<close> and hooks compiled into the kernel (\<^verbatim>\<open>susfs.c\<close>, \<^verbatim>\<open>sucompat.c\<close>, \<^verbatim>\<open>core_hook.c\<close>). It needs the build
  of \<open>Kprobes\<close>. No configuration links as it is: \<open>susfs_is_sus_su_hooks_enabled\<close> is defined in \<^verbatim>\<open>susfs.c\<close> and in
  \<^verbatim>\<open>sucompat.c\<close>, and is one variable here; \<open>susfs_sus_su_working_mode\<close> is a static variable of \<^verbatim>\<open>susfs.c\<close> and a
  global one of \<^verbatim>\<open>sucompat.c\<close>, and is two.
\<close>

subsection \<open>The device\<close>

abbreviation FIFO_SIZE :: nat where "FIFO_SIZE \<equiv> 1024"
abbreviation MAX_DRV_NAME :: nat where "MAX_DRV_NAME \<equiv> 255"

definition sus_su_token :: string where
  "sus_su_token = ''!@#$SU_IS_SUS$#@!-pRE6W9BKXrJr1hEKyvDq0CvWziVKbatT8yzq06fhtrEGky2tVS7Q2QTjhtMfVMGV''"

text \<open>The static variables, \<open>rand_drv_path\<close> up to its NUL. The last two fields are the kernel's: the character
  devices registered under a major number and a name, and the \<open>cdev\<close>s added for a major number.\<close>

record sus_su_dev =
  cur_maj_dev_num :: int
  fifo_buffer :: string
  rand_drv_path :: string
  is_sus_su_enabled_before :: bool
  su_chrdevs :: "(int \<times> string) list"
  su_cdevs :: "int list"

definition static_sus_su_dev :: sus_su_dev where
  "static_sus_su_dev = \<lparr>cur_maj_dev_num = - 1, fifo_buffer = replicate FIFO_SIZE NUL, rand_drv_path = ''/dev/'',
     is_sus_su_enabled_before = False, su_chrdevs = [], su_cdevs = []\<rparr>"

text \<open>\<open>rnd\<close> gives the successive results of \<open>get_random_bytes\<close>.\<close>

definition drv_symbols :: string where
  "drv_symbols = ''ABCDEFGHIJKLMNOPQRSTUVWXYZabcdefghijklmnopqrstuvwxyz0123456789_-+@#:=''"

definition gen_rand_drv_name :: "(nat \<Rightarrow> u32) \<Rightarrow> nat \<Rightarrow> nat \<Rightarrow> string" where
  "gen_rand_drv_name rnd min_length max_length =
     (let symbols_length = length drv_symbols;
          len = min_length + unat (rnd 0) mod (max_length - min_length + 1)
      in map (\<lambda>i. drv_symbols ! (unat (rnd (Suc i)) mod symbols_length)) [0..<len])"

definition fifo_open :: int where "fifo_open = 0"
definition fifo_release :: int where "fifo_release = 0"
definition fifo_read :: "nat \<Rightarrow> int" where "fifo_read len = 0"

text \<open>\<open>from_user n\<close> is a copy of \<open>n\<close> bytes: whether it was complete, and the bytes it wrote. \<open>None\<close> is the
  fault of \<open>ksu_escape_to_root\<close>.\<close>

definition fifo_write :: "prctl_env \<Rightarrow> (nat \<Rightarrow> bool \<times> string) \<Rightarrow> ksu_state \<Rightarrow> sus_su_dev \<Rightarrow>
    (int \<times> ksu_state \<times> sus_su_dev) option" where
  "fifo_write pe from_user s d =
     (let sus_su_token_len = length sus_su_token in
      if \<not> susfs_is_allow_su (current_is_ksu_domain pe s) (ks_manager s) (ks_allow s) (current_uid s) then Some (0, s, d)
      else let (ok, bytes) = from_user (sus_su_token_len + 1);
             d = d\<lparr>fifo_buffer := bytes @ drop (length bytes) (fifo_buffer d)\<rparr> in
        if \<not> ok then Some (0, s, d)
        else let d' = d\<lparr>fifo_buffer := replicate FIFO_SIZE NUL\<rparr> in
          if memcmp_eq (fifo_buffer d) (sus_su_token @ [NUL]) (sus_su_token_len + 1)
          then (case ksu_escape_to_root (pe_cred pe) (pe_selinux pe) (ks_allow s) (ks_task s) of
              None \<Rightarrow> None
            | Some t \<Rightarrow> Some (0, s\<lparr>ks_task := t\<rparr>, d'))
          else Some (0, s, d'))"

text \<open>\<open>strncpy\<close> of as many characters as the string has: the target gets no NUL.\<close>

definition strncpy_all :: "string \<Rightarrow> string \<Rightarrow> string" where
  "strncpy_all dst src = src @ drop (length src) dst"

text \<open>\<open>reg\<close> is the result of \<open>register_chrdev\<close> for a name, \<open>add\<close> that of \<open>cdev_add\<close>. The result is the return
  value, \<open>*maj_dev_num\<close> and the buffer \<open>drv_path\<close>.\<close>

definition sus_su_fifo_init :: "(nat \<Rightarrow> u32) \<Rightarrow> (string \<Rightarrow> int) \<Rightarrow> int \<Rightarrow> int \<Rightarrow> string \<Rightarrow> sus_su_dev \<Rightarrow>
    (int \<times> int \<times> string) \<times> sus_su_dev" where
  "sus_su_fifo_init rnd reg add maj_dev_num drv_path d =
     (if cur_maj_dev_num d > 0 then ((- 1, maj_dev_num, drv_path), d)
      else let d = (if \<not> is_sus_su_enabled_before d
                    then d\<lparr>rand_drv_path := take 5 (rand_drv_path d) @ gen_rand_drv_name rnd 192 248\<rparr> else d);
             name = drop 5 (rand_drv_path d);
             d = d\<lparr>cur_maj_dev_num := reg name\<rparr> in
        if cur_maj_dev_num d < 0 then ((- 1, maj_dev_num, drv_path), d)
        else let d = d\<lparr>su_chrdevs := (cur_maj_dev_num d, name) # su_chrdevs d\<rparr> in
          if add < 0
          then ((- 1, maj_dev_num, drv_path), d\<lparr>su_chrdevs := remove1 (cur_maj_dev_num d, name) (su_chrdevs d)\<rparr>)
          else ((0, cur_maj_dev_num d, strncpy_all drv_path (rand_drv_path d)),
                d\<lparr>su_cdevs := cur_maj_dev_num d # su_cdevs d, is_sus_su_enabled_before := True\<rparr>))"

definition sus_su_fifo_exit :: "int \<Rightarrow> string \<Rightarrow> sus_su_dev \<Rightarrow> (int \<times> int \<times> string) \<times> sus_su_dev" where
  "sus_su_fifo_exit maj_dev_num drv_path d =
     (if cur_maj_dev_num d < 0 then ((0, maj_dev_num, drv_path), d)
      else let d = d\<lparr>su_cdevs := remove1 (cur_maj_dev_num d) (su_cdevs d),
             su_chrdevs := remove1 (cur_maj_dev_num d, drop 5 (rand_drv_path d)) (su_chrdevs d), cur_maj_dev_num := - 1\<rparr>
        in ((0, cur_maj_dev_num d, strncpy_all drv_path (rand_drv_path d)), d))"

subsection \<open>What the device does\<close>

text \<open>A path the driver reports: 192 to 248 characters of the alphabet, so that it fits into the array.\<close>

definition drv_path_ok :: "string \<Rightarrow> bool" where
  "drv_path_ok p \<longleftrightarrow> (\<exists>n. p = ''/dev/'' @ n \<and> 192 \<le> length n \<and> length n \<le> 248 \<and> set n \<subseteq> set drv_symbols)"

lemma gen_rand_drv_name_bounds:
  assumes "a \<le> b"
  shows "a \<le> length (gen_rand_drv_name rnd a b) \<and> length (gen_rand_drv_name rnd a b) \<le> b \<and>
    set (gen_rand_drv_name rnd a b) \<subseteq> set drv_symbols"
proof -
  have "unat (rnd 0) mod (b - a + 1) \<le> b - a" by (simp add: less_Suc_eq_le [symmetric])
  then have "a + unat (rnd 0) mod (b - a + 1) \<le> b" using assms by linarith
  moreover have "0 < length drv_symbols" by (simp add: drv_symbols_def)
  ultimately show ?thesis by (auto simp: gen_rand_drv_name_def Let_def)
qed

lemma drv_path_fits: "drv_path_ok p \<Longrightarrow> length p \<le> MAX_DRV_NAME \<and> take 5 p = ''/dev/''"
  by (auto simp: drv_path_ok_def)

text \<open>What is registered is what \<open>cur_maj_dev_num\<close> says.\<close>

definition dev_ok :: "sus_su_dev \<Rightarrow> bool" where
  "dev_ok d \<longleftrightarrow>
     take 5 (rand_drv_path d) = ''/dev/'' \<and>
     (if cur_maj_dev_num d > 0
      then is_sus_su_enabled_before d \<and> su_chrdevs d = [(cur_maj_dev_num d, drop 5 (rand_drv_path d))] \<and>
           su_cdevs d = [cur_maj_dev_num d]
      else cur_maj_dev_num d < 0 \<and> su_chrdevs d = [] \<and> su_cdevs d = []) \<and>
     (is_sus_su_enabled_before d \<longrightarrow> drv_path_ok (rand_drv_path d))"

datatype dev_call = Fifo_init "nat \<Rightarrow> u32" "string \<Rightarrow> int" int int string | Fifo_exit int string

fun dev_step :: "dev_call \<Rightarrow> sus_su_dev \<Rightarrow> sus_su_dev option" where
  "dev_step (Fifo_init rnd reg add m p) d = Some (snd (sus_su_fifo_init rnd reg add m p d))"
| "dev_step (Fifo_exit m p) d = Some (snd (sus_su_fifo_exit m p d))"

text \<open>\<open>register_chrdev\<close> never returns major number 0, and \<open>cdev_add\<close> succeeds.\<close>

fun dev_call_ok :: "dev_call \<Rightarrow> bool" where
  "dev_call_ok (Fifo_init rnd reg add m p) \<longleftrightarrow> (\<forall>n. reg n \<noteq> 0) \<and> 0 \<le> add"
| "dev_call_ok (Fifo_exit m p) \<longleftrightarrow> True"

text \<open>Once the device was there its path stays.\<close>

definition same_path :: "sus_su_dev \<Rightarrow> sus_su_dev \<Rightarrow> bool" where
  "same_path d d' \<longleftrightarrow>
     (is_sus_su_enabled_before d \<longrightarrow> is_sus_su_enabled_before d' \<and> rand_drv_path d' = rand_drv_path d)"

lemma fresh_path_ok:
  assumes "take 5 q = ''/dev/''"
  shows "drv_path_ok (take 5 q @ gen_rand_drv_name rnd 192 248)"
  using assms gen_rand_drv_name_bounds [of 192 248 rnd] by (auto simp: drv_path_ok_def)

lemma fifo_init_keeps:
  assumes "dev_ok d" "\<forall>n. reg n \<noteq> 0" "0 \<le> add"
  shows "dev_ok (snd (sus_su_fifo_init rnd reg add m p d)) \<and> same_path d (snd (sus_su_fifo_init rnd reg add m p d))"
proof (cases "cur_maj_dev_num d > 0")
  case False
  define d1 where "d1 = (if \<not> is_sus_su_enabled_before d
      then d\<lparr>rand_drv_path := take 5 (rand_drv_path d) @ gen_rand_drv_name rnd 192 248\<rparr> else d)"
  have k: "take 5 (rand_drv_path d1) = ''/dev/''" "drv_path_ok (rand_drv_path d1)" "su_chrdevs d1 = []" "su_cdevs d1 = []"
    "same_path d d1" "is_sus_su_enabled_before d1 = is_sus_su_enabled_before d"
    using assms(1) False fresh_path_ok [of "rand_drv_path d" rnd] by (auto simp: d1_def dev_ok_def same_path_def)
  show ?thesis
    using assms(2,3) False k
    by (auto simp: sus_su_fifo_init_def Let_def d1_def [symmetric] dev_ok_def same_path_def less_le not_less)
qed (use assms in \<open>simp add: sus_su_fifo_init_def same_path_def\<close>)

lemma fifo_exit_keeps:
  "dev_ok d \<Longrightarrow> dev_ok (snd (sus_su_fifo_exit m p d)) \<and> same_path d (snd (sus_su_fifo_exit m p d))"
  by (auto simp: sus_su_fifo_exit_def Let_def dev_ok_def same_path_def split: if_splits)

lemma dev_step_keeps: "dev_step c d = Some d' \<Longrightarrow> dev_call_ok c \<Longrightarrow> dev_ok d \<Longrightarrow> dev_ok d' \<and> same_path d d'"
  by (cases c) (auto simp: fifo_init_keeps fifo_exit_keeps)

interpretation device: related_steps dev_step dev_call_ok dev_ok same_path
  by unfold_locales (auto simp: same_path_def dest: dev_step_keeps)

text \<open>The properties of the device.\<close>

text \<open>Whatever sequence of registrations and removals is asked for, while the kernel grants them, the
  devices the kernel has are what \<open>cur_maj_dev_num\<close> says, one or none, under the reported name; and once a device was
  registered its path, which fits into the array, never changes.\<close>
theorem sus_su_device_tracked:
  assumes "fold_opt dev_step cs static_sus_su_dev = Some d" "fold_opt dev_step cs' d = Some d'"
    and "\<forall>c \<in> set (cs @ cs'). dev_call_ok c"
  shows "su_chrdevs d' = (if 0 < cur_maj_dev_num d' then [(cur_maj_dev_num d', drop 5 (rand_drv_path d'))] else []) \<and>
    su_cdevs d' = (if 0 < cur_maj_dev_num d' then [cur_maj_dev_num d'] else []) \<and>
    (is_sus_su_enabled_before d \<longrightarrow> rand_drv_path d' = rand_drv_path d) \<and>
    (0 < cur_maj_dev_num d' \<longrightarrow> drv_path_ok (rand_drv_path d') \<and> length (rand_drv_path d') \<le> MAX_DRV_NAME)"
proof -
  have "dev_ok static_sus_su_dev" by (simp add: dev_ok_def static_sus_su_dev_def)
  then have d: "dev_ok d" using device.run_inv [OF assms(1)] assms(3) by simp
  then have "dev_ok d'" "same_path d d'"
    using device.run_inv [OF assms(2)] device.run_rel [OF assms(2)] assms(3) by auto
  then show ?thesis using drv_path_fits [of "rand_drv_path d'"] by (auto simp: dev_ok_def same_path_def)
qed

text \<open>If \<open>cdev_add\<close> fails the device is gone but its number stays: it can not be registered again.\<close>
theorem failed_cdev_blocks_device:
  assumes "cur_maj_dev_num d < 0" "su_chrdevs d = []" "\<forall>n. reg n > 0" "add < 0"
  shows "\<exists>d'. sus_su_fifo_init rnd reg add m p d = ((- 1, m, p), d') \<and> su_chrdevs d' = [] \<and> 0 < cur_maj_dev_num d' \<and>
    (\<forall>rnd' reg' add' m' p'. sus_su_fifo_init rnd' reg' add' m' p' d' = ((- 1, m', p'), d'))"
  using assms by (auto simp: sus_su_fifo_init_def Let_def not_less less_imp_le)

text \<open>C34. Writing to the device always returns 0, and changes the caller's credentials exactly when it is
  allowed root and the copy is complete and is the token with its NUL: then they become those of
  \<^verbatim>\<open>ksu_escape_to_root\<close>.\<close>
theorem fifo_write_needs_token:
  assumes "\<And>n. fst (from_user n) \<Longrightarrow> length (snd (from_user n)) = n"
  shows "map_option (\<lambda>(r, s', d'). (r, s')) (fifo_write pe from_user s d) =
    (if susfs_is_allow_su (current_is_ksu_domain pe s) (ks_manager s) (ks_allow s) (current_uid s) \<and>
        fst (from_user (length sus_su_token + 1)) \<and> snd (from_user (length sus_su_token + 1)) = sus_su_token @ [NUL]
     then map_option (\<lambda>t. (0, s\<lparr>ks_task := t\<rparr>)) (ksu_escape_to_root (pe_cred pe) (pe_selinux pe) (ks_allow s) (ks_task s))
     else Some (0, s))"
proof -
  let ?n = "Suc (length sus_su_token)"
  obtain ok bytes where b: "from_user ?n = (ok, bytes)" by fastforce
  have m: "memcmp_eq (bytes @ drop (length bytes) (fifo_buffer d)) (sus_su_token @ [NUL]) ?n \<longleftrightarrow> bytes = sus_su_token @ [NUL]" if ok
    using assms [of ?n] that b by (simp add: memcmp_eq_def)
  show ?thesis
    using b m by (auto simp: fifo_write_def Let_def split: option.splits)
qed

lemma sus_su_device_tracked_witness:
  "\<exists>d d'. fold_opt dev_step [Fifo_init (\<lambda>_. 5) (\<lambda>_. 240) 0 0 []] static_sus_su_dev = Some d \<and>
     fold_opt dev_step [Fifo_exit 0 [], Fifo_init (\<lambda>_. 7) (\<lambda>_. 241) 0 0 []] d = Some d' \<and>
     su_chrdevs d' = [(241, drop 5 (rand_drv_path d))]"
proof -
  define d where "d = snd (sus_su_fifo_init (\<lambda>_. 5) (\<lambda>_. 240) 0 0 [] static_sus_su_dev)"
  define d1 where "d1 = snd (sus_su_fifo_exit 0 [] d)"
  define d' where "d' = snd (sus_su_fifo_init (\<lambda>_. 7) (\<lambda>_. 241) 0 0 [] d1)"
  have r: "fold_opt dev_step [Fifo_init (\<lambda>_. 5) (\<lambda>_. 240) 0 0 []] static_sus_su_dev = Some d"
    "fold_opt dev_step [Fifo_exit 0 [], Fifo_init (\<lambda>_. 7) (\<lambda>_. 241) 0 0 []] d = Some d'"
    by (simp_all add: d_def d1_def d'_def)
  have b: "is_sus_su_enabled_before d" by (simp add: d_def sus_su_fifo_init_def static_sus_su_dev_def Let_def)
  have "cur_maj_dev_num d1 = - 1" by (simp add: d1_def d_def sus_su_fifo_exit_def sus_su_fifo_init_def static_sus_su_dev_def Let_def)
  then have "cur_maj_dev_num d' = 241" by (simp add: d'_def sus_su_fifo_init_def Let_def)
  then show ?thesis using sus_su_device_tracked [OF r] r b by auto
qed

lemma fifo_write_needs_token_witness:
  "map_option (\<lambda>(r, s', d'). (r, s')) (fifo_write (ex_prctl None) (\<lambda>n. (True, take n (sus_su_token @ [NUL] @ replicate n NUL)))
      (ex_ksu 10050 10050 ex_init) static_sus_su_dev) =
     map_option (\<lambda>t. (0, (ex_ksu 10050 10050 ex_init)\<lparr>ks_task := t\<rparr>))
       (ksu_escape_to_root ex_cred_env ex_selinux_env ex_init (ks_task (ex_ksu 10050 10050 ex_init))) \<and>
   map_option (\<lambda>(r, s', d'). (r, s')) (fifo_write (ex_prctl None) (\<lambda>n. (True, replicate n CHR ''x''))
      (ex_ksu 10050 10050 ex_init) static_sus_su_dev) = Some (0, ex_ksu 10050 10050 ex_init)"
proof -
  let ?s = "ex_ksu 10050 10050 ex_init"
  have e: "pe_cred (ex_prctl None) = ex_cred_env" "pe_selinux (ex_prctl None) = ex_selinux_env" by (simp_all add: ex_prctl_def)
  have a: "susfs_is_allow_su (current_is_ksu_domain (ex_prctl None) ?s) (ks_manager ?s) (ks_allow ?s) (current_uid ?s)"
    by (simp add: susfs_is_allow_su_def ksu_is_manager_def)
  have z: "replicate (length sus_su_token + 1) CHR ''x'' \<noteq> sus_su_token @ [NUL]"
  proof
    assume "replicate (length sus_su_token + 1) CHR ''x'' = sus_su_token @ [NUL]"
    then have "NUL \<in> set (replicate (length sus_su_token + 1) CHR ''x'')" by simp
    then show False by simp
  qed
  have t: "map_option (\<lambda>(r, s', d'). (r, s')) (fifo_write (ex_prctl None) (\<lambda>n. (True, take n (sus_su_token @ [NUL] @ replicate n NUL)))
      ?s static_sus_su_dev) = map_option (\<lambda>t. (0, ?s\<lparr>ks_task := t\<rparr>)) (ksu_escape_to_root ex_cred_env ex_selinux_env ex_init (ks_task ?s))"
    by (subst fifo_write_needs_token) (use a in \<open>auto simp: e\<close>)
  moreover have "map_option (\<lambda>(r, s', d'). (r, s')) (fifo_write (ex_prctl None) (\<lambda>n. (True, replicate n CHR ''x''))
      ?s static_sus_su_dev) = Some (0, ?s)"
    by (subst fifo_write_needs_token) (use z in auto)
  ultimately show ?thesis by simp
qed

subsection \<open>The working modes\<close>

abbreviation SUS_SU_DISABLED :: int where "SUS_SU_DISABLED \<equiv> 0"
abbreviation SUS_SU_WITH_OVERLAY :: int where "SUS_SU_WITH_OVERLAY \<equiv> 1"
abbreviation SUS_SU_WITH_HOOKS :: int where "SUS_SU_WITH_HOOKS \<equiv> 2"

abbreviation CMD_SUSFS_SHOW_SUS_SU_WORKING_MODE :: u64 where "CMD_SUSFS_SHOW_SUS_SU_WORKING_MODE \<equiv> 0x555e4"
abbreviation CMD_SUSFS_IS_SUS_SU_READY :: u64 where "CMD_SUSFS_IS_SUS_SU_READY \<equiv> 0x555f0"
abbreviation CMD_SUSFS_SUS_SU :: u64 where "CMD_SUSFS_SUS_SU \<equiv> 0x60000"

text \<open>\<open>sm_susfs_mode\<close> is the static variable of \<^verbatim>\<open>susfs.c\<close>, \<open>sm_sucompat_mode\<close> the one of \<^verbatim>\<open>sucompat.c\<close>.\<close>

record sus_su_modes =
  sm_probes :: su_probes
  susfs_is_sus_su_hooks_enabled :: bool
  ksu_devpts_hook :: bool
  sm_sucompat_mode :: int
  sm_susfs_mode :: int

definition ksu_is_su_kps_enabled :: "su_probes \<Rightarrow> bool" where
  "ksu_is_su_kps_enabled q = list_ex (\<lambda>kp. kp \<noteq> None) (su_kps q)"

definition ksu_susfs_disable_sus_su :: "(nat \<Rightarrow> bool) \<Rightarrow> (nat \<Rightarrow> int) \<Rightarrow> sus_su_modes \<Rightarrow> sus_su_modes" where
  "ksu_susfs_disable_sus_su alloc ret m =
     (let m = m\<lparr>susfs_is_sus_su_hooks_enabled := False, ksu_devpts_hook := False, sm_sucompat_mode := SUS_SU_DISABLED\<rparr> in
      if \<not> ksu_is_su_kps_enabled (sm_probes m)
      then m\<lparr>sm_probes := (ksu_sucompat_init_kp alloc ret (sm_probes m))\<lparr>ksu_su_compat_enabled := True\<rparr>\<rparr>
      else m)"

definition ksu_susfs_enable_sus_su :: "sus_su_modes \<Rightarrow> sus_su_modes" where
  "ksu_susfs_enable_sus_su m =
     (let m = (if ksu_is_su_kps_enabled (sm_probes m)
        then m\<lparr>sm_probes := (ksu_sucompat_exit_kp (sm_probes m))\<lparr>ksu_su_compat_enabled := False\<rparr>\<rparr> else m)
      in m\<lparr>susfs_is_sus_su_hooks_enabled := True, ksu_devpts_hook := True, sm_sucompat_mode := SUS_SU_WITH_HOOKS\<rparr>)"

text \<open>\<open>info\<close> is the mode at the user's address, \<open>None\<close> if the copy faults; what is copied back is what was
  there.\<close>

definition susfs_sus_su :: "(nat \<Rightarrow> bool) \<Rightarrow> (nat \<Rightarrow> int) \<Rightarrow> int option \<Rightarrow> sus_su_modes \<Rightarrow> int \<times> sus_su_modes" where
  "susfs_sus_su alloc ret info m =
     (let last_working_mode = sm_susfs_mode m in
      case info of
        None \<Rightarrow> (1, m)
      | Some mode \<Rightarrow>
          if mode = SUS_SU_WITH_HOOKS then
            if last_working_mode = SUS_SU_WITH_HOOKS then (1, m)
            else if last_working_mode \<noteq> SUS_SU_DISABLED then (2, m)
            else let m = ksu_susfs_enable_sus_su m
              in (0, m\<lparr>sm_susfs_mode := SUS_SU_WITH_HOOKS, susfs_is_sus_su_hooks_enabled := True\<rparr>)
          else if mode = SUS_SU_DISABLED then
            if last_working_mode = SUS_SU_DISABLED then (1, m)
            else let m = ksu_susfs_disable_sus_su alloc ret (m\<lparr>susfs_is_sus_su_hooks_enabled := False\<rparr>)
              in (0, m\<lparr>sm_susfs_mode := SUS_SU_DISABLED\<rparr>)
          else if mode = SUS_SU_WITH_OVERLAY then (1, m)
          else (1, m))"

text \<open>The commands among those of root; \<open>None\<close> is any other command. \<open>mode_at\<close> is what a copy from the user
  reads, \<open>is_ready\<close> is \<open>susfs_is_sus_su_ready\<close> of \<^verbatim>\<open>ksud.c\<close>.\<close>

definition cmd_sus_su :: "prctl_env \<Rightarrow> (nat \<Rightarrow> bool) \<Rightarrow> (nat \<Rightarrow> int) \<Rightarrow> (uaddr \<Rightarrow> int option) \<Rightarrow> u64 \<Rightarrow> u64 \<Rightarrow>
    ksu_state \<times> sus_su_modes \<Rightarrow> ksu_state \<times> sus_su_modes" where
  "cmd_sus_su pe alloc ret mode_at arg3 arg5 = (\<lambda>(s, m).
     (if \<not> pe_access_ok pe arg3 4 then (s, m)
      else if \<not> pe_access_ok pe arg5 4 then (s, m)
      else let (error, m) = susfs_sus_su alloc ret (mode_at arg3) m
        in (snd (copy_to_user pe arg5 (UInt error) s), m)))"

definition sus_su_commands :: "prctl_env \<Rightarrow> (nat \<Rightarrow> bool) \<Rightarrow> (nat \<Rightarrow> int) \<Rightarrow> (uaddr \<Rightarrow> int option) \<Rightarrow> bool \<Rightarrow>
    u64 \<Rightarrow> u64 \<Rightarrow> u64 \<Rightarrow> ksu_state \<times> sus_su_modes \<Rightarrow> (ksu_state \<times> sus_su_modes) option" where
  "sus_su_commands pe alloc ret mode_at is_ready arg2 arg3 arg5 = (\<lambda>(s, m).
     (if arg2 = CMD_SUSFS_SUS_SU then Some (cmd_sus_su pe alloc ret mode_at arg3 arg5 (s, m))
      else if arg2 = CMD_SUSFS_IS_SUS_SU_READY then Some (susfs_show pe 1 (UBool is_ready) arg3 arg5 s, m)
      else if arg2 = CMD_SUSFS_SHOW_SUS_SU_WORKING_MODE then
        Some (susfs_show pe 4 (UInt (sm_susfs_mode m)) arg3 arg5 s, m)
      else None))"

text \<open>At boot \<open>ksu_sucompat_init\<close> has registered the probes.\<close>

definition booted_modes :: "(nat \<Rightarrow> bool) \<Rightarrow> (nat \<Rightarrow> int) \<Rightarrow> sucompat \<Rightarrow> sus_su_modes" where
  "booted_modes alloc ret su = \<lparr>sm_probes = ksu_sucompat_init_kp alloc ret (static_su_probes su),
     susfs_is_sus_su_hooks_enabled = False, ksu_devpts_hook = False, sm_sucompat_mode = SUS_SU_DISABLED,
     sm_susfs_mode = SUS_SU_DISABLED\<rparr>"

text \<open>What is called: a command of root, or the switch of \<open>su\<close>.\<close>

datatype mode_call =
  Root_command prctl_env "uaddr \<Rightarrow> int option" bool u64 u64 u64 ksu_state
| Su_switch u64

definition mode_step :: "mode_call \<times> (nat \<Rightarrow> bool) \<times> (nat \<Rightarrow> int) \<Rightarrow> sus_su_modes \<Rightarrow> sus_su_modes option" where
  "mode_step = (\<lambda>(c, alloc, ret) m. Some
     (case c of
        Root_command pe mode_at is_ready arg2 arg3 arg5 s \<Rightarrow>
          (case sus_su_commands pe alloc ret mode_at is_ready arg2 arg3 arg5 (s, m) of None \<Rightarrow> m | Some (s', m') \<Rightarrow> m')
      | Su_switch arg3 \<Rightarrow> m\<lparr>sm_probes := enable_su_kp alloc ret arg3 (sm_probes m)\<rparr>))"

definition mode_ok :: "mode_call \<times> (nat \<Rightarrow> bool) \<times> (nat \<Rightarrow> int) \<Rightarrow> bool" where
  "mode_ok = (\<lambda>(c, alloc, ret). kps_ok alloc ret)"

definition modes_inv :: "sus_su_modes \<Rightarrow> bool" where
  "modes_inv m \<longleftrightarrow> su_together (sm_probes m) \<and> sm_susfs_mode m \<in> {SUS_SU_DISABLED, SUS_SU_WITH_HOOKS} \<and>
     sm_sucompat_mode m = sm_susfs_mode m \<and> ksu_devpts_hook m = susfs_is_sus_su_hooks_enabled m \<and>
     susfs_is_sus_su_hooks_enabled m = (sm_susfs_mode m = SUS_SU_WITH_HOOKS)"

text \<open>One of the two ways to \<open>su\<close> at most.\<close>

definition one_way :: "sus_su_modes \<Rightarrow> bool" where
  "one_way m \<longleftrightarrow> susfs_is_sus_su_hooks_enabled m \<longrightarrow> sq_registered (sm_probes m) = []"

lemma su_kps_enabled: "su_together q \<Longrightarrow> ksu_is_su_kps_enabled q = ksu_su_compat_enabled q"
  by (auto simp: su_together_def ksu_is_su_kps_enabled_def four_su_kps split: if_splits)

lemma together_init:
  "su_together q \<Longrightarrow> \<not> ksu_su_compat_enabled q \<Longrightarrow> kps_ok alloc ret \<Longrightarrow>
    su_together ((ksu_sucompat_init_kp alloc ret q)\<lparr>ksu_su_compat_enabled := True\<rparr>)"
  by (simp add: su_together_def su_probes_init)

lemma together_exit:
  assumes "su_together q" "ksu_su_compat_enabled q"
  shows "su_together ((ksu_sucompat_exit_kp q)\<lparr>ksu_su_compat_enabled := False\<rparr>)"
    "sq_registered (ksu_sucompat_exit_kp q) = []"
  using assms by (simp_all add: su_together_def su_probes_exit)

lemma together_none: "su_together q \<Longrightarrow> \<not> ksu_su_compat_enabled q \<Longrightarrow> sq_registered q = []"
  by (simp add: su_together_def)

lemma susfs_sus_su_inv:
  assumes "modes_inv m" "kps_ok alloc ret"
  shows "modes_inv (snd (susfs_sus_su alloc ret info m)) \<and> (one_way m \<longrightarrow> one_way (snd (susfs_sus_su alloc ret info m)))"
  using assms su_kps_enabled [of "sm_probes m"]
  by (auto simp: susfs_sus_su_def Let_def modes_inv_def one_way_def ksu_susfs_enable_sus_su_def ksu_susfs_disable_sus_su_def
      together_init together_exit together_none split: option.splits)

lemma root_command_modes:
  "sus_su_commands pe alloc ret mode_at is_ready arg2 arg3 arg5 (s, m) = Some (s', m') \<Longrightarrow>
    m' = m \<or> arg2 = CMD_SUSFS_SUS_SU \<and> m' = snd (susfs_sus_su alloc ret (mode_at arg3) m)"
  by (auto simp: sus_su_commands_def cmd_sus_su_def case_prod_unfold Let_def split: if_splits)

lemma mode_step_inv:
  assumes "mode_step x m = Some m'" "mode_ok x" "modes_inv m"
  shows "modes_inv m' \<and> (one_way m \<and> (\<forall>a. fst x \<noteq> Su_switch a) \<longrightarrow> one_way m')"
proof -
  obtain c alloc ret where x: "x = (c, alloc, ret)" by (metis prod_cases3)
  have k: "kps_ok alloc ret" using assms(2) by (simp add: mode_ok_def x)
  show ?thesis
  proof (cases c)
    case (Root_command pe mode_at is_ready arg2 arg3 arg5 s)
    then show ?thesis
      using assms(1,3) susfs_sus_su_inv [OF assms(3) k] root_command_modes
      by (auto simp: mode_step_def x split: option.splits dest!: root_command_modes)
  next
    case (Su_switch arg3)
    then show ?thesis
      using assms(1,3) manual_enable(1) [OF _ k] by (auto simp: mode_step_def x modes_inv_def)
  qed
qed

interpretation modes: invariant_steps mode_step mode_ok modes_inv
  by unfold_locales (use mode_step_inv in blast)

interpretation commands: invariant_steps mode_step "\<lambda>x. mode_ok x \<and> (\<forall>a. fst x \<noteq> Su_switch a)" "\<lambda>m. modes_inv m \<and> one_way m"
  by unfold_locales (use mode_step_inv in blast)

lemma booted_modes_inv: "kps_ok alloc ret \<Longrightarrow> modes_inv (booted_modes alloc ret su) \<and> one_way (booted_modes alloc ret su)"
  by (simp add: booted_modes_def modes_inv_def one_way_def su_together_def su_probes_init static_su_probes_def)

text \<open>C33. Whatever root commands and switches of \<^verbatim>\<open>su\<close> come, the two variables that hold the working mode agree,
  both flags of the compiled-in hooks say the same, and the probes are registered all or none, as the switch
  says; and as long as no one uses the switch, the hooks are on only while no probe is registered.\<close>
theorem sus_su_modes_agree:
  assumes "fold_opt mode_step xs (booted_modes alloc ret su) = Some m"
    and "kps_ok alloc ret" "\<forall>x \<in> set xs. mode_ok x"
  shows "(sm_susfs_mode m = SUS_SU_DISABLED \<or> sm_susfs_mode m = SUS_SU_WITH_HOOKS) \<and> sm_sucompat_mode m = sm_susfs_mode m \<and>
    susfs_is_sus_su_hooks_enabled m = (sm_susfs_mode m = SUS_SU_WITH_HOOKS) \<and> ksu_devpts_hook m = susfs_is_sus_su_hooks_enabled m \<and>
    sq_registered (sm_probes m) = (if ksu_su_compat_enabled (sm_probes m) then rev all_su_probes else []) \<and>
    ((\<forall>x \<in> set xs. \<forall>a. fst x \<noteq> Su_switch a) \<longrightarrow> susfs_is_sus_su_hooks_enabled m \<longrightarrow> sq_registered (sm_probes m) = [])"
proof -
  have "modes_inv m" using modes.run_inv [OF assms(1,3)] booted_modes_inv [OF assms(2)] by simp
  moreover have "one_way m" if "\<forall>x \<in> set xs. \<forall>a. fst x \<noteq> Su_switch a"
    using commands.run_inv [OF assms(1)] assms(3) that booted_modes_inv [OF assms(2)] by simp
  ultimately show ?thesis by (auto simp: modes_inv_def one_way_def su_together_def)
qed

definition ex_mode_call :: mode_call where
  "ex_mode_call = Root_command (ex_prctl None) (\<lambda>_. Some SUS_SU_WITH_HOOKS) True CMD_SUSFS_SUS_SU 8 8 (ex_ksu 10050 0 ex_init)"

lemma ex_mode_run:
  assumes "modes_inv m" "sm_susfs_mode m = SUS_SU_DISABLED"
  shows "\<exists>m'. mode_step (ex_mode_call, alloc, ret) m = Some m' \<and> sm_susfs_mode m' = SUS_SU_WITH_HOOKS \<and>
    susfs_is_sus_su_hooks_enabled m' \<and> \<not> ksu_su_compat_enabled (sm_probes m')"
  using assms su_kps_enabled [of "sm_probes m"]
  by (auto simp: ex_mode_call_def mode_step_def sus_su_commands_def cmd_sus_su_def susfs_sus_su_def ex_prctl_def Let_def modes_inv_def
      ksu_susfs_enable_sus_su_def)

lemma sus_su_modes_agree_witness:
  "\<exists>m. fold_opt mode_step [(ex_mode_call, \<lambda>_. True, \<lambda>_. 0)] (booted_modes (\<lambda>_. True) (\<lambda>_. 0) ex_su) = Some m \<and>
     susfs_is_sus_su_hooks_enabled m \<and> sq_registered (sm_probes m) = []"
proof -
  have k: "kps_ok (\<lambda>_. True) (\<lambda>_. 0)" by (simp add: kps_ok_def)
  let ?m = "booted_modes (\<lambda>_. True) (\<lambda>_. 0) ex_su"
  have "modes_inv ?m" "sm_susfs_mode ?m = SUS_SU_DISABLED" using booted_modes_inv [OF k] by (simp_all add: booted_modes_def)
  then obtain m where m: "mode_step (ex_mode_call, \<lambda>_. True, \<lambda>_. 0) ?m = Some m" "susfs_is_sus_su_hooks_enabled m"
    using ex_mode_run by blast
  have r: "fold_opt mode_step [(ex_mode_call, \<lambda>_. True, \<lambda>_. 0)] ?m = Some m" using m(1) by simp
  have o: "\<forall>x \<in> set [(ex_mode_call, \<lambda>_. True, \<lambda>_. 0)]. mode_ok x" using k by (simp add: mode_ok_def)
  have "\<forall>x \<in> set [(ex_mode_call, \<lambda>_. True, \<lambda>_. 0)]. \<forall>a. fst x \<noteq> Su_switch a" by (simp add: ex_mode_call_def)
  then show ?thesis using sus_su_modes_agree [OF r k o] r m(2) by blast
qed

text \<open>Switching \<^verbatim>\<open>su\<close> on while the hooks are on leaves both on.\<close>
theorem su_switch_leaves_both:
  assumes "modes_inv m" "susfs_is_sus_su_hooks_enabled m" "kps_ok alloc ret" "a \<noteq> 0"
  shows "\<exists>m'. mode_step (Su_switch a, alloc, ret) m = Some m' \<and> susfs_is_sus_su_hooks_enabled m' \<and>
    sq_registered (sm_probes m') = rev all_su_probes"
  using assms manual_enable(1) [of "sm_probes m" alloc ret a]
  by (auto simp: mode_step_def modes_inv_def su_together_def enable_su_kp_def Let_def su_probes_init split: if_splits)

end
