(* ===== verification/Old_Kernels.thy ===== *)
theory Old_Kernels
  imports Compat Selinux
begin

text \<open>
  What only kernels older than 4.19 compile, or a build with \<^verbatim>\<open>CONFIG_KSU_ALLOWLIST_WORKAROUND\<close>: the
  session keyring of init, without which a work item can not open files on encrypted storage
  (\<^verbatim>\<open>core_hook.c\<close>, \<^verbatim>\<open>kernel_compat.c\<close>); the reads and writes of kernels whose functions do not
  advance the position; and the transition of init to the su domain that \<^verbatim>\<open>ksud.c\<close> lets pass.
\<close>

subsection \<open>The session keyring\<close>

text \<open>The LSM hook: \<open>comm\<close> and the keyring of the task's credentials; \<open>None\<close> is NULL.\<close>

definition ksu_key_permission :: "cbuf \<Rightarrow> 'k option \<Rightarrow> 'k option \<Rightarrow> int \<times> 'k option" where
  "ksu_key_permission comm session_keyring init_session_keyring =
     (if init_session_keyring \<noteq> None then (0, init_session_keyring)
      else if cstr comm \<noteq> ''init'' then (0, init_session_keyring)
      else (0, session_keyring))"

text \<open>\<open>prepare\<close> is the allocation of new credentials, \<open>install\<close> the result of
  \<open>install_session_keyring_to_cred\<close>; the task's keyring is what changes.\<close>

definition install_session_keyring :: "bool \<Rightarrow> ('k \<Rightarrow> int) \<Rightarrow> 'k \<Rightarrow> 'k option \<Rightarrow> int \<times> 'k option" where
  "install_session_keyring prepare install keyring cur =
     (if \<not> prepare then (- 12, cur)
      else let ret = install keyring in if ret < 0 then (ret, cur) else (0, Some keyring))"

text \<open>\<open>filp_open\<close> also sees the task's keyring.\<close>

definition ksu_filp_open_keyring :: "bool \<Rightarrow> ('k \<Rightarrow> int) \<Rightarrow> bool \<Rightarrow> 'k option \<Rightarrow>
    ('k option \<Rightarrow> ('ns, 'fs) ns_fs \<Rightarrow> 'a \<Rightarrow> 'f) \<Rightarrow> 'a \<Rightarrow> 'k option \<times> ('ns, 'fs) compat_state \<Rightarrow>
    'f \<times> 'k option \<times> ('ns, 'fs) compat_state" where
  "ksu_filp_open_keyring prepare install is_wq_worker init_session_keyring filp_open args = (\<lambda>(cur, s).
     let cur = (case init_session_keyring of
           Some k \<Rightarrow> if cur = None \<and> is_wq_worker then snd (install_session_keyring prepare install k cur) else cur
         | None \<Rightarrow> cur);
         (fp, s) = ksu_filp_open_compat (filp_open cur) args s
     in (fp, cur, s))"

subsection \<open>Reads and writes\<close>

text \<open>Before 4.14 \<open>kernel_read\<close> and \<open>kernel_write\<close> take an offset; \<open>pos\<close> is \<open>None\<close> for NULL.\<close>

definition ksu_kernel_read_old :: "(int \<Rightarrow> nat \<Rightarrow> int \<times> cbuf) \<Rightarrow> nat \<Rightarrow> int option \<Rightarrow> (int \<times> cbuf) \<times> int option" where
  "ksu_kernel_read_old kernel_read n pos =
     (let offset = (case pos of None \<Rightarrow> 0 | Some p \<Rightarrow> p);
          (result, buf) = kernel_read offset n
      in ((result, buf), if pos \<noteq> None \<and> result > 0 then Some (offset + result) else pos))"

definition ksu_kernel_write_old :: "(int \<Rightarrow> cbuf \<Rightarrow> 'file \<Rightarrow> int \<times> 'file) \<Rightarrow> cbuf \<Rightarrow> int option \<Rightarrow> 'file \<Rightarrow>
    int \<times> int option \<times> 'file" where
  "ksu_kernel_write_old kernel_write buf pos fl =
     (let offset = (case pos of None \<Rightarrow> 0 | Some p \<Rightarrow> p);
          (result, fl) = kernel_write offset buf fl
      in (result, if pos \<noteq> None \<and> result > 0 then Some (offset + result) else pos, fl))"

subsection \<open>The transition of init\<close>

text \<open>The last argument is the static \<open>ksu_sid\<close>, which keeps its value when the context is unknown.\<close>

definition is_ksu_transition :: "selinux_env \<Rightarrow> u32 \<Rightarrow> u32 \<Rightarrow> u32 \<Rightarrow> bool \<times> u32" where
  "is_ksu_transition se old_sid new_sid ksu_sid =
     (let ksu_sid = (if ksu_sid = 0 then (case to_secid se ''u:r:su:s0'' of Inl err \<Rightarrow> ksu_sid | Inr sid \<Rightarrow> sid) else ksu_sid) in
      case to_secctx se old_sid of
        Inl err \<Rightarrow> (False, ksu_sid)
      | Inr (secdata, seclen) \<Rightarrow> (cstr secdata = ''u:r:init:s0'' \<and> new_sid = ksu_sid, ksu_sid))"

subsection \<open>Lemmas\<close>

text \<open>Of any sequence of key accesses the first by init with a session keyring decides.\<close>

lemma keyring_of_init:
  "fold (\<lambda>(comm, k) r. snd (ksu_key_permission comm k r)) calls None =
     (case List.find (\<lambda>(comm, k). cstr comm = ''init'' \<and> k \<noteq> None) calls of None \<Rightarrow> None | Some (comm, k) \<Rightarrow> k)"
proof -
  have s: "fold (\<lambda>(comm, k) r. snd (ksu_key_permission comm k r)) xs (Some k) = Some k" for xs :: "(cbuf \<times> 'k option) list" and k
    by (induction xs) (auto simp: ksu_key_permission_def)
  show ?thesis
  proof (induction calls)
    case (Cons c cs)
    obtain comm k where c: "c = (comm, k)" by fastforce
    show ?case using Cons s by (cases k) (auto simp: c ksu_key_permission_def)
  qed simp
qed

text \<open>A worker without a keyring opens with init's, whatever the namespaces; anyone else with its own.\<close>

lemma open_with_keyring:
  assumes "prepare" "\<And>k. 0 \<le> install k"
  shows "fst (ksu_filp_open_keyring prepare install wq (Some k) filp_open args (cur, s)) =
    fst (ksu_filp_open_compat (filp_open (if cur = None \<and> wq then Some k else cur)) args s)"
  using assms(1) assms(2) [of k]
  by (simp add: ksu_filp_open_keyring_def install_session_keyring_def Let_def case_prod_unfold)

text \<open>Two reads in a row give the bytes one read would.\<close>

lemma old_read:
  assumes "\<And>p n. kr p n = (int (length (take n (drop (nat p) data))), take n (drop (nat p) data))"
  shows "ksu_kernel_read_old kr n (Some p) =
    ((int (length (take n (drop (nat p) data))), take n (drop (nat p) data)), Some (p + int (length (take n (drop (nat p) data)))))"
  by (simp add: ksu_kernel_read_old_def assms del: length_take)

lemma old_reads_continue:
  assumes "\<And>p n. kr p n = (int (length (take n (drop (nat p) data))), take n (drop (nat p) data))" "0 \<le> p"
    and "ksu_kernel_read_old kr n (Some p) = ((r1, b1), pos)" "ksu_kernel_read_old kr m pos = ((r2, b2), pos')"
  shows "b1 @ b2 = take (n + m) (drop (nat p) data) \<and> r1 + r2 = int (length (b1 @ b2)) \<and> pos' = Some (p + r1 + r2)"
proof -
  define d where "d = drop (nat p) data"
  have b1: "b1 = take n d" "r1 = int (length b1)" "pos = Some (p + r1)"
    using old_read [OF assms(1)] assms(3) by (auto simp: d_def simp del: length_take)
  have "nat (p + r1) = nat p + length b1" using assms(2) b1(2) by simp
  then have "drop (nat (p + r1)) data = drop (length b1) d" by (simp add: d_def add.commute)
  then have b2: "b2 = take m (drop (length b1) d)" "r2 = int (length b2)" "pos' = Some (p + r1 + r2)"
    using old_read [OF assms(1)] assms(4) b1(3) by (auto simp del: length_take)
  have "take (n + m) d = take n d @ take m (drop (length (take n d)) d)"
    by (cases "n \<le> length d") (simp_all add: take_add)
  then show ?thesis using b1 b2 by (simp add: d_def [symmetric] del: length_take)
qed

text \<open>Only init's context passes, and only to the su domain's identifier.\<close>

lemma ksu_transition_from_init:
  assumes "is_ksu_transition se old_sid new_sid 0 = (True, sid)" "to_secid se ''u:r:su:s0'' = Inr su"
  shows "new_sid = su \<and> sid = su \<and> (\<exists>c n. to_secctx se old_sid = Inr (c, n) \<and> cstr c = ''u:r:init:s0'')"
  using assms by (auto simp: is_ksu_transition_def Let_def split: sum.splits)

end
