(* ===== verification/Spec2Isabelle.thy ===== *)
theory Spec2Isabelle
  imports Throne_Search Driver_Soft Lsm_Hooks Sepolicy_Later Sus_Su Old_Kernels
begin

text \<open>
  A verification development for the KernelSU driver and SUSFS, the C code under
  \<^verbatim>\<open>src/kernelsu\<close>: the driver in \<^verbatim>\<open>drivers/kernelsu\<close>, SUSFS in \<^verbatim>\<open>fs/susfs.c\<close> and
  \<^verbatim>\<open>include/linux/susfs.h\<close>. The rest of the repository is build scripts, patches to a kernel that is not
  part of it, and prebuilt tools. The build modelled is that of \<^verbatim>\<open>apply.sh\<close>: Linux 4.19 on arm64, LSM
  hooks and manual hooks, SUSFS with all its features but sus_su, not a module. Theories of their own hold
  the module and the kprobe build, related to it, and what other configurations and kernels add.

  \<^bold>\<open>The program.\<close> The driver lets a manager app decide which apps may become root.
  \<^verbatim>\<open>throne_tracker.c\<close> finds the manager: when packages.list is rewritten it lists the installed
  packages, walks /data/app for an APK whose signature (\<^verbatim>\<open>apk_sign.c\<close>) has the manager's certificate,
  crowns its uid and prunes the profiles of removed apps. The manager sets profiles through \<^verbatim>\<open>prctl\<close>
  (\<^verbatim>\<open>core_hook.c\<close>); \<^verbatim>\<open>allowlist.c\<close> keeps them in a list, with the granted uids in a bitmap and an
  array, and saves them to a file. An allowed app becomes root by executing su (\<^verbatim>\<open>sucompat.c\<close>): the
  file name is turned into ksud's and \<^verbatim>\<open>core_hook.c\<close> gives the task the credentials of the root profile.
  \<^verbatim>\<open>ksud.c\<close> follows the boot: the second stage of init loads the driver's SELinux rules
  (\<^verbatim>\<open>selinux/rules.c\<close> over \<^verbatim>\<open>selinux/sepolicy.c\<close>), the first app process loads the allowlist, init's
  read of atrace.rc is given the driver's script, three presses of volume-down are the safe mode. For
  apps without root, SUSFS hides paths, mounts and file attributes, and the setuid hook unmounts.

  \<^bold>\<open>The theories.\<close> A C function keeps its name; a struct is a \<open>record\<close> with the source's fields, static
  data a state record passed through, an error code or a NULL result a value of a sum or option type. A
  result \<open>None\<close> of an operation is an access the C code makes through NULL or out of bounds. Machine
  integers are words (\<open>u32\<close>, \<open>u64\<close>), character arrays lists with their NUL (\<open>cbuf\<close>, read by \<open>cstr\<close>). What
  the kernel, the user's memory and the file systems supply is a record of parameters (\<open>*_env\<close>).
    \<^item> \<open>Kprelude\<close>, \<open>Runs\<close>, \<open>Uid_Set\<close>, \<open>Path_Table\<close>, \<open>Kernel_Paths\<close>: C strings and buffers, list updates;
      sequences of fallible steps; the interfaces of uid sets and of SUSFS's hash tables; path lookup and
      mounts. The locales there are interpreted where the components are.
    \<^item> \<open>Ksu_Types\<close>, \<open>Profile_Bytes\<close>: the structs of \<^verbatim>\<open>ksu.h\<close> and their layout in memory, \<^verbatim>\<open>manager.h\<close>.
    \<^item> \<open>Allow_Tables\<close>, \<open>Allowlist\<close>, \<open>Allowlist_Lemmas\<close>, \<open>Allowlist_Props\<close>, \<open>Allowlist_Store\<close>: \<^verbatim>\<open>allowlist.c\<close>.
      Bitmap and array together are one \<open>uid_set\<close>; setting and pruning are updates of the map from uids
      to grants; reachable states; saving and loading round-trip.
    \<^item> \<open>Selinux\<close>, \<open>Core_Cred\<close>, \<open>Core_Hooks\<close>, \<open>Core_Prctl\<close>, \<open>Core_Props\<close>: \<^verbatim>\<open>selinux/selinux.c\<close> and
      \<^verbatim>\<open>core_hook.c\<close>: credentials, the setuid, rename and post-fs-data hooks, the \<open>prctl\<close> dispatcher
      with a definition per command, and frame lemmas that say what each command leaves alone.
    \<^item> \<open>Susfs_State\<close>, \<open>Susfs_Registry\<close>, \<open>Susfs_Registry_Props\<close>, \<open>Susfs_Lists\<close>, \<open>Susfs_Props\<close>: \<^verbatim>\<open>susfs.c\<close>: the
      hashed registries (paths, kstat, redirects) as \<open>path_table\<close>s, the lists of mounts, uname and
      command line.
    \<^item> \<open>Apk_Sign\<close>, \<open>Apk_Layout\<close>, \<open>Apk_Archive\<close>: the parser of \<^verbatim>\<open>apk_sign.c\<close> byte by byte, a printer for
      signing blocks and archives, and what the parser answers on what the printer made.
    \<^item> \<open>Throne\<close>, \<open>Throne_Props\<close>, \<open>Throne_Search\<close>: \<^verbatim>\<open>throne_tracker.c\<close>.
    \<^item> \<open>Compat\<close>, \<open>Sucompat\<close>: \<^verbatim>\<open>kernel_compat.c\<close> and \<^verbatim>\<open>sucompat.c\<close>.
    \<^item> \<open>Ksud\<close>, \<open>Ksud_Props\<close>, \<open>Ksud_Read\<close>: \<^verbatim>\<open>ksud.c\<close> and the execve entry of \<^verbatim>\<open>ksu.c\<close>; the boot phases are
      followed through any sequence of hook calls, the read proxies through any sequence of reads.
    \<^item> \<open>Policydb\<close>, \<open>Sepolicy\<close>, \<open>Sepolicy_Rules\<close>, \<open>Sepolicy_Props\<close>, \<open>Sepolicy_Types\<close>: the kernel's policy
      structures as far as \<^verbatim>\<open>sepolicy.c\<close> edits them, its edits, and the refinement of the access vector
      table to a map from keys to access vectors.
    \<^item> \<open>Rules\<close>, \<open>Rules_Grow\<close>, \<open>Rules_Props\<close>: \<^verbatim>\<open>rules.c\<close>: the driver's own rules, which only grow the policy
      and follow no NULL pointer, and the decoding of rule requests.
    \<^item> \<open>Driver\<close>, \<open>Driver_Props\<close>, \<open>Driver_Run\<close>: the state of all components, an operation per entry point, runs
      of calls by any tasks from \<open>ksu_kernelsu_init\<close>, and what holds of all of them. An exec, by either
      system call or by the kernel, goes through the hooks that \<^verbatim>\<open>patches/ksu_susfs_hooks.patch\<close> puts into
      \<^verbatim>\<open>fs/exec.c\<close>, in its order and under its conditions; the locale \<open>exec_relation\<close> carries what each hook
      keeps to all of exec. This theory adds properties that go from the manager's command to the app.
    \<^item> \<open>Lsm_Hooks\<close>: how \<^verbatim>\<open>core_hook.c\<close> registers its LSM hooks, built in and as a module; the module
      registers what the built-in driver does but for the hook of \<open>inode_permission\<close>.
    \<^item> \<open>Kprobes\<close>, \<open>Kprobe_Props\<close>: the hooks of \<^verbatim>\<open>ksud.c\<close> and \<^verbatim>\<open>sucompat.c\<close> in the build with
      \<^verbatim>\<open>CONFIG_KSU_KPROBES_HOOK\<close>, each a refinement of the hook function of the manual build.
    \<^item> \<open>Driver_Soft\<close>: the driver switched off at boot (\<^verbatim>\<open>CONFIG_E404_SIGNATURE\<close>, \<^verbatim>\<open>apply_e404.sh\<close>): nobody gets
      root, but the boot hooks go on.
    \<^item> \<open>Sepolicy_Later\<close>, \<open>Old_Kernels\<close>: the branches of \<^verbatim>\<open>sepolicy.c\<close> for named transitions from 5.7 and types
      from 5.1 on, which is proved equal to the one of 4.19 on consistent tables; those of \<^verbatim>\<open>kernel_compat.c\<close>,
      \<^verbatim>\<open>core_hook.c\<close> and \<^verbatim>\<open>ksud.c\<close> for kernels before 4.14.
    \<^item> \<open>Sus_Su\<close>: the character device of \<^verbatim>\<open>sus_su.c\<close> and the working modes that switch between kprobes and
      hooks compiled into the kernel (\<open>susfs_sus_su\<close> and its \<open>prctl\<close> commands).

  \<^bold>\<open>Bounds and termination.\<close> SUSFS's tables have 1024 buckets and the array of uids 1024 entries, as in the
  code. The loops of the APK parser are structural or decrease a measure: at most ten pairs of a signing
  block, at most 65536 candidates for the end record; the scan of local file headers is a
  \<open>partial_function\<close>, proved to return on files below two gigabytes. The walk over /data/app takes a round
  per depth, each ending by a multiset order on the queued depths. Counting arguments stops at 0x7FFFFFFF.
  Loading the allowlist is a \<open>partial_function\<close>, proved to return on saved files. No definition has fuel
  that could run out on an input of the C code.

  \<^bold>\<open>Hypotheses.\<close> Parameters are constrained only by named assumptions on documented behaviour: a user copy
  returns what \<open>strncpy_from_user\<close> documents, the bucket of a hash is in the table, a regular file reads
  what it holds, an allocation succeeds; of the kernel's path hash, that the finitely many files named
  base.apk below /data/app do not collide with the manager's. Where a failed allocation matters it is a property of its own.

  \<^bold>\<open>Not modelled.\<close> Log output, locks and other concurrency within a call; the debug switches; the branches
  for HISI kernels, and of later kernels those that only call the kernel's functions by other names or repeat
  a hook (\<open>susfs_ksu_handle_stat\<close>); in the kprobe build, the handlers that no probe uses and what happens
  between queueing an unregistration and its running. No configuration links \<^verbatim>\<open>CONFIG_KSU_SUSFS_SUS_SU\<close>: it
  needs the probe table of the kprobe build, where \<^verbatim>\<open>susfs.c\<close> and \<^verbatim>\<open>sucompat.c\<close> define the same variable, which
  \<open>Sus_Su\<close> has once, and \<^verbatim>\<open>sus_su.c\<close> includes a header that is not in the repository. Of
  \<^verbatim>\<open>patches\<close>, the call sites outside exec, whose surroundings are not in the repository; shell scripts and
  image tools.
\<close>

subsection \<open>Properties across components\<close>

text \<open>C18. Granting through the manager is what a later query sees: after the manager's
  \<open>CMD_SET_APP_PROFILE\<close> for a profile the allowlist accepts, its next \<open>CMD_UID_GRANTED_ROOT\<close>
  writes, for the profile's uid, exactly the profile's \<open>allow_su\<close>, and for any other app the same
  answer as before the change; both calls reply \<open>KERNEL_SU_OPTION\<close>.\<close>

theorem granted_query_after_set:
  assumes "allow_wf (ks_allow s)" and "current_uid s = ks_manager s"
    and "pe_app_profile_at pe a = Some p" and "tmp_ok (se_tmp_arr (pe_set pe))"
    and "fst (ksu_set_app_profile (pe_set pe) p True (ks_allow s))"
    and "ucast q = (u :: uid_t)" and "u \<noteq> 0" and "\<not> forbid_system_uid u" and "u \<noteq> ks_manager s"
    and "\<And>x. pe_writable pe x"
  shows "\<exists>s1 s2. ksu_handle_prctl pe KERNEL_SU_OPTION CMD_SET_APP_PROFILE a 0 r s = Some s1 \<and>
    ksu_handle_prctl pe KERNEL_SU_OPTION CMD_UID_GRANTED_ROOT q b r s1 = Some s2 \<and>
    ks_writes s2 = ks_writes s @ [(r, UWord KERNEL_SU_OPTION),
      (b, UBool (if u = ap_current_uid p then ap_allow_su p else granted (ks_allow s) u)),
      (r, UWord KERNEL_SU_OPTION)]"
proof -
  obtain al where k: "ksu_set_app_profile (pe_set pe) p True (ks_allow s) = (True, al)"
    using assms(5) by (metis prod.collapse)
  define s1 where "s1 = s\<lparr>ks_allow := al, ks_writes := ks_writes s @ [(r, UWord KERNEL_SU_OPTION)]\<rparr>"
  have s1: "ksu_handle_prctl pe KERNEL_SU_OPTION CMD_SET_APP_PROFILE a 0 r s = Some s1"
    using assms(3,10) k
    by (simp add: prctl_by_manager(1) [OF assms(2)] cmd_set_app_profile_def Let_def reply_def
        copy_to_user_def s1_def)
  have m: "current_uid s1 = ks_manager s1" using assms(2) by (simp add: s1_def current_uid_def)
  have g: "ksu_is_allow_uid d (ks_manager s1) (ks_allow s1) u =
      (if u = ap_current_uid p then ap_allow_su p else granted (ks_allow s) u)" for d
    using assms(7-9) set_app_profile_grants(1) [OF assms(1,4) k, of u]
    by (simp add: ksu_is_allow_uid_def s1_def kdefs)
  have "ksu_handle_prctl pe KERNEL_SU_OPTION CMD_UID_GRANTED_ROOT q b r s1 =
      Some (s1\<lparr>ks_writes := ks_writes s1 @ [(b, UBool (if u = ap_current_uid p then ap_allow_su p
        else granted (ks_allow s) u)), (r, UWord KERNEL_SU_OPTION)]\<rparr>)"
    unfolding prctl_by_manager(2) [OF m]
    using assms(10) by (simp add: cmd_uid_query_def assms(6) g Let_def reply_def copy_to_user_def)
  then show ?thesis using s1 by (simp add: s1_def)
qed

theorem granted_query_after_set_witness:
  "\<exists>s1 s2. ksu_handle_prctl (ex_prctl (Some (ex_profile 10123 True))) KERNEL_SU_OPTION
      CMD_SET_APP_PROFILE 8 0 16 (ex_ksu 10050 10050 ex_init) = Some s1 \<and>
    ksu_handle_prctl (ex_prctl (Some (ex_profile 10123 True))) KERNEL_SU_OPTION
      CMD_UID_GRANTED_ROOT 10123 24 16 s1 = Some s2 \<and>
    ks_writes s2 = [(16, UWord KERNEL_SU_OPTION), (24, UBool True), (16, UWord KERNEL_SU_OPTION)]"
proof -
  let ?pe = "ex_prctl (Some (ex_profile 10123 True))" and ?s = "ex_ksu 10050 10050 ex_init"
  have a: "pe_app_profile_at ?pe 8 = Some (ex_profile 10123 True)" "pe_set ?pe = ex_env"
    "pe_writable ?pe x" for x
    by (simp_all add: ex_prctl_def)
  have k: "fst (ksu_set_app_profile (pe_set ?pe) (ex_profile 10123 True) True (ks_allow ?s))"
    using ex_set_True [of 10123 True True] by (simp add: a)
  have wf: "allow_wf (ks_allow ?s)" "current_uid ?s = ks_manager ?s" "tmp_ok (se_tmp_arr (pe_set ?pe))"
    by (simp_all add: a)
  have u: "ucast (10123 :: u64) = (10123 :: uid_t)" "(10123 :: uid_t) \<noteq> 0" "\<not> forbid_system_uid 10123"
    "10123 \<noteq> ks_manager ?s"
    by (simp_all add: forbid_system_uid_def)
  show ?thesis
    using granted_query_after_set [OF wf(1,2) a(1) wf(3) k u a(3), of 16 24] by simp
qed

text \<open>C3. A grant reaches the app that runs \<^verbatim>\<open>su\<close>: after the manager's \<open>CMD_SET_APP_PROFILE\<close> for a
  profile the allowlist accepts, a task with the profile's uid that executes a path ending in \<^verbatim>\<open>/su\<close>
  is turned into ksud with the credentials of \<open>ksu_escape_to_root\<close> exactly when the profile allows
  root, and the root profile used there is the one set by the manager unless it asks for the default;
  a task denied root goes on with its own name and credentials.\<close>

theorem granted_app_runs_ksud:
  assumes "allow_inv (ks_allow s)" and "current_uid s = ks_manager s"
    and "pe_app_profile_at pe a = Some p" and "tmp_ok (se_tmp_arr (pe_set pe))"
    and "fst (ksu_set_app_profile (pe_set pe) p True (ks_allow s))" and "\<And>x. pe_writable pe x"
    and "\<forall>q \<in> set (al_list (ks_allow s)). ap_current_uid q = ap_current_uid p \<longrightarrow> strcmp_eq (ap_key q) (ap_key p)"
    and "su_uid st = ap_current_uid p" "su_uid st \<noteq> 0" "\<not> forbid_system_uid (su_uid st)" "su_uid st \<noteq> ks_manager s"
    and "ksu_sucompat_non_kp st" "NUL \<in> set name" "suffix ''/su'' (cstr name)"
  shows "\<exists>s1. ksu_handle_prctl pe KERNEL_SU_OPTION CMD_SET_APP_PROFILE a 0 r s = Some s1 \<and>
    ksu_get_root_profile (ks_allow s1) (su_uid st) =
      (if ap_allow_su p \<and> \<not> rp_use_default (ap_config p) then rp_profile (ap_config p)
       else al_default_root (ks_allow s1)) \<and>
    ksu_handle_execveat_sucompat (e\<lparr>su_allow := ks_allow s1, su_manager := ks_manager s1\<rparr>) (FName name) st =
      (if ap_allow_su p
       then map_option (\<lambda>t. (FName (KSUD_PATH @ [NUL] @ drop 15 name), st\<lparr>su_task := t\<rparr>))
         (ksu_escape_to_root (su_cred e) (su_selinux e) (ks_allow s1) (su_task st))
       else Some (FName name, st))"
proof -
  obtain al where k: "ksu_set_app_profile (pe_set pe) p True (ks_allow s) = (True, al)"
    using assms(5) by (metis prod.collapse)
  have wf: "allow_wf (ks_allow s)" using assms(1) by (simp add: allow_inv_def)
  define s1 where "s1 = s\<lparr>ks_allow := al, ks_writes := ks_writes s @ [(r, UWord KERNEL_SU_OPTION)]\<rparr>"
  have s1: "ksu_handle_prctl pe KERNEL_SU_OPTION CMD_SET_APP_PROFILE a 0 r s = Some s1"
    using assms(3,6) k
    by (simp add: prctl_by_manager(1) [OF assms(2)] cmd_set_app_profile_def Let_def reply_def
        copy_to_user_def s1_def)
  have g: "su_allowed (e\<lparr>su_allow := ks_allow s1, su_manager := ks_manager s1\<rparr>) st = ap_allow_su p"
    using assms(8-11) set_app_profile_grants(1) [OF wf assms(4) k, of "su_uid st"]
    by (simp add: su_allowed_def ksu_is_allow_uid_def s1_def kdefs)
  have "ksu_get_root_profile (ks_allow s1) (su_uid st) =
      (if ap_allow_su p \<and> \<not> rp_use_default (ap_config p) then rp_profile (ap_config p)
       else al_default_root (ks_allow s1))"
    using set_then_lookup [OF assms(1,4,7) k refl, of "ks_manager s"] by (simp add: assms(8) s1_def)
  moreover have "ksu_handle_execveat_sucompat (e\<lparr>su_allow := ks_allow s1, su_manager := ks_manager s1\<rparr>) (FName name) st =
      (if ap_allow_su p
       then map_option (\<lambda>t. (FName (KSUD_PATH @ [NUL] @ drop 15 name), st\<lparr>su_task := t\<rparr>))
         (ksu_escape_to_root (su_cred e) (su_selinux e) (ks_allow s1) (su_task st))
       else Some (FName name, st))"
    using assms(12,14) by (simp add: execve_by_name [OF assms(13)] g escape_def option.map_comp comp_def)
  ultimately show ?thesis using s1 by blast
qed

theorem granted_app_runs_ksud_witness:
  "\<exists>s1. ksu_handle_prctl (ex_prctl (Some (ex_profile 10123 True))) KERNEL_SU_OPTION
      CMD_SET_APP_PROFILE 8 0 16 (ex_ksu 10050 10050 ex_init) = Some s1 \<and>
    rp_selinux_domain (ksu_get_root_profile (ks_allow s1) 10123) = ''u:r:su:s0'' \<and>
    ksu_handle_execveat_sucompat (ex_su_env\<lparr>su_allow := ks_allow s1, su_manager := ks_manager s1\<rparr>)
      (FName (''/sbin/su'' @ [NUL])) ex_su =
      map_option (\<lambda>t. (FName (KSUD_PATH @ [NUL]), ex_su\<lparr>su_task := t\<rparr>))
        (ksu_escape_to_root (su_cred ex_su_env) (su_selinux ex_su_env) (ks_allow s1) (su_task ex_su))"
proof -
  let ?p = "ex_profile 10123 True" and ?s = "ex_ksu 10050 10050 ex_init"
  let ?pe = "ex_prctl (Some ?p)"
  have a: "pe_app_profile_at ?pe 8 = Some ?p" "pe_set ?pe = ex_env" "pe_writable ?pe x" for x
    by (simp_all add: ex_prctl_def)
  have k: "fst (ksu_set_app_profile (pe_set ?pe) ?p True (ks_allow ?s))"
    using ex_set_True [of 10123 True True] by (simp add: a)
  have wf: "allow_inv (ks_allow ?s)" "current_uid ?s = ks_manager ?s" "tmp_ok (se_tmp_arr (pe_set ?pe))"
    using ex_init_inv(1) by (simp_all add: a)
  have sh: "\<forall>q \<in> set (al_list (ks_allow ?s)). ap_current_uid q = ap_current_uid ?p \<longrightarrow> strcmp_eq (ap_key q) (ap_key ?p)"
    by simp
  have u: "su_uid ex_su = ap_current_uid ?p" "su_uid ex_su \<noteq> 0" "\<not> forbid_system_uid (su_uid ex_su)"
    "su_uid ex_su \<noteq> ks_manager ?s"
    by (simp_all add: su_uid_def ex_su_def ex_task_def forbid_system_uid_def)
  have n: "NUL \<in> set (''/sbin/su'' @ [NUL])" "suffix ''/su'' (cstr (''/sbin/su'' @ [NUL]))"
    by (simp_all add: cstr_append_NUL suffix_def)
  have d: "drop 15 (''/sbin/su'' @ [NUL]) = []" by simp
  have v: "su_uid ex_su = 10123" using u(1) by simp
  have dom: "rp_selinux_domain (rp_profile (ap_config ?p)) = ''u:r:su:s0''" "ap_allow_su ?p" "\<not> rp_use_default (ap_config ?p)"
    by (simp_all add: ex_config_def)
  show ?thesis
    using granted_app_runs_ksud [OF wf(1,2) a(1) wf(3) k a(3) sh u ex_su_allowed(2) n, of 16 ex_su_env]
    unfolding v d using dom by auto
qed

end
